(* ===== verification/Runtime_Prelude.thy ===== *)
theory Runtime_Prelude
  imports Main "HOL-Library.Word" "HOL-Library.AList" "HOL-Library.Monad_Syntax"
begin

text \<open>
  Shared vocabulary of the development: machine integers, the ROS 2 messages every
  component exchanges (durations, action results, diagnostic statuses), the decimal
  rendering \<open>std::to_string\<close>, and generic lemmas on words, lists and association
  lists that the component theories use through the collections declared here.
\<close>

unbundle bit_operations_syntax

named_theorems ops "equations of the small record-updating operations"
named_theorems laws "preservation and frame lemmas of the operations"

section \<open>Machine integers\<close>

type_synonym u8 = "8 word"
type_synonym u16 = "16 word"
type_synonym u32 = "32 word"
type_synonym u64 = "64 word"

text \<open>A signed 32-bit integer is the word with its bits; \<open>sint\<close> reads its value.\<close>

type_synonym i32 = "32 word"

abbreviation INT32_MAX :: int where "INT32_MAX \<equiv> 2147483647"
abbreviation INT64_MAX :: int where "INT64_MAX \<equiv> 9223372036854775807"

lemma sint_i32_of_int [simp]:
  "- 2147483648 \<le> x \<Longrightarrow> x \<le> INT32_MAX \<Longrightarrow> sint (word_of_int x :: i32) = x"
  by (simp add: sint_sbintrunc' signed_take_bit_int_eq_self)

lemma uint_u32_of_int [simp]:
  "0 \<le> x \<Longrightarrow> x < 4294967296 \<Longrightarrow> uint (word_of_int x :: u32) = x"
  by (simp add: uint_word_of_int)

lemma uint_u16_of_int [simp]:
  "0 \<le> x \<Longrightarrow> x < 65536 \<Longrightarrow> uint (word_of_int x :: u16) = x"
  by (simp add: uint_word_of_int)

lemma sint_i32_bounds: "- 2147483648 \<le> sint (w :: i32)" "sint (w :: i32) \<le> INT32_MAX"
proof -
  show "- 2147483648 \<le> sint w" using sint_ge [of w] by simp
  show "sint w \<le> INT32_MAX" using sint_lt [of w] by simp
qed

section \<open>ROS 2 messages\<close>

text \<open>\<open>builtin_interfaces/Duration\<close>: a signed 32-bit second count and nanoseconds.\<close>

record duration =
  dur_sec :: i32
  dur_nanosec :: u32

text \<open>\<open>rclcpp_action::ResultCode\<close>.\<close>

datatype result_code = RC_UNKNOWN | RC_SUCCEEDED | RC_CANCELED | RC_ABORTED

text \<open>
  The three actions (\<open>ExecuteDeviceCommand\<close>, \<open>ExecuteTask\<close>, \<open>ExecuteWorkflow\<close>)
  have the same result message and the same outcome constants.
\<close>

abbreviation COMPLETED :: u8 where "COMPLETED \<equiv> 0"
abbreviation CANCELED :: u8 where "CANCELED \<equiv> 1"
abbreviation SAFE_STOP :: u8 where "SAFE_STOP \<equiv> 2"
abbreviation DEVICE_FAULT :: u8 where "DEVICE_FAULT \<equiv> 3"

record action_result =
  res_outcome :: u8
  res_error_code :: u16
  res_message :: string

record wrapped_result =
  wr_code :: result_code
  wr_result :: "action_result option"

text \<open>The terminal transition a server goal handle can take.\<close>

datatype goal_terminal =
    GSucceeded action_result
  | GAborted action_result
  | GCanceled action_result

fun terminal_result :: "goal_terminal \<Rightarrow> action_result" where
  "terminal_result (GSucceeded r) = r"
| "terminal_result (GAborted r) = r"
| "terminal_result (GCanceled r) = r"

text \<open>The verdict of a \<open>handle_goal\<close> callback, with the reason the code logs.\<close>

datatype goal_response = REJECT string | ACCEPT_AND_EXECUTE

text \<open>
  \<open>diagnostic_msgs/DiagnosticStatus\<close>: the level is a byte (0 to 3 in the message's
  constants), the values are key/value string pairs in publication order.
\<close>

abbreviation DIAG_OK :: u8 where "DIAG_OK \<equiv> 0"
abbreviation DIAG_WARN :: u8 where "DIAG_WARN \<equiv> 1"
abbreviation DIAG_ERROR :: u8 where "DIAG_ERROR \<equiv> 2"
abbreviation DIAG_STALE :: u8 where "DIAG_STALE \<equiv> 3"

record diag_status =
  ds_level :: u8
  ds_name :: string
  ds_message :: string
  ds_hardware_id :: string
  ds_values :: "(string \<times> string) list"

section \<open>Clock arithmetic\<close>

text \<open>
  Steady-clock points and differences are integers in nanoseconds;
  \<open>duration_cast<milliseconds>\<close> truncates towards zero.
\<close>

definition ns_to_ms :: "int \<Rightarrow> int" where
  "ns_to_ms t = (if t < 0 then - ((- t) div 1000000) else t div 1000000)"

lemma ns_to_ms_nonneg [simp]: "0 \<le> t \<Longrightarrow> 0 \<le> ns_to_ms t"
  by (simp add: ns_to_ms_def)

lemma ns_to_ms_mono: "s \<le> t \<Longrightarrow> ns_to_ms s \<le> ns_to_ms t"
  by (auto simp: ns_to_ms_def zdiv_mono1 pos_imp_zdiv_nonneg_iff
      intro: order_trans [of _ 0])

section \<open>Decimal rendering\<close>

text \<open>\<open>std::to_string\<close> on an unsigned value.\<close>

definition digit_char :: "nat \<Rightarrow> char" where
  "digit_char d = char_of (48 + d)"

fun nat_to_string :: "nat \<Rightarrow> string" where
  "nat_to_string n =
     (if n < 10 then [digit_char n] else nat_to_string (n div 10) @ [digit_char (n mod 10)])"

declare nat_to_string.simps [simp del]

definition int_to_string :: "int \<Rightarrow> string" where
  "int_to_string i = (if i < 0 then ''-'' @ nat_to_string (nat (- i)) else nat_to_string (nat i))"

definition bool_to_string :: "bool \<Rightarrow> string" where
  "bool_to_string b = (if b then ''true'' else ''false'')"

definition is_digit :: "char \<Rightarrow> bool" where
  "is_digit c \<longleftrightarrow> 48 \<le> (of_char c :: nat) \<and> (of_char c :: nat) \<le> 57"

lemma of_char_digit [simp]: "d < 10 \<Longrightarrow> (of_char (digit_char d) :: nat) = 48 + d"
  by (simp add: digit_char_def)

lemma is_digit_digit_char [simp]: "d < 10 \<Longrightarrow> is_digit (digit_char d)"
  by (simp add: is_digit_def)

lemma nat_to_string_digits: "\<forall>c \<in> set (nat_to_string n). is_digit c"
proof (induction n rule: nat_to_string.induct)
  case (1 n)
  then show ?case by (cases "n < 10") (simp_all add: nat_to_string.simps [of n])
qed

lemma nat_to_string_nonempty [simp]: "nat_to_string n \<noteq> []"
  by (subst nat_to_string.simps) simp

text \<open>Reading a decimal back: the inverse that makes the rendering injective.\<close>

definition decimal_value :: "string \<Rightarrow> nat" where
  "decimal_value s = foldl (\<lambda>v c. 10 * v + ((of_char c :: nat) - 48)) 0 s"

lemma decimal_value_snoc [simp]:
  "decimal_value (s @ [c]) = 10 * decimal_value s + ((of_char c :: nat) - 48)"
  by (simp add: decimal_value_def)

lemma decimal_value_to_string [simp]: "decimal_value (nat_to_string n) = n"
proof (induction n rule: nat_to_string.induct)
  case (1 n)
  show ?case
  proof (cases "n < 10")
    case True
    then show ?thesis by (simp add: nat_to_string.simps [of n] decimal_value_def)
  next
    case False
    with "1.IH" show ?thesis by (simp add: nat_to_string.simps [of n])
  qed
qed

lemma nat_to_string_inject [simp]: "nat_to_string m = nat_to_string n \<longleftrightarrow> m = n"
  by (metis decimal_value_to_string)

section \<open>Lists and association lists\<close>

lemma find_Some_split:
  "List.find P xs = Some x \<Longrightarrow> x \<in> set xs \<and> P x"
  by (auto simp: find_Some_iff)

lemma find_snoc:
  "List.find P (xs @ [x]) =
     (case List.find P xs of Some y \<Rightarrow> Some y | None \<Rightarrow> if P x then Some x else None)"
  by (induction xs) auto

lemma map_of_fst_mem: "map_of al k = Some v \<Longrightarrow> k \<in> fst ` set al"
  by (force dest: map_of_SomeD)

lemma map_of_None_fst: "map_of al k = None \<longleftrightarrow> k \<notin> fst ` set al"
  by (simp add: map_of_eq_None_iff)

lemma alist_delete_absent: "k \<notin> fst ` set al \<Longrightarrow> AList.delete k al = al"
  by (induction al) auto

lemma alist_delete_hd:
  "distinct (map fst al) \<Longrightarrow> al \<noteq> [] \<Longrightarrow> AList.delete (hd (map fst al)) al = tl al"
  by (cases al) (auto simp: alist_delete_absent)

lemma map_of_snoc:
  "map_of (al @ [(k, v)]) k' =
     (case map_of al k' of Some w \<Rightarrow> Some w | None \<Rightarrow> if k = k' then Some v else None)"
  by (auto simp: map_add_def split: option.split)

lemma map_of_tl_distinct:
  "distinct (map fst al) \<Longrightarrow>
     map_of (tl al) k = (if al \<noteq> [] \<and> k = fst (hd al) then None else map_of al k)"
  by (cases al) (auto simp: map_of_None_fst)

lemma distinct_remove1_set:
  "distinct xs \<Longrightarrow> set (remove1 x xs) = set xs - {x}"
  by (simp add: set_remove1_eq)

section \<open>Runs of a step relation\<close>

text \<open>A list of states each of which is a step from the one before.\<close>

fun is_run :: "('s \<Rightarrow> 's \<Rightarrow> bool) \<Rightarrow> 's list \<Rightarrow> bool" where
  "is_run step (s # s' # ss) \<longleftrightarrow> step s s' \<and> is_run step (s' # ss)"
| "is_run step ss \<longleftrightarrow> True"

lemma is_run_rtranclp: "is_run step (s # ss) \<Longrightarrow> step\<^sup>*\<^sup>* s (last (s # ss))"
  by (induction ss arbitrary: s) (auto intro: converse_rtranclp_into_rtranclp)

end
