(* ===== verification/Can_Protocol.thy ===== *)
theory Can_Protocol
  imports Runtime_Prelude
begin

text \<open>
  \<open>runtime_can/protocol.hpp\<close> and \<open>protocol.cpp\<close>: the fixed 8-byte classic-CAN command and
  response layout, its encoders and its validating decoders. Bytes are 8-bit words; the
  payload array of eight bytes is a list, and \<open>frame_wf\<close> says it has eight elements.
\<close>

section \<open>Constants and data\<close>

definition kCommandFrameId :: u32 where "kCommandFrameId = 0x100"
definition kResponseFrameId :: u32 where "kResponseFrameId = 0x101"
definition kProtocolVersion :: u8 where "kProtocolVersion = 1"
definition kPayloadSize :: u8 where "kPayloadSize = 8"
definition kStopOpcode :: u8 where "kStopOpcode = 0xFF"
definition kApplicationCommandIdMax :: u16 where "kApplicationCommandIdMax = 0x7FFF"
definition kStopCommandIdMin :: u16 where "kStopCommandIdMin = 0x8000"

lemmas protocol_consts =
  kCommandFrameId_def kResponseFrameId_def kProtocolVersion_def kPayloadSize_def
  kStopOpcode_def kApplicationCommandIdMax_def kStopCommandIdMin_def

record raw_frame =
  rf_id :: u32
  rf_size :: u8
  rf_data :: "u8 list"

definition frame_wf :: "raw_frame \<Rightarrow> bool" where
  "frame_wf f \<longleftrightarrow> length (rf_data f) = 8"

record command =
  cmd_id :: u16
  cmd_opcode :: u8
  cmd_argument :: i32

record response =
  rsp_id :: u16
  rsp_result :: u8
  rsp_mode :: u8
  rsp_detail :: "u8 list"

definition response_wf :: "response \<Rightarrow> bool" where
  "response_wf r \<longleftrightarrow> length (rsp_detail r) = 3"

datatype decode_error = DecodeNone | WrongFrameId | WrongPayloadSize | UnsupportedVersion

section \<open>Operations\<close>

definition decode_u16 :: "u8 list \<Rightarrow> u16" where
  "decode_u16 d = (push_bit 8 (ucast (d ! 1)) OR ucast (d ! 2))"

definition command_eq :: "command \<Rightarrow> command \<Rightarrow> bool" where
  "command_eq a b \<longleftrightarrow>
     cmd_id a = cmd_id b \<and> cmd_opcode a = cmd_opcode b \<and> cmd_argument a = cmd_argument b"

definition encode_command :: "command \<Rightarrow> raw_frame" where
  "encode_command c =
     (let bits = cmd_argument c in
      \<lparr>rf_id = kCommandFrameId, rf_size = kPayloadSize,
       rf_data = [kProtocolVersion,
                  ucast (drop_bit 8 (cmd_id c)), ucast (cmd_id c), cmd_opcode c,
                  ucast (drop_bit 24 bits), ucast (drop_bit 16 bits),
                  ucast (drop_bit 8 bits), ucast bits]\<rparr>)"

definition encode_response :: "response \<Rightarrow> raw_frame" where
  "encode_response r =
     \<lparr>rf_id = kResponseFrameId, rf_size = kPayloadSize,
      rf_data = [kProtocolVersion,
                 ucast (drop_bit 8 (rsp_id r)), ucast (rsp_id r), rsp_result r, rsp_mode r,
                 rsp_detail r ! 0, rsp_detail r ! 1, rsp_detail r ! 2]\<rparr>"

text \<open>The argument bytes 4 to 7, most significant first.\<close>

definition decode_argument :: "u8 list \<Rightarrow> i32" where
  "decode_argument d =
     (push_bit 24 (ucast (d ! 4)) OR push_bit 16 (ucast (d ! 5)) OR
      push_bit 8 (ucast (d ! 6)) OR ucast (d ! 7))"

text \<open>
  The decoders return an optional value and set an error out-parameter: \<open>Inr\<close> is the value
  with the error set to \<open>DecodeNone\<close>, \<open>Inl\<close> the empty optional with that error.
\<close>

definition decode_command :: "raw_frame \<Rightarrow> decode_error + command" where
  "decode_command f =
     (if rf_id f \<noteq> kCommandFrameId then Inl WrongFrameId
      else if rf_size f \<noteq> kPayloadSize then Inl WrongPayloadSize
      else if rf_data f ! 0 \<noteq> kProtocolVersion then Inl UnsupportedVersion
      else Inr \<lparr>cmd_id = decode_u16 (rf_data f), cmd_opcode = rf_data f ! 3,
                cmd_argument = decode_argument (rf_data f)\<rparr>)"

definition decode_response :: "raw_frame \<Rightarrow> decode_error + response" where
  "decode_response f =
     (if rf_id f \<noteq> kResponseFrameId then Inl WrongFrameId
      else if rf_size f \<noteq> kPayloadSize then Inl WrongPayloadSize
      else if rf_data f ! 0 \<noteq> kProtocolVersion then Inl UnsupportedVersion
      else Inr \<lparr>rsp_id = decode_u16 (rf_data f), rsp_result = rf_data f ! 3,
                rsp_mode = rf_data f ! 4,
                rsp_detail = [rf_data f ! 5, rf_data f ! 6, rf_data f ! 7]\<rparr>)"

fun decode_error_to_string :: "decode_error \<Rightarrow> string" where
  "decode_error_to_string DecodeNone = ''none''"
| "decode_error_to_string WrongFrameId = ''wrong_frame_id''"
| "decode_error_to_string WrongPayloadSize = ''wrong_payload_size''"
| "decode_error_to_string UnsupportedVersion = ''unsupported_version''"

section \<open>Byte-level lemmas\<close>

lemma join_u16: "(push_bit 8 (ucast (ucast (drop_bit 8 w) :: u8)) OR ucast (ucast w :: u8)) = (w :: u16)"
  by (rule bit_eqI) (auto simp: bit_simps)

lemma join_u32:
  "(push_bit 24 (ucast (ucast (drop_bit 24 w) :: u8)) OR
    push_bit 16 (ucast (ucast (drop_bit 16 w) :: u8)) OR
    push_bit 8 (ucast (ucast (drop_bit 8 w) :: u8)) OR ucast (ucast w :: u8)) = (w :: u32)"
proof (rule bit_eqI)
  fix n
  assume "possible_bit TYPE(u32) n"
  then have n: "n < 32" by simp
  consider "n < 8" | "8 \<le> n" "n < 16" | "16 \<le> n" "n < 24" | "24 \<le> n" by linarith
  then show "bit (push_bit 24 (ucast (ucast (drop_bit 24 w) :: u8)) OR
    push_bit 16 (ucast (ucast (drop_bit 16 w) :: u8)) OR
    push_bit 8 (ucast (ucast (drop_bit 8 w) :: u8)) OR ucast (ucast w :: u8) :: u32) n = bit w n"
    by cases (use n in \<open>auto simp: bit_simps\<close>)
qed

text \<open>Each byte of a decoded field is the byte of the payload it came from.\<close>

lemma decode_u16_bytes [simp]:
  "ucast (drop_bit 8 (decode_u16 d)) = (d ! 1 :: u8)" "ucast (decode_u16 d) = (d ! 2 :: u8)"
  unfolding decode_u16_def
  by (rule bit_eqI; auto simp: bit_simps dest: bit_imp_le_length)+

lemma decode_argument_bytes [simp]:
  "ucast (drop_bit 24 (decode_argument d)) = (d ! 4 :: u8)"
  "ucast (drop_bit 16 (decode_argument d)) = (d ! 5 :: u8)"
  "ucast (drop_bit 8 (decode_argument d)) = (d ! 6 :: u8)"
  "ucast (decode_argument d) = (d ! 7 :: u8)"
  unfolding decode_argument_def
  by (rule bit_eqI; auto simp: bit_simps dest: bit_imp_le_length)+

lemmas byte_laws = join_u16 join_u32

lemma length_8_conv:
  "length (xs :: 'a list) = 8 \<Longrightarrow>
     xs = [xs ! 0, xs ! 1, xs ! 2, xs ! 3, xs ! 4, xs ! 5, xs ! 6, xs ! 7]"
  by (rule nth_equalityI) (auto simp: less_Suc_eq numeral_eq_Suc)

lemma length_3_conv: "length (xs :: 'a list) = 3 \<Longrightarrow> xs = [xs ! 0, xs ! 1, xs ! 2]"
  by (rule nth_equalityI) (auto simp: less_Suc_eq numeral_eq_Suc)

section \<open>Properties\<close>

lemma encode_command_wf [simp]: "frame_wf (encode_command c)"
  by (simp add: encode_command_def frame_wf_def Let_def)

lemma encode_response_wf [simp]: "frame_wf (encode_response r)"
  by (simp add: encode_response_def frame_wf_def)

lemma command_eq_iff [simp]: "command_eq a b \<longleftrightarrow> a = b"
  by (cases a; cases b) (simp add: command_eq_def)

lemma decode_encode_command [simp]: "decode_command (encode_command c) = Inr c"
  by (cases c)
    (simp add: decode_command_def encode_command_def Let_def decode_u16_def decode_argument_def
      byte_laws protocol_consts)

lemma decode_encode_response:
  "response_wf r \<Longrightarrow> decode_response (encode_response r) = Inr r"
  using length_3_conv [of "rsp_detail r"]
  by (cases r)
    (simp add: decode_response_def encode_response_def decode_u16_def response_wf_def
      byte_laws protocol_consts)

lemma decode_command_Inr:
  assumes "decode_command f = Inr c" and "frame_wf f"
  shows "f = encode_command c"
proof -
  from assms(1) have f: "rf_id f = kCommandFrameId" "rf_size f = kPayloadSize"
    "rf_data f ! 0 = kProtocolVersion"
    and c: "c = \<lparr>cmd_id = decode_u16 (rf_data f), cmd_opcode = rf_data f ! 3,
                cmd_argument = decode_argument (rf_data f)\<rparr>"
    by (auto simp: decode_command_def split: if_splits)
  have "rf_data f = rf_data (encode_command c)"
    using length_8_conv [of "rf_data f"] assms(2) f
    by (simp add: c encode_command_def Let_def frame_wf_def)
  with f show ?thesis by (cases f) (simp add: encode_command_def Let_def)
qed

lemma decode_response_Inr:
  assumes "decode_response f = Inr r" and "frame_wf f"
  shows "f = encode_response r \<and> response_wf r"
proof -
  from assms(1) have f: "rf_id f = kResponseFrameId" "rf_size f = kPayloadSize"
    "rf_data f ! 0 = kProtocolVersion"
    and r: "r = \<lparr>rsp_id = decode_u16 (rf_data f), rsp_result = rf_data f ! 3,
                rsp_mode = rf_data f ! 4,
                rsp_detail = [rf_data f ! 5, rf_data f ! 6, rf_data f ! 7]\<rparr>"
    by (auto simp: decode_response_def split: if_splits)
  have "rf_data f = rf_data (encode_response r)"
    using length_8_conv [of "rf_data f"] assms(2) f
    by (simp add: r encode_response_def frame_wf_def)
  with f show ?thesis by (cases f) (simp add: encode_response_def r response_wf_def)
qed

lemma encode_command_inject: "encode_command a = encode_command b \<longleftrightarrow> a = b"
  by (metis decode_encode_command sum.inject(2))

lemma decode_cross [simp]:
  "decode_response (encode_command c) = Inl WrongFrameId"
  "decode_command (encode_response r) = Inl WrongFrameId"
  by (simp_all add: decode_response_def decode_command_def encode_command_def encode_response_def
      Let_def protocol_consts)

end
