(* ===== verification/Socket_Can.thy ===== *)
theory Socket_Can
  imports Can_Protocol
begin

text \<open>
  \<open>runtime_can/socket_can.hpp\<close> and \<open>socket_can.cpp\<close>: the raw CAN socket wrapper. The
  operating system's answers (descriptor numbers, \<open>ioctl\<close>, \<open>bind\<close>, \<open>write\<close>, \<open>poll\<close>
  and \<open>read\<close> results) are arguments of the operations, so every theorem holds for all of
  them. The trace of \<open>socket\<close> and \<open>close\<close> calls is kept to state that no descriptor leaks.
\<close>

section \<open>State and the system's answers\<close>

definition IFNAMSIZ :: nat where "IFNAMSIZ = 16"
definition CAN_SFF_MASK :: u32 where "CAN_SFF_MASK = 0x7FF"
definition CAN_EFF_FLAG :: u32 where "CAN_EFF_FLAG = 0x80000000"
definition CAN_RTR_FLAG :: u32 where "CAN_RTR_FLAG = 0x40000000"
definition CAN_ERR_FLAG :: u32 where "CAN_ERR_FLAG = 0x20000000"
definition SIZEOF_CAN_FRAME :: int where "SIZEOF_CAN_FRAME = 16"

lemmas can_consts =
  IFNAMSIZ_def CAN_SFF_MASK_def CAN_EFF_FLAG_def CAN_RTR_FLAG_def CAN_ERR_FLAG_def
  SIZEOF_CAN_FRAME_def

datatype fd_event = FdOpened int | FdClosed int

record socket_can =
  socket_fd :: int
  fd_trace :: "fd_event list"

definition socket_init :: socket_can where
  "socket_init = \<lparr>socket_fd = -1, fd_trace = []\<rparr>"

text \<open>Linux \<open>struct can_frame\<close>.\<close>

record native_frame =
  can_id :: u32
  can_dlc :: u8
  can_data :: "u8 list"

record os_open =
  os_socket :: int
  os_ifindex :: "string \<Rightarrow> int option"
  os_bind :: "int \<Rightarrow> bool"
  os_strerror :: string

datatype poll_outcome = PollReady | PollTimeout | PollEintr | PollFailed string

datatype receive_status = RxFrame raw_frame | RxTimeout | RxError string

section \<open>Operations\<close>

definition is_open :: "socket_can \<Rightarrow> bool" where
  "is_open s \<longleftrightarrow> 0 \<le> socket_fd s"

definition sock_close :: "socket_can \<Rightarrow> socket_can" where
  "sock_close s =
     (if 0 \<le> socket_fd s
      then s\<lparr>socket_fd := -1, fd_trace := fd_trace s @ [FdClosed (socket_fd s)]\<rparr>
      else s)"

definition sock_open :: "os_open \<Rightarrow> string \<Rightarrow> socket_can \<Rightarrow> (string + unit) \<times> socket_can" where
  "sock_open os name s0 =
     (let s = sock_close s0 in
      if name = [] \<or> IFNAMSIZ \<le> length name
      then (Inl ''invalid CAN interface name'', s)
      else
        let s1 = (if os_socket os < 0 then s\<lparr>socket_fd := os_socket os\<rparr>
                  else s\<lparr>socket_fd := os_socket os,
                         fd_trace := fd_trace s @ [FdOpened (os_socket os)]\<rparr>) in
        if os_socket os < 0 then (Inl (os_strerror os), s1)
        else (case os_ifindex os name of
            None \<Rightarrow> (Inl (os_strerror os), sock_close s1)
          | Some index \<Rightarrow>
              if \<not> os_bind os index then (Inl (os_strerror os), sock_close s1)
              else (Inr (), s1)))"

definition set_filter :: "(u32 \<Rightarrow> u32 \<Rightarrow> string + unit) \<Rightarrow> u32 \<Rightarrow> string + unit" where
  "set_filter setsockopt frame_id = setsockopt frame_id CAN_SFF_MASK"

text \<open>\<open>std::copy_n\<close> into a zero-initialised array of eight bytes.\<close>

definition copy_padded :: "nat \<Rightarrow> u8 list \<Rightarrow> u8 list" where
  "copy_padded n d = take n d @ replicate (8 - n) 0"

definition to_native :: "raw_frame \<Rightarrow> native_frame" where
  "to_native f =
     \<lparr>can_id = rf_id f AND CAN_SFF_MASK, can_dlc = rf_size f,
      can_data = copy_padded (unat (rf_size f)) (rf_data f)\<rparr>"

text \<open>\<open>os_write\<close> gives the byte count \<open>write\<close> returned and the text of \<open>errno\<close>.\<close>

definition sock_send ::
  "(native_frame \<Rightarrow> int \<times> string) \<Rightarrow> socket_can \<Rightarrow> raw_frame \<Rightarrow> string + native_frame" where
  "sock_send os_write s f =
     (if \<not> is_open s then Inl ''CAN socket is not open''
      else if kPayloadSize < rf_size f then Inl ''CAN frame payload is too large''
      else
        let n = to_native f; (written, err) = os_write n in
        if written \<noteq> SIZEOF_CAN_FRAME then Inl err else Inr n)"

text \<open>
  The \<open>poll\<close> loop retries while it is interrupted. The list is the sequence of answers the
  system gives; \<open>None\<close> says they were all interruptions, so the loop has not returned yet.
\<close>

fun poll_loop :: "poll_outcome list \<Rightarrow> poll_outcome option" where
  "poll_loop [] = None"
| "poll_loop (PollEintr # ps) = poll_loop ps"
| "poll_loop (p # ps) = Some p"

definition from_native :: "native_frame \<Rightarrow> receive_status" where
  "from_native n =
     (if can_id n AND (CAN_EFF_FLAG OR CAN_RTR_FLAG OR CAN_ERR_FLAG) \<noteq> 0
      then RxError ''unsupported extended, remote, or error CAN frame''
      else if kPayloadSize < can_dlc n then RxError ''CAN frame payload is too large''
      else RxFrame \<lparr>rf_id = can_id n AND CAN_SFF_MASK, rf_size = can_dlc n,
                    rf_data = copy_padded (unat (can_dlc n)) (can_data n)\<rparr>)"

definition sock_receive ::
  "poll_outcome list \<Rightarrow> int \<times> string \<times> native_frame \<Rightarrow> socket_can \<Rightarrow> receive_status option" where
  "sock_receive polls os_read s =
     (if \<not> is_open s then Some (RxError ''CAN socket is not open'')
      else case poll_loop polls of
        None \<Rightarrow> None
      | Some PollTimeout \<Rightarrow> Some RxTimeout
      | Some (PollFailed err) \<Rightarrow> Some (RxError err)
      | Some _ \<Rightarrow>
          (case os_read of (bytes, err, n) \<Rightarrow>
             Some (if bytes \<noteq> SIZEOF_CAN_FRAME
                   then RxError (if bytes < 0 then err else ''short CAN frame read'')
                   else from_native n)))"

section \<open>Descriptor accounting\<close>

text \<open>The descriptors a trace leaves open, newest first.\<close>

fun open_fds :: "fd_event list \<Rightarrow> int list" where
  "open_fds [] = []"
| "open_fds (FdOpened d # es) = d # open_fds es"
| "open_fds (FdClosed d # es) = remove1 d (open_fds es)"

definition fd_inv :: "socket_can \<Rightarrow> bool" where
  "fd_inv s \<longleftrightarrow> open_fds (rev (fd_trace s)) = (if 0 \<le> socket_fd s then [socket_fd s] else [])"

lemma fd_inv_init: "fd_inv socket_init"
  by (simp add: fd_inv_def socket_init_def)

lemma fd_inv_close [laws]: "fd_inv s \<Longrightarrow> fd_inv (sock_close s)"
  by (simp add: fd_inv_def sock_close_def)

lemma close_not_open [simp]: "\<not> is_open (sock_close s)"
  by (simp add: is_open_def sock_close_def)

lemma fd_inv_acquire:
  "fd_inv s \<Longrightarrow> \<not> is_open s \<Longrightarrow> 0 \<le> d \<Longrightarrow>
     fd_inv (s\<lparr>socket_fd := d, fd_trace := fd_trace s @ [FdOpened d]\<rparr>)"
  by (simp add: fd_inv_def is_open_def)

text \<open>Opening a socket never leaks a descriptor: whichever system calls fail, afterwards the
  socket either holds exactly the one descriptor that is open, and reports success, or none is
  open and it reports an error.\<close>

theorem sock_open_no_leak:
  assumes "fd_inv s"
  shows "fd_inv (snd (sock_open os name s)) \<and>
    (is_open (snd (sock_open os name s)) \<longleftrightarrow> fst (sock_open os name s) = Inr ())"
proof -
  have c: "fd_inv (sock_close s)" using assms by (rule fd_inv_close)
  have fd: "socket_fd (sock_close s) < 0" using close_not_open [of s] by (simp add: is_open_def)
  have neg: "fd_inv (sock_close s\<lparr>socket_fd := d\<rparr>)" if "d < 0" for d
    using c fd that by (simp add: fd_inv_def)
  show ?thesis
  proof (cases "name = [] \<or> IFNAMSIZ \<le> length name")
    case True
    then show ?thesis using c by (simp add: sock_open_def Let_def)
  next
    case ok: False
    show ?thesis
    proof (cases "os_socket os < 0")
      case True
      then show ?thesis using ok neg by (auto simp: sock_open_def Let_def is_open_def)
    next
      case False
      then have "fd_inv (sock_close s\<lparr>socket_fd := os_socket os,
          fd_trace := fd_trace (sock_close s) @ [FdOpened (os_socket os)]\<rparr>)"
        using c by (intro fd_inv_acquire) auto
      then show ?thesis
        using ok False
        by (auto simp: sock_open_def Let_def is_open_def fd_inv_close close_not_open [unfolded is_open_def]
            split: option.split)
    qed
  qed
qed

section \<open>Frames survive the wire\<close>

lemma length_copy_padded [simp]: "n \<le> 8 \<Longrightarrow> n \<le> length d \<Longrightarrow> length (copy_padded n d) = 8"
  by (simp add: copy_padded_def)

lemma copy_padded_full: "length d = 8 \<Longrightarrow> copy_padded 8 d = d"
  by (simp add: copy_padded_def)

lemma copy_padded_idem:
  "n \<le> length d \<Longrightarrow> copy_padded n (copy_padded n d) = copy_padded n d"
  by (simp add: copy_padded_def)

lemma size_le_8: "\<not> kPayloadSize < w \<Longrightarrow> unat w \<le> 8"
  by (simp add: kPayloadSize_def word_less_nat_alt)

text \<open>Every frame the socket delivers has a full eight-byte payload array.\<close>

lemma from_native_wf:
  "from_native n = RxFrame f \<Longrightarrow> length (can_data n) = 8 \<Longrightarrow> frame_wf f"
  by (auto simp: from_native_def frame_wf_def size_le_8 split: if_splits)

lemma mask_no_flags: "(w AND CAN_SFF_MASK) AND (CAN_EFF_FLAG OR CAN_RTR_FLAG OR CAN_ERR_FLAG) = 0"
  by (simp add: can_consts and.assoc)

lemma sff_fixed: "w AND CAN_SFF_MASK = w" if "w \<in> {kCommandFrameId, kResponseFrameId}"
  using that by (auto simp: can_consts protocol_consts)

lemma from_native_to_native:
  assumes "frame_wf f" and "rf_size f = kPayloadSize"
  shows "from_native (to_native f) = RxFrame (f\<lparr>rf_id := rf_id f AND CAN_SFF_MASK\<rparr>)"
  using assms mask_no_flags [of "rf_id f"]
  by (cases f)
    (simp add: from_native_def to_native_def frame_wf_def kPayloadSize_def copy_padded_full and.assoc)

lemma wire_command:
  "from_native (to_native (encode_command c)) = RxFrame (encode_command c)"
proof -
  have "rf_id (encode_command c) AND CAN_SFF_MASK = rf_id (encode_command c)"
    by (rule sff_fixed) (simp add: encode_command_def Let_def)
  then show ?thesis
    by (simp add: from_native_to_native encode_command_def Let_def frame_wf_def)
qed

lemma wire_response:
  "from_native (to_native (encode_response r)) = RxFrame (encode_response r)"
proof -
  have "rf_id (encode_response r) AND CAN_SFF_MASK = rf_id (encode_response r)"
    by (rule sff_fixed) (simp add: encode_response_def)
  then show ?thesis
    by (simp add: from_native_to_native encode_response_def frame_wf_def)
qed

lemma poll_loop_Some:
  "(\<exists>p. poll_loop ps = Some p) \<longleftrightarrow> (\<exists>p \<in> set ps. p \<noteq> PollEintr)"
  by (induction ps rule: poll_loop.induct) auto

section \<open>Properties\<close>

theorem sock_open_no_leak_witness:
  "fd_inv (snd (sock_open \<lparr>os_socket = 3, os_ifindex = (\<lambda>_. None), os_bind = (\<lambda>_. True),
     os_strerror = ''no such device''\<rparr>
     ''vcan0'' socket_init))"
  using sock_open_no_leak [OF fd_inv_init] by blast

text \<open>C40. The decoders accept exactly the frames the encoders produce: of the frames the socket can
  deliver, one decodes to a command (a response) only if it is that command's (response's)
  encoding, and every encoding decodes back.\<close>

theorem can_decode_inverts_encode:
  assumes "frame_wf f"
  shows "(decode_command f = Inr c \<longleftrightarrow> f = encode_command c) \<and>
    (decode_response f = Inr r \<longleftrightarrow> f = encode_response r \<and> response_wf r)"
  using assms decode_command_Inr decode_response_Inr decode_encode_command decode_encode_response
  by blast

theorem can_decode_inverts_encode_witness:
  "decode_command (encode_command \<lparr>cmd_id = 7, cmd_opcode = 1, cmd_argument = - 5\<rparr>) =
     Inr \<lparr>cmd_id = 7, cmd_opcode = 1, cmd_argument = - 5\<rparr>"
proof -
  have "frame_wf (encode_command \<lparr>cmd_id = 7, cmd_opcode = 1, cmd_argument = - 5\<rparr>)"
    by (simp add: frame_wf_def encode_command_def Let_def)
  from can_decode_inverts_encode [OF this] show ?thesis by blast
qed

text \<open>What one side sends is what the other side reads: a command or response that the socket
  accepts leaves as a native frame which a receiving socket turns back into the same frame, and
  which decodes to the same message.\<close>

theorem can_messages_survive_the_wire:
  assumes "sock_send osw s (encode_command c) = Inr n"
    and "sock_send osw' s' (encode_response r) = Inr m" and "response_wf r"
  shows "(\<exists>f. from_native n = RxFrame f \<and> decode_command f = Inr c) \<and>
    (\<exists>f. from_native m = RxFrame f \<and> decode_response f = Inr r)"
proof -
  have "sock_send w t f = Inr k \<Longrightarrow> k = to_native f" for w t f k
    by (auto simp: sock_send_def Let_def split: if_splits prod.splits)
  then have "n = to_native (encode_command c)" "m = to_native (encode_response r)"
    using assms(1,2) by blast+
  then show ?thesis
    using assms(3) by (simp add: wire_command wire_response decode_encode_response)
qed

theorem can_messages_survive_the_wire_witness:
  "\<exists>f. from_native (to_native (encode_command \<lparr>cmd_id = 7, cmd_opcode = 1, cmd_argument = 2\<rparr>)) =
     RxFrame f \<and> decode_command f = Inr \<lparr>cmd_id = 7, cmd_opcode = 1, cmd_argument = 2\<rparr>"
proof -
  let ?s = "\<lparr>socket_fd = 3, fd_trace = [FdOpened 3]\<rparr>"
  have c: "sock_send (\<lambda>_. (SIZEOF_CAN_FRAME, [])) ?s (encode_command c) =
      Inr (to_native (encode_command c))" for c
    by (simp add: sock_send_def is_open_def encode_command_def Let_def)
  have r: "sock_send (\<lambda>_. (SIZEOF_CAN_FRAME, [])) ?s (encode_response r) =
      Inr (to_native (encode_response r))" for r
    by (simp add: sock_send_def is_open_def encode_response_def Let_def)
  have wf: "response_wf \<lparr>rsp_id = 7, rsp_result = 0, rsp_mode = 1, rsp_detail = [0, 0, 0]\<rparr>"
    by (simp add: response_wf_def)
  from can_messages_survive_the_wire [OF c r wf] show ?thesis by blast
qed

end
