(* ===== verification/Virtual_Device.thy ===== *)
theory Virtual_Device
  imports Socket_Can
begin

text \<open>
  \<open>virtual_can_device_node.cpp\<close>: the software ECU with its bounded replay cache. The
  hash map is an association list with distinct keys, the deque of insertion order a list.
  Frames put on the bus and published device states are kept as output lists.
\<close>

section \<open>State\<close>

abbreviation MODE_NORMAL :: u8 where "MODE_NORMAL \<equiv> 0"
abbreviation MODE_BUSY :: u8 where "MODE_BUSY \<equiv> 1"
abbreviation MODE_FAULT :: u8 where "MODE_FAULT \<equiv> 2"
abbreviation MODE_STOPPED :: u8 where "MODE_STOPPED \<equiv> 3"

record device_state =
  dst_stamp :: int
  dst_device_id :: string
  dst_mode :: u8
  dst_fault_code :: u16
  dst_last_command_id :: u32

record cache_entry =
  ce_command :: command
  ce_response :: "response option"

record virtual_device =
  vd_device_id :: string
  vd_mode :: string
  vd_delay_ms :: int
  vd_capacity :: nat
  vd_response_count :: u32
  vd_cache_order :: "u16 list"
  vd_cache :: "(u16 \<times> cache_entry) list"
  vd_sent :: "raw_frame list"
  vd_published :: "device_state list"
  vd_slept :: int

section \<open>Construction\<close>

definition is_supported_mode :: "string \<Rightarrow> bool" where
  "is_supported_mode m \<longleftrightarrow>
     m = ''normal'' \<or> m = ''delay_ack'' \<or> m = ''drop_ack'' \<or>
     m = ''drop_stop_ack'' \<or> m = ''reject'' \<or> m = ''fault''"

definition clamp :: "int \<Rightarrow> int \<Rightarrow> int \<Rightarrow> int" where
  "clamp x lo hi = (if x < lo then lo else if hi < x then hi else x)"

definition virtual_device_new ::
  "string \<Rightarrow> string \<Rightarrow> int \<Rightarrow> int \<Rightarrow> string + virtual_device" where
  "virtual_device_new device_id mode delay_ms capacity =
     (if capacity < 1 \<or> 65536 < capacity
      then Inl ''replay_cache_capacity must be in [1, 65536]''
      else if \<not> is_supported_mode mode
      then Inl (''unsupported virtual device mode: '' @ mode)
      else Inr \<lparr>vd_device_id = device_id, vd_mode = mode, vd_delay_ms = clamp delay_ms 0 60000,
                vd_capacity = nat capacity, vd_response_count = 0, vd_cache_order = [],
                vd_cache = [], vd_sent = [], vd_published = [], vd_slept = 0\<rparr>)"

section \<open>Operations\<close>

text \<open>
  Eviction takes the oldest insertion. The code reads the front of the deque without a
  test; \<open>device_inv\<close> below shows that it is never empty there.
\<close>

definition cache_command :: "command \<Rightarrow> response option \<Rightarrow> virtual_device \<Rightarrow> virtual_device" where
  "cache_command c r d =
     (let d1 =
        (if vd_capacity d \<le> length (vd_cache d)
         then d\<lparr>vd_cache := AList.delete (hd (vd_cache_order d)) (vd_cache d),
                vd_cache_order := tl (vd_cache_order d)\<rparr>
         else d)
      in d1\<lparr>vd_cache :=
              (if map_of (vd_cache d1) (cmd_id c) = None
               then vd_cache d1 @ [(cmd_id c, \<lparr>ce_command = c, ce_response = r\<rparr>)]
               else vd_cache d1),
            vd_cache_order := vd_cache_order d1 @ [cmd_id c]\<rparr>)"

definition send_response :: "bool \<Rightarrow> response \<Rightarrow> virtual_device \<Rightarrow> virtual_device" where
  "send_response send_ok r d =
     (if \<not> send_ok then d
      else d\<lparr>vd_sent := vd_sent d @ [encode_response r],
             vd_response_count := vd_response_count d + 1\<rparr>)"

definition publish_state ::
  "int \<Rightarrow> u16 \<Rightarrow> u8 \<Rightarrow> u16 \<Rightarrow> virtual_device \<Rightarrow> virtual_device" where
  "publish_state stamp cid mode fault d =
     d\<lparr>vd_published := vd_published d @
         [\<lparr>dst_stamp = stamp, dst_device_id = vd_device_id d, dst_mode = mode,
           dst_fault_code = fault, dst_last_command_id = ucast cid\<rparr>]\<rparr>"

text \<open>The response of a command seen for the first time; \<open>None\<close> is a dropped ACK.\<close>

definition app_response :: "string \<Rightarrow> u16 \<Rightarrow> response" where
  "app_response mode cid =
     (if mode = ''reject''
      then \<lparr>rsp_id = cid, rsp_result = 1, rsp_mode = MODE_NORMAL, rsp_detail = [0, 0, 0]\<rparr>
      else if mode = ''fault''
      then \<lparr>rsp_id = cid, rsp_result = 2, rsp_mode = MODE_FAULT, rsp_detail = [0, 0, 0]\<rparr>
      else \<lparr>rsp_id = cid, rsp_result = 0, rsp_mode = MODE_NORMAL, rsp_detail = [0, 0, 0]\<rparr>)"

definition stop_response :: "u16 \<Rightarrow> response" where
  "stop_response cid =
     \<lparr>rsp_id = cid, rsp_result = 0, rsp_mode = MODE_STOPPED, rsp_detail = [0, 0, 0]\<rparr>"

definition conflict_response :: "u16 \<Rightarrow> response" where
  "conflict_response cid =
     \<lparr>rsp_id = cid, rsp_result = 3, rsp_mode = MODE_FAULT, rsp_detail = [0, 0, 0]\<rparr>"

definition process_command :: "bool \<Rightarrow> int \<Rightarrow> command \<Rightarrow> virtual_device \<Rightarrow> virtual_device" where
  "process_command send_ok stamp c d =
     (case map_of (vd_cache d) (cmd_id c) of
        Some e \<Rightarrow>
          if \<not> command_eq (ce_command e) c
          then publish_state stamp (cmd_id c) MODE_FAULT 3
                 (send_response send_ok (conflict_response (cmd_id c)) d)
          else (case ce_response e of
                  Some r \<Rightarrow> send_response send_ok r d
                | None \<Rightarrow> d)
      | None \<Rightarrow>
          if cmd_opcode c = kStopOpcode then
            (if vd_mode d = ''drop_stop_ack''
             then publish_state stamp (cmd_id c) MODE_BUSY 0 (cache_command c None d)
             else publish_state stamp (cmd_id c) MODE_STOPPED 0
                    (send_response send_ok (stop_response (cmd_id c))
                      (cache_command c (Some (stop_response (cmd_id c))) d)))
          else if vd_mode d = ''drop_ack'' \<or> vd_mode d = ''drop_stop_ack''
          then publish_state stamp (cmd_id c) MODE_BUSY 0 (cache_command c None d)
          else
            let r = app_response (vd_mode d) (cmd_id c);
                d1 = cache_command c (Some r) d;
                d2 = (if vd_mode d = ''delay_ack''
                      then d1\<lparr>vd_slept := vd_slept d1 + vd_delay_ms d1\<rparr> else d1)
            in publish_state stamp (cmd_id c) (rsp_mode r) (if rsp_result r = 2 then 1 else 0)
                 (send_response send_ok r d2))"

text \<open>
  The receive loop over what the socket delivers: timeouts, errors and undecodable frames
  are skipped, every decoded command is processed. Each element carries the outcome of the
  possible response transmission and the clock reading of the possible publication.
\<close>

fun receive_loop ::
  "(receive_status \<times> bool \<times> int) list \<Rightarrow> virtual_device \<Rightarrow> virtual_device" where
  "receive_loop [] d = d"
| "receive_loop ((RxTimeout, _, _) # xs) d = receive_loop xs d"
| "receive_loop ((RxError _, _, _) # xs) d = receive_loop xs d"
| "receive_loop ((RxFrame f, send_ok, stamp) # xs) d =
     (case decode_command f of
        Inl _ \<Rightarrow> receive_loop xs d
      | Inr c \<Rightarrow> receive_loop xs (process_command send_ok stamp c d))"

section \<open>The cache invariant\<close>

definition device_inv :: "virtual_device \<Rightarrow> bool" where
  "device_inv d \<longleftrightarrow>
     0 < vd_capacity d \<and> length (vd_cache d) \<le> vd_capacity d \<and>
     vd_cache_order d = map fst (vd_cache d) \<and> distinct (vd_cache_order d) \<and>
     (\<forall>(k, e) \<in> set (vd_cache d). cmd_id (ce_command e) = k)"

lemma device_inv_new: "virtual_device_new i m dl cap = Inr d \<Longrightarrow> device_inv d"
  by (auto simp: virtual_device_new_def device_inv_def split: if_splits)

lemma device_inv_outputs [simp]:
  "device_inv (send_response ok r d) = device_inv d"
  "device_inv (publish_state st cid m f d) = device_inv d"
  "device_inv (d\<lparr>vd_slept := n\<rparr>) = device_inv d"
  by (simp_all add: device_inv_def send_response_def publish_state_def)

lemma device_frame [simp]:
  "vd_cache (send_response ok r d) = vd_cache d"
  "vd_cache (publish_state st cid m f d) = vd_cache d"
  "vd_mode (send_response ok r d) = vd_mode d"
  "vd_mode (publish_state st cid m f d) = vd_mode d"
  "vd_mode (cache_command c ro d) = vd_mode d"
  "vd_capacity (send_response ok r d) = vd_capacity d"
  "vd_capacity (publish_state st cid m f d) = vd_capacity d"
  "vd_capacity (cache_command c ro d) = vd_capacity d"
  "vd_sent (publish_state st cid m f d) = vd_sent d"
  "vd_sent (cache_command c ro d) = vd_sent d"
  by (simp_all add: send_response_def publish_state_def cache_command_def Let_def)

text \<open>What eviction followed by insertion does to the cache.\<close>

lemma cache_command_cache:
  assumes "device_inv d" and "map_of (vd_cache d) (cmd_id c) = None"
  shows "vd_cache (cache_command c r d) =
      (if vd_capacity d \<le> length (vd_cache d) then tl (vd_cache d) else vd_cache d) @
      [(cmd_id c, \<lparr>ce_command = c, ce_response = r\<rparr>)]"
    and "vd_cache_order (cache_command c r d) = map fst (vd_cache (cache_command c r d))"
proof -
  from assms(1) have i: "0 < vd_capacity d" "vd_cache_order d = map fst (vd_cache d)"
    "distinct (map fst (vd_cache d))"
    by (auto simp: device_inv_def)
  have evict: "AList.delete (hd (vd_cache_order d)) (vd_cache d) = tl (vd_cache d)"
    if "vd_capacity d \<le> length (vd_cache d)"
  proof -
    from that i(1) have "vd_cache d \<noteq> []" by auto
    with i show ?thesis by (simp add: alist_delete_hd)
  qed
  have fresh: "map_of (tl (vd_cache d)) (cmd_id c) = None"
    using assms(2) i by (simp add: map_of_tl_distinct)
  show "vd_cache (cache_command c r d) =
      (if vd_capacity d \<le> length (vd_cache d) then tl (vd_cache d) else vd_cache d) @
      [(cmd_id c, \<lparr>ce_command = c, ce_response = r\<rparr>)]"
    using evict fresh assms(2) by (simp add: cache_command_def Let_def)
  then show "vd_cache_order (cache_command c r d) = map fst (vd_cache (cache_command c r d))"
    using i by (simp add: cache_command_def Let_def map_tl)
qed

lemma device_inv_cache [laws]:
  assumes "device_inv d" and "map_of (vd_cache d) (cmd_id c) = None"
  shows "device_inv (cache_command c r d)"
proof -
  define base where
    "base = (if vd_capacity d \<le> length (vd_cache d) then tl (vd_cache d) else vd_cache d)"
  have i: "0 < vd_capacity d" "length (vd_cache d) \<le> vd_capacity d"
    "distinct (map fst (vd_cache d))" "\<forall>(k, e) \<in> set (vd_cache d). cmd_id (ce_command e) = k"
    using assms(1) by (auto simp: device_inv_def)
  have sub: "set base \<subseteq> set (vd_cache d)"
    by (cases "vd_cache d") (auto simp: base_def)
  have "cmd_id c \<notin> fst ` set (vd_cache d)"
    using assms(2) by (simp add: map_of_None_fst)
  with sub have fresh: "cmd_id c \<notin> set (map fst base)" by auto
  have base: "length base < vd_capacity d" "distinct (map fst base)"
    using i by (auto simp: base_def distinct_tl map_tl)
  show ?thesis
    using cache_command_cache [OF assms, of r] base fresh i(1) i(4) sub
    by (auto simp: device_inv_def base_def [symmetric])
qed

lemma device_inv_process:
  "device_inv d \<Longrightarrow> device_inv (process_command ok st c d)"
  by (auto simp: process_command_def Let_def device_inv_cache split: option.split)

lemma device_inv_loop: "device_inv d \<Longrightarrow> device_inv (receive_loop xs d)"
  by (induction xs d rule: receive_loop.induct)
    (auto simp: device_inv_process split: sum.split)

section \<open>The device as a replay-protected responder\<close>

text \<open>
  The specification: the answer to a command depends on the first command that carried its
  identifier. A first command gets its mode's answer, a repetition the same answer again,
  and a different command under a known identifier a conflict.
\<close>

definition fresh_answer :: "string \<Rightarrow> command \<Rightarrow> response option" where
  "fresh_answer mode c =
     (if cmd_opcode c = kStopOpcode
      then if mode = ''drop_stop_ack'' then None else Some (stop_response (cmd_id c))
      else if mode = ''drop_ack'' \<or> mode = ''drop_stop_ack'' then None
      else Some (app_response mode (cmd_id c)))"

definition spec_answer :: "string \<Rightarrow> command list \<Rightarrow> command \<Rightarrow> response option" where
  "spec_answer mode seen c =
     (case List.find (\<lambda>c0. cmd_id c0 = cmd_id c) seen of
        None \<Rightarrow> fresh_answer mode c
      | Some c0 \<Rightarrow> if c0 = c then fresh_answer mode c0 else Some (conflict_response (cmd_id c)))"

fun spec_replies :: "string \<Rightarrow> command list \<Rightarrow> command list \<Rightarrow> raw_frame list" where
  "spec_replies mode seen [] = []"
| "spec_replies mode seen (c # cs) =
     (case spec_answer mode seen c of None \<Rightarrow> [] | Some r \<Rightarrow> [encode_response r]) @
     spec_replies mode (seen @ [c]) cs"

text \<open>What the cache knows: the first command of each identifier, and its answer.\<close>

definition cache_repr :: "command list \<Rightarrow> virtual_device \<Rightarrow> bool" where
  "cache_repr seen d \<longleftrightarrow>
     (\<forall>k. map_of (vd_cache d) k =
        map_option (\<lambda>c. \<lparr>ce_command = c, ce_response = fresh_answer (vd_mode d) c\<rparr>)
          (List.find (\<lambda>c. cmd_id c = k) seen)) \<and>
     length (vd_cache d) = card (cmd_id ` set seen)"

text \<open>
  The two halves of \<open>process_command\<close>: a known identifier is answered from the cache, a
  new one is cached with its fresh answer; only the published states and the sleep differ.
\<close>

lemma process_known:
  assumes "map_of (vd_cache d) (cmd_id c) = Some e"
  shows "vd_cache (process_command ok st c d) = vd_cache d"
    and "vd_sent (process_command True st c d) = vd_sent d @
      (if ce_command e \<noteq> c then [encode_response (conflict_response (cmd_id c))]
       else (case ce_response e of Some r \<Rightarrow> [encode_response r] | None \<Rightarrow> []))"
  using assms
  by (simp_all add: process_command_def send_response_def publish_state_def split: option.split)

lemma process_new:
  assumes "map_of (vd_cache d) (cmd_id c) = None"
  shows "vd_cache (process_command ok st c d) =
      vd_cache (cache_command c (fresh_answer (vd_mode d) c) d)"
    and "vd_sent (process_command True st c d) = vd_sent d @
      (case fresh_answer (vd_mode d) c of Some r \<Rightarrow> [encode_response r] | None \<Rightarrow> [])"
  using assms
  by (simp_all add: process_command_def fresh_answer_def Let_def)
    (simp_all add: send_response_def)

lemma device_frame_slept [simp]:
  "vd_mode (d\<lparr>vd_slept := n\<rparr>) = vd_mode d" "vd_capacity (d\<lparr>vd_slept := n\<rparr>) = vd_capacity d"
  by simp_all

lemma process_mode [simp]:
  "vd_mode (process_command ok st c d) = vd_mode d"
  "vd_capacity (process_command ok st c d) = vd_capacity d"
  by (cases "map_of (vd_cache d) (cmd_id c)")
    (simp_all add: process_command_def Let_def split: option.split)

lemma cache_reprD:
  "cache_repr seen d \<Longrightarrow> map_of (vd_cache d) k =
     map_option (\<lambda>c. \<lparr>ce_command = c, ce_response = fresh_answer (vd_mode d) c\<rparr>)
       (List.find (\<lambda>c. cmd_id c = k) seen)"
  by (simp add: cache_repr_def)

lemma cache_repr_sent:
  assumes "cache_repr seen d"
  shows "vd_sent (process_command True st c d) =
    vd_sent d @ (case spec_answer (vd_mode d) seen c of None \<Rightarrow> [] | Some r \<Rightarrow> [encode_response r])"
  using cache_reprD [OF assms, of "cmd_id c"]
  by (cases "List.find (\<lambda>c0. cmd_id c0 = cmd_id c) seen")
    (simp_all add: spec_answer_def process_known(2) process_new(2) split: option.split)

lemma cache_repr_step:
  assumes "device_inv d" and "cache_repr seen d"
    and room: "card (insert (cmd_id c) (cmd_id ` set seen)) \<le> vd_capacity d"
  shows "cache_repr (seen @ [c]) (process_command ok st c d)"
proof (cases "map_of (vd_cache d) (cmd_id c)")
  case (Some e)
  then obtain c0 where c0: "List.find (\<lambda>c'. cmd_id c' = cmd_id c) seen = Some c0"
    using cache_reprD [OF assms(2), of "cmd_id c"]
    by (cases "List.find (\<lambda>c'. cmd_id c' = cmd_id c) seen") auto
  then have "cmd_id c \<in> cmd_id ` set seen"
    using find_Some_split [OF c0] by (metis imageI)
  then have "insert (cmd_id c) (cmd_id ` set seen) = cmd_id ` set seen"
    by (rule insert_absorb)
  moreover have "List.find (\<lambda>c. cmd_id c = k) (seen @ [c]) = List.find (\<lambda>c. cmd_id c = k) seen" for k
    using c0 by (auto simp: find_snoc split: option.split)
  ultimately show ?thesis
    using Some assms(2) by (simp add: cache_repr_def process_known(1))
next
  case None
  then have none: "List.find (\<lambda>c'. cmd_id c' = cmd_id c) seen = None"
    using cache_reprD [OF assms(2), of "cmd_id c"] by simp
  then have fresh: "cmd_id c \<notin> cmd_id ` set seen"
    by (auto simp: find_None_iff)
  then have "length (vd_cache d) < vd_capacity d"
    using room assms(2) by (simp add: cache_repr_def)
  then have "vd_cache (process_command ok st c d) =
      vd_cache d @ [(cmd_id c, \<lparr>ce_command = c, ce_response = fresh_answer (vd_mode d) c\<rparr>)]"
    using None cache_command_cache(1) [OF assms(1) None] by (simp add: process_new(1))
  then show ?thesis
    using assms(2) fresh none None cache_reprD [OF assms(2)]
    by (auto simp: cache_repr_def map_add_def find_snoc split: option.split)
qed

definition deliveries :: "command list \<Rightarrow> (receive_status \<times> bool \<times> int) list" where
  "deliveries cs = map (\<lambda>c. (RxFrame (encode_command c), True, 0)) cs"

lemma receive_loop_spec:
  assumes "device_inv d" and "cache_repr seen d"
    and "card (cmd_id ` (set seen \<union> set cs)) \<le> vd_capacity d"
  shows "vd_sent (receive_loop (deliveries cs) d) = vd_sent d @ spec_replies (vd_mode d) seen cs"
  using assms
proof (induction cs arbitrary: d seen)
  case Nil
  then show ?case by (simp add: deliveries_def)
next
  case (Cons c cs)
  let ?d = "process_command True 0 c d"
  have "card (insert (cmd_id c) (cmd_id ` set seen)) \<le> card (cmd_id ` (set seen \<union> set (c # cs)))"
    by (rule card_mono) auto
  with Cons.prems have "cache_repr (seen @ [c]) ?d"
    by (intro cache_repr_step) auto
  moreover have "device_inv ?d" using Cons.prems(1) by (rule device_inv_process)
  ultimately have "vd_sent (receive_loop (deliveries cs) ?d) =
      vd_sent ?d @ spec_replies (vd_mode ?d) (seen @ [c]) cs"
    using Cons.prems(3) by (intro Cons.IH) (auto simp: image_Un insert_commute)
  then show ?case
    using cache_repr_sent [OF Cons.prems(2)] by (simp add: deliveries_def)
qed

text \<open>C26. Refinement of the replay specification: started fresh and given commands with no more
  distinct identifiers than its cache holds, the device puts on the bus exactly the replies
  the specification gives, so a retransmitted command is answered as it was the first time
  and is never treated as new.
\<close>

theorem virtual_device_refines_replay_spec:
  assumes "virtual_device_new i mode delay cap = Inr d"
    and "card (cmd_id ` set cs) \<le> nat cap"
  shows "vd_sent (receive_loop (deliveries cs) d) = spec_replies mode [] cs"
proof -
  have d: "vd_mode d = mode" "vd_capacity d = nat cap" "vd_sent d = []" "vd_cache d = []"
    using assms(1) by (auto simp: virtual_device_new_def split: if_splits)
  have "cache_repr [] d" by (simp add: cache_repr_def d)
  from receive_loop_spec [OF device_inv_new [OF assms(1)] this, of cs] assms(2)
  show ?thesis by (simp add: d)
qed

definition example_device :: virtual_device where
  "example_device =
     \<lparr>vd_device_id = ''ecu'', vd_mode = ''normal'', vd_delay_ms = 500, vd_capacity = 2,
      vd_response_count = 0, vd_cache_order = [], vd_cache = [], vd_sent = [], vd_published = [],
      vd_slept = 0\<rparr>"

theorem virtual_device_refines_replay_spec_witness:
  "vd_sent (receive_loop (deliveries
      [\<lparr>cmd_id = 1, cmd_opcode = 1, cmd_argument = 42\<rparr>,
       \<lparr>cmd_id = 1, cmd_opcode = 1, cmd_argument = 42\<rparr>,
       \<lparr>cmd_id = 1, cmd_opcode = 1, cmd_argument = 0\<rparr>]) example_device) =
    [encode_response (app_response ''normal'' 1), encode_response (app_response ''normal'' 1),
     encode_response (conflict_response 1)]"
proof -
  have new: "virtual_device_new ''ecu'' ''normal'' 500 2 = Inr example_device"
    by (simp add: virtual_device_new_def is_supported_mode_def clamp_def example_device_def)
  show ?thesis
    by (subst virtual_device_refines_replay_spec [OF new])
      (simp_all add: spec_answer_def fresh_answer_def kStopOpcode_def)
qed

end
