(* ===== verification/Command_Policy.thy ===== *)
theory Command_Policy
  imports Runtime_Prelude
begin

text \<open>
  \<open>device_bridge/command_policy.hpp\<close> and \<open>command_policy.cpp\<close>: the bridge's error codes,
  the conversion of a wire duration into a bounded number of milliseconds, and the error
  code of a rejected device command.
\<close>

section \<open>Error codes\<close>

definition kErrorInvalidGoal :: u16 where "kErrorInvalidGoal = 100"
definition kErrorTransport :: u16 where "kErrorTransport = 200"
definition kErrorAckTimeout :: u16 where "kErrorAckTimeout = 201"
definition kErrorShutdown :: u16 where "kErrorShutdown = 202"
definition kErrorCanceled :: u16 where "kErrorCanceled = 203"
definition kErrorStopTimeout :: u16 where "kErrorStopTimeout = 204"
definition kErrorStopRejected :: u16 where "kErrorStopRejected = 205"
definition kErrorDeviceRejectedBase :: u16 where "kErrorDeviceRejectedBase = 300"

lemmas bridge_error_codes =
  kErrorInvalidGoal_def kErrorTransport_def kErrorAckTimeout_def kErrorShutdown_def
  kErrorCanceled_def kErrorStopTimeout_def kErrorStopRejected_def kErrorDeviceRejectedBase_def

section \<open>Operations\<close>

text \<open>
  64-bit arithmetic: \<open>duration_total_int64\<close> below shows the total never leaves the signed
  64-bit range, so unbounded integers compute what the code computes. The division is on
  nonnegative operands, where truncation and rounding down agree.
\<close>

definition kNanosecondsPerSecond :: int where "kNanosecondsPerSecond = 1000000000"
definition kNanosecondsPerMillisecond :: int where "kNanosecondsPerMillisecond = 1000000"

definition total_nanoseconds :: "duration \<Rightarrow> int" where
  "total_nanoseconds d = sint (dur_sec d) * kNanosecondsPerSecond + uint (dur_nanosec d)"

definition duration_to_milliseconds :: "duration \<Rightarrow> int \<Rightarrow> int option" where
  "duration_to_milliseconds d max_ms =
     (if max_ms \<le> 0 \<or> sint (dur_sec d) < 0 \<or> 1000000000 \<le> uint (dur_nanosec d) then None
      else
        let total = total_nanoseconds d in
        if total \<le> 0 then None
        else
          let rounded =
            (total + kNanosecondsPerMillisecond - 1) div kNanosecondsPerMillisecond in
          if rounded \<le> 0 \<or> max_ms < rounded then None else Some rounded)"

definition device_error_code :: "u8 \<Rightarrow> u16" where
  "device_error_code result =
     (let code = (ucast kErrorDeviceRejectedBase :: u32) + ucast result in
      if 0xFFFF < code then 0xFFFF else ucast code)"

section \<open>Lemmas\<close>

lemmas duration_units = kNanosecondsPerSecond_def kNanosecondsPerMillisecond_def

text \<open>The rounding adds less than a millisecond to a total in the 64-bit range.\<close>

lemma duration_total_int64:
  assumes "0 \<le> sint (dur_sec d)" and "uint (dur_nanosec d) < 1000000000"
  shows "0 \<le> total_nanoseconds d \<and>
    total_nanoseconds d + kNanosecondsPerMillisecond - 1 \<le> INT64_MAX"
proof -
  have "sint (dur_sec d) \<le> INT32_MAX" by (rule sint_i32_bounds)
  then have "sint (dur_sec d) * 1000000000 \<le> INT32_MAX * 1000000000" by simp
  with assms show ?thesis by (simp add: total_nanoseconds_def duration_units)
qed

text \<open>The ceiling division, characterised.\<close>

lemma ceil_ms_bounds:
  fixes t :: int
  defines "r \<equiv> (t + kNanosecondsPerMillisecond - 1) div kNanosecondsPerMillisecond"
  shows "t \<le> r * 1000000" "r * 1000000 < t + 1000000"
  unfolding r_def by (simp_all add: duration_units)

lemma duration_to_milliseconds_Some_iff:
  "duration_to_milliseconds d max_ms = Some ms \<longleftrightarrow>
     0 < max_ms \<and> 0 \<le> sint (dur_sec d) \<and> uint (dur_nanosec d) < 1000000000 \<and>
     0 < total_nanoseconds d \<and> ms \<le> max_ms \<and>
     (ms - 1) * 1000000 < total_nanoseconds d \<and> total_nanoseconds d \<le> ms * 1000000"
proof -
  define t where "t = total_nanoseconds d"
  define r where "r = (t + kNanosecondsPerMillisecond - 1) div kNanosecondsPerMillisecond"
  have r: "t \<le> r * 1000000" "r * 1000000 < t + 1000000"
    unfolding r_def by (rule ceil_ms_bounds)+
  have eq: "ms = r \<longleftrightarrow> (ms - 1) * 1000000 < t \<and> t \<le> ms * 1000000"
    using r by auto
  have "duration_to_milliseconds d max_ms = Some ms \<longleftrightarrow>
     0 < max_ms \<and> 0 \<le> sint (dur_sec d) \<and> uint (dur_nanosec d) < 1000000000 \<and>
     0 < t \<and> 0 < r \<and> r \<le> max_ms \<and> ms = r"
    by (auto simp: duration_to_milliseconds_def Let_def t_def r_def)
  moreover have "0 < t \<Longrightarrow> 0 < r" using r by auto
  ultimately show ?thesis using eq by (auto simp: t_def)
qed

lemma device_error_code_value: "uint (device_error_code r) = 300 + uint r"
proof -
  have "uint r < 256" using uint_lt2p [of r] by simp
  then have "uint ((ucast kErrorDeviceRejectedBase :: u32) + ucast r) = 300 + uint r"
    by (simp add: bridge_error_codes uint_word_ariths uint_up_ucast is_up)
  moreover from this \<open>uint r < 256\<close>
  have "\<not> 0xFFFF < (ucast kErrorDeviceRejectedBase :: u32) + ucast r"
    by (simp add: word_less_def)
  ultimately show ?thesis
    using \<open>uint r < 256\<close>
    by (simp add: device_error_code_def Let_def unsigned_ucast_eq take_bit_eq_mod)
qed

text \<open>The wire duration becomes the smallest whole number of milliseconds that is not
  shorter, and it is accepted exactly when it is well formed, positive and within the
  configured maximum; the 64-bit intermediate values never overflow.
\<close>

theorem duration_to_milliseconds_spec:
  "(duration_to_milliseconds d max_ms = Some ms \<longleftrightarrow>
     0 < max_ms \<and> 0 \<le> sint (dur_sec d) \<and> uint (dur_nanosec d) < 1000000000 \<and>
     0 < total_nanoseconds d \<and> ms \<le> max_ms \<and>
     (ms - 1) * 1000000 < total_nanoseconds d \<and> total_nanoseconds d \<le> ms * 1000000) \<and>
   (duration_to_milliseconds d max_ms \<noteq> None \<longrightarrow>
     total_nanoseconds d + kNanosecondsPerMillisecond - 1 \<le> INT64_MAX)"
  using duration_to_milliseconds_Some_iff [of d max_ms] duration_total_int64 [of d] by auto

theorem duration_to_milliseconds_spec_witness:
  "duration_to_milliseconds \<lparr>dur_sec = 0, dur_nanosec = 1500001\<rparr> 5000 = Some 2 \<and>
   total_nanoseconds \<lparr>dur_sec = 0, dur_nanosec = 1500001\<rparr> + kNanosecondsPerMillisecond - 1
     \<le> INT64_MAX"
proof -
  have "duration_to_milliseconds \<lparr>dur_sec = 0, dur_nanosec = 1500001\<rparr> 5000 = Some 2"
    by (simp add: duration_to_milliseconds_def total_nanoseconds_def duration_units Let_def)
  then show ?thesis
    using duration_to_milliseconds_spec [of "\<lparr>dur_sec = 0, dur_nanosec = 1500001\<rparr>" 5000 2]
    by simp
qed

end
