(* ===== verification/Device_Diagnostics.thy ===== *)
theory Device_Diagnostics
  imports Runtime_Prelude
begin

text \<open>
  \<open>device_bridge/diagnostic_state.hpp\<close> and \<open>diagnostic_state.cpp\<close>: the bridge's diagnostic
  state, its updates (each one runs under the mutex, so each is one function) and the status
  message it publishes.
\<close>

section \<open>State\<close>

datatype device_phase = DIdle | DSending | DWaitingAck | DRetrying | DStopping

record device_diag =
  dd_phase :: device_phase
  dd_active_command_id :: u16
  dd_last_error_code :: u16
  dd_retry_count :: u64
  dd_ack_timeout_count :: u64
  dd_device_fault_count :: u64
  dd_stop_failure_count :: u64
  dd_error_latched :: bool

definition device_diag_init :: device_diag where
  "device_diag_init =
     \<lparr>dd_phase = DIdle, dd_active_command_id = 0, dd_last_error_code = 0, dd_retry_count = 0,
      dd_ack_timeout_count = 0, dd_device_fault_count = 0, dd_stop_failure_count = 0,
      dd_error_latched = False\<rparr>"

section \<open>Operations\<close>

definition dd_begin_command :: "u16 \<Rightarrow> device_diag \<Rightarrow> device_diag" where
  "dd_begin_command cid d = d\<lparr>dd_active_command_id := cid, dd_phase := DSending\<rparr>"

definition dd_mark_sending :: "device_diag \<Rightarrow> device_diag" where
  "dd_mark_sending d = d\<lparr>dd_phase := DSending\<rparr>"

definition dd_mark_waiting_ack :: "device_diag \<Rightarrow> device_diag" where
  "dd_mark_waiting_ack d = d\<lparr>dd_phase := DWaitingAck\<rparr>"

definition dd_record_retry :: "device_diag \<Rightarrow> device_diag" where
  "dd_record_retry d = d\<lparr>dd_retry_count := dd_retry_count d + 1, dd_phase := DRetrying\<rparr>"

definition dd_mark_stopping :: "device_diag \<Rightarrow> device_diag" where
  "dd_mark_stopping d = d\<lparr>dd_phase := DStopping\<rparr>"

definition dd_record_success :: "device_diag \<Rightarrow> device_diag" where
  "dd_record_success d =
     d\<lparr>dd_phase := DIdle, dd_active_command_id := 0, dd_last_error_code := 0,
       dd_error_latched := False\<rparr>"

definition dd_record_canceled :: "device_diag \<Rightarrow> device_diag" where
  "dd_record_canceled d = dd_record_success d"

definition dd_record_ack_timeout :: "u16 \<Rightarrow> device_diag \<Rightarrow> device_diag" where
  "dd_record_ack_timeout code d =
     d\<lparr>dd_ack_timeout_count := dd_ack_timeout_count d + 1, dd_phase := DIdle,
       dd_active_command_id := 0, dd_last_error_code := code, dd_error_latched := True\<rparr>"

definition dd_record_device_fault :: "u16 \<Rightarrow> device_diag \<Rightarrow> device_diag" where
  "dd_record_device_fault code d =
     d\<lparr>dd_device_fault_count := dd_device_fault_count d + 1, dd_phase := DIdle,
       dd_active_command_id := 0, dd_last_error_code := code, dd_error_latched := True\<rparr>"

definition dd_record_stop_failure :: "u16 \<Rightarrow> device_diag \<Rightarrow> device_diag" where
  "dd_record_stop_failure code d =
     d\<lparr>dd_stop_failure_count := dd_stop_failure_count d + 1, dd_phase := DIdle,
       dd_active_command_id := 0, dd_last_error_code := code, dd_error_latched := True\<rparr>"

definition dd_record_transport_error :: "u16 \<Rightarrow> device_diag \<Rightarrow> device_diag" where
  "dd_record_transport_error code d =
     d\<lparr>dd_phase := DIdle, dd_active_command_id := 0, dd_last_error_code := code,
       dd_error_latched := True\<rparr>"

fun device_phase_name :: "device_phase \<Rightarrow> string" where
  "device_phase_name DIdle = ''IDLE''"
| "device_phase_name DSending = ''SENDING''"
| "device_phase_name DWaitingAck = ''WAITING_ACK''"
| "device_phase_name DRetrying = ''RETRYING''"
| "device_phase_name DStopping = ''STOPPING''"

definition dd_snapshot :: "bool \<Rightarrow> device_diag \<Rightarrow> diag_status" where
  "dd_snapshot socket_ready d =
     (let (level, message) =
        (if \<not> socket_ready then (DIAG_ERROR, ''socket unavailable'')
         else if dd_error_latched d then (DIAG_ERROR, ''device bridge error'')
         else if dd_phase d = DRetrying then (DIAG_WARN, ''retrying command'')
         else (DIAG_OK, ''ready''))
      in \<lparr>ds_level = level, ds_name = ''runtime/device_bridge'', ds_message = message,
          ds_hardware_id = ''socketcan_bridge'',
          ds_values =
            [(''ready'', bool_to_string socket_ready),
             (''state'', device_phase_name (dd_phase d)),
             (''active_command_id'', nat_to_string (unat (dd_active_command_id d))),
             (''retry_count'', nat_to_string (unat (dd_retry_count d))),
             (''ack_timeout_count'', nat_to_string (unat (dd_ack_timeout_count d))),
             (''device_fault_count'', nat_to_string (unat (dd_device_fault_count d))),
             (''stop_failure_count'', nat_to_string (unat (dd_stop_failure_count d))),
             (''last_error_code'', nat_to_string (unat (dd_last_error_code d)))]\<rparr>)"

lemmas dd_defs =
  dd_begin_command_def dd_mark_sending_def dd_mark_waiting_ack_def dd_record_retry_def
  dd_mark_stopping_def dd_record_success_def dd_record_canceled_def dd_record_ack_timeout_def
  dd_record_device_fault_def dd_record_stop_failure_def dd_record_transport_error_def

declare dd_defs [ops]

section \<open>The state as a summary of its history\<close>

text \<open>Every public update of the class, as an event.\<close>

datatype dd_event =
    DBegin u16 | DMarkSending | DMarkWaitingAck | DRetry | DMarkStopping
  | DSuccess | DCanceled | DAckTimeout u16 | DDeviceFault u16 | DStopFailure u16
  | DTransportError u16

fun dd_apply :: "dd_event \<Rightarrow> device_diag \<Rightarrow> device_diag" where
  "dd_apply (DBegin c) = dd_begin_command c"
| "dd_apply DMarkSending = dd_mark_sending"
| "dd_apply DMarkWaitingAck = dd_mark_waiting_ack"
| "dd_apply DRetry = dd_record_retry"
| "dd_apply DMarkStopping = dd_mark_stopping"
| "dd_apply DSuccess = dd_record_success"
| "dd_apply DCanceled = dd_record_canceled"
| "dd_apply (DAckTimeout c) = dd_record_ack_timeout c"
| "dd_apply (DDeviceFault c) = dd_record_device_fault c"
| "dd_apply (DStopFailure c) = dd_record_stop_failure c"
| "dd_apply (DTransportError c) = dd_record_transport_error c"

definition dd_run :: "dd_event list \<Rightarrow> device_diag \<Rightarrow> device_diag" where
  "dd_run es d = fold dd_apply es d"

text \<open>
  The abstract specification: a history's verdict is the code of its last terminal event,
  if that event is a failure; events that are not terminal do not change the verdict.
\<close>

fun dd_verdict :: "dd_event \<Rightarrow> u16 option option" where
  "dd_verdict DSuccess = Some None"
| "dd_verdict DCanceled = Some None"
| "dd_verdict (DAckTimeout c) = Some (Some c)"
| "dd_verdict (DDeviceFault c) = Some (Some c)"
| "dd_verdict (DStopFailure c) = Some (Some c)"
| "dd_verdict (DTransportError c) = Some (Some c)"
| "dd_verdict _ = None"

fun last_verdict :: "dd_event list \<Rightarrow> u16 option" where
  "last_verdict [] = None"
| "last_verdict (e # es) =
     (if \<exists>e' \<in> set es. dd_verdict e' \<noteq> None then last_verdict es
      else case dd_verdict e of None \<Rightarrow> None | Some v \<Rightarrow> v)"

lemma last_verdict_none:
  "\<forall>e \<in> set es. dd_verdict e = None \<Longrightarrow> last_verdict es = None"
  by (induction es) auto

lemma last_verdict_snoc:
  "last_verdict (es @ [e]) = (case dd_verdict e of None \<Rightarrow> last_verdict es | Some v \<Rightarrow> v)"
  by (induction es) (auto split: option.splits)

definition dd_summary :: "device_diag \<Rightarrow> u16 option" where
  "dd_summary d = (if dd_error_latched d then Some (dd_last_error_code d) else None)"

lemma dd_apply_summary:
  "dd_summary (dd_apply e d) =
     (case dd_verdict e of None \<Rightarrow> dd_summary d | Some v \<Rightarrow> v)"
  by (cases e) (simp_all add: dd_summary_def ops)

lemma dd_run_summary:
  "dd_summary d = None \<Longrightarrow> dd_summary (dd_run es d) = last_verdict es"
  by (induction es rule: rev_induct)
    (simp_all add: dd_run_def dd_apply_summary last_verdict_snoc split: option.split)

text \<open>Counters count: each is the number of its events, modulo the 64-bit width.\<close>

fun is_stop_failure :: "dd_event \<Rightarrow> bool" where
  "is_stop_failure (DStopFailure _) = True"
| "is_stop_failure _ = False"

lemma dd_run_stop_failures:
  "dd_stop_failure_count (dd_run es d) =
     dd_stop_failure_count d + of_nat (length (filter is_stop_failure es))"
proof (induction es rule: rev_induct)
  case Nil
  then show ?case by (simp add: dd_run_def)
next
  case (snoc e es)
  then show ?case by (cases e) (simp_all add: dd_run_def ops)
qed

text \<open>The bridge's diagnostic status is a function of its history: with the socket ready it
  publishes ERROR exactly when the last terminal update of any sequence of updates was a
  failure, and the error code it latches is that failure's code.
\<close>

theorem device_status_latches_last_failure:
  "(ds_level (dd_snapshot True (dd_run es device_diag_init)) = DIAG_ERROR \<longleftrightarrow>
      last_verdict es \<noteq> None) \<and>
   (\<forall>code. last_verdict es = Some code \<longrightarrow>
      dd_last_error_code (dd_run es device_diag_init) = code)"
proof -
  have "dd_summary (dd_run es device_diag_init) = last_verdict es"
    by (rule dd_run_summary) (simp add: dd_summary_def device_diag_init_def)
  then show ?thesis
    by (cases "last_verdict es") (auto simp: dd_summary_def dd_snapshot_def Let_def split: if_splits)
qed

theorem device_status_latches_last_failure_witness:
  "dd_last_error_code (dd_run [DBegin 7, DStopFailure 204, DBegin 8, DRetry] device_diag_init) = 204"
  using device_status_latches_last_failure [of "[DBegin 7, DStopFailure 204, DBegin 8, DRetry]"]
  by simp

end
