(* ===== verification/Id_Allocation.thy ===== *)
theory Id_Allocation
  imports Runtime_Prelude
begin

text \<open>
  The contract of a cyclic 16-bit identifier allocator. Two components hand out command
  identifiers this way (the bridge its STOP identifiers, the executor its application
  identifiers); both interpret this locale on their own definitions, and the range and
  freshness of the identifiers is proved once, here.
\<close>

primrec alloc_seq :: "('s \<Rightarrow> 'i \<times> 's) \<Rightarrow> nat \<Rightarrow> 's \<Rightarrow> 'i list" where
  "alloc_seq alloc 0 s = []"
| "alloc_seq alloc (Suc n) s = fst (alloc s) # alloc_seq alloc n (snd (alloc s))"

text \<open>The identifier \<open>i\<close> calls after position \<open>p\<close> in the cycle from \<open>lo\<close> to \<open>hi\<close>.\<close>

definition cyclic_slot :: "nat \<Rightarrow> nat \<Rightarrow> nat \<Rightarrow> nat \<Rightarrow> nat" where
  "cyclic_slot lo hi p i = lo + (p - lo + i) mod (hi - lo + 1)"

lemma cyclic_slot_range: "lo \<le> hi \<Longrightarrow> lo \<le> cyclic_slot lo hi p i \<and> cyclic_slot lo hi p i \<le> hi"
proof -
  assume "lo \<le> hi"
  moreover have "(p - lo + i) mod (hi - lo + 1) < hi - lo + 1" by (rule mod_less_divisor) simp
  ultimately show ?thesis unfolding cyclic_slot_def by linarith
qed

lemma mod_shift_inject:
  fixes m :: nat
  assumes "(p + i) mod m = (p + j) mod m" "i < m" "j < m"
  shows "i = j"
proof -
  have *: "a = b" if "(p + a) mod m = (p + b) mod m" "a \<le> b" "b < m" for a b
  proof -
    have "m dvd (p + b) - (p + a)"
      using that mod_eq_dvd_iff_nat [of "p + a" "p + b" m] by simp
    then show ?thesis using that by (auto dest: dvd_imp_le)
  qed
  show ?thesis using assms * [of i j] * [of j i] by (cases "i \<le> j") auto
qed

lemma cyclic_slot_inject:
  "cyclic_slot lo hi p i = cyclic_slot lo hi p j \<Longrightarrow> i < hi - lo + 1 \<Longrightarrow> j < hi - lo + 1 \<Longrightarrow> i = j"
  by (auto simp: cyclic_slot_def dest: mod_shift_inject)

lemma length_alloc_seq [simp]: "length (alloc_seq alloc n s) = n"
  by (induction n arbitrary: s) auto

text \<open>
  \<open>pos s\<close> is the identifier the next call hands out from state \<open>s\<close>; the identifiers
  run from \<open>lo\<close> to \<open>hi\<close> and start over.
\<close>

locale id_allocator =
  fixes alloc :: "'s \<Rightarrow> u16 \<times> 's"
    and pos :: "'s \<Rightarrow> nat"
    and inv :: "'s \<Rightarrow> bool"
    and lo :: nat
    and hi :: nat
  assumes lo_hi: "lo \<le> hi"
    and hi_u16: "hi < 65536"
    and pos_range: "inv s \<Longrightarrow> lo \<le> pos s \<and> pos s \<le> hi"
    and alloc_id: "inv s \<Longrightarrow> fst (alloc s) = of_nat (pos s)"
    and alloc_pos: "inv s \<Longrightarrow> pos (snd (alloc s)) = (if pos s = hi then lo else Suc (pos s))"
    and alloc_inv: "inv s \<Longrightarrow> inv (snd (alloc s))"
begin

lemma unat_of_id: "n \<le> hi \<Longrightarrow> unat (of_nat n :: u16) = n"
  using hi_u16 by (simp add: unat_of_nat)

lemma alloc_range: "inv s \<Longrightarrow> lo \<le> unat (fst (alloc s)) \<and> unat (fst (alloc s)) \<le> hi"
  using pos_range [of s] by (simp add: alloc_id unat_of_id)

text \<open>The position after one call, as arithmetic modulo the size of the range.\<close>

lemma alloc_pos_mod:
  assumes "inv s"
  shows "pos (snd (alloc s)) - lo = (pos s - lo + 1) mod (hi - lo + 1)"
  using pos_range [OF assms] lo_hi
  by (auto simp: alloc_pos [OF assms] Suc_diff_le)

lemma alloc_seq_nth:
  "inv s \<Longrightarrow> i < n \<Longrightarrow> alloc_seq alloc n s ! i = of_nat (cyclic_slot lo hi (pos s) i)"
proof (induction n arbitrary: s i)
  case 0
  then show ?case by simp
next
  case (Suc n)
  show ?case
  proof (cases i)
    case 0
    have "(pos s - lo) mod (hi - lo + 1) = pos s - lo"
      using pos_range [OF Suc.prems(1)] by (intro mod_less) linarith
    then have "cyclic_slot lo hi (pos s) i = pos s"
      using pos_range [OF Suc.prems(1)] 0 by (simp add: cyclic_slot_def)
    then show ?thesis using 0 by (simp add: alloc_id [OF Suc.prems(1)])
  next
    case (Suc j)
    have "alloc_seq alloc n (snd (alloc s)) ! j = of_nat (cyclic_slot lo hi (pos (snd (alloc s))) j)"
      using Suc Suc.prems by (intro Suc.IH alloc_inv) auto
    moreover have "cyclic_slot lo hi (pos (snd (alloc s))) j = cyclic_slot lo hi (pos s) i"
      by (simp add: cyclic_slot_def Suc alloc_pos_mod [OF Suc.prems(1)] mod_simps)
    ultimately show ?thesis by (simp add: Suc)
  qed
qed

lemma unat_slot: "unat (of_nat (cyclic_slot lo hi p i) :: u16) = cyclic_slot lo hi p i"
  using cyclic_slot_range [OF lo_hi, of p i] by (intro unat_of_id) simp

lemma alloc_seq_range:
  assumes "inv s" and "x \<in> set (alloc_seq alloc n s)"
  shows "lo \<le> unat x \<and> unat x \<le> hi"
proof -
  from assms(2) obtain i where "i < n" "x = alloc_seq alloc n s ! i"
    by (auto simp: in_set_conv_nth)
  then show ?thesis
    using cyclic_slot_range [OF lo_hi] by (simp add: alloc_seq_nth [OF assms(1)] unat_slot)
qed

lemma alloc_seq_distinct:
  assumes "inv s" and "n \<le> hi - lo + 1"
  shows "distinct (alloc_seq alloc n s)"
  unfolding distinct_conv_nth length_alloc_seq
proof (intro allI impI)
  fix i j
  assume ij: "i < n" "j < n" "i \<noteq> j"
  show "alloc_seq alloc n s ! i \<noteq> alloc_seq alloc n s ! j"
  proof
    assume "alloc_seq alloc n s ! i = alloc_seq alloc n s ! j"
    then have "(of_nat (cyclic_slot lo hi (pos s) i) :: u16) = of_nat (cyclic_slot lo hi (pos s) j)"
      unfolding alloc_seq_nth [OF assms(1) ij(1)] alloc_seq_nth [OF assms(1) ij(2)] .
    from arg_cong [OF this, of unat]
    have "cyclic_slot lo hi (pos s) i = cyclic_slot lo hi (pos s) j"
      by (simp only: unat_slot)
    from cyclic_slot_inject [OF this] ij assms(2) have "i = j" by linarith
    with ij(3) show False by simp
  qed
qed

end

end
