(* ===== verification/Device_Bridge.thy ===== *)
theory Device_Bridge
  imports Socket_Can Command_Policy Device_Diagnostics Id_Allocation
begin

text \<open>
  \<open>device_bridge_node.cpp\<close>: the action server that turns one accepted command into CAN
  traffic, with acknowledgement, one retry, cancellation and protocol STOP.

  What the worker thread observes of the rest of the system is an environment indexed by a
  tick that every observation advances: whether the node still runs, whether the goal is
  being canceled, the steady clock, what the socket delivers and whether it accepts a
  frame. The theorems quantify over all environments, that is over all interleavings of the
  worker with the callbacks, the clock and the bus. A wait that never ends is \<open>None\<close>.
\<close>

section \<open>Data\<close>

record device_goal =
  dg_command_id :: u32
  dg_opcode :: u8
  dg_argument :: i32
  dg_ack_timeout :: duration
  dg_trace_id :: string

abbreviation FB_SENDING :: u8 where "FB_SENDING \<equiv> 1"
abbreviation FB_WAITING_ACK :: u8 where "FB_WAITING_ACK \<equiv> 2"
abbreviation FB_RETRYING :: u8 where "FB_RETRYING \<equiv> 3"
abbreviation FB_STOPPING :: u8 where "FB_STOPPING \<equiv> 4"

abbreviation DEVICE_STOPPED :: u8 where "DEVICE_STOPPED \<equiv> 3"

record bridge_config =
  bc_max_ack_timeout_ms :: int
  bc_receive_poll_ms :: int
  bc_stop_timeout_ms :: int
  bc_diagnostic_period_ms :: int
  bc_stage_log_enabled :: bool

record bridge_env =
  be_running :: "nat \<Rightarrow> bool"
  be_canceling :: "nat \<Rightarrow> bool"
  be_now :: "nat \<Rightarrow> int"
  be_receive :: "nat \<Rightarrow> int \<Rightarrow> receive_status"
  be_send :: "nat \<Rightarrow> raw_frame \<Rightarrow> string option"
  be_socket_open :: bool

record bridge =
  br_tick :: nat
  br_next_stop_command_id :: u16
  br_active_goal :: bool
  br_diag :: device_diag
  br_sent :: "(nat \<times> raw_frame) list"
  br_feedback :: "(u8 \<times> u8) list"
  br_diagnostics :: "diag_status list"
  br_stages :: "(string \<times> string) list"
  br_results :: "goal_terminal list"

definition bridge_init :: bridge where
  "bridge_init =
     \<lparr>br_tick = 0, br_next_stop_command_id = kStopCommandIdMin, br_active_goal = False,
      br_diag = device_diag_init, br_sent = [], br_feedback = [], br_diagnostics = [],
      br_stages = [], br_results = []\<rparr>"

datatype wait_result =
    WResponse response | WTimeout | WCanceled | WTransportError string | WShutdown string

definition kMaxRetries :: nat where "kMaxRetries = 1"

section \<open>Construction\<close>

definition clamp_int :: "int \<Rightarrow> int \<Rightarrow> int \<Rightarrow> int" where
  "clamp_int x lo hi = (if x < lo then lo else if hi < x then hi else x)"

definition bridge_configure :: "int \<Rightarrow> int \<Rightarrow> int \<Rightarrow> int \<Rightarrow> bool \<Rightarrow> string + bridge_config" where
  "bridge_configure max_timeout poll stop_timeout diagnostic_period stage_log =
     (if max_timeout \<le> 0 \<or> stop_timeout \<le> 0 \<or> 60000 < stop_timeout
      then Inl ''max_ack_timeout_ms must be positive''
      else if diagnostic_period \<le> 0 \<or> 60000 < diagnostic_period
      then Inl ''diagnostic_period_ms must be in [1, 60000]''
      else Inr \<lparr>bc_max_ack_timeout_ms = max_timeout, bc_receive_poll_ms = clamp_int poll 1 1000,
                bc_stop_timeout_ms = stop_timeout, bc_diagnostic_period_ms = diagnostic_period,
                bc_stage_log_enabled = stage_log\<rparr>)"

section \<open>Goal callbacks\<close>

definition bridge_handle_goal ::
  "bridge_config \<Rightarrow> bridge_env \<Rightarrow> device_goal \<Rightarrow> bridge \<Rightarrow> goal_response \<times> bridge" where
  "bridge_handle_goal cfg e g b =
     (if dg_command_id g = 0 \<or> 0xFFFF < dg_command_id g
      then (REJECT ''command_id must be in [1, 65535]'', b)
      else if duration_to_milliseconds (dg_ack_timeout g) (bc_max_ack_timeout_ms cfg) = None
      then (REJECT ''invalid ack_timeout'', b)
      else if \<not> be_socket_open e then (REJECT ''CAN socket is not ready'', b)
      else if br_active_goal b then (REJECT ''bridge is busy'', b)
      else (ACCEPT_AND_EXECUTE, b\<lparr>br_active_goal := True\<rparr>))"

section \<open>Small effects\<close>

definition br_update_diag :: "(device_diag \<Rightarrow> device_diag) \<Rightarrow> bridge \<Rightarrow> bridge" where
  "br_update_diag f b = b\<lparr>br_diag := f (br_diag b)\<rparr>"

definition br_publish_diagnostics :: "bridge_env \<Rightarrow> bridge \<Rightarrow> bridge" where
  "br_publish_diagnostics e b =
     b\<lparr>br_diagnostics := br_diagnostics b @ [dd_snapshot (be_socket_open e) (br_diag b)]\<rparr>"

definition br_publish_feedback :: "u8 \<Rightarrow> u8 \<Rightarrow> bridge \<Rightarrow> bridge" where
  "br_publish_feedback state retry b = b\<lparr>br_feedback := br_feedback b @ [(state, retry)]\<rparr>"

definition br_emit_stage ::
  "bridge_config \<Rightarrow> device_goal \<Rightarrow> string \<Rightarrow> string \<Rightarrow> bridge \<Rightarrow> bridge" where
  "br_emit_stage cfg g stage extra b =
     (if \<not> bc_stage_log_enabled cfg \<or> dg_trace_id g = [] then b
      else b\<lparr>br_stages := br_stages b @ [(stage, extra)]\<rparr>)"

text \<open>One transmission attempt: the error text of a failed one, else the frame is on the bus.\<close>

definition br_socket_send :: "bridge_env \<Rightarrow> raw_frame \<Rightarrow> bridge \<Rightarrow> string option \<times> bridge" where
  "br_socket_send e f b =
     (case be_send e (br_tick b) f of
        Some err \<Rightarrow> (Some err, b\<lparr>br_tick := Suc (br_tick b)\<rparr>)
      | None \<Rightarrow> (None, b\<lparr>br_tick := Suc (br_tick b), br_sent := br_sent b @ [(br_tick b, f)]\<rparr>))"

definition br_finish :: "goal_terminal \<Rightarrow> bridge \<Rightarrow> bridge" where
  "br_finish t b = b\<lparr>br_results := br_results b @ [t]\<rparr>"

definition br_finish_canceled :: "bridge_env \<Rightarrow> string \<Rightarrow> bridge \<Rightarrow> bridge" where
  "br_finish_canceled e message b =
     br_finish (GCanceled \<lparr>res_outcome = CANCELED, res_error_code = 0, res_message = message\<rparr>)
       (br_publish_diagnostics e (br_update_diag dd_record_canceled b))"

definition br_finish_aborted :: "u8 \<Rightarrow> u16 \<Rightarrow> string \<Rightarrow> bridge \<Rightarrow> bridge" where
  "br_finish_aborted outcome code message b =
     br_finish (GAborted \<lparr>res_outcome = outcome, res_error_code = code, res_message = message\<rparr>) b"

definition br_finish_safe_stop :: "u16 \<Rightarrow> string \<Rightarrow> bridge \<Rightarrow> bridge" where
  "br_finish_safe_stop code message b = br_finish_aborted SAFE_STOP code message b"

definition allocate_stop_command_id :: "u16 \<Rightarrow> u16 \<times> u16" where
  "allocate_stop_command_id next =
     (next, if next = 0xFFFF then kStopCommandIdMin else next + 1)"

section \<open>Waiting for a response\<close>

text \<open>
  One iteration of the wait loop observes the environment at one tick. Frames that do not
  decode, or that carry another command identifier, are ignored.
\<close>

partial_function (option) receive_wait ::
  "bridge_env \<Rightarrow> int \<Rightarrow> int \<Rightarrow> u16 \<Rightarrow> bool \<Rightarrow> nat \<Rightarrow> (wait_result \<times> nat) option" where
  "receive_wait e poll deadline expected observe_cancel t =
     (if \<not> be_running e t then Some (WShutdown ''bridge is shutting down'', Suc t)
      else if observe_cancel \<and> be_canceling e t then Some (WCanceled, Suc t)
      else if deadline \<le> be_now e t then Some (WTimeout, Suc t)
      else
        (case be_receive e t (min (ns_to_ms (deadline - be_now e t)) poll) of
           RxTimeout \<Rightarrow> receive_wait e poll deadline expected observe_cancel (Suc t)
         | RxError err \<Rightarrow> Some (WTransportError err, Suc t)
         | RxFrame f \<Rightarrow>
             (case decode_response f of
                Inl _ \<Rightarrow> receive_wait e poll deadline expected observe_cancel (Suc t)
              | Inr r \<Rightarrow>
                  if rsp_id r \<noteq> expected
                  then receive_wait e poll deadline expected observe_cancel (Suc t)
                  else Some (WResponse r, Suc t))))"

declare receive_wait.simps [code]

definition receive_response ::
  "bridge_config \<Rightarrow> bridge_env \<Rightarrow> u16 \<Rightarrow> int \<Rightarrow> bool \<Rightarrow> bridge \<Rightarrow> (wait_result \<times> bridge) option" where
  "receive_response cfg e expected timeout_ms observe_cancel b =
     (let deadline = be_now e (br_tick b) + timeout_ms * 1000000 in
      map_option (\<lambda>(w, t). (w, b\<lparr>br_tick := t\<rparr>))
        (receive_wait e (bc_receive_poll_ms cfg) deadline expected observe_cancel (Suc (br_tick b))))"

section \<open>Protocol STOP\<close>

definition stop_message :: "u16 \<Rightarrow> string" where
  "stop_message sid = ''device STOP acknowledged stop_command_id='' @ nat_to_string (unat sid)"

definition stop_command :: "u16 \<Rightarrow> u16 \<Rightarrow> command" where
  "stop_command sid original = \<lparr>cmd_id = sid, cmd_opcode = kStopOpcode, cmd_argument = ucast original\<rparr>"

text \<open>What the answer to the STOP frame means for the goal (the tail of \<open>stop_and_finish\<close>).\<close>

definition settle_stop ::
  "bridge_env \<Rightarrow> u16 \<Rightarrow> bool \<Rightarrow> u16 \<Rightarrow> string \<Rightarrow> wait_result \<Rightarrow> bridge \<Rightarrow> bridge" where
  "settle_stop e sid cancellation_requested code message w b =
     (let rejected = br_finish_safe_stop kErrorStopRejected
            (''device STOP response rejected stop_command_id='' @ nat_to_string (unat sid))
            (br_publish_diagnostics e
              (br_update_diag (dd_record_stop_failure kErrorStopRejected) b));
          transport = (\<lambda>err. br_finish_safe_stop kErrorTransport
            (''device STOP receive failed: '' @ err)
            (br_publish_diagnostics e
              (br_update_diag (dd_record_transport_error kErrorTransport) b)))
      in case w of
           WResponse r \<Rightarrow>
             if rsp_result r = 0 \<and> rsp_mode r = DEVICE_STOPPED
             then (if cancellation_requested then br_finish_canceled e (stop_message sid) b
                   else br_finish_safe_stop code (message @ ''; '' @ stop_message sid) b)
             else rejected
         | WTimeout \<Rightarrow>
             br_finish_safe_stop kErrorStopTimeout
               (''device STOP ACK timeout stop_command_id='' @ nat_to_string (unat sid))
               (br_publish_diagnostics e
                 (br_update_diag (dd_record_stop_failure kErrorStopTimeout) b))
         | WTransportError err \<Rightarrow> transport err
         | WShutdown err \<Rightarrow> transport err
         | WCanceled \<Rightarrow> rejected)"

definition stop_and_finish ::
  "bridge_config \<Rightarrow> bridge_env \<Rightarrow> u16 \<Rightarrow> bool \<Rightarrow> u16 \<Rightarrow> string \<Rightarrow> bridge \<Rightarrow> bridge option" where
  "stop_and_finish cfg e original cancellation_requested code message b0 =
     (let b1 = br_update_diag dd_mark_stopping b0;
          (sid, next) = allocate_stop_command_id (br_next_stop_command_id b1);
          b2 = b1\<lparr>br_next_stop_command_id := next\<rparr>;
          (sent, b3) = br_socket_send e (encode_command (stop_command sid original)) b2
      in case sent of
           Some err \<Rightarrow>
             Some (br_finish_safe_stop kErrorTransport (''STOP send failed: '' @ err)
               (br_publish_diagnostics e
                 (br_update_diag (dd_record_transport_error kErrorTransport) b3)))
         | None \<Rightarrow>
             map_option (\<lambda>(w, b4). settle_stop e sid cancellation_requested code message w b4)
               (receive_response cfg e sid (bc_stop_timeout_ms cfg) False
                 (br_publish_feedback FB_STOPPING 0 b3)))"

section \<open>The command transaction\<close>

definition attempt_extra :: "command \<Rightarrow> nat \<Rightarrow> string" where
  "attempt_extra c attempt =
     ''{\"command_id\":'' @ nat_to_string (unat (cmd_id c)) @
     '',\"retry_count\":'' @ nat_to_string attempt @ ''}''"

text \<open>
  The first half of a pass: feedback, encoding and transmission of the command frame, up to
  the point where the acknowledgement is awaited.
\<close>

definition send_attempt ::
  "bridge_config \<Rightarrow> bridge_env \<Rightarrow> device_goal \<Rightarrow> command \<Rightarrow> nat \<Rightarrow> bridge \<Rightarrow> string option \<times> bridge" where
  "send_attempt cfg e g c attempt b =
     (let b1 = br_update_diag dd_mark_sending
                 (br_publish_feedback FB_SENDING (of_nat attempt) b);
          extra = attempt_extra c attempt;
          frame = encode_command c;
          b2 = br_emit_stage cfg g ''can_encode_end'' extra
                 (br_emit_stage cfg g ''can_encode_start'' extra b1);
          (sent, b3) = br_socket_send e frame b2
      in case sent of
           Some err \<Rightarrow>
             (Some err, br_publish_diagnostics e
               (br_update_diag (dd_record_transport_error kErrorTransport) b3))
         | None \<Rightarrow>
             (None, br_emit_stage cfg g ''can_ack_wait_start'' extra
               (br_emit_stage cfg g ''can_frame_sent'' extra
                 (br_update_diag dd_mark_waiting_ack
                   (br_publish_feedback FB_WAITING_ACK (of_nat attempt) b3)))))"

text \<open>A matching response that no cancellation has overtaken decides the goal.\<close>

definition settle_response ::
  "bridge_config \<Rightarrow> bridge_env \<Rightarrow> device_goal \<Rightarrow> command \<Rightarrow> nat \<Rightarrow> response \<Rightarrow> bridge \<Rightarrow> bridge" where
  "settle_response cfg e g c attempt r b =
     (if rsp_result r = 0 then
        br_finish (GSucceeded \<lparr>res_outcome = COMPLETED, res_error_code = 0,
                     res_message = ''device acknowledged command''\<rparr>)
          (br_emit_stage cfg g ''can_ack_received'' (attempt_extra c attempt)
            (br_publish_diagnostics e (br_update_diag dd_record_success b)))
      else
        let code = device_error_code (rsp_result r) in
        br_finish_aborted DEVICE_FAULT code
          (''device returned result_code='' @ nat_to_string (unat (rsp_result r)))
          (br_publish_diagnostics e (br_update_diag (dd_record_device_fault code) b)))"

text \<open>
  One pass of the retry loop and the passes after it. \<open>command_sent\<close> is set once a
  transmission of the command succeeded; the first observation of every pass is the
  cancellation flag.
\<close>

function execute_attempts ::
  "bridge_config \<Rightarrow> bridge_env \<Rightarrow> device_goal \<Rightarrow> command \<Rightarrow> int \<Rightarrow> nat \<Rightarrow> bool \<Rightarrow> bridge \<Rightarrow> bridge option"
where
  "execute_attempts cfg e g c ack_ms attempt command_sent b0 =
     (let canceling = be_canceling e (br_tick b0); b = b0\<lparr>br_tick := Suc (br_tick b0)\<rparr> in
      if canceling then
        (if \<not> command_sent then Some (br_finish_canceled e ''command canceled before CAN send'' b)
         else stop_and_finish cfg e (cmd_id c) True 0 [] b)
      else
        case send_attempt cfg e g c attempt b of
          (Some err, b3) \<Rightarrow>
            Some (br_finish_aborted SAFE_STOP kErrorTransport (''CAN send failed: '' @ err) b3)
        | (None, b4) \<Rightarrow>
            (case receive_response cfg e (cmd_id c) ack_ms True b4 of
               None \<Rightarrow> None
             | Some (WResponse r, b5) \<Rightarrow>
                 (let canceled = be_canceling e (br_tick b5);
                      b6 = b5\<lparr>br_tick := Suc (br_tick b5)\<rparr>
                  in if canceled then stop_and_finish cfg e (cmd_id c) True 0 [] b6
                     else Some (settle_response cfg e g c attempt r b6))
             | Some (WCanceled, b5) \<Rightarrow> stop_and_finish cfg e (cmd_id c) True 0 [] b5
             | Some (WTransportError err, b5) \<Rightarrow>
                 stop_and_finish cfg e (cmd_id c) False kErrorTransport
                   (''CAN receive failed: '' @ err @ ''; attempting device STOP'')
                   (br_publish_diagnostics e
                     (br_update_diag (dd_record_transport_error kErrorTransport) b5))
             | Some (WShutdown err, b5) \<Rightarrow>
                 stop_and_finish cfg e (cmd_id c) False kErrorShutdown
                   (err @ ''; attempting device STOP'') b5
             | Some (WTimeout, b5) \<Rightarrow>
                 if attempt < kMaxRetries then
                   execute_attempts cfg e g c ack_ms (Suc attempt) True
                     (br_publish_diagnostics e
                       (br_update_diag dd_record_retry
                         (br_publish_feedback FB_RETRYING (of_nat (Suc attempt)) b5)))
                 else
                   stop_and_finish cfg e (cmd_id c) False kErrorAckTimeout
                     ''command ACK timeout; attempting device STOP''
                     (br_emit_stage cfg g ''can_retry_exhausted'' (attempt_extra c attempt)
                       (br_publish_diagnostics e
                         (br_update_diag (dd_record_ack_timeout kErrorAckTimeout)
                           (br_publish_feedback FB_STOPPING (of_nat attempt) b5))))))"
  by pat_completeness auto
termination
  by (relation "measure (\<lambda>(cfg, e, g, c, ack_ms, attempt, command_sent, b). Suc kMaxRetries - attempt)")
    (auto simp: kMaxRetries_def)

declare execute_attempts.simps [simp del]

definition goal_command :: "device_goal \<Rightarrow> command" where
  "goal_command g =
     \<lparr>cmd_id = ucast (dg_command_id g), cmd_opcode = dg_opcode g, cmd_argument = dg_argument g\<rparr>"

text \<open>The worker: the destructor of \<open>ActiveGuard\<close> releases the bridge on every path.\<close>

definition bridge_execute ::
  "bridge_config \<Rightarrow> bridge_env \<Rightarrow> device_goal \<Rightarrow> bridge \<Rightarrow> bridge option" where
  "bridge_execute cfg e g b =
     map_option (\<lambda>b'. b'\<lparr>br_active_goal := False\<rparr>)
       (case duration_to_milliseconds (dg_ack_timeout g) (bc_max_ack_timeout_ms cfg) of
          None \<Rightarrow>
            Some (br_finish_aborted DEVICE_FAULT kErrorInvalidGoal
              ''ack_timeout became invalid before execution'' b)
        | Some ack_ms \<Rightarrow> execute_attempts cfg e g (goal_command g) ack_ms 0 False b)"

definition bridge_handle_accepted ::
  "bridge_config \<Rightarrow> bridge_env \<Rightarrow> device_goal \<Rightarrow> bridge \<Rightarrow> bridge option" where
  "bridge_handle_accepted cfg e g b =
     bridge_execute cfg e g (br_update_diag (dd_begin_command (ucast (dg_command_id g))) b)"

section \<open>Waiting: evidence and termination\<close>

text \<open>A frame that decodes to \<open>r\<close> came off the bus at a tick from \<open>t0\<close> on.\<close>

definition heard :: "bridge_env \<Rightarrow> nat \<Rightarrow> response \<Rightarrow> bool" where
  "heard e t0 r \<longleftrightarrow>
     (\<exists>t \<ge> t0. \<exists>ms f. be_receive e t ms = RxFrame f \<and> decode_response f = Inr r)"

text \<open>The steady clock passes every deadline.\<close>

definition clock_unbounded :: "bridge_env \<Rightarrow> bool" where
  "clock_unbounded e \<longleftrightarrow> (\<forall>d t0. \<exists>t \<ge> t0. d \<le> be_now e t)"

definition wait_evidence ::
  "bridge_env \<Rightarrow> int \<Rightarrow> u16 \<Rightarrow> bool \<Rightarrow> nat \<Rightarrow> wait_result \<times> nat \<Rightarrow> bool" where
  "wait_evidence e deadline expected observe_cancel t wt \<longleftrightarrow>
     t < snd wt \<and>
     (case fst wt of
        WResponse r \<Rightarrow> rsp_id r = expected \<and> heard e t r
      | WTimeout \<Rightarrow> deadline \<le> be_now e (snd wt - 1)
      | WCanceled \<Rightarrow> observe_cancel \<and> be_canceling e (snd wt - 1)
      | WTransportError err \<Rightarrow> True
      | WShutdown err \<Rightarrow> \<not> be_running e (snd wt - 1))"

lemma heard_mono: "heard e t r \<Longrightarrow> s \<le> t \<Longrightarrow> heard e s r"
  unfolding heard_def by (meson order_trans)

lemma wait_evidence_Suc:
  "wait_evidence e d ex oc (Suc t) wt \<Longrightarrow> wait_evidence e d ex oc t wt"
  by (auto simp: wait_evidence_def split: wait_result.splits intro: heard_mono)

lemma wait_evidence_now [simp]:
  "wait_evidence e d ex oc t (WTimeout, Suc t) \<longleftrightarrow> d \<le> be_now e t"
  "wait_evidence e d ex oc t (WCanceled, Suc t) \<longleftrightarrow> oc \<and> be_canceling e t"
  "wait_evidence e d ex oc t (WTransportError err, Suc t)"
  "wait_evidence e d ex oc t (WShutdown err, Suc t) \<longleftrightarrow> \<not> be_running e t"
  "wait_evidence e d ex oc t (WResponse r, Suc t) \<longleftrightarrow> rsp_id r = ex \<and> heard e t r"
  by (simp_all add: wait_evidence_def)

lemma heard_now: "be_receive e t ms = RxFrame f \<Longrightarrow> decode_response f = Inr r \<Longrightarrow> heard e t r"
  by (auto simp: heard_def)

lemma receive_wait_evidence:
  "receive_wait e poll deadline expected oc t = Some wt \<Longrightarrow>
     wait_evidence e deadline expected oc t wt"
proof (induction rule: receive_wait.raw_induct [rotated 1, consumes 1, case_names step])
  case (step rw e poll deadline expected oc t wt)
  note IH = wait_evidence_Suc [OF step.IH]
  from step.hyps show ?case
    by (cases oc) (auto split: if_splits receive_status.splits sum.splits intro: IH heard_now)
qed

lemma receive_wait_returns:
  "deadline \<le> be_now e (t + n) \<Longrightarrow> \<exists>wt. receive_wait e poll deadline expected oc t = Some wt"
proof (induction n arbitrary: t)
  case 0
  then show ?case by (subst receive_wait.simps) simp
next
  case (Suc n)
  have "\<exists>wt. receive_wait e poll deadline expected oc (Suc t) = Some wt"
    by (rule Suc.IH) (use Suc.prems in simp)
  then show ?case
    by (subst receive_wait.simps) (auto split: receive_status.splits sum.splits)
qed

lemma receive_response_returns:
  assumes "clock_unbounded e"
  obtains w t where "receive_response cfg e expected ms oc b = Some (w, b\<lparr>br_tick := t\<rparr>)"
proof -
  obtain t where t: "t \<ge> Suc (br_tick b)" "be_now e (br_tick b) + ms * 1000000 \<le> be_now e t"
    using assms unfolding clock_unbounded_def by blast
  have "\<exists>wt. receive_wait e (bc_receive_poll_ms cfg) (be_now e (br_tick b) + ms * 1000000) expected oc
       (Suc (br_tick b)) = Some wt"
    by (rule receive_wait_returns [of _ e "Suc (br_tick b)" "t - Suc (br_tick b)"]) (use t in simp)
  then obtain wt where
    "receive_wait e (bc_receive_poll_ms cfg) (be_now e (br_tick b) + ms * 1000000) expected oc
       (Suc (br_tick b)) = Some wt" ..
  then show thesis using that by (cases wt) (auto simp: receive_response_def)
qed

lemma receive_response_evidence:
  assumes "receive_response cfg e expected ms oc b = Some (w, b')"
  shows "\<exists>t. b' = b\<lparr>br_tick := t\<rparr> \<and>
    wait_evidence e (be_now e (br_tick b) + ms * 1000000) expected oc (Suc (br_tick b)) (w, t)"
  using assms by (auto simp: receive_response_def Let_def dest: receive_wait_evidence)

section \<open>Frame lemmas of the effects\<close>

lemmas bridge_effects =
  br_update_diag_def br_publish_diagnostics_def br_publish_feedback_def br_emit_stage_def
  br_finish_def br_finish_canceled_def br_finish_aborted_def br_finish_safe_stop_def

lemma effects_sent [ops]:
  "br_sent (br_update_diag f b) = br_sent b"
  "br_sent (br_publish_diagnostics e b) = br_sent b"
  "br_sent (br_publish_feedback x y b) = br_sent b"
  "br_sent (br_emit_stage cfg g st ex b) = br_sent b"
  "br_sent (br_finish t b) = br_sent b"
  "br_sent (br_finish_canceled e m b) = br_sent b"
  "br_sent (br_finish_aborted oc code m b) = br_sent b"
  "br_sent (br_finish_safe_stop code m b) = br_sent b"
  by (simp_all add: bridge_effects)

lemma effects_results [ops]:
  "br_results (br_update_diag f b) = br_results b"
  "br_results (br_publish_diagnostics e b) = br_results b"
  "br_results (br_publish_feedback x y b) = br_results b"
  "br_results (br_emit_stage cfg g st ex b) = br_results b"
  "br_results (br_finish t b) = br_results b @ [t]"
  "br_results (br_finish_canceled e m b) = br_results b @
     [GCanceled \<lparr>res_outcome = CANCELED, res_error_code = 0, res_message = m\<rparr>]"
  "br_results (br_finish_aborted oc code m b) = br_results b @
     [GAborted \<lparr>res_outcome = oc, res_error_code = code, res_message = m\<rparr>]"
  "br_results (br_finish_safe_stop code m b) = br_results b @
     [GAborted \<lparr>res_outcome = SAFE_STOP, res_error_code = code, res_message = m\<rparr>]"
  by (simp_all add: bridge_effects)

lemma effects_tick [ops]:
  "br_tick (br_update_diag f b) = br_tick b"
  "br_tick (br_publish_diagnostics e b) = br_tick b"
  "br_tick (br_publish_feedback x y b) = br_tick b"
  "br_tick (br_emit_stage cfg g st ex b) = br_tick b"
  by (simp_all add: bridge_effects)

lemma effects_next_stop [ops]:
  "br_next_stop_command_id (br_update_diag f b) = br_next_stop_command_id b"
  "br_next_stop_command_id (br_publish_diagnostics e b) = br_next_stop_command_id b"
  "br_next_stop_command_id (br_publish_feedback x y b) = br_next_stop_command_id b"
  "br_next_stop_command_id (br_emit_stage cfg g st ex b) = br_next_stop_command_id b"
  "br_next_stop_command_id (br_finish t b) = br_next_stop_command_id b"
  "br_next_stop_command_id (br_finish_canceled e m b) = br_next_stop_command_id b"
  "br_next_stop_command_id (br_finish_aborted oc code m b) = br_next_stop_command_id b"
  "br_next_stop_command_id (br_finish_safe_stop code m b) = br_next_stop_command_id b"
  by (simp_all add: bridge_effects)

section \<open>What one command may do on the bus\<close>

text \<open>
  The contract of the worker, without timers, feedback or diagnostics: the frames a run puts
  on the bus (each with its tick) and the terminal result it reports. It restates what
  \<open>docs/cancel-stop-sequence.md\<close> promises.
\<close>

definition stop_acknowledged :: "bridge_env \<Rightarrow> nat \<Rightarrow> u16 \<Rightarrow> bool" where
  "stop_acknowledged e t0 sid \<longleftrightarrow>
     (\<exists>r. heard e t0 r \<and> rsp_id r = sid \<and> rsp_result r = 0 \<and> rsp_mode r = DEVICE_STOPPED)"

definition safe_stop_with :: "u16 \<Rightarrow> goal_terminal \<Rightarrow> bool" where
  "safe_stop_with code t \<longleftrightarrow>
     (\<exists>m. t = GAborted \<lparr>res_outcome = SAFE_STOP, res_error_code = code, res_message = m\<rparr>)"

definition canceled_ok :: "goal_terminal \<Rightarrow> bool" where
  "canceled_ok t \<longleftrightarrow>
     (\<exists>m. t = GCanceled \<lparr>res_outcome = CANCELED, res_error_code = 0, res_message = m\<rparr>)"

inductive stop_run ::
  "bridge_env \<Rightarrow> nat \<Rightarrow> u16 \<Rightarrow> u16 \<Rightarrow> bool \<Rightarrow> u16 \<Rightarrow> (nat \<times> raw_frame) list \<Rightarrow> goal_terminal \<Rightarrow> bool"
  for e k sid original cancellation code where
  stop_unsent: "safe_stop_with kErrorTransport t \<Longrightarrow> stop_run e k sid original cancellation code [] t"
| stop_acked: "stop_acknowledged e (Suc k) sid \<Longrightarrow>
    (if cancellation then canceled_ok t else safe_stop_with code t) \<Longrightarrow>
    stop_run e k sid original cancellation code [(k, encode_command (stop_command sid original))] t"
| stop_failed: "safe_stop_with c t \<Longrightarrow>
    c \<in> {kErrorStopRejected, kErrorStopTimeout, kErrorTransport} \<Longrightarrow>
    stop_run e k sid original cancellation code [(k, encode_command (stop_command sid original))] t"

inductive attempt_run ::
  "bridge_env \<Rightarrow> command \<Rightarrow> u16 \<Rightarrow> bool \<Rightarrow> nat \<Rightarrow> (nat \<times> raw_frame) list \<Rightarrow> goal_terminal \<Rightarrow> bool"
  for e c sid where
  run_cancel_unsent: "canceled_ok t \<Longrightarrow> attempt_run e c sid False n [] t"
| run_cancel_sent: "stop_run e k sid (cmd_id c) True 0 fs t \<Longrightarrow> attempt_run e c sid True n fs t"
| run_send_failed: "safe_stop_with kErrorTransport t \<Longrightarrow> attempt_run e c sid sent n [] t"
| run_completed: "\<not> be_canceling e k \<Longrightarrow> heard e (Suc k) r \<Longrightarrow> rsp_id r = cmd_id c \<Longrightarrow>
    rsp_result r = 0 \<Longrightarrow>
    t = GSucceeded \<lparr>res_outcome = COMPLETED, res_error_code = 0, res_message = m\<rparr> \<Longrightarrow>
    attempt_run e c sid sent n [(Suc k, encode_command c)] t"
| run_fault: "\<not> be_canceling e k \<Longrightarrow> heard e (Suc k) r \<Longrightarrow> rsp_id r = cmd_id c \<Longrightarrow>
    rsp_result r \<noteq> 0 \<Longrightarrow>
    t = GAborted \<lparr>res_outcome = DEVICE_FAULT, res_error_code = device_error_code (rsp_result r),
                   res_message = m\<rparr> \<Longrightarrow>
    attempt_run e c sid sent n [(Suc k, encode_command c)] t"
| run_stop: "\<not> be_canceling e k \<Longrightarrow> stop_run e l sid (cmd_id c) cancellation code fs t \<Longrightarrow>
    attempt_run e c sid sent n ((Suc k, encode_command c) # fs) t"
| run_retry: "\<not> be_canceling e k \<Longrightarrow> n < kMaxRetries \<Longrightarrow> attempt_run e c sid True (Suc n) fs t \<Longrightarrow>
    attempt_run e c sid sent n ((Suc k, encode_command c) # fs) t"

section \<open>The worker refines the contract\<close>

lemma receive_response_Some:
  "receive_response cfg e ex ms oc b = Some (w, b') \<Longrightarrow>
     br_sent b' = br_sent b \<and> br_results b' = br_results b \<and>
     br_next_stop_command_id b' = br_next_stop_command_id b \<and>
     (\<forall>r. w = WResponse r \<longrightarrow> rsp_id r = ex \<and> heard e (br_tick b) r) \<and>
     (w = WCanceled \<longrightarrow> oc)"
  by (drule receive_response_evidence) (auto simp: wait_evidence_def intro: heard_mono)

lemma safe_stop_with_intro:
  "safe_stop_with c (GAborted \<lparr>res_outcome = SAFE_STOP, res_error_code = c, res_message = m\<rparr>)"
  by (simp add: safe_stop_with_def)

lemma canceled_ok_intro:
  "canceled_ok (GCanceled \<lparr>res_outcome = CANCELED, res_error_code = 0, res_message = m\<rparr>)"
  by (simp add: canceled_ok_def)

lemma settle_stop_run:
  assumes "\<And>r. w = WResponse r \<Longrightarrow> rsp_id r = sid \<and> heard e (Suc k) r"
    and "br_sent b = fs @ [(k, encode_command (stop_command sid original))]"
    and "b' = settle_stop e sid cancellation code message w b"
  shows "\<exists>gs t. stop_run e k sid original cancellation code gs t \<and>
    br_sent b' = fs @ gs \<and> br_results b' = br_results b @ [t]"
proof -
  define acked where "acked \<longleftrightarrow>
    (\<exists>r. w = WResponse r \<and> rsp_result r = 0 \<and> rsp_mode r = DEVICE_STOPPED)"
  show ?thesis
  proof (cases acked)
    case True
    then have "stop_acknowledged e (Suc k) sid"
      using assms(1) by (auto simp: acked_def stop_acknowledged_def)
    with True assms(2,3) show ?thesis
      by (auto simp: acked_def settle_stop_def ops
          intro!: stop_acked safe_stop_with_intro canceled_ok_intro)
  next
    case False
    with assms(2,3) show ?thesis
      by (cases w) (auto simp: acked_def settle_stop_def ops
          intro!: stop_failed safe_stop_with_intro)
  qed
qed

lemma stop_and_finish_run:
  assumes "stop_and_finish cfg e original cancellation code message b = Some b'"
  shows "\<exists>fs t. stop_run e (br_tick b) (br_next_stop_command_id b) original cancellation code fs t \<and>
    br_sent b' = br_sent b @ fs \<and> br_results b' = br_results b @ [t]"
proof (cases "be_send e (br_tick b)
    (encode_command (stop_command (br_next_stop_command_id b) original))")
  case (Some err)
  with assms show ?thesis
    by (auto simp: stop_and_finish_def allocate_stop_command_id_def br_socket_send_def ops
        Let_def intro!: stop_unsent safe_stop_with_intro)
next
  case None
  let ?sid = "br_next_stop_command_id b"
  from assms None obtain x w b4 where
    w: "receive_response cfg e ?sid (bc_stop_timeout_ms cfg) False x = Some (w, b4)"
    and x: "br_tick x = Suc (br_tick b)" "br_results x = br_results b"
      "br_sent x = br_sent b @ [(br_tick b, encode_command (stop_command ?sid original))]"
    and b': "b' = settle_stop e ?sid cancellation code message w b4"
    unfolding stop_and_finish_def allocate_stop_command_id_def br_socket_send_def Let_def
    by (auto simp: ops)
  note r = receive_response_Some [OF w]
  show ?thesis
    using settle_stop_run [OF _ _ b', where k = "br_tick b" and fs = "br_sent b" and original = original] r x by auto
qed

lemma send_attempt_effect:
  assumes "send_attempt cfg e g c n b = (err, x)"
  shows "br_results x = br_results b \<and> br_next_stop_command_id x = br_next_stop_command_id b \<and>
    br_tick x = Suc (br_tick b) \<and>
    br_sent x = (if err = None then br_sent b @ [(br_tick b, encode_command c)] else br_sent b)"
  using assms
  by (auto simp: send_attempt_def br_socket_send_def Let_def ops split: option.splits)

lemma execute_attempts_run:
  "execute_attempts cfg e g c ack_ms n sent b = Some b' \<Longrightarrow>
     \<exists>fs t. attempt_run e c (br_next_stop_command_id b) sent n fs t \<and>
       br_sent b' = br_sent b @ fs \<and> br_results b' = br_results b @ [t]"
proof (induction cfg e g c ack_ms n sent b rule: execute_attempts.induct)
  case (1 cfg e g c ack_ms n sent b)
  note step = "1.prems" [unfolded execute_attempts.simps [of cfg e g c ack_ms n sent b] Let_def]
  let ?sid = "br_next_stop_command_id b" and ?k = "br_tick b" and ?f = "encode_command c"
  let ?b = "b\<lparr>br_tick := Suc ?k\<rparr>"
  show ?case
  proof (cases "be_canceling e ?k")
    case True
    show ?thesis
    proof (cases sent)
      case True
      with \<open>be_canceling e ?k\<close> step
      have "stop_and_finish cfg e (cmd_id c) True 0 [] ?b = Some b'" by simp
      from stop_and_finish_run [OF this] True show ?thesis by (auto intro: run_cancel_sent)
    next
      case False
      with \<open>be_canceling e ?k\<close> step show ?thesis
        by (auto simp: ops intro!: run_cancel_unsent canceled_ok_intro)
    qed
  next
    case run: False
    obtain err x where send: "send_attempt cfg e g c n ?b = (err, x)" by fastforce
    show ?thesis
    proof (cases err)
      case (Some m)
      with run step send send_attempt_effect [OF send] show ?thesis
        by (auto simp: ops intro!: run_send_failed safe_stop_with_intro)
    next
      case None
      with send_attempt_effect [OF send]
      have x: "br_tick x = Suc (Suc ?k)" "br_results x = br_results b"
        "br_next_stop_command_id x = ?sid" "br_sent x = br_sent b @ [(Suc ?k, ?f)]" by simp_all
      note step = step [unfolded send None]
      show ?thesis
      proof (cases "receive_response cfg e (cmd_id c) ack_ms True x")
        case None
        with step run show ?thesis by simp
      next
        case (Some wb)
        obtain w b5 where wb: "wb = (w, b5)" by fastforce
        note w = Some [unfolded wb]
        note r = receive_response_Some [OF w]
        have stop: "\<exists>fs t. attempt_run e c ?sid sent n fs t \<and>
            br_sent b' = br_sent b @ fs \<and> br_results b' = br_results b @ [t]"
          if "stop_and_finish cfg e (cmd_id c) cancellation code message y = Some b'"
            "br_sent y = br_sent b5" "br_results y = br_results b5"
            "br_next_stop_command_id y = br_next_stop_command_id b5"
          for cancellation code message y
          using stop_and_finish_run [OF that(1)] that r x run
          by (fastforce intro: run_stop)
        show ?thesis
        proof (cases w)
          case (WResponse rsp)
          show ?thesis
          proof (cases "be_canceling e (br_tick b5)")
            case True
            with step run w WResponse show ?thesis by (auto intro!: stop)
          next
            case False
            with step run w WResponse have b': "b' = settle_response cfg e g c n rsp
                (b5\<lparr>br_tick := Suc (br_tick b5)\<rparr>)" by simp
            from r x WResponse have "heard e (Suc ?k) rsp" "rsp_id rsp = cmd_id c"
              by (auto intro: heard_mono)
            with run r x show ?thesis unfolding b'
              by (cases "rsp_result rsp = 0")
                (force simp: settle_response_def ops Let_def intro: run_completed run_fault)+
          qed
        next
          case WTimeout
          show ?thesis
          proof (cases "n < kMaxRetries")
            case True
            let ?y = "br_publish_diagnostics e (br_update_diag dd_record_retry
              (br_publish_feedback FB_RETRYING (of_nat (Suc n)) b5))"
            from step run w WTimeout True
            have "execute_attempts cfg e g c ack_ms (Suc n) True ?y = Some b'" by simp
            from "1.IH" [OF refl refl run send [symmetric] None w refl WTimeout True this]
            show ?thesis using r x run True by (fastforce simp: ops intro: run_retry)
          next
            case False
            with step run w WTimeout show ?thesis by (auto simp: ops intro!: stop)
          qed
        qed (use step run w in \<open>auto simp: ops intro!: stop\<close>)
      qed
    qed
  qed
qed

lemma execute_attempts_returns:
  "clock_unbounded e \<Longrightarrow> \<exists>b'. execute_attempts cfg e g c ack_ms n sent b = Some b'"
proof (induction cfg e g c ack_ms n sent b rule: execute_attempts.induct)
  case (1 cfg e g c ack_ms n sent b)
  have stop: "\<exists>b'. stop_and_finish cfg e original canc code message y = Some b'"
    for original canc code message y
  proof -
    obtain s y' where sy: "br_socket_send e (encode_command (stop_command
        (br_next_stop_command_id (br_update_diag dd_mark_stopping y)) original))
        (br_update_diag dd_mark_stopping y
           \<lparr>br_next_stop_command_id := snd (allocate_stop_command_id
              (br_next_stop_command_id (br_update_diag dd_mark_stopping y)))\<rparr>) = (s, y')"
      by fastforce
    obtain w t where "receive_response cfg e (br_next_stop_command_id (br_update_diag dd_mark_stopping y))
        (bc_stop_timeout_ms cfg) False (br_publish_feedback FB_STOPPING 0 y') =
        Some (w, br_publish_feedback FB_STOPPING 0 y'\<lparr>br_tick := t\<rparr>)"
      by (rule receive_response_returns [OF "1.prems"])
    with sy show ?thesis
      by (cases s) (auto simp: stop_and_finish_def allocate_stop_command_id_def Let_def)
  qed
  let ?b = "b\<lparr>br_tick := Suc (br_tick b)\<rparr>"
  show ?case
  proof (cases "be_canceling e (br_tick b)")
    case True
    then show ?thesis
      using stop by (subst execute_attempts.simps) (auto simp: Let_def)
  next
    case run: False
    obtain err x where send: "send_attempt cfg e g c n ?b = (err, x)" by fastforce
    show ?thesis
    proof (cases err)
      case (Some m)
      with run send show ?thesis by (subst execute_attempts.simps) (simp add: Let_def)
    next
      case None
      obtain w t where w: "receive_response cfg e (cmd_id c) ack_ms True x = Some (w, x\<lparr>br_tick := t\<rparr>)"
        by (rule receive_response_returns [OF "1.prems"])
      have "\<exists>b'. execute_attempts cfg e g c ack_ms (Suc n) True
          (br_publish_diagnostics e (br_update_diag dd_record_retry
            (br_publish_feedback FB_RETRYING (of_nat (Suc n)) (x\<lparr>br_tick := t\<rparr>)))) = Some b'"
        if "w = WTimeout" "n < kMaxRetries"
        by (rule "1.IH" [OF refl refl run send [symmetric] None w refl that "1.prems"])
      with run send None w stop show ?thesis
        by (subst execute_attempts.simps) (cases w; simp add: Let_def del: not_None_eq)
    qed
  qed
qed

section \<open>Consequences of the contract\<close>

lemmas run_defs = safe_stop_with_def canceled_ok_def

inductive_cases stop_runE: "stop_run e k sid original cancellation code fs t"

definition stop_frames :: "u16 \<Rightarrow> u16 \<Rightarrow> (nat \<times> raw_frame) list \<Rightarrow> bool" where
  "stop_frames sid original fs \<longleftrightarrow>
     fs = [] \<or> (\<exists>k. fs = [(k, encode_command (stop_command sid original))])"

lemma stop_run_frames: "stop_run e k sid original cancellation code fs t \<Longrightarrow> stop_frames sid original fs"
  by (auto simp: stop_frames_def elim: stop_runE)

lemma stop_run_not_completed: "stop_run e k sid original canc code fs t \<Longrightarrow> t \<noteq> GSucceeded r"
  by (auto simp: run_defs elim!: stop_runE split: if_splits)

lemma stop_run_canceled:
  "stop_run e k sid original canc code fs (GCanceled r) \<Longrightarrow>
     fs = [(k, encode_command (stop_command sid original))] \<and> stop_acknowledged e (Suc k) sid"
  by (auto simp: run_defs elim!: stop_runE split: if_splits)

lemma attempt_run_frames:
  "attempt_run e c sid sent n fs t \<Longrightarrow> n \<le> kMaxRetries \<Longrightarrow>
     \<exists>cmds stops. fs = cmds @ stops \<and> length cmds \<le> Suc kMaxRetries - n \<and>
       (\<forall>(k, f) \<in> set cmds. f = encode_command c \<and> \<not> be_canceling e (k - 1)) \<and>
       stop_frames sid (cmd_id c) stops"
proof (induction rule: attempt_run.induct)
  case (run_stop k l canc code fs t sent n)
  then show ?case
    by (intro exI [of _ "[(Suc k, encode_command c)]"] exI [of _ fs])
      (auto dest: stop_run_frames)
next
  case (run_retry k n fs t sent)
  then obtain cmds stops where "fs = cmds @ stops" "length cmds \<le> Suc kMaxRetries - Suc n"
    "\<forall>(k, f) \<in> set cmds. f = encode_command c \<and> \<not> be_canceling e (k - 1)"
    "stop_frames sid (cmd_id c) stops" by auto
  with run_retry show ?case
    by (intro exI [of _ "(Suc k, encode_command c) # cmds"] exI [of _ stops]) auto
next
  case (run_cancel_sent k fs t n)
  then show ?case
    by (intro exI [of _ "[]"] exI [of _ fs]) (auto dest: stop_run_frames)
next
  case (run_completed k r t m sent n)
  then show ?case
    by (intro exI [of _ "[(Suc k, encode_command c)]"] exI [of _ "[]"]) (auto simp: stop_frames_def)
next
  case (run_fault k r t m sent n)
  then show ?case
    by (intro exI [of _ "[(Suc k, encode_command c)]"] exI [of _ "[]"]) (auto simp: stop_frames_def)
qed (auto simp: stop_frames_def)

lemma attempt_run_completed:
  "attempt_run e c sid sent n fs t \<Longrightarrow> t = GSucceeded r \<Longrightarrow>
     res_outcome r = COMPLETED \<and> (\<exists>cmds k rsp. fs = cmds @ [(Suc k, encode_command c)] \<and>
       heard e (Suc k) rsp \<and> rsp_id rsp = cmd_id c \<and> rsp_result rsp = 0)"
proof (induction rule: attempt_run.induct)
  case (run_completed k rsp t m sent n)
  then show ?case by (intro conjI exI [of _ "[]"] exI [of _ k] exI [of _ rsp]) auto
next
  case (run_retry k n fs t sent)
  then obtain cmds l rsp where "fs = cmds @ [(Suc l, encode_command c)]"
    "heard e (Suc l) rsp" "rsp_id rsp = cmd_id c" "rsp_result rsp = 0" "res_outcome r = COMPLETED"
    by blast
  then show ?case
    by (intro conjI exI [of _ "(Suc k, encode_command c) # cmds"] exI [of _ l] exI [of _ rsp]) auto
qed (auto simp: run_defs dest: stop_run_not_completed)

lemma attempt_run_canceled:
  "attempt_run e c sid sent n fs t \<Longrightarrow> t = GCanceled r \<Longrightarrow>
     (\<not> sent \<and> fs = []) \<or>
     (\<exists>cmds k. fs = cmds @ [(k, encode_command (stop_command sid (cmd_id c)))] \<and>
        stop_acknowledged e (Suc k) sid)"
proof (induction rule: attempt_run.induct)
  case (run_retry k n fs t sent)
  then obtain cmds l where "fs = cmds @ [(l, encode_command (stop_command sid (cmd_id c)))]"
    "stop_acknowledged e (Suc l) sid" by auto
  then show ?case by (intro disjI2 exI [of _ "(Suc k, encode_command c) # cmds"] exI [of _ l]) auto
next
  case (run_stop k l canc code fs t sent n)
  then have "fs = [(l, encode_command (stop_command sid (cmd_id c)))] \<and> stop_acknowledged e (Suc l) sid"
    using stop_run_canceled by blast
  then show ?case by (intro disjI2 exI [of _ "[(Suc k, encode_command c)]"] exI [of _ l]) auto
next
  case (run_cancel_sent k fs t n)
  then show ?case using stop_run_canceled by fastforce
qed (auto simp: run_defs)

text \<open>Every run of the accepted goal is a run of the contract, or ends before any frame.\<close>

lemma bridge_handle_accepted_run:
  assumes "bridge_handle_accepted cfg e g b = Some b'"
  obtains (invalid) "br_sent b' = br_sent b"
      "br_results b' = br_results b @ [GAborted \<lparr>res_outcome = DEVICE_FAULT,
         res_error_code = kErrorInvalidGoal,
         res_message = ''ack_timeout became invalid before execution''\<rparr>]"
    | (run) fs t where
      "attempt_run e (goal_command g) (br_next_stop_command_id b) False 0 fs t"
      "br_sent b' = br_sent b @ fs" "br_results b' = br_results b @ [t]"
  using assms
  by (auto simp: bridge_handle_accepted_def bridge_execute_def ops split: option.splits
      dest!: execute_attempts_run)

section \<open>STOP identifiers\<close>

interpretation stop_ids: id_allocator allocate_stop_command_id unat
  "\<lambda>s. kStopCommandIdMin \<le> s" "unat kStopCommandIdMin" 65535
proof unfold_locales
  fix s :: u16
  assume s: "kStopCommandIdMin \<le> s"
  then have le: "unat kStopCommandIdMin \<le> unat s" by (simp add: word_le_nat_alt)
  have "unat s < 2 ^ LENGTH(16)" by (rule unsigned_less)
  with le show "unat kStopCommandIdMin \<le> unat s \<and> unat s \<le> 65535" by simp
  show "fst (allocate_stop_command_id s) = of_nat (unat s)"
    by (simp add: allocate_stop_command_id_def)
  have top: "unat s = 65535 \<longleftrightarrow> s = 0xFFFF"
    using word_unat_eq_iff [of s "0xFFFF"] by simp
  have "unat (s + 1) = Suc (unat s)" if "s \<noteq> 0xFFFF"
    using that top \<open>unat s < 2 ^ LENGTH(16)\<close> by (simp add: unat_word_ariths)
  with top show "unat (snd (allocate_stop_command_id s)) =
      (if unat s = 65535 then unat kStopCommandIdMin else Suc (unat s))"
    by (simp add: allocate_stop_command_id_def)
  then show "kStopCommandIdMin \<le> snd (allocate_stop_command_id s)"
    using le by (auto simp: word_le_nat_alt split: if_splits)
qed (simp_all add: kStopCommandIdMin_def)

lemma receive_wait_response:
  "be_running e t \<Longrightarrow> \<not> (oc \<and> be_canceling e t) \<Longrightarrow> be_now e t < deadline \<Longrightarrow>
     be_receive e t (min (ns_to_ms (deadline - be_now e t)) poll) = RxFrame f \<Longrightarrow>
     decode_response f = Inr r \<Longrightarrow> rsp_id r = ex \<Longrightarrow>
     receive_wait e poll deadline ex oc t = Some (WResponse r, Suc t)"
  by (subst receive_wait.simps) auto

lemma receive_wait_canceled:
  "be_running e t \<Longrightarrow> oc \<Longrightarrow> be_canceling e t \<Longrightarrow>
     receive_wait e poll deadline ex oc t = Some (WCanceled, Suc t)"
  by (subst receive_wait.simps) auto

section \<open>Properties\<close>

definition example_bridge_config :: bridge_config where
  "example_bridge_config =
     \<lparr>bc_max_ack_timeout_ms = 5000, bc_receive_poll_ms = 25, bc_stop_timeout_ms = 500,
      bc_diagnostic_period_ms = 1000, bc_stage_log_enabled = False\<rparr>"

text \<open>Two buses: one acknowledges command 7, the other STOP 0x8000 of a canceled command.\<close>

definition acknowledging_bus :: bridge_env where
  "acknowledging_bus =
     \<lparr>be_running = \<lambda>t. True, be_canceling = \<lambda>t. False, be_now = \<lambda>t. int t,
      be_receive = \<lambda>t ms. RxFrame (encode_response
        \<lparr>rsp_id = 7, rsp_result = 0, rsp_mode = 1, rsp_detail = [0, 0, 0]\<rparr>),
      be_send = \<lambda>t f. None, be_socket_open = True\<rparr>"

definition canceling_bus :: bridge_env where
  "canceling_bus =
     \<lparr>be_running = \<lambda>t. True, be_canceling = \<lambda>t. 3 \<le> t, be_now = \<lambda>t. int t,
      be_receive = \<lambda>t ms. RxFrame (encode_response
        \<lparr>rsp_id = 0x8000, rsp_result = 0, rsp_mode = DEVICE_STOPPED, rsp_detail = [0, 0, 0]\<rparr>),
      be_send = \<lambda>t f. None, be_socket_open = True\<rparr>"

definition example_goal :: device_goal where
  "example_goal = \<lparr>dg_command_id = 7, dg_opcode = 1, dg_argument = 10,
     dg_ack_timeout = \<lparr>dur_sec = 1, dur_nanosec = 0\<rparr>, dg_trace_id = []\<rparr>"

lemma acknowledging_bus_fields [simp]:
  "be_running acknowledging_bus t" "\<not> be_canceling acknowledging_bus t"
  "be_now acknowledging_bus t = int t" "be_send acknowledging_bus t f = None"
  "be_receive acknowledging_bus t ms = RxFrame (encode_response
     \<lparr>rsp_id = 7, rsp_result = 0, rsp_mode = 1, rsp_detail = [0, 0, 0]\<rparr>)"
  by (simp_all add: acknowledging_bus_def)

lemma canceling_bus_fields [simp]:
  "be_running canceling_bus t" "be_canceling canceling_bus t \<longleftrightarrow> 3 \<le> t"
  "be_now canceling_bus t = int t" "be_send canceling_bus t f = None"
  "be_receive canceling_bus t ms = RxFrame (encode_response
     \<lparr>rsp_id = 0x8000, rsp_result = 0, rsp_mode = DEVICE_STOPPED, rsp_detail = [0, 0, 0]\<rparr>)"
  by (simp_all add: canceling_bus_def)

lemma example_run:
  "bridge_handle_accepted example_bridge_config e example_goal b =
     map_option (\<lambda>b'. b'\<lparr>br_active_goal := False\<rparr>)
       (execute_attempts example_bridge_config e example_goal
         \<lparr>cmd_id = 7, cmd_opcode = 1, cmd_argument = 10\<rparr> 1000 0 False
         (br_update_diag (dd_begin_command 7) b))"
proof -
  have "duration_to_milliseconds (dg_ack_timeout example_goal)
    (bc_max_ack_timeout_ms example_bridge_config) = Some 1000"
    by (simp add: example_goal_def example_bridge_config_def duration_to_milliseconds_def
        total_nanoseconds_def kNanosecondsPerSecond_def kNanosecondsPerMillisecond_def Let_def)
  then show ?thesis
    by (simp add: bridge_handle_accepted_def bridge_execute_def goal_command_def)
      (simp add: example_goal_def)
qed

text \<open>C7. Once the clock passes the deadlines, the worker returns: an accepted goal gets exactly
  one terminal result, whatever the bus, the cancellation flag and the socket do, and the
  bridge is free again.\<close>

theorem bridge_reports_exactly_one_result:
  assumes "clock_unbounded e"
  shows "\<exists>b' t. bridge_handle_accepted cfg e g b = Some b' \<and>
    br_results b' = br_results b @ [t] \<and> \<not> br_active_goal b'"
proof -
  let ?b = "br_update_diag (dd_begin_command (ucast (dg_command_id g))) b"
  have "\<exists>b'. bridge_handle_accepted cfg e g b = Some b'"
    using execute_attempts_returns [OF assms]
    by (auto simp: bridge_handle_accepted_def bridge_execute_def split: option.splits)
  then obtain b' where b': "bridge_handle_accepted cfg e g b = Some b'" ..
  moreover from b' have "\<not> br_active_goal b'"
    by (auto simp: bridge_handle_accepted_def bridge_execute_def)
  ultimately show ?thesis by (cases rule: bridge_handle_accepted_run [OF b']) auto
qed

theorem bridge_reports_exactly_one_result_witness:
  "\<exists>b' t. bridge_handle_accepted example_bridge_config acknowledging_bus example_goal bridge_init
     = Some b' \<and> br_results b' = br_results bridge_init @ [t] \<and> \<not> br_active_goal b'"
proof (rule bridge_reports_exactly_one_result)
  have "\<exists>t \<ge> t0. d \<le> int t" for d t0 by (rule exI [of _ "max t0 (nat d)"]) simp
  then show "clock_unbounded acknowledging_bus"
    by (simp add: clock_unbounded_def acknowledging_bus_def)
qed

text \<open>C5. A run reports COMPLETED only when its last frame on the bus was the command itself and
  a response with the command's identifier and result 0 came off the bus after it.\<close>

theorem bridge_completed_only_after_ack:
  assumes "bridge_handle_accepted cfg e g b = Some b'"
    and "br_results b' = br_results b @ [GSucceeded r]"
  shows "\<exists>cmds k rsp.
    br_sent b' = br_sent b @ cmds @ [(Suc k, encode_command (goal_command g))] \<and>
    heard e (Suc k) rsp \<and> rsp_id rsp = cmd_id (goal_command g) \<and> rsp_result rsp = 0"
  using assms(1)
proof (cases rule: bridge_handle_accepted_run)
  case invalid
  with assms(2) show ?thesis by simp
next
  case (run fs t)
  with assms(2) attempt_run_completed [OF run(1), of r] show ?thesis by auto
qed

theorem bridge_completed_only_after_ack_witness:
  "\<exists>cmds k rsp. br_sent (the (bridge_handle_accepted example_bridge_config acknowledging_bus
       example_goal bridge_init)) =
     br_sent bridge_init @ cmds @ [(Suc k, encode_command (goal_command example_goal))] \<and>
     heard acknowledging_bus (Suc k) rsp \<and> rsp_id rsp = cmd_id (goal_command example_goal) \<and>
     rsp_result rsp = 0"
proof -
  have "map_option br_results (bridge_handle_accepted example_bridge_config acknowledging_bus
     example_goal bridge_init) = Some [GSucceeded \<lparr>res_outcome = COMPLETED, res_error_code = 0,
       res_message = ''device acknowledged command''\<rparr>]"
    unfolding example_run
    by (subst execute_attempts.simps)
      (simp add: send_attempt_def settle_response_def br_socket_send_def receive_response_def
        receive_wait_response ops Let_def decode_encode_response response_wf_def
        example_bridge_config_def bridge_init_def)
  then obtain b' where "bridge_handle_accepted example_bridge_config acknowledging_bus
     example_goal bridge_init = Some b'" "br_results b' = br_results bridge_init @
     [GSucceeded \<lparr>res_outcome = COMPLETED, res_error_code = 0,
       res_message = ''device acknowledged command''\<rparr>]"
    by (auto simp: bridge_init_def)
  from bridge_completed_only_after_ack [OF this] this(1) show ?thesis by simp
qed

text \<open>C4. A run reports CANCELED only if it put no frame on the bus at all, or its last frame was a
  STOP naming the command and a response to that STOP, with result 0 and mode STOPPED, came off
  the bus after it: a cancellation is never reported while the device may still be moving.\<close>

theorem bridge_canceled_means_unsent_or_stopped:
  assumes "bridge_handle_accepted cfg e g b = Some b'"
    and "br_results b' = br_results b @ [GCanceled r]"
  shows "br_sent b' = br_sent b \<or>
    (\<exists>cmds k sid. br_sent b' = br_sent b @ cmds @
         [(k, encode_command (stop_command sid (cmd_id (goal_command g))))] \<and>
       stop_acknowledged e (Suc k) sid)"
  using assms(1)
proof (cases rule: bridge_handle_accepted_run)
  case invalid
  then show ?thesis by simp
next
  case (run fs t)
  with assms(2) attempt_run_canceled [OF run(1), of r] show ?thesis by auto
qed

theorem bridge_canceled_means_unsent_or_stopped_witness:
  "\<exists>b'. bridge_handle_accepted example_bridge_config canceling_bus example_goal bridge_init = Some b' \<and>
     (br_sent b' = br_sent bridge_init \<or>
      (\<exists>cmds k sid. br_sent b' = br_sent bridge_init @ cmds @
           [(k, encode_command (stop_command sid (cmd_id (goal_command example_goal))))] \<and>
         stop_acknowledged canceling_bus (Suc k) sid))"
proof -
  have "map_option br_results (bridge_handle_accepted example_bridge_config canceling_bus
     example_goal bridge_init) = Some [GCanceled \<lparr>res_outcome = CANCELED, res_error_code = 0,
       res_message = stop_message 0x8000\<rparr>]"
    unfolding example_run
    by (subst execute_attempts.simps)
      (simp add: send_attempt_def br_socket_send_def receive_response_def receive_wait_canceled
        receive_wait_response stop_and_finish_def settle_stop_def allocate_stop_command_id_def
        ops Let_def decode_encode_response response_wf_def example_bridge_config_def
        bridge_init_def kStopCommandIdMin_def)
  then obtain b' where b': "bridge_handle_accepted example_bridge_config canceling_bus
     example_goal bridge_init = Some b'" "br_results b' = br_results bridge_init @
     [GCanceled \<lparr>res_outcome = CANCELED, res_error_code = 0, res_message = stop_message 0x8000\<rparr>]"
    by (auto simp: bridge_init_def)
  from bridge_canceled_means_unsent_or_stopped [OF b'] b'(1) show ?thesis by blast
qed

lemma bridge_goal_frames:
  assumes "bridge_handle_accepted cfg e g b = Some b'"
  shows "\<exists>cmds stops. br_sent b' = br_sent b @ cmds @ stops \<and> length cmds \<le> 2 \<and>
    (\<forall>(k, f) \<in> set cmds. f = encode_command (goal_command g) \<and> \<not> be_canceling e (k - 1)) \<and>
    stop_frames (br_next_stop_command_id b) (cmd_id (goal_command g)) stops"
  using assms
proof (cases rule: bridge_handle_accepted_run)
  case invalid
  then show ?thesis by (intro exI [of _ "[]"]) (simp add: stop_frames_def)
next
  case (run fs t)
  from attempt_run_frames [OF run(1)] obtain cmds stops where
    "fs = cmds @ stops" "length cmds \<le> Suc kMaxRetries"
    "\<forall>(k, f) \<in> set cmds. f = encode_command (goal_command g) \<and> \<not> be_canceling e (k - 1)"
    "stop_frames (br_next_stop_command_id b) (cmd_id (goal_command g)) stops" by auto
  with run(2) show ?thesis
    by (intro exI [of _ cmds] exI [of _ stops]) (simp add: kMaxRetries_def)
qed

text \<open>C6. One accepted goal puts at most two copies of its own command frame on the bus, each sent
  only after an observation that the goal was not being canceled, and at most one STOP frame,
  which names the command and comes last.\<close>

theorem bridge_frames_of_one_command:
  assumes "bridge_handle_accepted cfg e g b = Some b'"
  shows "\<exists>cmds stops. br_sent b' = br_sent b @ cmds @ stops \<and> length cmds \<le> 2 \<and>
    (\<forall>(k, f) \<in> set cmds. f = encode_command (goal_command g) \<and> \<not> be_canceling e (k - 1)) \<and>
    stop_frames (br_next_stop_command_id b) (cmd_id (goal_command g)) stops"
  using assms by (rule bridge_goal_frames)

lemma canceling_bus_returns:
  "\<exists>b'. bridge_handle_accepted example_bridge_config canceling_bus example_goal bridge_init = Some b'"
proof -
  have "\<exists>t \<ge> t0. d \<le> int t" for d t0 by (rule exI [of _ "max t0 (nat d)"]) simp
  then have "clock_unbounded canceling_bus" by (simp add: clock_unbounded_def)
  from execute_attempts_returns [OF this] show ?thesis unfolding example_run by fastforce
qed

theorem bridge_frames_of_one_command_witness:
  "\<exists>b' cmds stops.
     bridge_handle_accepted example_bridge_config canceling_bus example_goal bridge_init = Some b' \<and>
     br_sent b' = br_sent bridge_init @ cmds @ stops \<and> length cmds \<le> 2 \<and>
     (\<forall>(k, f) \<in> set cmds. f = encode_command (goal_command example_goal) \<and>
        \<not> be_canceling canceling_bus (k - 1)) \<and>
     stop_frames (br_next_stop_command_id bridge_init) (cmd_id (goal_command example_goal)) stops"
proof -
  from canceling_bus_returns obtain b' where
    "bridge_handle_accepted example_bridge_config canceling_bus example_goal bridge_init = Some b'" ..
  with bridge_frames_of_one_command [OF this] show ?thesis by blast
qed

text \<open>C35. The STOP identifiers the bridge hands out stay in [0x8000, 0xFFFF], above every
  application identifier, and no identifier comes back before 32768 STOPs have been sent.\<close>

theorem bridge_stop_ids_fresh_and_disjoint:
  assumes "kStopCommandIdMin \<le> s" and "n \<le> 32768"
  shows "distinct (alloc_seq allocate_stop_command_id n s) \<and>
    set (alloc_seq allocate_stop_command_id n s) \<inter> {1 .. kApplicationCommandIdMax} = {}"
proof
  show "distinct (alloc_seq allocate_stop_command_id n s)"
    by (rule stop_ids.alloc_seq_distinct [OF assms(1)])
      (use assms(2) in \<open>simp add: kStopCommandIdMin_def\<close>)
  show "set (alloc_seq allocate_stop_command_id n s) \<inter> {1 .. kApplicationCommandIdMax} = {}"
    using stop_ids.alloc_seq_range [OF assms(1)]
    by (fastforce simp: word_le_nat_alt kStopCommandIdMin_def kApplicationCommandIdMax_def)
qed

theorem bridge_stop_ids_fresh_and_disjoint_witness:
  "distinct (alloc_seq allocate_stop_command_id 3 0xFFFE) \<and>
   set (alloc_seq allocate_stop_command_id 3 0xFFFE) \<inter> {1 .. kApplicationCommandIdMax} = {}"
  by (rule bridge_stop_ids_fresh_and_disjoint) (simp_all add: kStopCommandIdMin_def)

text \<open>The bridge accepts a goal exactly when its identifier fits a frame, its timeout converts,
  the socket is open and no other goal is active; accepting marks it busy, rejecting changes
  nothing.\<close>

lemma bridge_accepts_iff_idle_and_valid:
  "if 1 \<le> uint (dg_command_id g) \<and> uint (dg_command_id g) \<le> 65535 \<and>
      duration_to_milliseconds (dg_ack_timeout g) (bc_max_ack_timeout_ms cfg) \<noteq> None \<and>
      be_socket_open e \<and> \<not> br_active_goal b
   then bridge_handle_goal cfg e g b = (ACCEPT_AND_EXECUTE, b\<lparr>br_active_goal := True\<rparr>)
   else (\<exists>reason. bridge_handle_goal cfg e g b = (REJECT reason, b))"
proof -
  have "dg_command_id g = 0 \<longleftrightarrow> \<not> 1 \<le> uint (dg_command_id g)"
    using uint_ge_0 [of "dg_command_id g"] uint_0_iff [of "dg_command_id g"] by linarith
  moreover have "0xFFFF < dg_command_id g \<longleftrightarrow> \<not> uint (dg_command_id g) \<le> 65535"
    by (simp add: word_less_def not_le)
  ultimately show ?thesis by (auto simp: bridge_handle_goal_def)
qed

text \<open>
  Nothing that ends the wait before tick \<open>T\<close>: the receiver times out, or a frame comes
  that is no response or answers another command.
\<close>

definition quiet_until :: "bridge_env \<Rightarrow> nat \<Rightarrow> u16 \<Rightarrow> bool" where
  "quiet_until e T expected \<longleftrightarrow> (\<forall>t < T. be_running e t \<and> \<not> be_canceling e t \<and>
     (\<forall>f. be_send e t f = None) \<and>
     (\<forall>ms. case be_receive e t ms of RxTimeout \<Rightarrow> True | RxError err \<Rightarrow> False
       | RxFrame f \<Rightarrow> (\<forall>r. decode_response f = Inr r \<longrightarrow> rsp_id r \<noteq> expected)))"

lemma receive_wait_first:
  assumes "quiet_until e T expected" and "t \<le> T" and "\<forall>s \<le> T. be_now e s < deadline"
    and "be_running e T" "\<not> be_canceling e T" "\<And>ms. be_receive e T ms = RxFrame f"
    and "decode_response f = Inr r" "rsp_id r = expected"
  shows "receive_wait e poll deadline expected oc t = Some (WResponse r, Suc T)"
  using assms(2)
proof (induction "T - t" arbitrary: t)
  case 0
  then have "t = T" by simp
  with assms show ?case by (auto intro!: receive_wait_response)
next
  case (Suc n)
  then have t: "t < T" by simp
  with Suc have rest: "receive_wait e poll deadline expected oc (Suc t) = Some (WResponse r, Suc T)"
    by simp
  have "be_running e t" "\<not> be_canceling e t" "be_now e t < deadline"
    and "case be_receive e t (min (ns_to_ms (deadline - be_now e t)) poll) of
        RxTimeout \<Rightarrow> True | RxError err \<Rightarrow> False
       | RxFrame f \<Rightarrow> (\<forall>r. decode_response f = Inr r \<longrightarrow> rsp_id r \<noteq> expected)"
    using assms(1,3) t by (simp_all add: quiet_until_def)
  then show ?case
    by (subst receive_wait.simps) (auto simp: rest split: receive_status.splits sum.splits)
qed

lemma first_answer_decides:
  assumes "bridge_handle_goal cfg e g b0 = (ACCEPT_AND_EXECUTE, b1)"
    and "duration_to_milliseconds (dg_ack_timeout g) (bc_max_ack_timeout_ms cfg) = Some ack_ms"
    and "br_tick b0 + 3 \<le> T" "quiet_until e T (cmd_id (goal_command g))"
    and "\<forall>t \<ge> T. be_running e t \<and> \<not> be_canceling e t"
    and "\<And>ms. be_receive e T ms = RxFrame f" "decode_response f = Inr r"
      "rsp_id r = cmd_id (goal_command g)"
    and "\<forall>t \<le> T. be_now e t < be_now e (br_tick b0 + 2) + ack_ms * 1000000"
  shows "\<exists>b2. bridge_handle_accepted cfg e g b1 = Some b2 \<and> \<not> br_active_goal b2 \<and>
    br_sent b2 = br_sent b0 @ [(Suc (br_tick b0), encode_command (goal_command g))] \<and>
    br_results b2 = br_results b0 @
      [if rsp_result r = 0
       then GSucceeded \<lparr>res_outcome = COMPLETED, res_error_code = 0,
              res_message = ''device acknowledged command''\<rparr>
       else GAborted \<lparr>res_outcome = DEVICE_FAULT, res_error_code = device_error_code (rsp_result r),
              res_message = ''device returned result_code='' @ nat_to_string (unat (rsp_result r))\<rparr>]"
proof -
  let ?c = "goal_command g" and ?k = "br_tick b0"
  define b where "b = br_update_diag (dd_begin_command (ucast (dg_command_id g))) b1"
  have b: "br_tick b = ?k" "br_sent b = br_sent b0" "br_results b = br_results b0"
    using assms(1) by (auto simp: b_def ops bridge_handle_goal_def split: if_splits)
  obtain err x where send: "send_attempt cfg e g ?c 0 (b\<lparr>br_tick := Suc ?k\<rparr>) = (err, x)" by fastforce
  have calm: "\<not> be_canceling e ?k" "be_send e (Suc ?k) frame = None" for frame
    using assms(3,4) by (simp_all add: quiet_until_def)
  then have "err = None" using send by (auto simp: send_attempt_def br_socket_send_def Let_def ops)
  with send_attempt_effect [OF send] b have x: "br_tick x = ?k + 2" "br_results x = br_results b0"
    "br_sent x = br_sent b0 @ [(Suc ?k, encode_command ?c)]" by simp_all
  have "receive_response cfg e (cmd_id ?c) ack_ms True x = Some (WResponse r, x\<lparr>br_tick := Suc T\<rparr>)"
    unfolding receive_response_def Let_def x(1)
    by (subst receive_wait_first [OF assms(4) _ assms(9) _ _ assms(6,7,8)])
      (use assms(3,5) in \<open>auto simp: eval_nat_numeral\<close>)
  then have "execute_attempts cfg e g ?c ack_ms 0 False b =
      Some (settle_response cfg e g ?c 0 r (x\<lparr>br_tick := Suc (Suc T)\<rparr>))"
    using calm(1) send \<open>err = None\<close> assms(5) b(1)
    by (subst execute_attempts.simps) (simp add: Let_def)
  then have "bridge_handle_accepted cfg e g b1 =
      Some ((settle_response cfg e g ?c 0 r (x\<lparr>br_tick := Suc (Suc T)\<rparr>))\<lparr>br_active_goal := False\<rparr>)"
    by (simp add: bridge_handle_accepted_def bridge_execute_def assms(2) b_def)
  then show ?thesis using x by (auto simp: settle_response_def Let_def ops)
qed

text \<open>C8. The first answer decides: when nothing cancels or stops the bridge and sending works, the first
  matching response that arrives before the acknowledgement deadline, whatever other frames and
  receive timeouts come before it, ends the goal. The command was sent once; the result is COMPLETED for
  result 0 and otherwise the device's fault with its code; the bridge is free again.
\<close>

theorem bridge_reports_first_answer:
  assumes "bridge_handle_goal cfg e g b0 = (ACCEPT_AND_EXECUTE, b1)"
    and "duration_to_milliseconds (dg_ack_timeout g) (bc_max_ack_timeout_ms cfg) = Some ack_ms"
    and "br_tick b0 + 3 \<le> T" "quiet_until e T (cmd_id (goal_command g))"
    and "\<forall>t \<ge> T. be_running e t \<and> \<not> be_canceling e t"
    and "\<And>ms. be_receive e T ms = RxFrame f" "decode_response f = Inr r"
      "rsp_id r = cmd_id (goal_command g)"
    and "\<forall>t \<le> T. be_now e t < be_now e (br_tick b0 + 2) + ack_ms * 1000000"
  shows "\<exists>b2. bridge_handle_accepted cfg e g b1 = Some b2 \<and> \<not> br_active_goal b2 \<and>
    br_sent b2 = br_sent b0 @ [(Suc (br_tick b0), encode_command (goal_command g))] \<and>
    br_results b2 = br_results b0 @
      [if rsp_result r = 0
       then GSucceeded \<lparr>res_outcome = COMPLETED, res_error_code = 0,
              res_message = ''device acknowledged command''\<rparr>
       else GAborted \<lparr>res_outcome = DEVICE_FAULT, res_error_code = device_error_code (rsp_result r),
              res_message = ''device returned result_code='' @ nat_to_string (unat (rsp_result r))\<rparr>]"
  using assms by (rule first_answer_decides)

text \<open>A receive timeout, an answer to another command, and then the answer at tick 6.\<close>

definition answering_bus :: bridge_env where
  "answering_bus = acknowledging_bus\<lparr>be_receive := \<lambda>t ms.
     if t = 6 then RxFrame (encode_response \<lparr>rsp_id = 7, rsp_result = 2, rsp_mode = 1, rsp_detail = [0, 0, 0]\<rparr>)
     else if t = 5 then RxFrame (encode_response \<lparr>rsp_id = 9, rsp_result = 0, rsp_mode = 1, rsp_detail = [0, 0, 0]\<rparr>)
     else RxTimeout\<rparr>"

theorem bridge_reports_first_answer_witness:
  "\<exists>b2. bridge_handle_accepted example_bridge_config answering_bus example_goal
       (bridge_init\<lparr>br_active_goal := True\<rparr>) = Some b2 \<and>
     br_sent b2 = [(1, encode_command (goal_command example_goal))] \<and>
     br_results b2 = [GAborted \<lparr>res_outcome = DEVICE_FAULT, res_error_code = device_error_code 2,
       res_message = ''device returned result_code=2''\<rparr>]"
proof -
  let ?r = "\<lparr>rsp_id = 7, rsp_result = 2, rsp_mode = 1, rsp_detail = [0, 0, 0]\<rparr>"
  have goal: "bridge_handle_goal example_bridge_config answering_bus example_goal bridge_init =
      (ACCEPT_AND_EXECUTE, bridge_init\<lparr>br_active_goal := True\<rparr>)" by code_simp
  have ack: "duration_to_milliseconds (dg_ack_timeout example_goal)
      (bc_max_ack_timeout_ms example_bridge_config) = Some 1000" by code_simp
  have id: "cmd_id (goal_command example_goal) = 7" by code_simp
  have answers: "decode_response (encode_response ?r) = Inr ?r"
    "decode_response (encode_response (?r\<lparr>rsp_id := 9, rsp_result := 0\<rparr>)) = Inr (?r\<lparr>rsp_id := 9, rsp_result := 0\<rparr>)"
    by code_simp+
  have quiet: "quiet_until answering_bus 6 (cmd_id (goal_command example_goal))"
    unfolding id using answers(2) by (simp add: quiet_until_def answering_bus_def)
  have answer: "\<And>ms. be_receive answering_bus 6 ms = RxFrame (encode_response ?r)"
    and running: "\<forall>t \<ge> 6. be_running answering_bus t \<and> \<not> be_canceling answering_bus t"
    and time: "\<forall>t \<le> 6. be_now answering_bus t < be_now answering_bus (br_tick bridge_init + 2) + 1000 * 1000000"
    and tick: "br_tick bridge_init + 3 \<le> 6"
    and matches: "rsp_id ?r = cmd_id (goal_command example_goal)"
    by (simp_all add: answering_bus_def bridge_init_def id)
  have two: "nat_to_string 2 = ''2''" by code_simp
  show ?thesis
    using bridge_reports_first_answer [OF goal ack tick quiet running answer answers(1) matches time]
    by (auto simp: bridge_init_def two)
qed

end
