(* ===== verification/Bridge_Device.thy ===== *)
theory Bridge_Device
  imports Virtual_Device Device_Bridge "HOL-Library.Sublist"
begin

text \<open>
  The bridge and the device together: the frames of \<open>Device_Bridge\<close>'s runs are the input of
  \<open>Virtual_Device\<close>'s receive loop, over a bus that may lose any of them. A device starts a command
  when its identifier is not in the replay cache; retransmissions are answered from the cache.
\<close>

section \<open>What a device starts\<close>

text \<open>The commands the receive loop treats as new, and the device it leaves.\<close>

fun device_after :: "raw_frame list \<Rightarrow> virtual_device \<Rightarrow> virtual_device" where
  "device_after [] d = d"
| "device_after (f # fs) d =
     (case decode_command f of Inl _ \<Rightarrow> device_after fs d
      | Inr c \<Rightarrow> device_after fs (process_command True 0 c d))"

fun device_started :: "raw_frame list \<Rightarrow> virtual_device \<Rightarrow> command list" where
  "device_started [] d = []"
| "device_started (f # fs) d =
     (case decode_command f of Inl _ \<Rightarrow> device_started fs d
      | Inr c \<Rightarrow> (if map_of (vd_cache d) (cmd_id c) = None then [c] else []) @
                device_started fs (process_command True 0 c d))"

lemma device_after_receive_loop:
  "device_after fs d = receive_loop (map (\<lambda>f. (RxFrame f, True, 0)) fs) d"
  by (induction fs d rule: device_after.induct) (simp_all split: sum.split)

lemma device_started_append: "device_started (fs @ gs) d = device_started fs d @ device_started gs (device_after fs d)"
  by (induction fs d rule: device_started.induct) (simp_all split: sum.split)

lemma process_command_caches:
  assumes "device_inv d"
  shows "map_of (vd_cache (process_command ok st c d)) (cmd_id c) \<noteq> None"
proof (cases "map_of (vd_cache d) (cmd_id c)")
  case None
  with cache_command_cache(1) [OF assms None] show ?thesis
    by (simp add: process_new(1) map_of_None_fst)
next
  case (Some e)
  then show ?thesis by (simp add: process_known(1))
qed

lemma device_started_cached:
  "map_of (vd_cache d) (cmd_id c) \<noteq> None \<Longrightarrow> device_started (replicate n (encode_command c)) d = []"
proof (induction n arbitrary: d)
  case (Suc n)
  then obtain e where "map_of (vd_cache d) (cmd_id c) = Some e" by blast
  with Suc.IH [of "process_command True 0 c d"] show ?case by (simp add: process_known(1))
qed simp

lemma device_started_copies:
  assumes "device_inv d"
  shows "device_started (replicate n (encode_command c)) d =
    (if n = 0 \<or> map_of (vd_cache d) (cmd_id c) \<noteq> None then [] else [c])"
proof (cases n)
  case (Suc m)
  have "device_started (replicate m (encode_command c)) (process_command True 0 c d) = []"
    by (rule device_started_cached [OF process_command_caches [OF assms]])
  with Suc show ?thesis by simp
qed simp

lemma subseq_replicate:
  assumes "subseq xs (replicate n x)"
  shows "xs = replicate (length xs) x"
proof (rule replicate_eqI)
  fix y assume "y \<in> set xs"
  from list_emb_set [OF assms this] obtain z where "z \<in> set (replicate n x)" "y = z" by blast
  then show "y = x" by simp
qed simp

text \<open>Over a bus that loses any of its frames, one goal makes the device start its command at most once,
  however often the bridge retransmits it, and then at most one STOP that names it; nothing else
  is started, whatever the device had processed before.
\<close>

lemma goal_device_starts:
  assumes "bridge_handle_accepted cfg e g b = Some b'" and "device_inv d"
    and "subseq fs (map snd (drop (length (br_sent b)) (br_sent b')))"
  shows "\<exists>sid cs ss. device_started fs d = cs @ ss \<and> cs \<in> {[], [goal_command g]} \<and>
    ss \<in> {[], [stop_command sid (cmd_id (goal_command g))]}"
proof -
  let ?c = "goal_command g"
  obtain cmds stops where sent: "br_sent b' = br_sent b @ cmds @ stops"
    and copies: "\<forall>(k, f) \<in> set cmds. f = encode_command ?c"
    and stops: "stop_frames (br_next_stop_command_id b) (cmd_id ?c) stops"
    using bridge_goal_frames [OF assms(1)] by fast
  have "map snd cmds = replicate (length cmds) (encode_command ?c)"
    by (rule replicate_eqI) (use copies in auto)
  with sent assms(3) have "subseq fs (replicate (length cmds) (encode_command ?c) @ map snd stops)"
    by simp
  then obtain fs1 fs2 where fs: "fs = fs1 @ fs2"
    and fs1: "subseq fs1 (replicate (length cmds) (encode_command ?c))"
    and fs2: "subseq fs2 (map snd stops)"
    by (metis subseq_appendE)
  from subseq_replicate [OF fs1] have "device_started fs1 d \<in> {[], [?c]}"
    using device_started_copies [OF assms(2), of "length fs1" ?c] by (metis insertCI)
  moreover obtain sid where "device_started fs2 (device_after fs1 d) \<in> {[], [stop_command sid (cmd_id ?c)]}"
  proof (cases "fs2 = []")
    case False
    with fs2 stops obtain sid where "subseq fs2 (replicate 1 (encode_command (stop_command sid (cmd_id ?c))))"
      by (auto simp: stop_frames_def)
    moreover from list_emb_length [OF this] False have "length fs2 = 1" by (cases fs2) auto
    ultimately have "fs2 = [encode_command (stop_command sid (cmd_id ?c))]"
      using subseq_replicate by fastforce
    then show ?thesis using that [of sid] by simp
  qed (use that in simp)
  ultimately show ?thesis unfolding fs device_started_append by blast
qed


section \<open>The STOP identifiers after a restart\<close>

text \<open>
  The bridge's STOP counter starts at 0x8000 again when the process restarts, while the device
  keeps its replay cache. The first STOP after a restart is then not started: when it names
  another command than the cached one, the device refuses it as a conflict and the bridge reports
  a rejected STOP; when it names the same identifier, the device repeats its old answer.
\<close>

lemma ucast_u16_u32_inj: "(ucast a :: u32) = ucast (b :: u16) \<Longrightarrow> a = b"
  by transfer (simp add: take_bit_eq_mod)

lemma restarted_bridge_stop_not_started:
  assumes "map_of (vd_cache d) kStopCommandIdMin =
      Some \<lparr>ce_command = stop_command kStopCommandIdMin first, ce_response = Some r\<rparr>"
  shows "fst (allocate_stop_command_id (br_next_stop_command_id bridge_init)) = kStopCommandIdMin"
    and "device_started [encode_command (stop_command kStopCommandIdMin second)] d = []"
    and "vd_sent (process_command True st (stop_command kStopCommandIdMin second) d) =
      vd_sent d @ [encode_response (if first = second then r else conflict_response kStopCommandIdMin)]"
proof -
  have "stop_command kStopCommandIdMin first = stop_command kStopCommandIdMin second \<longleftrightarrow> first = second"
    using ucast_u16_u32_inj [of first second] by (auto simp: stop_command_def)
  moreover have "cmd_id (stop_command kStopCommandIdMin second) = kStopCommandIdMin"
    by (simp add: stop_command_def)
  ultimately show "vd_sent (process_command True st (stop_command kStopCommandIdMin second) d) =
      vd_sent d @ [encode_response (if first = second then r else conflict_response kStopCommandIdMin)]"
    and "device_started [encode_command (stop_command kStopCommandIdMin second)] d = []"
    using assms process_known(2) [of d "stop_command kStopCommandIdMin second"] by simp_all
  show "fst (allocate_stop_command_id (br_next_stop_command_id bridge_init)) = kStopCommandIdMin"
    by (simp add: allocate_stop_command_id_def bridge_init_def)
qed

lemma conflicting_stop_is_rejected:
  "br_results (settle_stop e sid True code message (WResponse (conflict_response sid)) b) =
     br_results b @ [GAborted \<lparr>res_outcome = SAFE_STOP, res_error_code = kErrorStopRejected,
       res_message = ''device STOP response rejected stop_command_id='' @ nat_to_string (unat sid)\<rparr>]"
  by (simp add: settle_stop_def conflict_response_def br_finish_safe_stop_def br_update_diag_def
      br_publish_diagnostics_def br_finish_aborted_def br_finish_def Let_def)

end
