(* ===== verification/Worker_Slot.thy ===== *)
theory Worker_Slot
  imports Runtime_Prelude
begin

text \<open>
  The worker threads of the action servers. Executor, orchestrator and bridge each keep one
  \<open>std::thread\<close> member, start it for an accepted goal and join it before the next one and on
  the way out. Here: that member with the threads behind it, and the locale \<open>thread_owner\<close>,
  which says when a class that hands thread handles around never loses one. The three machines
  are \<open>Executor_Threads\<close>, \<open>Orchestrator_Threads\<close> and \<open>Bridge_Threads\<close>.
\<close>

section \<open>Threads\<close>

text \<open>
  Where a worker stands in the code that ends it: still executing; past the generation check of the
  terminal transition; after the active flag was released; past the generation check of its
  guard; after the worker count was released; and returned. The checks are the orchestrator's,
  the count is the executor's.
\<close>

datatype worker_pc =
  Executing | ReleaseChecked | ActiveReleased | FinishChecked | CountReleased | Exited

text \<open>
  \<open>wk_slot\<close> is the member \<open>worker_\<close> (\<open>None\<close>: not joinable), \<open>wk_pc\<close> every thread ever
  started, \<open>wk_next\<close> a number no thread has yet; \<open>wk_terminated\<close> says that \<open>std::terminate\<close>
  was called.
\<close>

record worker_slot =
  wk_slot :: "nat option"
  wk_pc :: "nat \<Rightarrow> worker_pc"
  wk_next :: nat
  wk_terminated :: bool

definition no_workers :: worker_slot where
  "no_workers = \<lparr>wk_slot = None, wk_pc = (\<lambda>_. Exited), wk_next = 0, wk_terminated = False\<rparr>"

text \<open>\<open>worker_ = std::thread(...)\<close>: assigning over a joinable thread terminates the program.\<close>

definition slot_start :: "worker_slot \<Rightarrow> worker_slot" where
  "slot_start t =
     (if wk_slot t \<noteq> None then t\<lparr>wk_terminated := True\<rparr>
      else t\<lparr>wk_slot := Some (wk_next t), wk_pc := (wk_pc t)(wk_next t := Executing),
             wk_next := Suc (wk_next t)\<rparr>)"

text \<open>\<open>std::thread worker; worker.swap(worker_);\<close>\<close>

definition slot_take :: "worker_slot \<Rightarrow> nat option \<times> worker_slot" where
  "slot_take t = (wk_slot t, t\<lparr>wk_slot := None\<rparr>)"

text \<open>\<open>if (worker.joinable()) worker.join();\<close> can return.\<close>

definition join_returns :: "nat option \<Rightarrow> worker_slot \<Rightarrow> bool" where
  "join_returns h t \<longleftrightarrow> (case h of None \<Rightarrow> True | Some w \<Rightarrow> wk_pc t w = Exited)"

definition worker_moves :: "nat \<Rightarrow> worker_pc \<Rightarrow> worker_slot \<Rightarrow> worker_slot" where
  "worker_moves w pc t = t\<lparr>wk_pc := (wk_pc t)(w := pc)\<rparr>"

definition terminate_now :: "worker_slot \<Rightarrow> worker_slot" where
  "terminate_now t = t\<lparr>wk_terminated := True\<rparr>"

lemmas slot_defs = slot_start_def slot_take_def join_returns_def worker_moves_def terminate_now_def

text \<open>Numbers not yet given out belong to no thread.\<close>

definition slot_ok :: "worker_slot \<Rightarrow> bool" where
  "slot_ok t \<longleftrightarrow>
     (\<forall>w \<ge> wk_next t. wk_pc t w = Exited) \<and> (\<forall>w. wk_slot t = Some w \<longrightarrow> w < wk_next t)"

lemma slot_ok_init: "slot_ok no_workers"
  by (simp add: slot_ok_def no_workers_def)

lemma slot_ok_start [laws]: "slot_ok t \<Longrightarrow> slot_ok (slot_start t)"
  by (auto simp: slot_ok_def slot_start_def)

lemma slot_ok_take [laws]: "slot_ok t \<Longrightarrow> slot_ok (snd (slot_take t))"
  by (simp add: slot_ok_def slot_take_def)

lemma slot_ok_moves [laws]: "slot_ok t \<Longrightarrow> wk_pc t w \<noteq> Exited \<Longrightarrow> slot_ok (worker_moves w pc t)"
  by (auto simp: slot_ok_def worker_moves_def)

lemma slot_ok_terminate [laws]: "slot_ok t \<Longrightarrow> slot_ok (terminate_now t)"
  by (simp add: slot_ok_def terminate_now_def)

text \<open>Threads that have not returned.\<close>

definition live :: "worker_slot \<Rightarrow> nat \<Rightarrow> bool" where
  "live t w \<longleftrightarrow> wk_pc t w \<noteq> Exited"

section \<open>Who uses the handles\<close>

text \<open>Where the goal callback stands: outside, past the checks of \<open>handle_goal\<close>, past its claim of
  \<open>active_goal_\<close>, and in \<open>handle_accepted\<close> with the handle it joins, and after the join.\<close>

datatype goal_pc = GIdle | GChecked | GClaimed | GTaken "nat option" | GJoined

text \<open>The main thread: running, stopped (waiting for the drain), joining what it took, drained, after
  the spinning thread was joined, in the destructor with the handle it joins, and done.\<close>

datatype main_pc = MRun | MStopping | MTaken "nat option" | MDrained | MSpinJoined
  | MDestroying "nat option" | MDestroyed

text \<open>For sample runs: the one worker started so far.\<close>

definition life_slot :: "nat option \<Rightarrow> worker_pc \<Rightarrow> worker_slot" where
  "life_slot handle pc =
     \<lparr>wk_slot = handle, wk_pc = (\<lambda>_. Exited)(0 := pc), wk_next = 1, wk_terminated = False\<rparr>"

section \<open>Handles are never lost\<close>

text \<open>
  A thread whose handle is destroyed or overwritten while it can still be joined terminates the
  program, and one that nobody joins would outlive the object it works on. A class avoids both
  when a new thread goes into a handle and a handle is given up only for a thread that ended.
\<close>

locale thread_owner =
  fixes initial :: "'s \<Rightarrow> bool"
    and step :: "'s \<Rightarrow> 's \<Rightarrow> bool"
    and runs :: "'s \<Rightarrow> nat \<Rightarrow> bool"
    and owned :: "'s \<Rightarrow> nat \<Rightarrow> bool"
  assumes starts_empty: "initial s \<Longrightarrow> \<not> runs s w"
    and started_owned: "step s s' \<Longrightarrow> \<not> runs s w \<Longrightarrow> runs s' w \<Longrightarrow> owned s' w"
    and dropped_ended: "step s s' \<Longrightarrow> runs s w \<Longrightarrow> owned s w \<Longrightarrow> runs s' w \<Longrightarrow> owned s' w"
begin

lemma step_owned:
  assumes "step s s'" and "\<And>w. runs s w \<Longrightarrow> owned s w" and "runs s' w"
  shows "owned s' w"
  using assms started_owned dropped_ended by blast

lemma running_is_owned:
  assumes "step\<^sup>*\<^sup>* s0 s" and "initial s0" and "runs s w"
  shows "owned s w"
  using assms(1,3)
proof (induction arbitrary: w rule: rtranclp_induct)
  case base
  then show ?case using starts_empty assms(2) by blast
next
  case (step s s')
  from step.hyps(2) step.IH step.prems show ?case by (rule step_owned)
qed

lemma nothing_runs_unowned:
  assumes "step\<^sup>*\<^sup>* s0 s" and "initial s0" and "\<And>w. \<not> owned s w"
  shows "\<not> runs s w"
  using running_is_owned [OF assms(1,2)] assms(3) by blast

end

end
