(* ===== verification/Task_Diagnostics.thy ===== *)
theory Task_Diagnostics
  imports Runtime_Prelude
begin

text \<open>
  \<open>task_executor/diagnostic_state.hpp\<close> and \<open>diagnostic_state.cpp\<close>: the executor's diagnostic
  state. Unlike the bridge's, a cancellation keeps a latched failure.
\<close>

section \<open>State\<close>

datatype task_phase = TIdle | TValidating | TRunning | TWaitingAck | TRecovering

record task_diag =
  td_phase :: task_phase
  td_active_task_id :: string
  td_last_outcome :: string
  td_last_error_code :: u16
  td_bridge_ready :: bool
  td_failure_latched :: bool

definition task_diag_init :: task_diag where
  "task_diag_init =
     \<lparr>td_phase = TIdle, td_active_task_id = [], td_last_outcome = ''NONE'',
      td_last_error_code = 0, td_bridge_ready = False, td_failure_latched = False\<rparr>"

section \<open>Operations\<close>

definition td_set_bridge_ready :: "bool \<Rightarrow> task_diag \<Rightarrow> task_diag" where
  "td_set_bridge_ready b d = d\<lparr>td_bridge_ready := b\<rparr>"

definition td_begin_task :: "string \<Rightarrow> task_diag \<Rightarrow> task_diag" where
  "td_begin_task t d = d\<lparr>td_active_task_id := t, td_phase := TValidating\<rparr>"

definition td_mark_validating :: "task_diag \<Rightarrow> task_diag" where
  "td_mark_validating d = d\<lparr>td_phase := TValidating\<rparr>"

definition td_mark_running :: "task_diag \<Rightarrow> task_diag" where
  "td_mark_running d = d\<lparr>td_phase := TRunning\<rparr>"

definition td_mark_waiting_ack :: "task_diag \<Rightarrow> task_diag" where
  "td_mark_waiting_ack d = d\<lparr>td_phase := TWaitingAck\<rparr>"

definition td_mark_recovering :: "task_diag \<Rightarrow> task_diag" where
  "td_mark_recovering d = d\<lparr>td_phase := TRecovering\<rparr>"

definition td_record_success :: "string \<Rightarrow> task_diag \<Rightarrow> task_diag" where
  "td_record_success outcome d =
     d\<lparr>td_phase := TIdle, td_active_task_id := [], td_last_outcome := outcome,
       td_last_error_code := 0, td_failure_latched := False\<rparr>"

definition td_record_canceled :: "task_diag \<Rightarrow> task_diag" where
  "td_record_canceled d =
     d\<lparr>td_phase := TIdle, td_active_task_id := [], td_last_outcome := ''CANCELED''\<rparr>"

definition td_record_failure :: "string \<Rightarrow> u16 \<Rightarrow> task_diag \<Rightarrow> task_diag" where
  "td_record_failure outcome code d =
     d\<lparr>td_phase := TIdle, td_active_task_id := [], td_last_outcome := outcome,
       td_last_error_code := code, td_failure_latched := True\<rparr>"

fun task_phase_name :: "task_phase \<Rightarrow> string" where
  "task_phase_name TIdle = ''IDLE''"
| "task_phase_name TValidating = ''VALIDATING''"
| "task_phase_name TRunning = ''RUNNING''"
| "task_phase_name TWaitingAck = ''WAITING_ACK''"
| "task_phase_name TRecovering = ''RECOVERING''"

definition td_snapshot :: "task_diag \<Rightarrow> diag_status" where
  "td_snapshot d =
     (let ready = td_bridge_ready d \<and> \<not> td_failure_latched d;
          (level, message) =
            (if \<not> td_bridge_ready d then (DIAG_ERROR, ''bridge unavailable'')
             else if td_failure_latched d then (DIAG_ERROR, ''task failure'')
             else if td_phase d = TRecovering then (DIAG_WARN, ''recovering'')
             else (DIAG_OK, ''ready''))
      in \<lparr>ds_level = level, ds_name = ''runtime/task_executor'', ds_message = message,
          ds_hardware_id = ''task_runtime'',
          ds_values =
            [(''ready'', bool_to_string ready),
             (''state'', task_phase_name (td_phase d)),
             (''active_task_id'', td_active_task_id d),
             (''bridge_ready'', bool_to_string (td_bridge_ready d)),
             (''last_outcome'', td_last_outcome d),
             (''last_error_code'', nat_to_string (unat (td_last_error_code d)))]\<rparr>)"

lemmas td_defs =
  td_set_bridge_ready_def td_begin_task_def td_mark_validating_def td_mark_running_def
  td_mark_waiting_ack_def td_mark_recovering_def td_record_success_def td_record_canceled_def
  td_record_failure_def

declare td_defs [ops]

section \<open>Histories\<close>

datatype td_event =
    TBridgeReady bool | TBegin string | TMarkValidating | TMarkRunning | TMarkWaitingAck
  | TMarkRecovering | TSuccess string | TCanceled | TFailure string u16

fun td_apply :: "td_event \<Rightarrow> task_diag \<Rightarrow> task_diag" where
  "td_apply (TBridgeReady b) = td_set_bridge_ready b"
| "td_apply (TBegin t) = td_begin_task t"
| "td_apply TMarkValidating = td_mark_validating"
| "td_apply TMarkRunning = td_mark_running"
| "td_apply TMarkWaitingAck = td_mark_waiting_ack"
| "td_apply TMarkRecovering = td_mark_recovering"
| "td_apply (TSuccess s) = td_record_success s"
| "td_apply TCanceled = td_record_canceled"
| "td_apply (TFailure s c) = td_record_failure s c"

definition td_run :: "td_event list \<Rightarrow> task_diag \<Rightarrow> task_diag" where
  "td_run es d = fold td_apply es d"

fun is_failure :: "td_event \<Rightarrow> bool" where
  "is_failure (TFailure _ _) = True"
| "is_failure _ = False"

fun is_success :: "td_event \<Rightarrow> bool" where
  "is_success (TSuccess _) = True"
| "is_success _ = False"

text \<open>A failure no success follows.\<close>

definition unresolved_failure :: "td_event list \<Rightarrow> bool" where
  "unresolved_failure es \<longleftrightarrow>
     (\<exists>e \<in> set (takeWhile (\<lambda>e. \<not> is_success e) (rev es)). is_failure e)"

lemma td_apply_latched:
  "td_failure_latched (td_apply e d) \<longleftrightarrow>
     (if is_failure e then True else if is_success e then False else td_failure_latched d)"
  by (cases e) (simp_all add: ops)

lemma td_run_latched:
  "\<not> td_failure_latched d \<Longrightarrow> td_failure_latched (td_run es d) \<longleftrightarrow> unresolved_failure es"
proof (induction es rule: rev_induct)
  case Nil
  then show ?case by (simp add: td_run_def unresolved_failure_def)
next
  case (snoc e es)
  have "\<not> (is_failure e \<and> is_success e)" by (cases e) auto
  with snoc show ?case
    by (auto simp: td_run_def td_apply_latched unresolved_failure_def)
qed

text \<open>The executor's failure latch is cleared by a success and by nothing else: after any
  sequence of updates the task status is ERROR, with the bridge ready, exactly when some
  failure was recorded after the last success; cancellations do not clear it.
\<close>

theorem task_failure_latch_cleared_by_success_only:
  "(td_failure_latched (td_run es task_diag_init) \<longleftrightarrow> unresolved_failure es) \<and>
   (td_bridge_ready (td_run es task_diag_init) \<longrightarrow>
     (ds_level (td_snapshot (td_run es task_diag_init)) = DIAG_ERROR \<longleftrightarrow> unresolved_failure es))"
  using td_run_latched [of task_diag_init es]
  by (auto simp: task_diag_init_def td_snapshot_def Let_def)

theorem task_failure_latch_cleared_by_success_only_witness:
  "ds_level (td_snapshot
     (td_run [TBridgeReady True, TFailure ''SAFE_STOP'' 112, TCanceled] task_diag_init)) = DIAG_ERROR"
  using task_failure_latch_cleared_by_success_only
    [of "[TBridgeReady True, TFailure ''SAFE_STOP'' 112, TCanceled]"]
  by (simp add: td_run_def ops unresolved_failure_def)

end
