(* ===== verification/History_Store.thy ===== *)
theory History_Store
  imports Runtime_Prelude
begin

text \<open>
  \<open>runtime_history/store.cpp\<close>: the two SQLite tables the runtime keeps, as lists of rows in
  insertion order, and the SQL statements of the source as operations on them. SQLite itself
  may fail at any call; which calls of one operation fail is an argument (\<open>faults\<close>, or the
  exception text of a failed read). A failed or rolled-back transaction leaves the tables as
  they were, which is SQLite's documented behaviour.
\<close>

section \<open>Rows\<close>

record task_record =
  tr_task_id :: string
  tr_request_id :: string
  tr_workflow_id :: string
  tr_goal_id :: string
  tr_target_id :: string
  tr_action_status :: u8
  tr_outcome :: u8
  tr_error_code :: u16
  tr_duration_ms :: u64
  tr_message :: string
  tr_completed_at_ns :: int

record runtime_stats =
  st_has_data :: bool
  st_sample_count :: u64
  st_outcome_counts :: "u64 list"
  st_p50_ms :: u64
  st_p95_ms :: u64
  st_p99_ms :: u64
  st_max_ms :: u64

record idempotency_record =
  ir_request_id :: string
  ir_fingerprint :: string
  ir_state :: string
  ir_outcome :: u8
  ir_error_code :: u16
  ir_message :: string
  ir_updated_at_ns :: int

record database =
  db_task_runs :: "task_record list"
  db_requests :: "idempotency_record list"

definition empty_database :: database where
  "empty_database = \<lparr>db_task_runs = [], db_requests = []\<rparr>"

datatype sql_call = SqlBegin | SqlPrepare | SqlStep | SqlSelect | SqlCommit

text \<open>
  \<open>sqlite3_column_text\<close> read into a \<open>std::string\<close> as a C string: it stops at the first NUL.
\<close>

definition column_text :: "string \<Rightarrow> string" where
  "column_text s = takeWhile (\<lambda>c. c \<noteq> CHR 0x00) s"

definition nul_free :: "string \<Rightarrow> bool" where
  "nul_free s \<longleftrightarrow> CHR 0x00 \<notin> set s"

lemma column_text_nul_free [simp]: "nul_free s \<Longrightarrow> column_text s = s"
  by (auto simp: column_text_def nul_free_def takeWhile_eq_all_conv)

definition read_task :: "task_record \<Rightarrow> task_record" where
  "read_task r = r\<lparr>tr_task_id := column_text (tr_task_id r),
     tr_request_id := column_text (tr_request_id r),
     tr_workflow_id := column_text (tr_workflow_id r), tr_goal_id := column_text (tr_goal_id r),
     tr_target_id := column_text (tr_target_id r), tr_message := column_text (tr_message r)\<rparr>"

definition read_request :: "idempotency_record \<Rightarrow> idempotency_record" where
  "read_request r = r\<lparr>ir_request_id := column_text (ir_request_id r),
     ir_fingerprint := column_text (ir_fingerprint r), ir_state := column_text (ir_state r),
     ir_message := column_text (ir_message r)\<rparr>"

definition task_nul_free :: "task_record \<Rightarrow> bool" where
  "task_nul_free r \<longleftrightarrow> nul_free (tr_task_id r) \<and> nul_free (tr_request_id r) \<and>
     nul_free (tr_workflow_id r) \<and> nul_free (tr_goal_id r) \<and> nul_free (tr_target_id r) \<and>
     nul_free (tr_message r)"

definition request_nul_free :: "idempotency_record \<Rightarrow> bool" where
  "request_nul_free r \<longleftrightarrow> nul_free (ir_request_id r) \<and> nul_free (ir_fingerprint r) \<and>
     nul_free (ir_state r) \<and> nul_free (ir_message r)"

lemma read_nul_free [simp]:
  "task_nul_free r \<Longrightarrow> read_task r = r" "request_nul_free q \<Longrightarrow> read_request q = q"
  by (simp_all add: read_task_def task_nul_free_def read_request_def request_nul_free_def)

text \<open>
  \<open>same\<close> leaves the correlation identities (request, workflow and goal identifier) out of the
  comparison.
\<close>

definition same_record :: "task_record \<Rightarrow> task_record \<Rightarrow> bool" where
  "same_record l r \<longleftrightarrow> tr_task_id l = tr_task_id r \<and> tr_target_id l = tr_target_id r \<and>
     tr_action_status l = tr_action_status r \<and> tr_outcome l = tr_outcome r \<and>
     tr_error_code l = tr_error_code r \<and> tr_duration_ms l = tr_duration_ms r \<and>
     tr_message l = tr_message r \<and> tr_completed_at_ns l = tr_completed_at_ns r"

section \<open>Task history\<close>

definition find_task :: "string \<Rightarrow> database \<Rightarrow> task_record option" where
  "find_task tid db = List.find (\<lambda>r. tr_task_id r = tid) (db_task_runs db)"

definition store_get :: "string option \<Rightarrow> string \<Rightarrow> database \<Rightarrow> string + task_record option" where
  "store_get failure tid db =
     (case failure of Some err \<Rightarrow> Inl err | None \<Rightarrow> Inr (map_option read_task (find_task tid db)))"

definition store_insert ::
  "(sql_call \<Rightarrow> bool) \<Rightarrow> task_record \<Rightarrow> database \<Rightarrow> bool \<times> database" where
  "store_insert faults r db =
     (if INT64_MAX < uint (tr_duration_ms r) then (False, db)
      else if faults SqlBegin \<or> faults SqlPrepare \<or> faults SqlStep then (False, db)
      else case find_task (tr_task_id r) db of
             None \<Rightarrow>
               if faults SqlCommit then (False, db)
               else (True, db\<lparr>db_task_runs := db_task_runs db @ [r]\<rparr>)
           | Some row \<Rightarrow>
               if faults SqlSelect \<or> faults SqlCommit then (False, db)
               else (same_record (read_task row) r, db))"

section \<open>Idempotency ledger rows\<close>

definition find_request :: "string \<Rightarrow> database \<Rightarrow> idempotency_record option" where
  "find_request rid db = List.find (\<lambda>r. ir_request_id r = rid) (db_requests db)"

definition store_get_idempotency ::
  "string option \<Rightarrow> string \<Rightarrow> database \<Rightarrow> string + idempotency_record option" where
  "store_get_idempotency failure rid db =
     (case failure of
        Some err \<Rightarrow> Inl err
      | None \<Rightarrow> Inr (map_option read_request (find_request rid db)))"

text \<open>The upsert: a new key is inserted, a known key is updated only under the same fingerprint.\<close>

definition store_put_idempotency ::
  "(sql_call \<Rightarrow> bool) \<Rightarrow> idempotency_record \<Rightarrow> database \<Rightarrow> bool \<times> database" where
  "store_put_idempotency faults r db =
     (if ir_request_id r = [] \<or> ir_fingerprint r = [] then (False, db)
      else if faults SqlPrepare \<or> faults SqlStep then (False, db)
      else case find_request (ir_request_id r) db of
             None \<Rightarrow> (True, db\<lparr>db_requests := db_requests db @ [r]\<rparr>)
           | Some row \<Rightarrow>
               if ir_fingerprint row = ir_fingerprint r
               then (True, db\<lparr>db_requests :=
                       map (\<lambda>q. if ir_request_id q = ir_request_id r then r else q) (db_requests db)\<rparr>)
               else (False, db))"

definition keep_floor :: "int \<Rightarrow> nat \<Rightarrow> database \<Rightarrow> string list" where
  "keep_floor older_than keep db =
     map ir_request_id (take keep (rev (sort_key ir_updated_at_ns
       (filter (\<lambda>q. older_than \<le> ir_updated_at_ns q) (db_requests db)))))"

definition prune_victim :: "int \<Rightarrow> nat \<Rightarrow> string list \<Rightarrow> database \<Rightarrow> idempotency_record \<Rightarrow> bool" where
  "prune_victim older_than keep states db q \<longleftrightarrow>
     ir_updated_at_ns q < older_than \<and> ir_state q \<in> set states \<and>
     ir_request_id q \<notin> set (keep_floor older_than keep db)"

definition store_prune_idempotency ::
  "(sql_call \<Rightarrow> bool) \<Rightarrow> int \<Rightarrow> nat \<Rightarrow> string list \<Rightarrow> database \<Rightarrow> nat \<times> database" where
  "store_prune_idempotency faults older_than keep states db =
     (if faults SqlBegin \<or> faults SqlPrepare \<or> faults SqlStep \<or> faults SqlCommit then (0, db)
      else (length (filter (prune_victim older_than keep states db) (db_requests db)),
            db\<lparr>db_requests :=
              filter (\<lambda>q. \<not> prune_victim older_than keep states db q) (db_requests db)\<rparr>))"

definition store_count_idempotency :: "string option \<Rightarrow> int \<Rightarrow> database \<Rightarrow> string + nat" where
  "store_count_idempotency failure not_older db =
     (case failure of
        Some err \<Rightarrow> Inl err
      | None \<Rightarrow> Inr (length (filter (\<lambda>q. not_older \<le> ir_updated_at_ns q) (db_requests db))))"

section \<open>Statistics\<close>

definition nearest_rank_offset :: "u64 \<Rightarrow> u64 \<Rightarrow> u64" where
  "nearest_rank_offset count percent = (percent * count + 99) div 100 - 1"

definition sorted_durations :: "database \<Rightarrow> u64 list" where
  "sorted_durations db = sort (map tr_duration_ms (db_task_runs db))"

text \<open>\<open>ORDER BY duration_ms LIMIT 1 OFFSET ?\<close>: no row beyond the end, which the code throws on.\<close>

definition duration_at_offset :: "database \<Rightarrow> u64 \<Rightarrow> u64 option" where
  "duration_at_offset db offset =
     (let ds = sorted_durations db in
      if unat offset < length ds then Some (ds ! unat offset) else None)"

definition outcome_count :: "database \<Rightarrow> u8 \<Rightarrow> u64" where
  "outcome_count db k = of_nat (length (filter (\<lambda>r. tr_outcome r = k) (db_task_runs db)))"

definition empty_stats :: runtime_stats where
  "empty_stats = \<lparr>st_has_data = False, st_sample_count = 0, st_outcome_counts = [0, 0, 0, 0],
     st_p50_ms = 0, st_p95_ms = 0, st_p99_ms = 0, st_max_ms = 0\<rparr>"

definition store_stats :: "string option \<Rightarrow> database \<Rightarrow> string + runtime_stats" where
  "store_stats failure db =
     (case failure of Some err \<Rightarrow> Inl err | None \<Rightarrow>
       (let count = of_nat (length (db_task_runs db)) :: u64 in
        if count = 0 then Inr empty_stats
        else
          (case (duration_at_offset db (nearest_rank_offset count 50),
                 duration_at_offset db (nearest_rank_offset count 95),
                 duration_at_offset db (nearest_rank_offset count 99)) of
             (Some p50, Some p95, Some p99) \<Rightarrow>
               Inr \<lparr>st_has_data = True, st_sample_count = count,
                    st_outcome_counts = map (outcome_count db) [0, 1, 2, 3],
                    st_p50_ms = p50, st_p95_ms = p95, st_p99_ms = p99,
                    st_max_ms = last (sorted_durations db)\<rparr>
           | _ \<Rightarrow> Inl ''no more rows available'')))"

section \<open>Invariant: primary keys\<close>

definition db_inv :: "database \<Rightarrow> bool" where
  "db_inv db \<longleftrightarrow> distinct (map tr_task_id (db_task_runs db)) \<and>
     distinct (map ir_request_id (db_requests db)) \<and>
     (\<forall>r \<in> set (db_task_runs db). uint (tr_duration_ms r) \<le> INT64_MAX)"

lemma db_inv_empty [simp]: "db_inv empty_database"
  by (simp add: db_inv_def empty_database_def)

lemma find_None_notin: "List.find (\<lambda>r. k r = x) rs = None \<longleftrightarrow> x \<notin> k ` set rs"
  by (auto simp: find_None_iff)

lemma store_insert_inv [laws]: "db_inv db \<Longrightarrow> db_inv (snd (store_insert faults r db))"
  by (auto simp: db_inv_def store_insert_def find_task_def find_None_notin split: option.splits)

lemma map_same_key: "map ir_request_id (map (\<lambda>q. if ir_request_id q = ir_request_id r then r else q) qs)
   = map ir_request_id qs"
  by (induction qs) auto

lemma store_put_inv [laws]: "db_inv db \<Longrightarrow> db_inv (snd (store_put_idempotency faults r db))"
  by (auto simp: db_inv_def store_put_idempotency_def find_request_def find_None_notin
      map_same_key comp_def simp del: map_map split: option.splits)

lemma store_prune_inv [laws]:
  "db_inv db \<Longrightarrow> db_inv (snd (store_prune_idempotency faults older keep states db))"
  by (auto simp: db_inv_def store_prune_idempotency_def distinct_map_filter)

section \<open>Lookups after updates\<close>

lemma find_task_insert:
  "store_insert faults r db = (ok, db') \<Longrightarrow> find_task tid db' =
     (case find_task tid db of Some row \<Rightarrow> Some row
      | None \<Rightarrow> if db' \<noteq> db \<and> tr_task_id r = tid then Some r else None)"
  by (auto simp: store_insert_def find_task_def find_snoc split: if_splits option.splits)

lemma store_insert_accepted:
  assumes "store_insert faults r db = (True, db')"
  shows "\<exists>row. find_task (tr_task_id r) db' = Some row \<and> (row = r \<or> same_record (read_task row) r)"
  using assms
  by (auto simp: store_insert_def find_task_def find_snoc split: if_splits option.splits)

lemma find_map_key:
  "List.find (\<lambda>q. ir_request_id q = rid)
     (map (\<lambda>q. if ir_request_id q = ir_request_id r then r else q) qs) =
   (case List.find (\<lambda>q. ir_request_id q = rid) qs of
      None \<Rightarrow> None | Some q \<Rightarrow> Some (if rid = ir_request_id r then r else q))"
  by (induction qs) (auto split: option.splits)

lemma find_request_put:
  "store_put_idempotency faults r db = (True, db') \<Longrightarrow>
     find_request rid db' = (if rid = ir_request_id r then Some r else find_request rid db)"
  by (auto simp: store_put_idempotency_def find_request_def find_snoc find_map_key
      split: if_splits option.splits)

lemma store_put_rejected: "store_put_idempotency faults r db = (False, db') \<Longrightarrow> db' = db"
  by (auto simp: store_put_idempotency_def split: if_splits option.splits)

lemma store_put_fingerprint:
  "store_put_idempotency faults r db = (True, db') \<Longrightarrow> find_request (ir_request_id r) db = Some q \<Longrightarrow>
     ir_fingerprint q = ir_fingerprint r"
  by (auto simp: store_put_idempotency_def split: if_splits)

text \<open>
  The sub-select of the delete names only rows that are not old enough to be deleted, and the
  request identifier is the primary key: the keep floor protects nothing.
\<close>

lemma keep_floor_disjoint:
  assumes "db_inv db" and "q \<in> set (db_requests db)" and "ir_updated_at_ns q < older"
  shows "ir_request_id q \<notin> set (keep_floor older keep db)"
proof
  assume "ir_request_id q \<in> set (keep_floor older keep db)"
  then obtain p where p: "p \<in> set (db_requests db)" "older \<le> ir_updated_at_ns p"
    "ir_request_id p = ir_request_id q"
    by (auto simp: keep_floor_def dest!: in_set_takeD)
  moreover have "inj_on ir_request_id (set (db_requests db))"
    using assms(1) by (simp add: db_inv_def distinct_map)
  ultimately have "p = q" using assms(2) by (auto dest: inj_onD)
  with p(2) assms(3) show False by simp
qed

lemma prune_victim_simp:
  "db_inv db \<Longrightarrow> q \<in> set (db_requests db) \<Longrightarrow>
     prune_victim older keep states db q \<longleftrightarrow> ir_updated_at_ns q < older \<and> ir_state q \<in> set states"
  by (auto simp: prune_victim_def keep_floor_disjoint)

lemma find_filter_key:
  "distinct (map ir_request_id qs) \<Longrightarrow>
   List.find (\<lambda>q. ir_request_id q = rid) (filter P qs) =
   (case List.find (\<lambda>q. ir_request_id q = rid) qs of
      None \<Rightarrow> None | Some q \<Rightarrow> if P q then Some q else None)"
proof (induction qs)
  case (Cons q qs)
  show ?case
  proof (cases "ir_request_id q = rid")
    case True
    with Cons.prems have "rid \<notin> ir_request_id ` set qs" by auto
    then have "List.find (\<lambda>q. ir_request_id q = rid) qs = None"
      by (simp add: find_None_notin)
    with Cons True show ?thesis by auto
  qed (use Cons in auto)
qed simp

lemma find_request_prune:
  assumes "db_inv db"
    and "store_prune_idempotency faults older keep states db = (n, db')"
  shows "find_request rid db' = find_request rid db \<or>
    (find_request rid db' = None \<and> (\<exists>q. find_request rid db = Some q \<and>
       ir_updated_at_ns q < older \<and> ir_state q \<in> set states))"
  using assms
  by (auto simp: store_prune_idempotency_def find_request_def db_inv_def find_filter_key
      prune_victim_def dest!: find_Some_split split: if_splits option.splits)

section \<open>Percentiles\<close>

lemma ceil_div_100:
  fixes m :: nat
  assumes "0 < m"
  shows "1 \<le> (m + 99) div 100" "m \<le> 100 * Suc ((m + 99) div 100 - 1)"
    "100 * ((m + 99) div 100 - 1) < m"
proof -
  define k where "k = (m + 99) div 100"
  have "100 * k \<le> m + 99" "m + 99 < 100 * k + 100" "1 \<le> k"
    using assms unfolding k_def by linarith+
  then have "1 \<le> k" "m \<le> 100 * Suc (k - 1)" "100 * (k - 1) < m" by simp_all
  then show "1 \<le> (m + 99) div 100" "m \<le> 100 * Suc ((m + 99) div 100 - 1)"
    "100 * ((m + 99) div 100 - 1) < m" unfolding k_def .
qed

lemma nearest_rank_offset_unat:
  assumes "0 < n" and "n < 2 ^ 57" and "0 < p" and "p \<le> 100"
  shows "unat (nearest_rank_offset (of_nat n) (of_nat p)) = (p * n + 99) div 100 - 1"
proof -
  have "p * n \<le> 100 * n" using assms(4) by (rule mult_le_mono1)
  moreover have "n < 144115188075855872" using assms(2) by simp
  ultimately have lt: "p * n + 99 < 18446744073709551616" by linarith
  have "0 < p * n" using assms by simp
  note ceil = ceil_div_100(1) [OF this]
  have u: "unat ((of_nat p * of_nat n + 99) div 100 :: u64) = (p * n + 99) div 100"
    using lt by (simp add: unat_div unat_word_ariths unat_of_nat mod_simps)
  moreover have "(1 :: u64) \<le> (of_nat p * of_nat n + 99) div 100"
    using ceil by (simp add: word_le_nat_alt u)
  ultimately show ?thesis
    by (simp add: nearest_rank_offset_def unat_sub)
qed

text \<open>
  The nearest-rank property of the value at that offset: at least \<open>p\<close> percent of the samples
  are at most the value, and fewer than \<open>p\<close> percent are below it.
\<close>

definition nearest_rank :: "u64 list \<Rightarrow> nat \<Rightarrow> u64 \<Rightarrow> bool" where
  "nearest_rank xs p v \<longleftrightarrow>
     v \<in> set xs \<and> p * length xs \<le> 100 * length (filter (\<lambda>x. x \<le> v) xs) \<and>
     100 * length (filter (\<lambda>x. x < v) xs) < p * length xs"

lemma sorted_filter_le:
  fixes xs :: "'a :: linorder list"
  assumes "sorted xs" and "i < length xs"
  shows "Suc i \<le> length (filter (\<lambda>x. x \<le> xs ! i) xs)"
proof -
  have "filter (\<lambda>x. x \<le> xs ! i) (take (Suc i) xs) = take (Suc i) xs"
    using assms by (auto simp: filter_id_conv in_set_conv_nth sorted_nth_mono)
  then have "length (filter (\<lambda>x. x \<le> xs ! i) (take (Suc i) xs)) = Suc i"
    using assms(2) by simp
  moreover have le: "length (filter P (take k ys)) \<le> length (filter P ys)" for P k and ys :: "'a list"
  proof -
    have "filter P ys = filter P (take k ys) @ filter P (drop k ys)"
      using filter_append [of P "take k ys" "drop k ys"] by simp
    then show ?thesis by simp
  qed
  ultimately show ?thesis using le [of "\<lambda>x. x \<le> xs ! i" "Suc i" xs] by simp
qed

lemma sorted_filter_less:
  assumes "sorted xs" and "i < length xs"
  shows "length (filter (\<lambda>x. x < xs ! i) xs) \<le> i"
proof -
  have "filter (\<lambda>x. x < xs ! i) (drop i xs) = []"
    using assms by (auto simp: filter_empty_conv in_set_conv_nth sorted_nth_mono not_less)
  then have "filter (\<lambda>x. x < xs ! i) xs = filter (\<lambda>x. x < xs ! i) (take i xs)"
    using filter_append [of "\<lambda>x. x < xs ! i" "take i xs" "drop i xs"] by simp
  then show ?thesis
    using length_filter_le [of "\<lambda>x. x < xs ! i" "take i xs"] by simp
qed

lemma duration_at_rank:
  assumes n: "length (db_task_runs db) = n" "0 < n" "n < 2 ^ 57" and p: "0 < p" "p \<le> 100"
  shows "\<exists>v. duration_at_offset db (nearest_rank_offset (of_nat n) (of_nat p)) = Some v \<and>
    nearest_rank (map tr_duration_ms (db_task_runs db)) p v"
proof -
  define xs where "xs = map tr_duration_ms (db_task_runs db)"
  define i where "i = (p * n + 99) div 100 - 1"
  define v where "v = sort xs ! i"
  have len: "length xs = n" using n(1) by (simp add: xs_def)
  have pos: "0 < p * n" using n p by simp
  have "p * n \<le> 100 * n" using p(2) by (rule mult_le_mono1)
  then have i: "i < n" using n(2) unfolding i_def by linarith
  have lo: "p * n \<le> 100 * Suc i" and hi: "100 * i < p * n"
    using ceil_div_100 [OF pos] unfolding i_def by blast+
  have mem: "v \<in> set xs" using i len nth_mem [of i "sort xs"] by (simp add: v_def)
  have perm: "length (filter P (sort xs)) = length (filter P xs)" for P
    by (simp add: filter_sort)
  have "Suc i \<le> length (filter (\<lambda>x. x \<le> v) xs)"
    using sorted_filter_le [of "sort xs" i] i len perm by (simp add: v_def)
  moreover have "length (filter (\<lambda>x. x < v) xs) \<le> i"
    using sorted_filter_less [of "sort xs" i] i len perm by (simp add: v_def)
  ultimately have "100 * Suc i \<le> 100 * length (filter (\<lambda>x. x \<le> v) xs) \<and>
      100 * length (filter (\<lambda>x. x < v) xs) \<le> 100 * i"
    by (intro conjI mult_le_mono2)
  with lo hi have "p * n \<le> 100 * length (filter (\<lambda>x. x \<le> v) xs) \<and>
      100 * length (filter (\<lambda>x. x < v) xs) < p * n"
    by (meson order_trans le_less_trans)
  then have "nearest_rank xs p v"
    using mem unfolding nearest_rank_def len by blast
  moreover have "duration_at_offset db (nearest_rank_offset (of_nat n) (of_nat p)) = Some v"
    using nearest_rank_offset_unat [OF n(2,3) p] i len
    by (simp add: duration_at_offset_def sorted_durations_def Let_def xs_def v_def i_def)
  ultimately show ?thesis unfolding xs_def by blast
qed

section \<open>Properties\<close>

abbreviation no_fault :: "sql_call \<Rightarrow> bool" where
  "no_fault \<equiv> (\<lambda>_. False)"

definition example_task :: task_record where
  "example_task = \<lparr>tr_task_id = ''t1'', tr_request_id = ''r1'', tr_workflow_id = ''single_task'',
     tr_goal_id = [], tr_target_id = ''a'', tr_action_status = 4, tr_outcome = 0,
     tr_error_code = 0, tr_duration_ms = 12, tr_message = ''ok'', tr_completed_at_ns = 5\<rparr>"

text \<open>History is first-write-wins: once a task is on record, no later insert of any record,
  under any SQLite failure, changes what a lookup of that task returns.\<close>

theorem history_first_write_wins:
  assumes "store_get None tid db = Inr (Some r)"
  shows "store_get None tid (snd (store_insert faults q db)) = Inr (Some r)"
proof -
  obtain ok db' where ins: "store_insert faults q db = (ok, db')" by fastforce
  from assms show ?thesis
    by (auto simp: store_get_def ins find_task_insert [OF ins])
qed

theorem history_first_write_wins_witness:
  "store_get None ''t1'' (snd (store_insert no_fault (example_task\<lparr>tr_outcome := 3\<rparr>)
     (empty_database\<lparr>db_task_runs := [example_task]\<rparr>))) = Inr (Some example_task)"
  by (rule history_first_write_wins)
    (simp add: store_get_def find_task_def example_task_def read_task_def column_text_def)

text \<open>An insert that reports success leaves a record of that task behind whose compared fields
  are the given ones, even when the row was there before; the texts must be free of NUL bytes,
  at which the read stops.\<close>

theorem history_insert_then_get:
  assumes "store_insert faults r db = (True, db')" and "task_nul_free r"
  shows "\<exists>row. store_get None (tr_task_id r) db' = Inr (Some row) \<and> same_record row r"
proof -
  from store_insert_accepted [OF assms(1)] obtain row where
    "find_task (tr_task_id r) db' = Some row" "row = r \<or> same_record (read_task row) r" by blast
  then show ?thesis
    using assms(2) by (auto simp: store_get_def same_record_def)
qed

theorem history_insert_then_get_witness:
  "\<exists>row. store_get None (tr_task_id example_task)
      (snd (store_insert no_fault example_task empty_database)) = Inr (Some row) \<and>
    same_record row example_task"
  by (rule history_insert_then_get [of no_fault _ empty_database])
    (simp_all add: store_insert_def find_task_def empty_database_def example_task_def
      task_nul_free_def nul_free_def)

text \<open>Pruning deletes exactly the rows that are older than the horizon and in a reclaimable
  state. The keep floor has no influence: the rows its sub-select protects are never among the
  rows the delete selects.\<close>

theorem prune_deletes_exactly_expired_reclaimable:
  assumes "db_inv db"
  shows "store_prune_idempotency no_fault older keep states db =
    (length (filter (\<lambda>q. ir_updated_at_ns q < older \<and> ir_state q \<in> set states) (db_requests db)),
     db\<lparr>db_requests :=
       filter (\<lambda>q. \<not> (ir_updated_at_ns q < older \<and> ir_state q \<in> set states)) (db_requests db)\<rparr>)"
  by (simp add: store_prune_idempotency_def prune_victim_simp [OF assms] cong: filter_cong)

theorem prune_deletes_exactly_expired_reclaimable_witness:
  "store_prune_idempotency no_fault 10 7 [''COMPLETED'']
     (empty_database\<lparr>db_requests := [
       \<lparr>ir_request_id = ''a'', ir_fingerprint = ''f'', ir_state = ''COMPLETED'', ir_outcome = 0,
        ir_error_code = 0, ir_message = [], ir_updated_at_ns = 3\<rparr>,
       \<lparr>ir_request_id = ''b'', ir_fingerprint = ''f'', ir_state = ''ADMITTED'', ir_outcome = 0,
        ir_error_code = 0, ir_message = [], ir_updated_at_ns = 3\<rparr>]\<rparr>) =
   (1, empty_database\<lparr>db_requests := [
       \<lparr>ir_request_id = ''b'', ir_fingerprint = ''f'', ir_state = ''ADMITTED'', ir_outcome = 0,
        ir_error_code = 0, ir_message = [], ir_updated_at_ns = 3\<rparr>]\<rparr>)"
  by (subst prune_deletes_exactly_expired_reclaimable)
    (simp_all add: db_inv_def empty_database_def)

text \<open>C34. For any history the statistics are computed without an error, and p50, p95 and p99 are
  nearest-rank percentiles of the recorded durations: at least that percentage of the samples is
  at most the value and fewer than that percentage is below it.\<close>

theorem stats_report_nearest_rank_percentiles:
  assumes "db_task_runs db \<noteq> []" and "length (db_task_runs db) < 2 ^ 57"
  shows "\<exists>st. store_stats None db = Inr st \<and> st_has_data st \<and>
    unat (st_sample_count st) = length (db_task_runs db) \<and>
    (let ds = map tr_duration_ms (db_task_runs db) in
       nearest_rank ds 50 (st_p50_ms st) \<and> nearest_rank ds 95 (st_p95_ms st) \<and>
       nearest_rank ds 99 (st_p99_ms st))"
proof -
  define n where "n = length (db_task_runs db)"
  have n: "length (db_task_runs db) = n" "0 < n" "n < 2 ^ 57"
    using assms by (auto simp: n_def)
  from duration_at_rank [OF n, of 50] obtain p50 where
    p50: "duration_at_offset db (nearest_rank_offset (of_nat n) 50) = Some p50"
      "nearest_rank (map tr_duration_ms (db_task_runs db)) 50 p50" by auto
  from duration_at_rank [OF n, of 95] obtain p95 where
    p95: "duration_at_offset db (nearest_rank_offset (of_nat n) 95) = Some p95"
      "nearest_rank (map tr_duration_ms (db_task_runs db)) 95 p95" by auto
  from duration_at_rank [OF n, of 99] obtain p99 where
    p99: "duration_at_offset db (nearest_rank_offset (of_nat n) 99) = Some p99"
      "nearest_rank (map tr_duration_ms (db_task_runs db)) 99 p99" by auto
  have u: "unat (of_nat n :: u64) = n" using n(3) by (simp add: unat_of_nat)
  then have "(of_nat n :: u64) \<noteq> 0" using n(2) by (metis unat_0 less_irrefl)
  with p50 p95 p99 u show ?thesis
    by (simp add: store_stats_def n(1) Let_def)
qed

theorem stats_report_nearest_rank_percentiles_witness:
  "\<exists>st. store_stats None (empty_database\<lparr>db_task_runs := [example_task]\<rparr>) = Inr st \<and>
    st_has_data st \<and> unat (st_sample_count st) = 1 \<and> nearest_rank [12] 50 (st_p50_ms st)"
  using stats_report_nearest_rank_percentiles [of "empty_database\<lparr>db_task_runs := [example_task]\<rparr>"]
  by (auto simp: Let_def example_task_def)

end
