(* ===== verification/History_Recorder.thy ===== *)
theory History_Recorder
  imports History_Store
begin

text \<open>
  \<open>runtime_history/recorder.cpp\<close> and the node around it: a bounded queue between the event
  callback and one writer thread. Every critical section of the mutex is one step; the write
  runs outside the lock, so a record being written is the worker's own state. The two logs
  (\<open>rc_accepted\<close>, \<open>rc_written\<close>) are ghost state the theorems speak about.
\<close>

section \<open>State and critical sections\<close>

datatype recorder_worker = WorkerWaiting | WorkerWriting task_record | WorkerExited
datatype join_state = JoinIdle | Joining | Joined

record recorder =
  rc_capacity :: nat
  rc_queue :: "task_record list"
  rc_stopping :: bool
  rc_persisted :: u64
  rc_write_errors :: u64
  rc_worker :: recorder_worker
  rc_join_state :: join_state
  rc_accepted :: "task_record list"
  rc_written :: "(task_record \<times> bool) list"

definition recorder_init :: "nat \<Rightarrow> recorder" where
  "recorder_init capacity =
     \<lparr>rc_capacity = capacity, rc_queue = [], rc_stopping = False, rc_persisted = 0,
      rc_write_errors = 0, rc_worker = WorkerWaiting, rc_join_state = JoinIdle,
      rc_accepted = [], rc_written = []\<rparr>"

definition rc_enqueue :: "task_record \<Rightarrow> recorder \<Rightarrow> bool \<times> recorder" where
  "rc_enqueue r s =
     (if rc_stopping s \<or> rc_capacity s \<le> length (rc_queue s) then (False, s)
      else (True, s\<lparr>rc_queue := rc_queue s @ [r], rc_accepted := rc_accepted s @ [r]\<rparr>))"

text \<open>The head of \<open>stop\<close>, which any thread may run, the worker's own thread included.\<close>

definition rc_request_stop :: "recorder \<Rightarrow> recorder" where
  "rc_request_stop s = s\<lparr>rc_stopping := True\<rparr>"

text \<open>The waiting worker wakes when it may: it returns on an empty queue, else takes a record.\<close>

definition rc_worker_wakes :: "recorder \<Rightarrow> bool" where
  "rc_worker_wakes s \<longleftrightarrow> rc_worker s = WorkerWaiting \<and> (rc_stopping s \<or> rc_queue s \<noteq> [])"

definition rc_worker_take :: "recorder \<Rightarrow> recorder" where
  "rc_worker_take s =
     (case rc_queue s of
        [] \<Rightarrow> s\<lparr>rc_worker := WorkerExited\<rparr>
      | r # rest \<Rightarrow> s\<lparr>rc_queue := rest, rc_worker := WorkerWriting r\<rparr>)"

text \<open>The write returned (or threw, which counts as not written).\<close>

definition rc_worker_done :: "task_record \<Rightarrow> bool \<Rightarrow> recorder \<Rightarrow> recorder" where
  "rc_worker_done r written s =
     (let s' = s\<lparr>rc_worker := WorkerWaiting, rc_written := rc_written s @ [(r, written)]\<rparr> in
      if written then s'\<lparr>rc_persisted := rc_persisted s + 1\<rparr>
      else s'\<lparr>rc_write_errors := rc_write_errors s + 1\<rparr>)"

text \<open>Another thread in \<open>stop\<close>: it waits while a join is running, returns after one, else joins.\<close>

inductive recorder_step :: "recorder \<Rightarrow> recorder \<Rightarrow> bool" where
  step_enqueue: "recorder_step s (snd (rc_enqueue r s))"
| step_stop: "recorder_step s (rc_request_stop s)"
| step_take: "rc_worker_wakes s \<Longrightarrow> recorder_step s (rc_worker_take s)"
| step_done: "rc_worker s = WorkerWriting r \<Longrightarrow> recorder_step s (rc_worker_done r written s)"
| step_join: "rc_stopping s \<Longrightarrow> rc_join_state s = JoinIdle \<Longrightarrow>
    recorder_step s (s\<lparr>rc_join_state := Joining\<rparr>)"
| step_joined: "rc_join_state s = Joining \<Longrightarrow> rc_worker s = WorkerExited \<Longrightarrow>
    recorder_step s (s\<lparr>rc_join_state := Joined\<rparr>)"

inductive recorder_reachable :: "nat \<Rightarrow> recorder \<Rightarrow> bool" for capacity where
  reach_init: "recorder_reachable capacity (recorder_init capacity)"
| reach_step: "recorder_reachable capacity s \<Longrightarrow> recorder_step s s' \<Longrightarrow> recorder_reachable capacity s'"

inductive_cases recorder_stepE: "recorder_step s s'"

section \<open>The invariant\<close>

definition rc_in_flight :: "recorder \<Rightarrow> task_record list" where
  "rc_in_flight s = (case rc_worker s of WorkerWriting r \<Rightarrow> [r] | _ \<Rightarrow> [])"

definition recorder_inv :: "nat \<Rightarrow> recorder \<Rightarrow> bool" where
  "recorder_inv capacity s \<longleftrightarrow>
     rc_capacity s = capacity \<and> length (rc_queue s) \<le> capacity \<and>
     rc_accepted s = map fst (rc_written s) @ rc_in_flight s @ rc_queue s \<and>
     rc_persisted s = of_nat (length (filter snd (rc_written s))) \<and>
     rc_write_errors s = of_nat (length (filter (Not \<circ> snd) (rc_written s))) \<and>
     (rc_worker s = WorkerExited \<longrightarrow> rc_stopping s \<and> rc_queue s = []) \<and>
     (rc_join_state s = Joined \<longrightarrow> rc_worker s = WorkerExited)"

lemma recorder_inv_init: "recorder_inv capacity (recorder_init capacity)"
  by (simp add: recorder_inv_def recorder_init_def rc_in_flight_def)

lemma recorder_inv_step:
  assumes "recorder_inv capacity s" and "recorder_step s s'"
  shows "recorder_inv capacity s'"
  using assms(2)
proof cases
  case (step_enqueue r)
  with assms(1) show ?thesis
    by (auto simp: recorder_inv_def rc_enqueue_def rc_in_flight_def split: recorder_worker.splits)
next
  case step_take
  with assms(1) show ?thesis
    by (auto simp: recorder_inv_def rc_worker_wakes_def rc_worker_take_def rc_in_flight_def
        split: list.splits)
next
  case (step_done r written)
  with assms(1) show ?thesis
    by (auto simp: recorder_inv_def rc_worker_done_def rc_in_flight_def Let_def add.commute)
qed (use assms(1) in \<open>auto simp: recorder_inv_def rc_request_stop_def rc_in_flight_def\<close>)

lemma recorder_reachable_inv: "recorder_reachable capacity s \<Longrightarrow> recorder_inv capacity s"
  by (induction rule: recorder_reachable.induct) (auto intro: recorder_inv_init recorder_inv_step)

section \<open>The node\<close>

record task_event =
  te_task_id :: string
  te_request_id :: string
  te_workflow_id :: string
  te_goal_id :: string
  te_target_id :: string
  te_action_status :: u8
  te_outcome :: u8
  te_error_code :: u16
  te_duration_ms :: u64
  te_message :: string
  te_stamp_sec :: i32
  te_stamp_nanosec :: u32

definition event_record :: "task_event \<Rightarrow> task_record" where
  "event_record e =
     \<lparr>tr_task_id = te_task_id e, tr_request_id = te_request_id e,
      tr_workflow_id = te_workflow_id e, tr_goal_id = te_goal_id e,
      tr_target_id = te_target_id e, tr_action_status = te_action_status e,
      tr_outcome = te_outcome e, tr_error_code = te_error_code e,
      tr_duration_ms = te_duration_ms e, tr_message = te_message e,
      tr_completed_at_ns = sint (te_stamp_sec e) * 1000000000 + uint (te_stamp_nanosec e)\<rparr>"

record history_node =
  hn_recorder :: recorder
  hn_queue_rejections :: u64
  hn_diagnostics :: "diag_status list"

definition history_diagnostics :: "history_node \<Rightarrow> diag_status" where
  "history_diagnostics n =
     (let write_errors = rc_write_errors (hn_recorder n);
          queue_rejections = hn_queue_rejections n;
          level = (if write_errors = 0 \<and> queue_rejections = 0 then DIAG_OK else DIAG_ERROR)
      in \<lparr>ds_level = level, ds_name = ''runtime/history'',
          ds_message = (if level = DIAG_OK then ''history available'' else ''history records lost''),
          ds_hardware_id = ''robot_runtime'',
          ds_values =
            [(''persisted'', nat_to_string (unat (rc_persisted (hn_recorder n)))),
             (''write_errors'', nat_to_string (unat write_errors)),
             (''queue_rejections'', nat_to_string (unat queue_rejections))]\<rparr>)"

definition history_publish_diagnostics :: "history_node \<Rightarrow> history_node" where
  "history_publish_diagnostics n =
     n\<lparr>hn_diagnostics := hn_diagnostics n @ [history_diagnostics n]\<rparr>"

definition history_on_event :: "task_event \<Rightarrow> history_node \<Rightarrow> history_node" where
  "history_on_event e n =
     (let (queued, rec) = rc_enqueue (event_record e) (hn_recorder n);
          n' = n\<lparr>hn_recorder := rec\<rparr>
      in if queued then n'
         else history_publish_diagnostics
                (n'\<lparr>hn_queue_rejections := hn_queue_rejections n' + 1\<rparr>))"

section \<open>Properties\<close>

text \<open>C33. No accepted record is lost or reordered: in every reachable state the accepted records
  are, in order, those already handed to the store, the one being written, and those queued; the
  queue never exceeds the capacity; and the two counters count the written and failed ones.\<close>

theorem recorder_conserves_accepted_records:
  assumes "recorder_reachable capacity s"
  shows "rc_accepted s = map fst (rc_written s) @ rc_in_flight s @ rc_queue s \<and>
    length (rc_queue s) \<le> capacity \<and>
    rc_persisted s + rc_write_errors s = of_nat (length (rc_written s))"
proof -
  have "length (filter snd ws) + length (filter (Not \<circ> snd) ws) = length ws"
    for ws :: "(task_record \<times> bool) list"
    by (induction ws) auto
  from arg_cong [OF this [of "rc_written s"], of "of_nat :: nat \<Rightarrow> u64"]
  show ?thesis
    using recorder_reachable_inv [OF assms] by (simp add: recorder_inv_def)
qed

definition recorder_sample :: recorder where
  "recorder_sample = rc_worker_done example_task True (rc_worker_take
     (rc_request_stop (snd (rc_enqueue example_task (recorder_init 1)))))"

lemmas recorder_sample_defs = recorder_sample_def rc_worker_done_def rc_worker_take_def
  rc_request_stop_def rc_enqueue_def recorder_init_def Let_def rc_worker_wakes_def

lemma recorder_sample_logs:
  "rc_accepted recorder_sample = [example_task]"
  "rc_written recorder_sample = [(example_task, True)]"
  by (simp_all add: recorder_sample_defs)

lemma recorder_sample_run: "recorder_reachable 1 recorder_sample"
proof -
  let ?s1 = "snd (rc_enqueue example_task (recorder_init 1))"
  have "recorder_reachable 1 ?s1" by (rule reach_step [OF reach_init step_enqueue])
  then have s2: "recorder_reachable 1 (rc_request_stop ?s1)" by (rule reach_step) (rule step_stop)
  have "rc_worker_wakes (rc_request_stop ?s1)"
    by (simp add: rc_worker_wakes_def rc_request_stop_def rc_enqueue_def recorder_init_def)
  with s2 have s3: "recorder_reachable 1 (rc_worker_take (rc_request_stop ?s1))"
    by (auto intro: reach_step step_take)
  have "rc_worker (rc_worker_take (rc_request_stop ?s1)) = WorkerWriting example_task"
    by (simp add: rc_worker_take_def rc_request_stop_def rc_enqueue_def recorder_init_def)
  with s3 show ?thesis unfolding recorder_sample_def by (auto intro: reach_step step_done)
qed

theorem recorder_conserves_accepted_records_witness:
  "\<exists>s. recorder_reachable 1 s \<and> rc_accepted s = [example_task] \<and> rc_written s = [(example_task, True)] \<and>
     rc_persisted s + rc_write_errors s = 1"
  using recorder_conserves_accepted_records [OF recorder_sample_run] recorder_sample_run
  by (intro exI [of _ recorder_sample]) (simp add: recorder_sample_logs)

text \<open>When \<open>stop\<close> has joined the worker, nothing is left behind: every record that was ever
  accepted has been handed to the store, in the order of acceptance.\<close>

theorem recorder_stop_drains_queue:
  assumes "recorder_reachable capacity s" and "rc_join_state s = Joined"
  shows "map fst (rc_written s) = rc_accepted s"
  using recorder_reachable_inv [OF assms(1)] assms(2)
  by (simp add: recorder_inv_def rc_in_flight_def)

theorem recorder_stop_drains_queue_witness:
  "\<exists>s. recorder_reachable 1 s \<and> rc_join_state s = Joined \<and> rc_accepted s = [example_task] \<and>
     map fst (rc_written s) = [example_task]"
proof -
  let ?s5 = "rc_worker_take recorder_sample"
  let ?s7 = "?s5\<lparr>rc_join_state := Joining\<rparr>\<lparr>rc_join_state := Joined\<rparr>"
  have "rc_worker_wakes recorder_sample" by (simp add: recorder_sample_defs)
  with recorder_sample_run have "recorder_reachable 1 ?s5" by (auto intro: reach_step step_take)
  moreover have "rc_stopping ?s5" "rc_join_state ?s5 = JoinIdle" by (simp_all add: recorder_sample_defs)
  ultimately have "recorder_reachable 1 (?s5\<lparr>rc_join_state := Joining\<rparr>)"
    by (auto intro: reach_step step_join)
  moreover have "rc_worker ?s5 = WorkerExited" by (simp add: recorder_sample_defs)
  ultimately have s7: "recorder_reachable 1 ?s7"
    using reach_step [OF _ step_joined] by fastforce
  moreover have "rc_accepted ?s7 = [example_task]" by (simp add: recorder_sample_defs)
  ultimately show ?thesis
    using recorder_stop_drains_queue [OF s7] by (intro exI [of _ ?s7]) simp
qed

end
