(* ===== verification/Stage_Json.thy ===== *)
theory Stage_Json
  imports History_Store
begin

text \<open>
  The JSON text the runtime writes: \<open>stage_event_log.hpp\<close> (one JSONL line per execution
  stage), \<open>report_json.hpp\<close> and \<open>runtime_history_report.cpp\<close>. Characters are bytes. The
  reader \<open>json_scan\<close> is the reference the escaping is proved against.
\<close>

section \<open>Escaping\<close>

abbreviation QUOTE :: char where "QUOTE \<equiv> CHR 0x22"
abbreviation BACKSLASH :: char where "BACKSLASH \<equiv> CHR 0x5C"
abbreviation NL :: char where "NL \<equiv> CHR 0x0A"
abbreviation CR :: char where "CR \<equiv> CHR 0x0D"
abbreviation TAB :: char where "TAB \<equiv> CHR 0x09"
abbreviation BS :: char where "BS \<equiv> CHR 0x08"
abbreviation FF :: char where "FF \<equiv> CHR 0x0C"

abbreviation code_of :: "char \<Rightarrow> nat" where "code_of c \<equiv> of_char c"

definition hex_digit :: "nat \<Rightarrow> char" where
  "hex_digit n = ''0123456789abcdef'' ! n"

definition escape_control :: "char \<Rightarrow> string" where
  "escape_control c =
     (if code_of c < 32
      then BACKSLASH # ''u00'' @ [hex_digit (code_of c div 16 mod 16), hex_digit (code_of c mod 16)]
      else [c])"

definition json_escape_char :: "char \<Rightarrow> string" where
  "json_escape_char c =
     (if c = QUOTE then [BACKSLASH, QUOTE]
      else if c = BACKSLASH then [BACKSLASH, BACKSLASH]
      else if c = NL then [BACKSLASH, CHR ''n'']
      else if c = CR then [BACKSLASH, CHR ''r'']
      else if c = TAB then [BACKSLASH, CHR ''t'']
      else escape_control c)"

definition json_escape :: "string \<Rightarrow> string" where
  "json_escape s = concat (map json_escape_char s)"

definition json_quote :: "string \<Rightarrow> string" where
  "json_quote s = QUOTE # json_escape s @ [QUOTE]"

text \<open>The report program's own quoting has two more short escapes.\<close>

definition report_escape_char :: "char \<Rightarrow> string" where
  "report_escape_char c =
     (if c = BS then [BACKSLASH, CHR ''b'']
      else if c = FF then [BACKSLASH, CHR ''f'']
      else json_escape_char c)"

definition report_quote :: "string \<Rightarrow> string" where
  "report_quote s = QUOTE # concat (map report_escape_char s) @ [QUOTE]"

section \<open>Stage events\<close>

record stage_event =
  se_trace_id :: string
  se_source_node :: string
  se_stage :: string
  se_event_name :: string
  se_event_type :: string
  se_duration_ns :: u64
  se_status :: string
  se_reason_code :: string
  se_extra_json :: string

definition stage_sequence_id :: "string \<Rightarrow> u64" where
  "stage_sequence_id trace =
     drop_bit 1 (foldl (\<lambda>h c. (h XOR of_nat (code_of c)) * 1099511628211)
       (14695981039346656037 :: u64) trace)"

text \<open>The line of one event; process, thread, host and clock are read when it is written.\<close>

definition stage_line :: "int \<Rightarrow> int \<Rightarrow> int \<Rightarrow> string \<Rightarrow> stage_event \<Rightarrow> string" where
  "stage_line timestamp_ns pid tid host e =
     ''{\"trace_id\":\"'' @ json_escape (se_trace_id e) @
     ''\",\"sequence_id\":'' @ nat_to_string (unat (stage_sequence_id (se_trace_id e))) @
     '',\"source_node\":\"'' @ json_escape (se_source_node e) @
     ''\",\"stage\":\"'' @ json_escape (se_stage e) @
     ''\",\"timestamp_ns\":'' @ int_to_string timestamp_ns @
     '',\"event_name\":\"'' @ json_escape (se_event_name e) @
     ''\",\"event_type\":\"'' @ json_escape (se_event_type e) @
     ''\",\"pid\":'' @ int_to_string pid @
     '',\"tid\":'' @ int_to_string tid @
     '',\"host_id\":\"'' @ json_escape host @
     ''\",\"clock_id\":\"monotonic\",\"duration_ns\":'' @ nat_to_string (unat (se_duration_ns e)) @
     '',\"status\":\"'' @ json_escape (se_status e) @
     ''\",\"reason_code\":\"'' @ json_escape (se_reason_code e) @
     ''\",\"extra_json\":\"'' @ json_escape (se_extra_json e) @
     ''\"}'' @ [NL]"

text \<open>
  The write loop: \<open>w k\<close> is what the \<open>k\<close>-th \<open>write\<close> call returns (at most what it was
  given). The result is what reached the file.
\<close>

function write_all :: "(nat \<Rightarrow> int) \<Rightarrow> nat \<Rightarrow> string \<Rightarrow> string" where
  "write_all w k rest =
     (if rest = [] then []
      else if w k \<le> 0 then []
      else take (nat (w k)) rest @ write_all w (Suc k) (drop (nat (w k)) rest))"
  by pat_completeness auto
termination by (relation "measure (\<lambda>(w, k, rest). length rest)") auto

declare write_all.simps [simp del]

text \<open>
  The log itself: an empty path, or an \<open>open\<close> that fails, disables it. \<open>gethostname\<close> fills at
  most 255 bytes of a zeroed buffer, or fails.
\<close>

record stage_log =
  sl_path :: string
  sl_fd :: int

definition stage_log_new :: "string \<Rightarrow> int \<Rightarrow> stage_log" where
  "stage_log_new path opened = \<lparr>sl_path = path, sl_fd = (if path = [] then -1 else opened)\<rparr>"

definition stage_log_enabled :: "stage_log \<Rightarrow> bool" where
  "stage_log_enabled log \<longleftrightarrow> 0 \<le> sl_fd log"

definition stage_log_closes :: "stage_log \<Rightarrow> int list" where
  "stage_log_closes log = (if 0 \<le> sl_fd log then [sl_fd log] else [])"

definition stage_host_id :: "string option \<Rightarrow> string" where
  "stage_host_id hostname =
     (case hostname of None \<Rightarrow> ''unknown'' | Some name \<Rightarrow> column_text (take 255 name))"

record emit_env =
  em_timestamp_ns :: int
  em_pid :: int
  em_tid :: int
  em_hostname :: "string option"
  em_write :: "nat \<Rightarrow> int"

text \<open>What \<open>emit\<close> appends to the file.\<close>

definition stage_emit :: "emit_env \<Rightarrow> stage_log \<Rightarrow> stage_event \<Rightarrow> string" where
  "stage_emit v log e =
     (if sl_fd log < 0 then []
      else write_all (em_write v) 0
             (stage_line (em_timestamp_ns v) (em_pid v) (em_tid v) (stage_host_id (em_hostname v)) e))"

section \<open>The report program\<close>

definition report_task :: "string \<Rightarrow> task_record option \<Rightarrow> string" where
  "report_task tid record =
     (case record of
        None \<Rightarrow> ''{\"found\":false,\"task_id\":'' @ report_quote tid @ ''}'' @ [NL]
      | Some r \<Rightarrow>
          ''{\"found\":true,\"task_id\":'' @ report_quote (tr_task_id r) @
          '',\"target_id\":'' @ report_quote (tr_target_id r) @
          '',\"action_status\":'' @ nat_to_string (unat (tr_action_status r)) @
          '',\"outcome\":'' @ nat_to_string (unat (tr_outcome r)) @
          '',\"error_code\":'' @ nat_to_string (unat (tr_error_code r)) @
          '',\"duration_ms\":'' @ nat_to_string (unat (tr_duration_ms r)) @
          '',\"message\":'' @ report_quote (tr_message r) @
          '',\"completed_at_ns\":'' @ int_to_string (tr_completed_at_ns r) @ ''}'' @ [NL])"

definition u64_text :: "u64 \<Rightarrow> string" where
  "u64_text n = nat_to_string (unat n)"

definition report_stats :: "runtime_stats \<Rightarrow> string" where
  "report_stats st =
     ''{\"has_data\":'' @ bool_to_string (st_has_data st) @
     '',\"sample_count\":'' @ u64_text (st_sample_count st) @
     '',\"outcome_counts\":['' @ u64_text (st_outcome_counts st ! 0) @ '','' @
     u64_text (st_outcome_counts st ! 1) @ '','' @ u64_text (st_outcome_counts st ! 2) @ '','' @
     u64_text (st_outcome_counts st ! 3) @ '']'' @
     '',\"p50_ms\":'' @ u64_text (st_p50_ms st) @
     '',\"p95_ms\":'' @ u64_text (st_p95_ms st) @
     '',\"p99_ms\":'' @ u64_text (st_p99_ms st) @
     '',\"max_ms\":'' @ u64_text (st_max_ms st) @ ''}'' @ [NL]"

definition report_usage :: string where
  "report_usage = ''{\"error\":\"usage: --db PATH (--task TASK_ID | --stats)\"}'' @ [NL]"

definition report_error :: "string \<Rightarrow> string" where
  "report_error err = ''{\"error\":'' @ report_quote err @ ''}'' @ [NL]"

text \<open>
  The program on its arguments (the program name left out): exit code and output. \<open>opened\<close> is
  the database behind the path or the error of opening it, \<open>failure\<close> the error of the read.
\<close>

definition report_main ::
  "string list \<Rightarrow> string + database \<Rightarrow> string option \<Rightarrow> nat \<times> string" where
  "report_main args opened failure =
     (if length args < 3 \<or> args ! 0 \<noteq> ''--db'' then (2, report_usage)
      else
        let mode = args ! 2 in
        if (mode = ''--stats'' \<and> length args \<noteq> 3) \<or> (mode = ''--task'' \<and> length args \<noteq> 4) \<or>
           (mode \<noteq> ''--stats'' \<and> mode \<noteq> ''--task'')
        then (2, report_usage)
        else
          (case opened of
             Inl err \<Rightarrow> (1, report_error err)
           | Inr db \<Rightarrow>
               if mode = ''--stats''
               then (case store_stats failure db of
                       Inl err \<Rightarrow> (1, report_error err)
                     | Inr st \<Rightarrow> (0, report_stats st))
               else (case store_get failure (args ! 3) db of
                       Inl err \<Rightarrow> (1, report_error err)
                     | Inr record \<Rightarrow> (0, report_task (args ! 3) record))))"

section \<open>Reading JSON strings back\<close>

definition hex_value :: "char \<Rightarrow> nat option" where
  "hex_value c =
     (if is_digit c then Some (code_of c - 48)
      else if 97 \<le> code_of c \<and> code_of c \<le> 102 then Some (code_of c - 87) else None)"

text \<open>
  The body of a JSON string after its opening quote: the decoded characters and what follows
  the closing quote. Raw control characters are not allowed.
\<close>

definition scan_cons :: "char \<Rightarrow> (string \<times> string) option \<Rightarrow> (string \<times> string) option" where
  "scan_cons c = map_option (\<lambda>(s, rest). (c # s, rest))"

fun json_scan :: "string \<Rightarrow> (string \<times> string) option" where
  "json_scan [] = None"
| "json_scan (c # s) =
     (if c = QUOTE then Some ([], s)
      else if c = BACKSLASH then
        (case s of
           [] \<Rightarrow> None
         | e # s' \<Rightarrow>
             if e = QUOTE \<or> e = BACKSLASH then scan_cons e (json_scan s')
             else if e = CHR ''n'' then scan_cons NL (json_scan s')
             else if e = CHR ''r'' then scan_cons CR (json_scan s')
             else if e = CHR ''t'' then scan_cons TAB (json_scan s')
             else if e = CHR ''b'' then scan_cons BS (json_scan s')
             else if e = CHR ''f'' then scan_cons FF (json_scan s')
             else if e = CHR ''u'' then
               (case s' of
                  z1 # z2 # h # l # s'' \<Rightarrow>
                    (if z1 = CHR ''0'' \<and> z2 = CHR ''0'' then
                       (case (hex_value h, hex_value l) of
                          (Some a, Some b) \<Rightarrow> scan_cons (char_of (16 * a + b)) (json_scan s'')
                        | _ \<Rightarrow> None)
                     else None)
                | _ \<Rightarrow> None)
             else None)
      else if code_of c < 32 then None
      else scan_cons c (json_scan s))"

lemma hex_value_digit: "n < 16 \<Longrightarrow> hex_value (hex_digit n) = Some n"
proof -
  have "list_all (\<lambda>n. hex_value (hex_digit n) = Some n) [0..<16]" by code_simp
  then show "n < 16 \<Longrightarrow> ?thesis" by (simp add: list_all_iff)
qed

lemma json_scan_control:
  assumes "c \<noteq> QUOTE" "c \<noteq> BACKSLASH"
  shows "json_scan (escape_control c @ s) = scan_cons c (json_scan s)"
proof (cases "code_of c < 32")
  case True
  then have "16 * (code_of c div 16 mod 16) + code_of c mod 16 = code_of c" by simp
  then have "char_of (16 * (code_of c div 16 mod 16) + code_of c mod 16) = c"
    by (metis char_of_char)
  with True show ?thesis
    by (simp add: escape_control_def hex_value_digit del: of_char_mod_256)
next
  case False
  with assms show ?thesis by (simp add: escape_control_def)
qed

lemma json_scan_char: "json_scan (json_escape_char c @ s) = scan_cons c (json_scan s)"
  using json_scan_control [of c s] by (simp add: json_escape_char_def)

lemma json_scan_report_char: "json_scan (report_escape_char c @ s) = scan_cons c (json_scan s)"
  using json_scan_char [of c s] by (simp add: report_escape_char_def)

lemma json_scan_concat:
  assumes "\<And>c s. json_scan (f c @ s) = scan_cons c (json_scan s)"
  shows "json_scan (concat (map f s) @ QUOTE # rest) = Some (s, rest)"
  by (induction s) (simp_all add: assms scan_cons_def)

lemma write_all_complete:
  "\<forall>k. 0 < w k \<Longrightarrow> write_all w k rest = rest"
proof (induction w k rest rule: write_all.induct)
  case (1 w k rest)
  then show ?case by (subst write_all.simps) (auto simp: not_le [symmetric])
qed

lemma write_all_prefix: "\<exists>lost. rest = write_all w k rest @ lost"
proof (induction w k rest rule: write_all.induct)
  case (1 w k rest)
  show ?case
  proof (cases "rest = [] \<or> w k \<le> 0")
    case True
    then show ?thesis by (auto simp: write_all.simps [of w k rest])
  next
    case False
    with 1 obtain lost where
      "drop (nat (w k)) rest = write_all w (Suc k) (drop (nat (w k)) rest) @ lost" by auto
    then have "rest = take (nat (w k)) rest @ write_all w (Suc k) (drop (nat (w k)) rest) @ lost"
      by (metis append_take_drop_id)
    then have "rest = write_all w k rest @ lost"
      using False write_all.simps [of w k rest] by simp
    then show ?thesis ..
  qed
qed

section \<open>Properties\<close>

text \<open>C39. Whatever bytes an identifier or message holds, a JSON reader that meets the quoted
  value gets exactly these bytes back and stops exactly behind its closing quote; so no value can
  break out of its string and invalidate a captured line. This holds for the stage log's quoting
  and for the report program's.\<close>

theorem json_quote_reads_back:
  "json_scan (tl (json_quote s @ rest)) = Some (s, rest) \<and>
   json_scan (tl (report_quote s @ rest)) = Some (s, rest)"
  using json_scan_concat [of json_escape_char s rest, OF json_scan_char]
    json_scan_concat [of report_escape_char s rest, OF json_scan_report_char]
  by (simp add: json_quote_def report_quote_def json_escape_def)

lemma escape_no_newline: "NL \<notin> set (json_escape s)"
proof -
  have "list_all (\<lambda>n. hex_digit n \<noteq> NL) [0..<16]" by code_simp
  then have "hex_digit n \<noteq> NL" if "n < 16" for n using that by (simp add: list_all_iff)
  then have "NL \<noteq> hex_digit (n mod 16)" "n < 32 \<Longrightarrow> NL \<noteq> hex_digit (n div 16)" for n
    by (metis mod_less_divisor zero_less_numeral, simp add: less_mult_imp_div_less eq_commute)
  then have "NL \<notin> set (json_escape_char c)" for c
    by (simp add: json_escape_char_def escape_control_def)
  then show ?thesis by (auto simp: json_escape_def)
qed

lemma decimal_no_newline: "NL \<notin> set (nat_to_string n)" "NL \<notin> set (int_to_string i)"
proof -
  show *: "NL \<notin> set (nat_to_string n)" for n
    using nat_to_string_digits [of n] by (auto simp: is_digit_def)
  show "NL \<notin> set (int_to_string i)" using * by (simp add: int_to_string_def)
qed

text \<open>A stage event is one JSONL line: its only newline is the last character, whatever the
  event's fields hold.\<close>

theorem stage_line_is_one_line:
  "last (stage_line ts pid tid host e) = NL \<and> NL \<notin> set (butlast (stage_line ts pid tid host e))"
  by (simp add: stage_line_def butlast_append escape_no_newline decimal_no_newline)

text \<open>
  The events of one process, whose mutex keeps the lines apart. When no write fails, the file
  is one line for each event: cutting it at its newlines gives the lines back in their order.
\<close>

fun cut_lines :: "string \<Rightarrow> string \<Rightarrow> string list" where
  "cut_lines acc [] = (if acc = [] then [] else [acc])"
| "cut_lines acc (c # cs) = (if c = NL then (acc @ [c]) # cut_lines [] cs else cut_lines (acc @ [c]) cs)"

lemma cut_lines_line: "NL \<notin> set xs \<Longrightarrow> cut_lines acc (xs @ NL # rest) = (acc @ xs @ [NL]) # cut_lines [] rest"
  by (induction xs arbitrary: acc) auto

lemma stage_emits_whole_lines:
  assumes "\<forall>(v, log, e) \<in> set es. (\<forall>k. 0 < em_write v k) \<and> stage_log_enabled log"
  shows "cut_lines [] (concat (map (\<lambda>(v, log, e). stage_emit v log e) es)) =
    map (\<lambda>(v, log, e). stage_line (em_timestamp_ns v) (em_pid v) (em_tid v)
           (stage_host_id (em_hostname v)) e) es"
  using assms
proof (induction es)
  case (Cons x es)
  obtain v log e where x: "x = (v, log, e)" by (cases x)
  let ?l = "stage_line (em_timestamp_ns v) (em_pid v) (em_tid v) (stage_host_id (em_hostname v)) e"
  have "?l \<noteq> []" by (simp add: stage_line_def)
  then have "?l = butlast ?l @ [NL]"
    using stage_line_is_one_line by (metis append_butlast_last_id)
  then have "cut_lines [] (?l @ rest) = ?l # cut_lines [] rest" for rest
    using cut_lines_line [of "butlast ?l" "[]" rest] stage_line_is_one_line
    by (metis append_Nil append_Cons append_assoc)
  moreover have "stage_emit v log e = ?l"
    using Cons.prems by (simp add: x stage_emit_def stage_log_enabled_def write_all_complete)
  ultimately show ?case using Cons by (simp add: x)
qed simp

end
