(* ===== verification/Task_Executor.thy ===== *)
theory Task_Executor
  imports Task_Diagnostics Device_Bridge History_Recorder Stage_Json
begin

text \<open>
  \<open>task_executor_node.cpp\<close>, \<open>target_validator.cpp\<close> and \<open>task_event.cpp\<close>: the action server
  that validates one task, drives one device command through the bridge and reports exactly
  one terminal result.

  The worker thread runs against an environment indexed by a tick that every observation
  advances: whether the node still runs, whether the goal is being canceled, the clock, the
  exceptions that the middleware and the test hook raise, and which callbacks of the child
  action ran in between. Every access to the mutex-protected child state first delivers the
  callbacks of its tick, so the theorems, which quantify over all environments, cover all
  interleavings of the worker with the callbacks. A wait that never ends is \<open>None\<close>.
\<close>

section \<open>Target validation\<close>

text \<open>\<open>std::isspace\<close> in the C locale.\<close>

definition isspace :: "char \<Rightarrow> bool" where
  "isspace c \<longleftrightarrow> (of_char c :: nat) = 32 \<or> (9 \<le> (of_char c :: nat) \<and> (of_char c :: nat) \<le> 13)"

definition has_non_whitespace :: "string \<Rightarrow> bool" where
  "has_non_whitespace value \<longleftrightarrow> (\<exists>c \<in> set value. \<not> isspace c)"

definition target_validator_new :: "string list \<Rightarrow> string + string list" where
  "target_validator_new targets =
     (let kept = remdups (filter has_non_whitespace targets) in
      if kept = [] then Inl ''target allowlist must contain at least one non-empty target id''
      else Inr kept)"

definition is_known :: "string list \<Rightarrow> string \<Rightarrow> bool" where
  "is_known targets target_id \<longleftrightarrow> has_non_whitespace target_id \<and> target_id \<in> set targets"

section \<open>Data\<close>

record task_goal =
  tg_task_id :: string
  tg_target_id :: string
  tg_request_id :: string
  tg_workflow_id :: string
  tg_allowed_duration :: duration

datatype stop_cause = kNone | kUserCancel | kDeadline | kShutdown

datatype worker_phase =
    kBeforeFeedback | kBeforeSendGoal | kAfterSendGoal | kBeforeCancelGoal | kBeforeSuccess
  | kAfterChildAccepted | kBeforeParentTransition

definition kErrorBridgeRejected :: u16 where "kErrorBridgeRejected = 110"
definition kErrorBridgeUnavailable :: u16 where "kErrorBridgeUnavailable = 111"
definition kErrorTaskDeadline :: u16 where "kErrorTaskDeadline = 112"
definition kErrorCancelUnconfirmed :: u16 where "kErrorCancelUnconfirmed = 113"
definition kErrorUnexpectedChildResult :: u16 where "kErrorUnexpectedChildResult = 114"
definition kMaxApplicationCommandId :: u16 where "kMaxApplicationCommandId = 0x7FFF"

lemmas executor_error_codes =
  kErrorBridgeRejected_def kErrorBridgeUnavailable_def kErrorTaskDeadline_def
  kErrorCancelUnconfirmed_def kErrorUnexpectedChildResult_def

abbreviation TASK_VALIDATING :: u8 where "TASK_VALIDATING \<equiv> 1"
abbreviation TASK_RUNNING :: u8 where "TASK_RUNNING \<equiv> 2"
abbreviation TASK_WAITING_ACK :: u8 where "TASK_WAITING_ACK \<equiv> 3"
abbreviation TASK_RECOVERING :: u8 where "TASK_RECOVERING \<equiv> 4"

abbreviation EVENT_SUCCEEDED :: u8 where "EVENT_SUCCEEDED \<equiv> 1"
abbreviation EVENT_ABORTED :: u8 where "EVENT_ABORTED \<equiv> 2"
abbreviation EVENT_CANCELED :: u8 where "EVENT_CANCELED \<equiv> 3"

text \<open>
  \<open>ChildExecutionState\<close>. A handle is known by being non-null; \<open>cs_late_cancel\<close> is the local
  \<open>dispatch_late_cancel\<close> of a goal-response callback between its critical section and its
  cancel request.
\<close>

record child_state =
  cs_dispatch_started :: bool
  cs_goal_response_received :: bool
  cs_handle :: bool
  cs_terminal :: bool
  cs_result :: "wrapped_result option"
  cs_cancel_requested :: bool
  cs_cancel_dispatched :: bool
  cs_cancel_requested_at :: int
  cs_cancel_started_at :: int
  cs_cancel_timed_out :: bool
  cs_late_cancel :: bool

definition child_init :: child_state where
  "child_init =
     \<lparr>cs_dispatch_started = False, cs_goal_response_received = False, cs_handle = False,
      cs_terminal = False, cs_result = None, cs_cancel_requested = False,
      cs_cancel_dispatched = False, cs_cancel_requested_at = 0, cs_cancel_started_at = 0,
      cs_cancel_timed_out = False, cs_late_cancel = False\<rparr>"

text \<open>
  What the callbacks of the child action do: a goal response (with a handle or without, at a
  time), the end of the cancel request it may have started (with the exception it raised),
  a result.
\<close>

datatype child_event =
    ChildResponse bool int | LateCancelDone "string option" | ChildResult wrapped_result

record exec_config =
  ec_targets :: "string list"
  ec_target_arguments :: "(string \<times> i32) list"
  ec_device_opcode :: u8
  ec_ack_timeout_ms :: int
  ec_cancel_timeout_ms :: int
  ec_validation_delay_ms :: int
  ec_diagnostic_period_ms :: int
  ec_event_history_depth :: int
  ec_stage_log_enabled :: bool

record exec_env =
  xe_running :: "nat \<Rightarrow> bool"
  xe_ok :: "nat \<Rightarrow> bool"
  xe_canceling :: "nat \<Rightarrow> bool"
  xe_now :: "nat \<Rightarrow> int"
  xe_bridge_ready :: "nat \<Rightarrow> bool"
  xe_child :: "nat \<Rightarrow> child_event list"
  xe_hook :: "nat \<Rightarrow> worker_phase \<Rightarrow> string option"
  xe_send_goal :: "nat \<Rightarrow> string option"
  xe_cancel_goal :: "nat \<Rightarrow> string option"
  xe_transition :: "nat \<Rightarrow> (string \<times> bool) option"
  xe_event_throws :: "nat \<Rightarrow> bool"
  xe_stamp :: "nat \<Rightarrow> i32 \<times> u32"

record executor =
  ex_tick :: nat
  ex_active_goal :: bool
  ex_parent_terminal :: bool
  ex_terminal_event_published :: bool
  ex_next_command_id :: u16
  ex_goal_id :: string
  ex_started_at :: int
  ex_diag :: task_diag
  ex_workers_active :: nat
  ex_child :: child_state
  ex_goal_open :: bool
  ex_device_goals :: "device_goal list"
  ex_child_cancels :: nat
  ex_feedback :: "(u8 \<times> nat) list"
  ex_diagnostics :: "diag_status list"
  ex_stages :: "(string \<times> string) list"
  ex_results :: "goal_terminal list"
  ex_events :: "task_event list"

text \<open>
  \<open>ex_goal_open\<close> is \<open>goal_handle->is_active()\<close>. The lists are logs: the goals sent to the
  bridge, the feedback (state and progress in hundredths), published statuses, stage lines,
  terminal transitions and events; \<open>ex_child_cancels\<close> counts the cancel requests that
  reached the action client.
\<close>

definition executor_init :: "u16 \<Rightarrow> executor" where
  "executor_init first_command_id =
     \<lparr>ex_tick = 0, ex_active_goal = False, ex_parent_terminal = False,
      ex_terminal_event_published = False, ex_next_command_id = first_command_id,
      ex_goal_id = [], ex_started_at = 0, ex_diag = task_diag_init, ex_workers_active = 0,
      ex_child = child_init, ex_goal_open = False, ex_device_goals = [], ex_child_cancels = 0,
      ex_feedback = [], ex_diagnostics = [], ex_stages = [], ex_results = [], ex_events = []\<rparr>"

section \<open>Construction\<close>

definition executor_configure ::
  "string list \<Rightarrow> int list \<Rightarrow> int \<Rightarrow> int \<Rightarrow> int \<Rightarrow> int \<Rightarrow> int \<Rightarrow> int \<Rightarrow> bool \<Rightarrow> string + exec_config"
where
  "executor_configure targets target_arguments opcode ack_timeout cancel_timeout
     validation_delay event_history_depth diagnostic_period stage_log =
     (if length targets \<noteq> length target_arguments \<or> targets = []
      then Inl ''targets and target_arguments must be non-empty and aligned''
      else if opcode < 0 \<or> 255 < opcode then Inl ''device_opcode must be in [0, 255]''
      else if ack_timeout \<le> 0 \<or> 60000 < ack_timeout \<or> cancel_timeout \<le> 0 \<or> 60000 < cancel_timeout
      then Inl ''ACK and cancel timeouts must be in [1, 60000] ms''
      else if diagnostic_period \<le> 0 \<or> 60000 < diagnostic_period
      then Inl ''diagnostic_period_ms must be in [1, 60000]''
      else if event_history_depth \<le> 0 \<or> 1000 < event_history_depth
      then Inl ''task_event_history_depth must be in [1, 1000]''
      else if \<exists>a \<in> set target_arguments. a < - 2147483648 \<or> INT32_MAX < a
      then Inl ''target argument exceeds int32 range''
      else case target_validator_new targets of
             Inl err \<Rightarrow> Inl err
           | Inr known \<Rightarrow> Inr
               \<lparr>ec_targets = known,
                ec_target_arguments = zip targets (List.map word_of_int target_arguments),
                ec_device_opcode = word_of_int opcode, ec_ack_timeout_ms = ack_timeout,
                ec_cancel_timeout_ms = cancel_timeout,
                ec_validation_delay_ms = clamp_int validation_delay 0 60000,
                ec_diagnostic_period_ms = diagnostic_period,
                ec_event_history_depth = event_history_depth,
                ec_stage_log_enabled = stage_log\<rparr>)"

section \<open>Goal callbacks\<close>

definition duration_is_valid :: "duration \<Rightarrow> bool" where
  "duration_is_valid d \<longleftrightarrow>
     0 \<le> sint (dur_sec d) \<and> uint (dur_nanosec d) < 1000000000 \<and>
     (0 < sint (dur_sec d) \<or> 0 < uint (dur_nanosec d))"

definition to_steady_duration :: "duration \<Rightarrow> int" where
  "to_steady_duration d = sint (dur_sec d) * 1000000000 + uint (dur_nanosec d)"

definition executor_handle_goal ::
  "exec_config \<Rightarrow> bool \<Rightarrow> bool \<Rightarrow> string \<Rightarrow> task_goal \<Rightarrow> executor \<Rightarrow> goal_response \<times> executor" where
  "executor_handle_goal cfg running bridge_ready goal_id g s =
     (if \<not> running then (REJECT ''EXECUTOR_SHUTTING_DOWN'', s)
      else if \<not> has_non_whitespace (tg_task_id g) then (REJECT ''EMPTY_TASK_ID'', s)
      else if \<not> duration_is_valid (tg_allowed_duration g) then (REJECT ''INVALID_DURATION'', s)
      else if \<not> has_non_whitespace (tg_target_id g) \<or> \<not> is_known (ec_targets cfg) (tg_target_id g)
      then (REJECT ''INVALID_TARGET'', s)
      else if \<not> bridge_ready
      then (REJECT ''DEVICE_BRIDGE_NOT_READY'', s\<lparr>ex_diag := td_set_bridge_ready False (ex_diag s)\<rparr>)
      else if ex_active_goal s then (REJECT ''EXECUTOR_BUSY'', s)
      else (ACCEPT_AND_EXECUTE, s\<lparr>ex_active_goal := True, ex_goal_id := goal_id\<rparr>))"

section \<open>Callbacks of the child action\<close>

fun child_callback :: "child_event \<Rightarrow> executor \<Rightarrow> executor" where
  "child_callback (ChildResponse handle now) s =
     (let c = (ex_child s)\<lparr>cs_goal_response_received := True, cs_handle := handle\<rparr> in
      s\<lparr>ex_child :=
         if handle \<and> cs_cancel_requested c \<and> \<not> cs_cancel_dispatched c
         then c\<lparr>cs_cancel_dispatched := True, cs_cancel_started_at := now, cs_late_cancel := True\<rparr>
         else c\<rparr>)"
| "child_callback (LateCancelDone err) s =
     (if \<not> cs_late_cancel (ex_child s) then s
      else case err of
             None \<Rightarrow> s\<lparr>ex_child := (ex_child s)\<lparr>cs_late_cancel := False\<rparr>,
                       ex_child_cancels := Suc (ex_child_cancels s)\<rparr>
           | Some _ \<Rightarrow> s\<lparr>ex_child :=
               (ex_child s)\<lparr>cs_late_cancel := False, cs_cancel_dispatched := False\<rparr>\<rparr>)"
| "child_callback (ChildResult r) s =
     s\<lparr>ex_child := (ex_child s)\<lparr>cs_result := Some r, cs_terminal := True\<rparr>\<rparr>"

text \<open>One observation: the callbacks of the tick run, then the worker reads.\<close>

definition ex_observe :: "exec_env \<Rightarrow> executor \<Rightarrow> executor" where
  "ex_observe e s = fold child_callback (xe_child e (ex_tick s)) (s\<lparr>ex_tick := Suc (ex_tick s)\<rparr>)"

section \<open>Small effects\<close>

text \<open>A step that may throw yields the exception text, if any, with the state it left.\<close>

definition ex_update_diag :: "(task_diag \<Rightarrow> task_diag) \<Rightarrow> executor \<Rightarrow> executor" where
  "ex_update_diag f s = s\<lparr>ex_diag := f (ex_diag s)\<rparr>"

definition ex_publish_diagnostics :: "exec_env \<Rightarrow> executor \<Rightarrow> executor" where
  "ex_publish_diagnostics e s =
     (let d = td_set_bridge_ready (xe_bridge_ready e (ex_tick s)) (ex_diag s) in
      s\<lparr>ex_diag := d, ex_diagnostics := ex_diagnostics s @ [td_snapshot d]\<rparr>)"

definition ex_emit_stage ::
  "exec_config \<Rightarrow> task_goal \<Rightarrow> string \<Rightarrow> string \<Rightarrow> executor \<Rightarrow> executor" where
  "ex_emit_stage cfg g stage extra s =
     (if \<not> ec_stage_log_enabled cfg then s
      else s\<lparr>ex_stages := ex_stages s @ [(stage, extra)]\<rparr>)"

definition feedback_mark :: "u8 \<Rightarrow> task_diag \<Rightarrow> task_diag" where
  "feedback_mark state =
     (if state = TASK_VALIDATING then td_mark_validating
      else if state = TASK_RUNNING then td_mark_running
      else if state = TASK_WAITING_ACK then td_mark_waiting_ack
      else if state = TASK_RECOVERING then td_mark_recovering
      else (\<lambda>d. d))"

definition ex_run_hook :: "exec_env \<Rightarrow> worker_phase \<Rightarrow> executor \<Rightarrow> string option \<times> executor" where
  "ex_run_hook e phase s = (xe_hook e (ex_tick s) phase, ex_observe e s)"

definition ex_publish_feedback ::
  "exec_env \<Rightarrow> u8 \<Rightarrow> nat \<Rightarrow> executor \<Rightarrow> string option \<times> executor" where
  "ex_publish_feedback e state progress s =
     (case ex_run_hook e kBeforeFeedback s of
        (Some err, s1) \<Rightarrow> (Some err, s1)
      | (None, s1) \<Rightarrow>
          let s2 = ex_update_diag (feedback_mark state)
                     (s1\<lparr>ex_feedback := ex_feedback s1 @ [(state, progress)]\<rparr>)
          in (None, if state = TASK_RECOVERING then ex_publish_diagnostics e s2 else s2))"

section \<open>The terminal transition\<close>

definition make_task_event ::
  "string \<Rightarrow> string \<Rightarrow> string \<Rightarrow> string \<Rightarrow> string \<Rightarrow> u8 \<Rightarrow> u8 \<Rightarrow> u16 \<Rightarrow> u64 \<Rightarrow> string \<Rightarrow>
     i32 \<times> u32 \<Rightarrow> task_event" where
  "make_task_event task_id target_id request_id workflow_id goal_id action_status oc error_code
     duration_ms message stamp =
     \<lparr>te_task_id = task_id, te_request_id = request_id, te_workflow_id = workflow_id,
      te_goal_id = goal_id, te_target_id = target_id, te_action_status = action_status,
      te_outcome = oc, te_error_code = error_code, te_duration_ms = duration_ms,
      te_message = message, te_stamp_sec = fst stamp, te_stamp_nanosec = snd stamp\<rparr>"

text \<open>
  \<open>commit_parent_terminal\<close>: \<open>Inr True\<close> when this call took the transition (or found the goal
  no longer active after an exception), \<open>Inr False\<close> when an earlier one had, \<open>Inl\<close> the
  exception it rethrows after giving the transition back.
\<close>

definition commit_parent_terminal ::
  "exec_env \<Rightarrow> goal_terminal \<Rightarrow> executor \<Rightarrow> (string + bool) \<times> executor" where
  "commit_parent_terminal e transition s =
     (if ex_parent_terminal s then (Inr False, s)
      else
        let recover = (\<lambda>err s'. if \<not> ex_goal_open s' then (Inr True, s')
                                else (Inl err, s'\<lparr>ex_parent_terminal := False\<rparr>));
            commit = (\<lambda>s'. s'\<lparr>ex_goal_open := False, ex_results := ex_results s' @ [transition]\<rparr>)
        in case ex_run_hook e kBeforeParentTransition (s\<lparr>ex_parent_terminal := True\<rparr>) of
             (Some err, s1) \<Rightarrow> recover err s1
           | (None, s1) \<Rightarrow>
               (case xe_transition e (ex_tick s1) of
                  None \<Rightarrow> (Inr True, commit (ex_observe e s1))
                | Some (err, committed) \<Rightarrow>
                    recover err (if committed then commit (ex_observe e s1) else ex_observe e s1)))"

definition publish_terminal_event_once ::
  "exec_env \<Rightarrow> task_goal \<Rightarrow> action_result \<Rightarrow> u8 \<Rightarrow> executor \<Rightarrow> executor" where
  "publish_terminal_event_once e g result status s =
     (if ex_terminal_event_published s then s
      else
        let t = ex_tick s; s1 = (ex_observe e s)\<lparr>ex_terminal_event_published := True\<rparr> in
        if xe_event_throws e t then s1
        else s1\<lparr>ex_events := ex_events s1 @
          [make_task_event (tg_task_id g) (tg_target_id g) (tg_request_id g) (tg_workflow_id g)
             (ex_goal_id s) status (res_outcome result) (res_error_code result)
             (of_int (ns_to_ms (xe_now e t - ex_started_at s))) (res_message result)
             (xe_stamp e t)]\<rparr>)"

definition finish_terminal ::
  "exec_env \<Rightarrow> task_goal \<Rightarrow> goal_terminal \<Rightarrow> u8 \<Rightarrow> executor \<Rightarrow> string option \<times> executor" where
  "finish_terminal e g transition status s =
     (case commit_parent_terminal e transition s of
        (Inl err, s1) \<Rightarrow> (Some err, s1)
      | (Inr False, s1) \<Rightarrow> (None, s1)
      | (Inr True, s1) \<Rightarrow>
          (None, publish_terminal_event_once e g (terminal_result transition) status s1))"

definition ex_finish_canceled ::
  "exec_env \<Rightarrow> task_goal \<Rightarrow> string \<Rightarrow> executor \<Rightarrow> string option \<times> executor" where
  "ex_finish_canceled e g message s =
     finish_terminal e g
       (GCanceled \<lparr>res_outcome = CANCELED, res_error_code = 0, res_message = message\<rparr>)
       EVENT_CANCELED (ex_publish_diagnostics e (ex_update_diag td_record_canceled s))"

definition ex_finish_aborted ::
  "exec_env \<Rightarrow> task_goal \<Rightarrow> u8 \<Rightarrow> u16 \<Rightarrow> string \<Rightarrow> executor \<Rightarrow> string option \<times> executor" where
  "ex_finish_aborted e g oc code message s =
     (let name = (if oc = DEVICE_FAULT then ''DEVICE_FAULT'' else ''SAFE_STOP'') in
      finish_terminal e g
        (GAborted \<lparr>res_outcome = oc, res_error_code = code, res_message = message\<rparr>)
        EVENT_ABORTED (ex_publish_diagnostics e (ex_update_diag (td_record_failure name code) s)))"

definition ex_finish_succeeded ::
  "exec_env \<Rightarrow> task_goal \<Rightarrow> executor \<Rightarrow> string option \<times> executor" where
  "ex_finish_succeeded e g s =
     finish_terminal e g
       (GSucceeded \<lparr>res_outcome = COMPLETED, res_error_code = 0,
          res_message = ''task completed through Device Bridge''\<rparr>)
       EVENT_SUCCEEDED (ex_publish_diagnostics e (ex_update_diag (td_record_success ''COMPLETED'') s))"

definition finish_from_child ::
  "exec_env \<Rightarrow> task_goal \<Rightarrow> wrapped_result \<Rightarrow> stop_cause \<Rightarrow> bool \<Rightarrow> executor \<Rightarrow>
     string option \<times> executor" where
  "finish_from_child e g child cause cancel_timed_out s =
     (case wr_result child of
        None \<Rightarrow> ex_finish_aborted e g SAFE_STOP kErrorUnexpectedChildResult
                  ''Device Bridge returned no result'' s
      | Some r \<Rightarrow>
          (case cause of
             kShutdown \<Rightarrow> ex_finish_aborted e g SAFE_STOP kErrorBridgeUnavailable
               ''executor shutdown after device command drain'' s
           | kUserCancel \<Rightarrow>
               if cancel_timed_out
               then ex_finish_aborted e g SAFE_STOP kErrorCancelUnconfirmed
                 ''device cancel exceeded confirmation timeout'' s
               else if wr_code child = RC_CANCELED \<and> res_outcome r = CANCELED
               then ex_finish_canceled e g ''task and device command canceled'' s
               else if res_outcome r = SAFE_STOP
               then ex_finish_aborted e g SAFE_STOP (res_error_code r)
                 (''device stop was not confirmed: '' @ res_message r) s
               else ex_finish_aborted e g SAFE_STOP kErrorCancelUnconfirmed
                 (''task cancel ended without confirmed device stop: '' @ res_message r) s
           | kDeadline \<Rightarrow> ex_finish_aborted e g SAFE_STOP kErrorTaskDeadline
               (''task deadline exceeded: '' @ res_message r) s
           | kNone \<Rightarrow>
               if wr_code child = RC_SUCCEEDED \<and> res_outcome r = COMPLETED
               then ex_finish_succeeded e g s
               else if res_outcome r = DEVICE_FAULT
               then ex_finish_aborted e g DEVICE_FAULT (res_error_code r)
                 (''device command failed: '' @ res_message r) s
               else if res_outcome r = SAFE_STOP
               then ex_finish_aborted e g SAFE_STOP (res_error_code r)
                 (''device command entered safe stop: '' @ res_message r) s
               else ex_finish_aborted e g SAFE_STOP kErrorUnexpectedChildResult
                 ''unexpected Device Bridge result'' s))"

section \<open>Cancelling the child\<close>

text \<open>
  The first critical section records the request and claims the dispatch; the cancel request
  itself leaves outside the lock, and an exception gives the claim back.
\<close>

definition cancel_child_once :: "exec_env \<Rightarrow> executor \<Rightarrow> executor" where
  "cancel_child_once e s0 =
     (let t = ex_tick s0; s = ex_observe e s0;
          c = (if cs_cancel_requested (ex_child s) then ex_child s
               else (ex_child s)\<lparr>cs_cancel_requested := True, cs_cancel_requested_at := xe_now e t\<rparr>)
      in if \<not> cs_handle c \<or> cs_cancel_dispatched c then s\<lparr>ex_child := c\<rparr>
         else
           let s1 = s\<lparr>ex_child := c\<lparr>cs_cancel_dispatched := True, cs_cancel_started_at := xe_now e t\<rparr>\<rparr>;
               failed = (\<lambda>s'. s'\<lparr>ex_child := (ex_child s')\<lparr>cs_cancel_dispatched := False\<rparr>\<rparr>)
           in case ex_run_hook e kBeforeCancelGoal s1 of
                (Some _, s2) \<Rightarrow> failed s2
              | (None, s2) \<Rightarrow>
                  (case xe_cancel_goal e (ex_tick s2) of
                     Some _ \<Rightarrow> failed (ex_observe e s2)
                   | None \<Rightarrow> (ex_observe e s2)\<lparr>ex_child_cancels := Suc (ex_child_cancels (ex_observe e s2))\<rparr>))"

definition record_cancel_timeout :: "exec_config \<Rightarrow> exec_env \<Rightarrow> int \<Rightarrow> executor \<Rightarrow> executor" where
  "record_cancel_timeout cfg e now s0 =
     (let s = ex_observe e s0; c = ex_child s in
      if cs_cancel_dispatched c \<and> \<not> cs_cancel_timed_out c \<and>
         ec_cancel_timeout_ms cfg * 1000000 \<le> now - cs_cancel_started_at c
      then s\<lparr>ex_child := c\<lparr>cs_cancel_timed_out := True\<rparr>\<rparr> else s)"

definition drain_budget :: "exec_config \<Rightarrow> int" where
  "drain_budget cfg = max (ec_cancel_timeout_ms cfg) 1000 * 1000000"

section \<open>The worker\<close>

text \<open>How a part of the worker ends: it goes on, it returned, or it threw.\<close>

datatype flow = Continue | Returned | Threw string

fun flow_of_finish :: "string option \<times> executor \<Rightarrow> flow \<times> executor" where
  "flow_of_finish (None, s) = (Returned, s)"
| "flow_of_finish (Some err, s) = (Threw err, s)"

fun flow_of_step :: "string option \<times> executor \<Rightarrow> flow \<times> executor" where
  "flow_of_step (None, s) = (Continue, s)"
| "flow_of_step (Some err, s) = (Threw err, s)"

fun flow_error :: "flow \<Rightarrow> string option" where
  "flow_error (Threw err) = Some err"
| "flow_error _ = None"

text \<open>The five paced validation steps.\<close>

primrec validation_steps ::
  "exec_env \<Rightarrow> task_goal \<Rightarrow> int \<Rightarrow> nat list \<Rightarrow> executor \<Rightarrow> flow \<times> executor" where
  "validation_steps e g deadline [] s = (Continue, s)"
| "validation_steps e g deadline (step # steps) s0 =
     (let t = ex_tick s0; s = ex_observe e s0 in
      if \<not> xe_running e t \<or> \<not> xe_ok e t
      then flow_of_finish (ex_finish_aborted e g SAFE_STOP kErrorBridgeUnavailable
             ''executor shutdown during validation'' s)
      else if xe_canceling e t
      then flow_of_finish (ex_finish_canceled e g ''task canceled before device command'' s)
      else if deadline \<le> xe_now e t
      then flow_of_finish (ex_finish_aborted e g SAFE_STOP kErrorTaskDeadline
             ''task deadline expired during validation'' s)
      else case ex_publish_feedback e TASK_VALIDATING (step * 4) s of
             (Some err, s1) \<Rightarrow> (Threw err, s1)
           | (None, s1) \<Rightarrow> validation_steps e g deadline steps s1)"

definition allocate_command_id :: "u16 \<Rightarrow> u16 \<times> u16" where
  "allocate_command_id next =
     (let next' = (if next = 0 \<or> kMaxApplicationCommandId < next then 1 else next)
      in (next', next' + 1))"

text \<open>The acknowledgement budget: a third of the remaining time, at most the configured one.\<close>

definition child_ack_timeout_ms :: "exec_config \<Rightarrow> int \<Rightarrow> int" where
  "child_ack_timeout_ms cfg remaining_ms = min (ec_ack_timeout_ms cfg) (max (remaining_ms div 3) 1)"

definition ack_duration :: "int \<Rightarrow> duration" where
  "ack_duration ms =
     \<lparr>dur_sec = word_of_int (ms div 1000), dur_nanosec = word_of_int (ms mod 1000 * 1000000)\<rparr>"

definition make_device_goal ::
  "exec_config \<Rightarrow> task_goal \<Rightarrow> u16 \<Rightarrow> i32 \<Rightarrow> int \<Rightarrow> device_goal" where
  "make_device_goal cfg g command_id argument ack_ms =
     \<lparr>dg_command_id = ucast command_id, dg_opcode = ec_device_opcode cfg, dg_argument = argument,
      dg_ack_timeout = ack_duration ack_ms, dg_trace_id = tg_task_id g\<rparr>"

definition can_receive_extra :: "task_goal \<Rightarrow> device_goal \<Rightarrow> int \<Rightarrow> string" where
  "can_receive_extra g d ack_ms =
     ''{\"command_id\":'' @ nat_to_string (unat (dg_command_id d)) @
     '',\"opcode\":'' @ nat_to_string (unat (dg_opcode d)) @
     '',\"ack_timeout_ms\":'' @ int_to_string ack_ms @
     '',\"target_id\":'' @ json_quote (tg_target_id g) @ ''}''"

text \<open>\<open>unordered_map::at\<close> throws when the target has no argument.\<close>

definition dispatch_command ::
  "exec_config \<Rightarrow> exec_env \<Rightarrow> task_goal \<Rightarrow> int \<Rightarrow> executor \<Rightarrow> flow \<times> executor" where
  "dispatch_command cfg e g deadline s0 =
     (let remaining = ns_to_ms (deadline - xe_now e (ex_tick s0)); s1 = ex_observe e s0 in
      if remaining < 3
      then flow_of_finish (ex_finish_aborted e g SAFE_STOP kErrorTaskDeadline
             ''insufficient task budget for device command'' s1)
      else
        let ack_ms = child_ack_timeout_ms cfg remaining;
            (command_id, next) = allocate_command_id (ex_next_command_id s1);
            s2 = s1\<lparr>ex_next_command_id := next\<rparr>
        in case map_of (ec_target_arguments cfg) (tg_target_id g) of
             None \<Rightarrow> (Threw ''_Map_base::at'', s2)
           | Some argument \<Rightarrow>
               let d = make_device_goal cfg g command_id argument ack_ms;
                   s3 = ex_emit_stage cfg g ''can_receive'' (can_receive_extra g d ack_ms)
                          (ex_emit_stage cfg g ''action_execute_end'' ''{}'' s2)
               in case ex_publish_feedback e TASK_RUNNING 25 s3 of
                    (Some err, s4) \<Rightarrow> (Threw err, s4)
                  | (None, s4) \<Rightarrow>
                      (case ex_run_hook e kBeforeSendGoal s4 of
                         (Some err, s5) \<Rightarrow> (Threw err, s5)
                       | (None, s5) \<Rightarrow>
                           let s6 = s5\<lparr>ex_child := (ex_child s5)\<lparr>cs_dispatch_started := True\<rparr>\<rparr>;
                               s7 = ex_observe e s6
                           in case xe_send_goal e (ex_tick s6) of
                                Some err \<Rightarrow> (Threw err, s7)
                              | None \<Rightarrow> flow_of_step (ex_run_hook e kAfterSendGoal
                                  (s7\<lparr>ex_device_goals := ex_device_goals s7 @ [d]\<rparr>))))"

text \<open>
  The wait for the goal response, polled with a back-off that starts at 5 ms and stays at
  25 ms; the interval only paces the loop.
\<close>

definition next_poll :: "int \<Rightarrow> int" where
  "next_poll interval = min (interval * 2) 25"

partial_function (option) dispatch_wait ::
  "exec_env \<Rightarrow> int \<Rightarrow> int \<Rightarrow> executor \<Rightarrow> (stop_cause \<times> executor) option" where
  "dispatch_wait e deadline interval s0 =
     (let t = ex_tick s0; s = ex_observe e s0 in
      if cs_goal_response_received (ex_child s) then Some (kNone, s)
      else if \<not> xe_running e t \<or> \<not> xe_ok e t then Some (kShutdown, s)
      else if xe_canceling e t then Some (kUserCancel, s)
      else if deadline \<le> xe_now e t then Some (kDeadline, s)
      else dispatch_wait e deadline (next_poll interval) s)"

declare dispatch_wait.simps [code]

definition finish_unaccepted ::
  "exec_env \<Rightarrow> task_goal \<Rightarrow> stop_cause \<Rightarrow> bool \<Rightarrow> executor \<Rightarrow> string option \<times> executor" where
  "finish_unaccepted e g cause response_received s =
     (let acceptance_unknown = cause \<noteq> kNone \<and> \<not> response_received in
      if cause = kShutdown
      then ex_finish_aborted e g SAFE_STOP kErrorBridgeUnavailable
             ''executor shutdown before Device Bridge accepted command'' s
      else if acceptance_unknown
      then ex_finish_aborted e g SAFE_STOP kErrorCancelUnconfirmed
             ''device command acceptance was not confirmed before the parent terminal'' s
      else if cause = kUserCancel
      then ex_finish_canceled e g ''task canceled before Device Bridge accepted command'' s
      else if cause = kDeadline
      then ex_finish_aborted e g SAFE_STOP kErrorTaskDeadline
             ''task deadline expired before bridge rejected command'' s
      else ex_finish_aborted e g DEVICE_FAULT kErrorBridgeRejected
             ''Device Bridge rejected command'' s)"

text \<open>
  The wait for the child's result. Each pass delivers callbacks, expires an unanswered cancel
  after the drain budget, and turns a shutdown, a user cancel or the deadline into one
  recovery.
\<close>

datatype drain_exit = DrainTerminal stop_cause | DrainExpired | DrainThrew string

definition cancel_drain_expired :: "exec_config \<Rightarrow> int \<Rightarrow> child_state \<Rightarrow> bool" where
  "cancel_drain_expired cfg now c \<longleftrightarrow>
     cs_cancel_requested c \<and> drain_budget cfg \<le> now - cs_cancel_requested_at c"

text \<open>The cause a pass starts recovery with, if it does.\<close>

definition drain_interrupt :: "exec_env \<Rightarrow> nat \<Rightarrow> int \<Rightarrow> int \<Rightarrow> stop_cause \<Rightarrow> stop_cause option" where
  "drain_interrupt e t now deadline cause =
     (if \<not> xe_running e t \<and> cause \<noteq> kShutdown then Some kShutdown
      else if cause = kNone \<and> xe_canceling e t then Some kUserCancel
      else if cause = kNone \<and> deadline \<le> now then Some kDeadline
      else None)"

partial_function (option) child_drain ::
  "exec_config \<Rightarrow> exec_env \<Rightarrow> int \<Rightarrow> stop_cause \<Rightarrow> executor \<Rightarrow> (drain_exit \<times> executor) option" where
  "child_drain cfg e deadline cause s0 =
     (let now = xe_now e (ex_tick s0); s1 = ex_observe e s0 in
      if cs_terminal (ex_child s1) then Some (DrainTerminal cause, s1)
      else
        let s2 = ex_observe e (record_cancel_timeout cfg e now s1) in
        if cancel_drain_expired cfg now (ex_child s2) then Some (DrainExpired, s2)
        else
          let s3 = (if cause \<noteq> kNone then cancel_child_once e s2 else s2);
              s4 = ex_observe e s3
          in case drain_interrupt e (ex_tick s3) now deadline cause of
               None \<Rightarrow> child_drain cfg e deadline cause s4
             | Some cause' \<Rightarrow>
                 (case ex_publish_feedback e TASK_RECOVERING 60 s4 of
                    (Some err, s5) \<Rightarrow> Some (DrainThrew err, s5)
                  | (None, s5) \<Rightarrow> child_drain cfg e deadline cause' (cancel_child_once e s5)))"

declare child_drain.simps [code]

text \<open>The last check before success, after its hook: a stop that came in the meantime wins.\<close>

definition before_success ::
  "exec_env \<Rightarrow> int \<Rightarrow> executor \<Rightarrow> (string + stop_cause) \<times> executor" where
  "before_success e deadline s =
     (case ex_run_hook e kBeforeSuccess s of
        (Some err, s1) \<Rightarrow> (Inl err, s1)
      | (None, s1) \<Rightarrow>
          let t = ex_tick s1; s2 = ex_observe e s1 in
          if \<not> xe_running e t then (Inr kShutdown, cancel_child_once e s2)
          else if xe_canceling e t then (Inr kUserCancel, cancel_child_once e s2)
          else if deadline \<le> xe_now e t then (Inr kDeadline, cancel_child_once e s2)
          else (Inr kNone, s2))"

definition settle_terminal ::
  "exec_config \<Rightarrow> exec_env \<Rightarrow> task_goal \<Rightarrow> int \<Rightarrow> stop_cause \<Rightarrow> executor \<Rightarrow> string option \<times> executor"
where
  "settle_terminal cfg e g deadline cause s0 =
     (let s = ex_observe e (record_cancel_timeout cfg e (xe_now e (ex_tick s0)) s0) in
      case cs_result (ex_child s) of
        None \<Rightarrow> (Some ''child terminal callback returned no result wrapper'', s)
      | Some child \<Rightarrow>
          let timed_out = cs_cancel_timed_out (ex_child s);
              completed = (case wr_result child of None \<Rightarrow> False
                 | Some r \<Rightarrow> cause = kNone \<and> wr_code child = RC_SUCCEEDED \<and> res_outcome r = COMPLETED)
          in if completed then
               (case before_success e deadline s of
                  (Inl err, s1) \<Rightarrow> (Some err, s1)
                | (Inr cause', s1) \<Rightarrow> finish_from_child e g child cause' timed_out s1)
             else finish_from_child e g child cause timed_out s)"

definition run_accepted_child ::
  "exec_config \<Rightarrow> exec_env \<Rightarrow> task_goal \<Rightarrow> int \<Rightarrow> stop_cause \<Rightarrow> executor \<Rightarrow>
     (string option \<times> executor) option" where
  "run_accepted_child cfg e g deadline cause s0 =
     (case ex_run_hook e kAfterChildAccepted s0 of
        (Some err, s1) \<Rightarrow> Some (Some err, s1)
      | (None, s1) \<Rightarrow>
          (case (if cause \<noteq> kNone then ex_publish_feedback e TASK_RECOVERING 60 s1
                 else ex_publish_feedback e TASK_WAITING_ACK 50 s1) of
             (Some err, s2) \<Rightarrow> Some (Some err, s2)
           | (None, s2) \<Rightarrow>
               (case child_drain cfg e deadline cause
                       (if cause \<noteq> kNone then cancel_child_once e s2 else s2) of
                  None \<Rightarrow> None
                | Some (DrainThrew err, s3) \<Rightarrow> Some (Some err, s3)
                | Some (DrainExpired, s3) \<Rightarrow>
                    Some (ex_finish_aborted e g SAFE_STOP kErrorCancelUnconfirmed
                      ''device cancel exceeded drain timeout'' s3)
                | Some (DrainTerminal cause', s3) \<Rightarrow>
                    Some (settle_terminal cfg e g deadline cause' s3))))"

text \<open>
  After the dispatch wait: a stop cancels the child and waits a bounded time for a late goal
  response, whatever that wait delivers; without a handle the task ends here.
\<close>

definition await_child ::
  "exec_config \<Rightarrow> exec_env \<Rightarrow> task_goal \<Rightarrow> int \<Rightarrow> stop_cause \<Rightarrow> executor \<Rightarrow>
     (string option \<times> executor) option" where
  "await_child cfg e g deadline cause0 s0 =
     (let t = ex_tick s0; s1 = ex_observe e s0;
          cause = (if \<not> xe_running e t \<or> \<not> xe_ok e t then kShutdown else cause0)
      in if cause \<noteq> kNone then
           (case ex_publish_feedback e TASK_RECOVERING 60 s1 of
              (Some err, s2) \<Rightarrow> Some (Some err, s2)
            | (None, s2) \<Rightarrow>
                let s3 = ex_observe e (cancel_child_once e s2) in
                if cs_handle (ex_child s3) then run_accepted_child cfg e g deadline cause s3
                else Some (finish_unaccepted e g cause (cs_goal_response_received (ex_child s3)) s3))
         else if cs_handle (ex_child s1) then run_accepted_child cfg e g deadline cause s1
         else Some (finish_unaccepted e g cause False s1))"

definition execute_worker ::
  "exec_config \<Rightarrow> exec_env \<Rightarrow> task_goal \<Rightarrow> executor \<Rightarrow> (string option \<times> executor) option" where
  "execute_worker cfg e g s0 =
     (let deadline = xe_now e (ex_tick s0) + to_steady_duration (tg_allowed_duration g);
          s1 = ex_emit_stage cfg g ''action_execute_start'' ''{}'' (ex_observe e s0)
      in case validation_steps e g deadline [1, 2, 3, 4, 5] s1 of
           (Continue, s2) \<Rightarrow>
             (case dispatch_command cfg e g deadline s2 of
                (Continue, s3) \<Rightarrow>
                  (case dispatch_wait e deadline 5 s3 of
                     None \<Rightarrow> None
                   | Some (cause, s4) \<Rightarrow> await_child cfg e g deadline cause s4)
              | (ended, s3) \<Rightarrow> Some (flow_error ended, s3))
         | (ended, s2) \<Rightarrow> Some (flow_error ended, s2))"

section \<open>Exceptions of the worker\<close>

partial_function (option) settle_loop :: "exec_env \<Rightarrow> int \<Rightarrow> executor \<Rightarrow> executor option" where
  "settle_loop e deadline s0 =
     (let s1 = cancel_child_once e s0; t = ex_tick s1; s2 = ex_observe e s1 in
      if cs_terminal (ex_child s2) then Some s2
      else if deadline \<le> xe_now e t then Some s2
      else settle_loop e deadline s2)"

declare settle_loop.simps [code]

definition settle_child_after_exception ::
  "exec_config \<Rightarrow> exec_env \<Rightarrow> executor \<Rightarrow> executor option" where
  "settle_child_after_exception cfg e s0 =
     (let s1 = cancel_child_once e s0;
          deadline = xe_now e (ex_tick s1) + drain_budget cfg;
          s2 = ex_observe e s1
      in if \<not> cs_dispatch_started (ex_child s2) then Some s2
         else
           let s3 = ex_observe e s2 in
           if \<not> cs_handle (ex_child s3) \<or> cs_terminal (ex_child s3) then Some s3
           else settle_loop e deadline s3)"

text \<open>An exception of the final abort is logged and swallowed.\<close>

definition finish_worker_exception ::
  "exec_config \<Rightarrow> exec_env \<Rightarrow> task_goal \<Rightarrow> string \<Rightarrow> executor \<Rightarrow> executor option" where
  "finish_worker_exception cfg e g detail s =
     map_option (\<lambda>s1. snd (ex_finish_aborted e g SAFE_STOP kErrorUnexpectedChildResult
                              (''executor worker exception: '' @ detail) s1))
       (settle_child_after_exception cfg e s)"

text \<open>The guards of \<open>execute\<close> run last, on every path.\<close>

definition release_guards :: "executor \<Rightarrow> executor" where
  "release_guards s =
     s\<lparr>ex_active_goal := (if ex_parent_terminal s \<or> \<not> ex_goal_open s then False else ex_active_goal s),
       ex_workers_active := ex_workers_active s - 1\<rparr>"

definition ex_execute :: "exec_config \<Rightarrow> exec_env \<Rightarrow> task_goal \<Rightarrow> executor \<Rightarrow> executor option" where
  "ex_execute cfg e g s =
     map_option release_guards
       (case execute_worker cfg e g (s\<lparr>ex_child := child_init\<rparr>) of
          None \<Rightarrow> None
        | Some (None, s1) \<Rightarrow> Some s1
        | Some (Some err, s1) \<Rightarrow> finish_worker_exception cfg e g err s1)"

definition executor_handle_accepted ::
  "exec_config \<Rightarrow> exec_env \<Rightarrow> task_goal \<Rightarrow> executor \<Rightarrow> executor option" where
  "executor_handle_accepted cfg e g s0 =
     (let s = ex_observe e s0 in
      ex_execute cfg e g
        (ex_update_diag (td_begin_task (tg_task_id g))
          (ex_emit_stage cfg g ''action_receive'' ''{}''
            (s\<lparr>ex_started_at := xe_now e (ex_tick s0), ex_parent_terminal := False,
               ex_terminal_event_published := False, ex_goal_open := True,
               ex_workers_active := Suc (ex_workers_active s)\<rparr>))))"

text \<open>What \<open>wait_for_shutdown\<close> waits for.\<close>

definition executor_drained :: "executor \<Rightarrow> bool" where
  "executor_drained s \<longleftrightarrow> ex_workers_active s = 0 \<and> \<not> ex_active_goal s"

end
