(* ===== verification/Executor_Runs.thy ===== *)
theory Executor_Runs
  imports Task_Executor
begin

text \<open>
  The runs of the executor's worker: what every part of it keeps of the task's state, which
  evidence a terminal result has, how often a child is cancelled, and that a run ends.
\<close>

section \<open>Evidence from the callbacks\<close>

definition heard_result :: "exec_env \<Rightarrow> nat \<Rightarrow> wrapped_result \<Rightarrow> bool" where
  "heard_result e t0 r \<longleftrightarrow> (\<exists>t \<ge> t0. ChildResult r \<in> set (xe_child e t))"

definition heard_response :: "exec_env \<Rightarrow> nat \<Rightarrow> bool \<Rightarrow> bool" where
  "heard_response e t0 handle \<longleftrightarrow> (\<exists>t \<ge> t0. \<exists>now. ChildResponse handle now \<in> set (xe_child e t))"

text \<open>The control part of the state, which only the terminal transition changes.\<close>

definition ctl where
  "ctl s = (ex_active_goal s, ex_parent_terminal s, ex_terminal_event_published s, ex_goal_id s,
            ex_started_at s, ex_workers_active s, ex_goal_open s, ex_results s, ex_events s)"

definition dispatched where
  "dispatched s = (ex_next_command_id s, ex_device_goals s)"

text \<open>
  The child state since tick \<open>t0\<close>, when \<open>n\<close> cancel requests had been sent: what it holds was
  delivered by a callback, and at most one more cancel request was sent.
\<close>

definition child_inv :: "exec_env \<Rightarrow> nat \<Rightarrow> nat \<Rightarrow> executor \<Rightarrow> bool" where
  "child_inv e t0 n s \<longleftrightarrow>
     t0 \<le> ex_tick s \<and>
     (\<forall>r. cs_result (ex_child s) = Some r \<longrightarrow> heard_result e t0 r) \<and>
     (cs_handle (ex_child s) \<longrightarrow> heard_response e t0 True) \<and>
     (cs_goal_response_received (ex_child s) \<and> \<not> cs_handle (ex_child s) \<longrightarrow>
        heard_response e t0 False) \<and>
     (if cs_cancel_dispatched (ex_child s) \<and> \<not> cs_late_cancel (ex_child s)
      then n \<le> ex_child_cancels s \<and> ex_child_cancels s \<le> Suc n
      else ex_child_cancels s = n \<and> (cs_late_cancel (ex_child s) \<longrightarrow> cs_cancel_dispatched (ex_child s)))"

definition open_from :: "exec_env \<Rightarrow> executor \<Rightarrow> executor \<Rightarrow> bool" where
  "open_from e s0 s \<longleftrightarrow>
     ctl s = ctl s0 \<and> child_inv e (ex_tick s0) (ex_child_cancels s0) s"

lemma open_from_ctl: "open_from e s0 s \<Longrightarrow> ctl s = ctl s0"
  by (simp add: open_from_def)

lemma open_from_tick: "open_from e s0 s \<Longrightarrow> ex_tick s0 \<le> ex_tick s"
  by (simp add: open_from_def child_inv_def)

lemma ctl_update [simp]:
  "ctl (s\<lparr>ex_tick := a\<rparr>) = ctl s"
  "ctl (s\<lparr>ex_child := c\<rparr>) = ctl s"
  "ctl (s\<lparr>ex_child_cancels := n\<rparr>) = ctl s"
  "ctl (s\<lparr>ex_diag := d\<rparr>) = ctl s"
  "ctl (s\<lparr>ex_feedback := f\<rparr>) = ctl s"
  "ctl (s\<lparr>ex_diagnostics := x\<rparr>) = ctl s"
  "ctl (s\<lparr>ex_stages := y\<rparr>) = ctl s"
  "ctl (s\<lparr>ex_next_command_id := i\<rparr>) = ctl s"
  "ctl (s\<lparr>ex_device_goals := gs\<rparr>) = ctl s"
  by (simp_all add: ctl_def)

lemma dispatched_update [simp]:
  "dispatched (s\<lparr>ex_tick := a\<rparr>) = dispatched s"
  "dispatched (s\<lparr>ex_child := c\<rparr>) = dispatched s"
  "dispatched (s\<lparr>ex_child_cancels := n\<rparr>) = dispatched s"
  "dispatched (s\<lparr>ex_diag := d\<rparr>) = dispatched s"
  "dispatched (s\<lparr>ex_feedback := f\<rparr>) = dispatched s"
  "dispatched (s\<lparr>ex_diagnostics := x\<rparr>) = dispatched s"
  "dispatched (s\<lparr>ex_stages := y\<rparr>) = dispatched s"
  "dispatched (s\<lparr>ex_parent_terminal := b\<rparr>) = dispatched s"
  "dispatched (s\<lparr>ex_terminal_event_published := b\<rparr>) = dispatched s"
  "dispatched (s\<lparr>ex_goal_open := b\<rparr>) = dispatched s"
  "dispatched (s\<lparr>ex_results := rs\<rparr>) = dispatched s"
  "dispatched (s\<lparr>ex_events := vs\<rparr>) = dispatched s"
  by (simp_all add: dispatched_def)

lemma child_inv_update [simp]:
  "child_inv e t n (s\<lparr>ex_diag := d\<rparr>) = child_inv e t n s"
  "child_inv e t n (s\<lparr>ex_feedback := f\<rparr>) = child_inv e t n s"
  "child_inv e t n (s\<lparr>ex_diagnostics := x\<rparr>) = child_inv e t n s"
  "child_inv e t n (s\<lparr>ex_stages := y\<rparr>) = child_inv e t n s"
  "child_inv e t n (s\<lparr>ex_next_command_id := i\<rparr>) = child_inv e t n s"
  "child_inv e t n (s\<lparr>ex_device_goals := gs\<rparr>) = child_inv e t n s"
  "child_inv e t n (s\<lparr>ex_parent_terminal := b\<rparr>) = child_inv e t n s"
  "child_inv e t n (s\<lparr>ex_terminal_event_published := b\<rparr>) = child_inv e t n s"
  "child_inv e t n (s\<lparr>ex_goal_open := b\<rparr>) = child_inv e t n s"
  "child_inv e t n (s\<lparr>ex_results := rs\<rparr>) = child_inv e t n s"
  "child_inv e t n (s\<lparr>ex_events := vs\<rparr>) = child_inv e t n s"
  by (simp_all add: child_inv_def)

section \<open>Callbacks and observations\<close>

lemma child_callback_tick [simp]: "ex_tick (child_callback ev s) = ex_tick s"
  by (cases ev) (auto simp: Let_def split: option.splits)

lemma child_callback_ctl [simp]: "ctl (child_callback ev s) = ctl s"
  by (cases ev) (auto simp: Let_def split: option.splits)

lemma child_callback_dispatched [simp]: "dispatched (child_callback ev s) = dispatched s"
  by (cases ev) (auto simp: Let_def split: option.splits)

lemma fold_callback [simp]:
  "ex_tick (fold child_callback evs s) = ex_tick s"
  "ctl (fold child_callback evs s) = ctl s"
  "dispatched (fold child_callback evs s) = dispatched s"
  by (induction evs arbitrary: s) simp_all

lemma ex_observe_simps [simp]:
  "ex_tick (ex_observe e s) = Suc (ex_tick s)"
  "ctl (ex_observe e s) = ctl s"
  "dispatched (ex_observe e s) = dispatched s"
  by (simp_all add: ex_observe_def)

lemma child_callback_inv:
  assumes "child_inv e t0 n s" and "t0 \<le> t" and "ev \<in> set (xe_child e t)"
  shows "child_inv e t0 n (child_callback ev s)"
proof (cases ev)
  case (ChildResponse handle now)
  with assms(2,3) have "heard_response e t0 handle" by (auto simp: heard_response_def)
  with assms(1) ChildResponse show ?thesis
    by (cases handle) (auto simp: child_inv_def Let_def)
next
  case (LateCancelDone err)
  with assms(1) show ?thesis by (cases err) (auto simp: child_inv_def)
next
  case (ChildResult r)
  with assms(2,3) have "heard_result e t0 r" by (auto simp: heard_result_def)
  with assms(1) ChildResult show ?thesis by (auto simp: child_inv_def)
qed

lemma fold_callback_inv:
  "child_inv e t0 n s \<Longrightarrow> t0 \<le> t \<Longrightarrow> set evs \<subseteq> set (xe_child e t) \<Longrightarrow>
     child_inv e t0 n (fold child_callback evs s)"
  by (induction evs arbitrary: s) (auto intro!: child_callback_inv)

lemma child_inv_tick: "child_inv e t0 n s \<Longrightarrow> child_inv e t0 n (s\<lparr>ex_tick := Suc (ex_tick s)\<rparr>)"
  by (auto simp: child_inv_def)

lemma ex_observe_inv: "child_inv e t0 n s \<Longrightarrow> child_inv e t0 n (ex_observe e s)"
  unfolding ex_observe_def
  by (rule fold_callback_inv [OF child_inv_tick]) (auto simp: child_inv_def)

lemma ex_observe_open [intro]: "open_from e s0 s \<Longrightarrow> open_from e s0 (ex_observe e s)"
  by (auto simp: open_from_def intro: ex_observe_inv)

text \<open>What a claimed dispatch keeps while the worker's cancel request is on its way.\<close>

definition claimed :: "nat \<Rightarrow> executor \<Rightarrow> bool" where
  "claimed k s \<longleftrightarrow> cs_cancel_requested (ex_child s) \<and> cs_cancel_dispatched (ex_child s) \<and>
     \<not> cs_late_cancel (ex_child s) \<and> ex_child_cancels s = k"

lemma child_callback_claimed: "claimed k s \<Longrightarrow> claimed k (child_callback ev s)"
  by (cases ev) (auto simp: claimed_def Let_def split: option.splits)

lemma fold_callback_claimed: "claimed k s \<Longrightarrow> claimed k (fold child_callback evs s)"
  by (induction evs arbitrary: s) (auto intro!: child_callback_claimed)

lemma ex_observe_claimed: "claimed k s \<Longrightarrow> claimed k (ex_observe e s)"
  unfolding ex_observe_def by (rule fold_callback_claimed) (simp add: claimed_def)

lemma child_callback_requested:
  "cs_cancel_requested (ex_child s) \<Longrightarrow>
     cs_cancel_requested (ex_child (child_callback ev s)) \<and>
     cs_cancel_requested_at (ex_child (child_callback ev s)) = cs_cancel_requested_at (ex_child s)"
  by (cases ev) (auto simp: Let_def split: option.splits)

lemma fold_callback_requested:
  "cs_cancel_requested (ex_child s) \<Longrightarrow>
     cs_cancel_requested (ex_child (fold child_callback evs s)) \<and>
     cs_cancel_requested_at (ex_child (fold child_callback evs s)) =
       cs_cancel_requested_at (ex_child s)"
proof (induction evs arbitrary: s)
  case (Cons ev evs)
  from Cons.IH [of "child_callback ev s"] child_callback_requested [OF Cons.prems, of ev]
  show ?case by simp
qed simp

lemma ex_observe_requested:
  "cs_cancel_requested (ex_child s) \<Longrightarrow>
     cs_cancel_requested (ex_child (ex_observe e s)) \<and>
     cs_cancel_requested_at (ex_child (ex_observe e s)) = cs_cancel_requested_at (ex_child s)"
  using fold_callback_requested [of "s\<lparr>ex_tick := Suc (ex_tick s)\<rparr>"] by (simp add: ex_observe_def)

section \<open>Cancelling the child\<close>

lemma cancel_child_once_simps [simp]:
  "ctl (cancel_child_once e s) = ctl s"
  "dispatched (cancel_child_once e s) = dispatched s"
  by (simp_all add: cancel_child_once_def Let_def ex_run_hook_def split: option.splits)

lemma cancel_child_once_tick: "ex_tick s < ex_tick (cancel_child_once e s)"
  by (simp add: cancel_child_once_def Let_def ex_run_hook_def split: option.splits)

lemma claim_settled:
  assumes "child_inv e t0 n s" and "claimed n s"
  shows "child_inv e t0 n (s\<lparr>ex_child := (ex_child s)\<lparr>cs_cancel_dispatched := False\<rparr>\<rparr>)"
    and "child_inv e t0 n (s\<lparr>ex_child_cancels := Suc (ex_child_cancels s)\<rparr>)"
  using assms by (auto simp: child_inv_def claimed_def)

lemma cancel_child_once_inv:
  assumes "child_inv e t0 n s"
  shows "child_inv e t0 n (cancel_child_once e s)"
proof -
  let ?t = "ex_tick s" and ?s = "ex_observe e s"
  define c where "c = (if cs_cancel_requested (ex_child ?s) then ex_child ?s
    else (ex_child ?s)\<lparr>cs_cancel_requested := True, cs_cancel_requested_at := xe_now e ?t\<rparr>)"
  note s = ex_observe_inv [OF assms]
  show ?thesis
  proof (cases "\<not> cs_handle c \<or> cs_cancel_dispatched c")
    case True
    from s have "child_inv e t0 n (?s\<lparr>ex_child := c\<rparr>)" by (auto simp: child_inv_def c_def)
    with True show ?thesis by (simp add: cancel_child_once_def Let_def c_def [symmetric])
  next
    case False
    define s1 where "s1 = ?s\<lparr>ex_child :=
      c\<lparr>cs_cancel_dispatched := True, cs_cancel_started_at := xe_now e ?t\<rparr>\<rparr>"
    from s False have "child_inv e t0 n s1" "claimed n s1"
      by (auto simp: child_inv_def claimed_def s1_def c_def split: if_splits)
    then have *: "child_inv e t0 n (ex_observe e s1)" "claimed n (ex_observe e s1)"
      "child_inv e t0 n (ex_observe e (ex_observe e s1))"
      "claimed n (ex_observe e (ex_observe e s1))"
      by (auto intro: ex_observe_inv ex_observe_claimed)
    from False claim_settled [OF *(1,2)] claim_settled [OF *(3,4)] show ?thesis
      by (simp add: cancel_child_once_def Let_def c_def [symmetric] s1_def [symmetric]
          ex_run_hook_def split: option.splits)
  qed
qed

lemma cancel_child_once_open [intro]:
  "open_from e s0 s \<Longrightarrow> open_from e s0 (cancel_child_once e s)"
  by (auto simp: open_from_def intro: cancel_child_once_inv)

lemma cancel_child_once_requests:
  "cs_cancel_requested (ex_child (cancel_child_once e s))"
proof -
  have *: "cs_cancel_requested (ex_child (ex_observe e s'))"
    if "cs_cancel_requested (ex_child s')" for s'
    using ex_observe_requested [OF that] by simp
  show ?thesis
    by (auto simp: cancel_child_once_def Let_def ex_run_hook_def intro!: * split: option.splits)
qed

lemma cancel_child_once_requested:
  assumes "cs_cancel_requested (ex_child s)"
  shows "cs_cancel_requested_at (ex_child (cancel_child_once e s)) =
    cs_cancel_requested_at (ex_child s)"
proof -
  have *: "cs_cancel_requested_at (ex_child (ex_observe e s')) = cs_cancel_requested_at (ex_child s')"
    "cs_cancel_requested (ex_child (ex_observe e s'))"
    if "cs_cancel_requested (ex_child s')" for s'
    using ex_observe_requested [OF that] by simp_all
  show ?thesis
    using *(2) [OF assms] *(1) [OF assms]
    by (auto simp: cancel_child_once_def Let_def ex_run_hook_def * split: option.splits)
qed

section \<open>The other steps\<close>

lemma ex_run_hook_simps [simp]:
  "snd (ex_run_hook e p s) = ex_observe e s"
  by (simp add: ex_run_hook_def)

lemma ex_run_hook_open: "ex_run_hook e p s = (r, s') \<Longrightarrow> open_from e s0 s \<Longrightarrow> open_from e s0 s'"
  by (auto simp: ex_run_hook_def)

lemma open_from_update [simp]:
  "open_from e s0 (s\<lparr>ex_diag := d\<rparr>) = open_from e s0 s"
  "open_from e s0 (s\<lparr>ex_feedback := f\<rparr>) = open_from e s0 s"
  "open_from e s0 (s\<lparr>ex_diagnostics := x\<rparr>) = open_from e s0 s"
  "open_from e s0 (s\<lparr>ex_stages := y\<rparr>) = open_from e s0 s"
  "open_from e s0 (s\<lparr>ex_next_command_id := i\<rparr>) = open_from e s0 s"
  "open_from e s0 (s\<lparr>ex_device_goals := gs\<rparr>) = open_from e s0 s"
  by (simp_all add: open_from_def)

lemma quiet_effects [simp]:
  "open_from e s0 (ex_update_diag f s) = open_from e s0 s"
  "open_from e s0 (ex_publish_diagnostics e' s) = open_from e s0 s"
  "open_from e s0 (ex_emit_stage cfg g st x s) = open_from e s0 s"
  "dispatched (ex_update_diag f s) = dispatched s"
  "dispatched (ex_publish_diagnostics e' s) = dispatched s"
  "dispatched (ex_emit_stage cfg g st x s) = dispatched s"
  "ex_tick (ex_update_diag f s) = ex_tick s"
  "ex_tick (ex_publish_diagnostics e' s) = ex_tick s"
  "ex_tick (ex_emit_stage cfg g st x s) = ex_tick s"
  "ex_child (ex_update_diag f s) = ex_child s"
  "ex_child (ex_publish_diagnostics e' s) = ex_child s"
  "ex_child (ex_emit_stage cfg g st x s) = ex_child s"
  "ctl (ex_update_diag f s) = ctl s"
  "ctl (ex_publish_diagnostics e' s) = ctl s"
  "ctl (ex_emit_stage cfg g st x s) = ctl s"
  by (simp_all add: ex_update_diag_def ex_publish_diagnostics_def ex_emit_stage_def Let_def)

lemma ex_publish_feedback_effect:
  assumes "ex_publish_feedback e st p s = (r, s')"
  shows "dispatched s' = dispatched s \<and> ex_tick s' = Suc (ex_tick s) \<and>
    ex_child s' = ex_child (ex_observe e s) \<and> (open_from e s0 s \<longrightarrow> open_from e s0 s')"
  using assms
  by (auto simp: ex_publish_feedback_def ex_run_hook_def Let_def split: option.splits if_splits)

lemma record_cancel_timeout_effect:
  "dispatched (record_cancel_timeout cfg e now s) = dispatched s"
  "ex_tick (record_cancel_timeout cfg e now s) = Suc (ex_tick s)"
  "cs_cancel_requested (ex_child (record_cancel_timeout cfg e now s)) =
     cs_cancel_requested (ex_child (ex_observe e s))"
  "cs_cancel_requested_at (ex_child (record_cancel_timeout cfg e now s)) =
     cs_cancel_requested_at (ex_child (ex_observe e s))"
  "ctl (record_cancel_timeout cfg e now s) = ctl s"
  by (simp_all add: record_cancel_timeout_def Let_def)

lemma record_cancel_timeout_open:
  assumes "open_from e s0 s"
  shows "open_from e s0 (record_cancel_timeout cfg e now s)"
proof -
  from assms have "open_from e s0 (ex_observe e s)" ..
  then show ?thesis
    by (auto simp: record_cancel_timeout_def Let_def open_from_def child_inv_def)
qed

section \<open>The terminal transition\<close>

text \<open>The task took the transition \<open>tr\<close>: one result and at most one event, about that result.\<close>

definition closed_with :: "exec_env \<Rightarrow> executor \<Rightarrow> goal_terminal \<Rightarrow> executor \<Rightarrow> bool" where
  "closed_with e s0 tr s \<longleftrightarrow>
     ex_results s = ex_results s0 @ [tr] \<and> \<not> ex_goal_open s \<and> ex_parent_terminal s \<and>
     (ex_events s = ex_events s0 \<or>
      (\<exists>ev. ex_events s = ex_events s0 @ [ev] \<and>
        te_outcome ev = res_outcome (terminal_result tr) \<and>
        te_error_code ev = res_error_code (terminal_result tr) \<and>
        te_message ev = res_message (terminal_result tr) \<and> te_goal_id ev = ex_goal_id s0)) \<and>
     ex_active_goal s = ex_active_goal s0 \<and> ex_workers_active s = ex_workers_active s0 \<and>
     child_inv e (ex_tick s0) (ex_child_cancels s0) s"

definition fresh :: "executor \<Rightarrow> bool" where
  "fresh s \<longleftrightarrow> ex_goal_open s \<and> \<not> ex_parent_terminal s \<and> \<not> ex_terminal_event_published s"

text \<open>The transition itself never throws.\<close>

definition transitions_ok :: "exec_env \<Rightarrow> bool" where
  "transitions_ok e \<longleftrightarrow> (\<forall>t. xe_hook e t kBeforeParentTransition = None \<and> xe_transition e t = None)"

lemma ctl_eqD:
  assumes "ctl s = ctl s'"
  shows "ex_active_goal s = ex_active_goal s'" "ex_parent_terminal s = ex_parent_terminal s'"
    "ex_terminal_event_published s = ex_terminal_event_published s'"
    "ex_goal_id s = ex_goal_id s'" "ex_workers_active s = ex_workers_active s'"
    "ex_goal_open s = ex_goal_open s'" "ex_results s = ex_results s'" "ex_events s = ex_events s'"
    "ex_started_at s = ex_started_at s'"
  using assms by (simp_all add: ctl_def)

lemma ctl_eqI:
  "ex_active_goal s = ex_active_goal s' \<Longrightarrow> ex_parent_terminal s = ex_parent_terminal s' \<Longrightarrow>
   ex_terminal_event_published s = ex_terminal_event_published s' \<Longrightarrow> ex_goal_id s = ex_goal_id s' \<Longrightarrow>
   ex_workers_active s = ex_workers_active s' \<Longrightarrow> ex_goal_open s = ex_goal_open s' \<Longrightarrow>
   ex_results s = ex_results s' \<Longrightarrow> ex_events s = ex_events s' \<Longrightarrow>
   ex_started_at s = ex_started_at s' \<Longrightarrow> ctl s = ctl s'"
  by (simp add: ctl_def)

lemmas ex_observe_ctl = ctl_eqD [OF ex_observe_simps(2)]

lemma commit_parent_terminal_cases:
  assumes "open_from e s0 s" and "fresh s0" and "commit_parent_terminal e tr s = (r, s')"
  shows "(r = Inr True \<and> ex_results s' = ex_results s0 @ [tr] \<and> \<not> ex_goal_open s' \<and>
      ex_parent_terminal s' \<and> \<not> ex_terminal_event_published s' \<and> ex_events s' = ex_events s0 \<and>
      ex_goal_id s' = ex_goal_id s0 \<and> ex_active_goal s' = ex_active_goal s0 \<and>
      ex_workers_active s' = ex_workers_active s0 \<and>
      child_inv e (ex_tick s0) (ex_child_cancels s0) s') \<or>
    (\<exists>m. r = Inl m \<and> open_from e s0 s' \<and> \<not> transitions_ok e)"
proof -
  note c = ctl_eqD [OF open_from_ctl [OF assms(1)]]
  let ?s = "s\<lparr>ex_parent_terminal := True\<rparr>"
  let ?s1 = "ex_observe e ?s" let ?s2 = "ex_observe e ?s1"
  from assms(1) have inv: "child_inv e (ex_tick s0) (ex_child_cancels s0) ?s1"
    "child_inv e (ex_tick s0) (ex_child_cancels s0) ?s2"
    by (auto simp: open_from_def intro!: ex_observe_inv)
  have c1: "ctl ?s1 = ctl ?s" and c2: "ctl ?s2 = ctl ?s" by simp_all
  note c1 = ctl_eqD [OF c1] and c2 = ctl_eqD [OF c2]
  from assms(2) have f: "ex_goal_open s0" "\<not> ex_parent_terminal s0"
    "\<not> ex_terminal_event_published s0" by (simp_all add: fresh_def)
  have open1: "open_from e s0 (?s1\<lparr>ex_parent_terminal := False\<rparr>)"
    "open_from e s0 (?s2\<lparr>ex_parent_terminal := False\<rparr>)"
    using inv c c1 c2 f by (auto simp: open_from_def intro!: ctl_eqI)
  have np: "\<not> ex_parent_terminal s" using c f by simp
  show ?thesis
  proof (cases "xe_hook e (ex_tick s) kBeforeParentTransition")
    case (Some err)
    with assms(3) np c c1 f have "r = Inl err" "s' = ?s1\<lparr>ex_parent_terminal := False\<rparr>"
      by (simp_all add: commit_parent_terminal_def ex_run_hook_def Let_def)
    with open1(1) Some show ?thesis by (auto simp: transitions_ok_def)
  next
    case None
    note hook = None
    let ?c = "?s2\<lparr>ex_goal_open := False, ex_results := ex_results ?s2 @ [tr]\<rparr>"
    have closed: "ex_results ?c = ex_results s0 @ [tr] \<and> \<not> ex_goal_open ?c \<and>
      ex_parent_terminal ?c \<and> \<not> ex_terminal_event_published ?c \<and> ex_events ?c = ex_events s0 \<and>
      ex_goal_id ?c = ex_goal_id s0 \<and> ex_active_goal ?c = ex_active_goal s0 \<and>
      ex_workers_active ?c = ex_workers_active s0 \<and>
      child_inv e (ex_tick s0) (ex_child_cancels s0) ?c"
      using c c2 f inv(2) by simp
    consider "r = Inr True" "s' = ?c"
      | err where "r = Inl err" "s' = ?s2\<lparr>ex_parent_terminal := False\<rparr>"
          "xe_transition e (Suc (ex_tick s)) \<noteq> None"
      using assms(3) np c c2 f hook
      by (cases "xe_transition e (Suc (ex_tick s))")
        (auto simp: commit_parent_terminal_def ex_run_hook_def Let_def split: if_splits)
    then show ?thesis
      using closed open1(2) by cases (auto simp: transitions_ok_def)
  qed
qed

lemma publish_terminal_event_once_simps [simp]:
  "ex_results (publish_terminal_event_once e g r st s) = ex_results s"
  "ex_goal_open (publish_terminal_event_once e g r st s) = ex_goal_open s"
  "ex_parent_terminal (publish_terminal_event_once e g r st s) = ex_parent_terminal s"
  "ex_active_goal (publish_terminal_event_once e g r st s) = ex_active_goal s"
  "ex_workers_active (publish_terminal_event_once e g r st s) = ex_workers_active s"
  "dispatched (publish_terminal_event_once e g r st s) = dispatched s"
  by (simp_all add: publish_terminal_event_once_def Let_def ex_observe_ctl)

lemma publish_terminal_event_once_inv:
  "child_inv e t0 n s \<Longrightarrow> child_inv e t0 n (publish_terminal_event_once e g r st s)"
  by (simp add: publish_terminal_event_once_def Let_def ex_observe_inv)

lemma publish_terminal_event_once_events:
  assumes "\<not> ex_terminal_event_published s"
  shows "ex_events (publish_terminal_event_once e g r st s) = ex_events s \<or>
    (\<exists>ev. ex_events (publish_terminal_event_once e g r st s) = ex_events s @ [ev] \<and>
      te_outcome ev = res_outcome r \<and> te_error_code ev = res_error_code r \<and>
      te_message ev = res_message r \<and> te_goal_id ev = ex_goal_id s)"
  using assms
  by (simp add: publish_terminal_event_once_def Let_def ex_observe_ctl make_task_event_def)

lemma commit_parent_terminal_dispatched:
  "commit_parent_terminal e tr s = (r, s') \<Longrightarrow> dispatched s' = dispatched s"
  by (simp add: commit_parent_terminal_def Let_def ex_run_hook_def split: option.splits if_splits)
    (auto split: if_splits)

lemma finish_terminal_ended:
  assumes "open_from e s0 s" and "fresh s0" and "finish_terminal e g tr st s = (r, s')"
  shows "dispatched s' = dispatched s \<and>
    ((r = None \<and> closed_with e s0 tr s') \<or> (r \<noteq> None \<and> open_from e s0 s' \<and> \<not> transitions_ok e))"
proof -
  obtain v s1 where c: "commit_parent_terminal e tr s = (v, s1)" by fastforce
  note d = commit_parent_terminal_dispatched [OF c]
  from commit_parent_terminal_cases [OF assms(1,2) c] show ?thesis
  proof (elim disjE conjE exE)
    fix m
    assume "v = Inl m" "open_from e s0 s1" "\<not> transitions_ok e"
    with assms(3) c d show ?thesis by (auto simp: finish_terminal_def)
  next
    assume v: "v = Inr True" and s1: "ex_results s1 = ex_results s0 @ [tr]" "\<not> ex_goal_open s1"
      "ex_parent_terminal s1" "\<not> ex_terminal_event_published s1" "ex_events s1 = ex_events s0"
      "ex_goal_id s1 = ex_goal_id s0" "ex_active_goal s1 = ex_active_goal s0"
      "ex_workers_active s1 = ex_workers_active s0"
      "child_inv e (ex_tick s0) (ex_child_cancels s0) s1"
    from assms(3) c v have "r = None"
      and s': "s' = publish_terminal_event_once e g (terminal_result tr) st s1"
      by (simp_all add: finish_terminal_def)
    moreover have "closed_with e s0 tr s'"
      using publish_terminal_event_once_events [OF s1(4), of e g "terminal_result tr" st] s1
      by (simp add: closed_with_def s' publish_terminal_event_once_inv)
    ultimately show ?thesis using d by (simp add: s')
  qed
qed

text \<open>
  A part of the worker ended the task with a transition satisfying \<open>P\<close>, or threw and left the
  task open.
\<close>

definition ended ::
  "exec_env \<Rightarrow> executor \<Rightarrow> (goal_terminal \<Rightarrow> bool) \<Rightarrow> string option \<times> executor \<Rightarrow> bool" where
  "ended e s0 P x \<longleftrightarrow>
     (case x of (r, s) \<Rightarrow>
        (r = None \<and> (\<exists>tr. P tr \<and> closed_with e s0 tr s)) \<or> (r \<noteq> None \<and> open_from e s0 s))"

definition aborted_with :: "u8 \<Rightarrow> u16 \<Rightarrow> goal_terminal \<Rightarrow> bool" where
  "aborted_with oc code tr \<longleftrightarrow>
     (\<exists>m. tr = GAborted \<lparr>res_outcome = oc, res_error_code = code, res_message = m\<rparr>)"

lemma finish_ended:
  assumes "open_from e s0 s" and "fresh s0"
  shows "(\<And>tr. aborted_with oc code tr \<Longrightarrow> P tr) \<Longrightarrow> ended e s0 P (ex_finish_aborted e g oc code m s)"
    and "(\<And>tr. canceled_ok tr \<Longrightarrow> P tr) \<Longrightarrow> ended e s0 P (ex_finish_canceled e g m s)"
    and "(\<And>m. P (GSucceeded \<lparr>res_outcome = COMPLETED, res_error_code = 0, res_message = m\<rparr>)) \<Longrightarrow>
      ended e s0 P (ex_finish_succeeded e g s)"
    and "dispatched (snd (ex_finish_aborted e g oc code m s)) = dispatched s"
    and "dispatched (snd (ex_finish_canceled e g m s)) = dispatched s"
    and "dispatched (snd (ex_finish_succeeded e g s)) = dispatched s"
proof -
  have *: "ended e s0 P (finish_terminal e g tr st s') \<and>
      dispatched (snd (finish_terminal e g tr st s')) = dispatched s'"
    if "P tr" "open_from e s0 s'" for P tr st s'
    using finish_terminal_ended [OF that(2) assms(2), of g tr st] that(1)
    by (cases "finish_terminal e g tr st s'") (auto simp: ended_def)
  show "(\<And>tr. aborted_with oc code tr \<Longrightarrow> P tr) \<Longrightarrow> ended e s0 P (ex_finish_aborted e g oc code m s)"
    using assms(1) by (auto simp: ex_finish_aborted_def Let_def aborted_with_def intro!: * [THEN conjunct1])
  show "(\<And>tr. canceled_ok tr \<Longrightarrow> P tr) \<Longrightarrow> ended e s0 P (ex_finish_canceled e g m s)"
    using assms(1) by (auto simp: ex_finish_canceled_def canceled_ok_def intro!: * [THEN conjunct1])
  show "(\<And>m. P (GSucceeded \<lparr>res_outcome = COMPLETED, res_error_code = 0, res_message = m\<rparr>)) \<Longrightarrow>
      ended e s0 P (ex_finish_succeeded e g s)"
    using assms(1) by (auto simp: ex_finish_succeeded_def intro!: * [THEN conjunct1])
  show "dispatched (snd (ex_finish_aborted e g oc code m s)) = dispatched s"
    "dispatched (snd (ex_finish_canceled e g m s)) = dispatched s"
    "dispatched (snd (ex_finish_succeeded e g s)) = dispatched s"
    using assms(1) * [THEN conjunct2, of "\<lambda>_. True"]
    by (simp_all add: ex_finish_aborted_def ex_finish_canceled_def ex_finish_succeeded_def Let_def)
qed

lemma ended_mono: "ended e s0 P x \<Longrightarrow> (\<And>tr. P tr \<Longrightarrow> Q tr) \<Longrightarrow> ended e s0 Q x"
  by (auto simp: ended_def split: prod.splits)

section \<open>What justifies a terminal result\<close>

definition cancel_seen :: "exec_env \<Rightarrow> nat \<Rightarrow> bool" where
  "cancel_seen e t0 \<longleftrightarrow> (\<exists>t \<ge> t0. xe_canceling e t)"

definition child_outcome :: "exec_env \<Rightarrow> nat \<Rightarrow> result_code option \<Rightarrow> u8 \<Rightarrow> u16 option \<Rightarrow> bool" where
  "child_outcome e t0 rc oc code \<longleftrightarrow>
     (\<exists>child r. heard_result e t0 child \<and> wr_result child = Some r \<and> res_outcome r = oc \<and>
       (rc = None \<or> rc = Some (wr_code child)) \<and> (code = None \<or> code = Some (res_error_code r)))"

text \<open>
  \<open>sent\<close> tells whether a command was sent to the bridge. A success has the child's success and
  an instant at which no stop was pending; a cancellation has a cancel request and evidence
  that the device does not run the command; a device fault has the bridge's verdict; every
  other end is a safe stop.
\<close>

definition justified :: "exec_env \<Rightarrow> nat \<Rightarrow> int \<Rightarrow> bool \<Rightarrow> goal_terminal \<Rightarrow> bool" where
  "justified e t0 deadline sent tr \<longleftrightarrow>
     (case tr of
        GSucceeded r \<Rightarrow> res_outcome r = COMPLETED \<and> res_error_code r = 0 \<and>
          child_outcome e t0 (Some RC_SUCCEEDED) COMPLETED None \<and>
          (\<exists>t \<ge> t0. xe_running e t \<and> \<not> xe_canceling e t \<and> xe_now e t < deadline)
      | GCanceled r \<Rightarrow> res_outcome r = CANCELED \<and> res_error_code r = 0 \<and> cancel_seen e t0 \<and>
          (\<not> sent \<or> heard_response e t0 False \<or> child_outcome e t0 (Some RC_CANCELED) CANCELED None)
      | GAborted r \<Rightarrow> res_outcome r = SAFE_STOP \<or>
          (res_outcome r = DEVICE_FAULT \<and>
            (res_error_code r = kErrorBridgeRejected \<and> heard_response e t0 False \<or>
             child_outcome e t0 None DEVICE_FAULT (Some (res_error_code r)))))"

lemma justified_safe_stop [intro]: "aborted_with SAFE_STOP code tr \<Longrightarrow> justified e t0 d sent tr"
  by (auto simp: aborted_with_def justified_def)

definition cause_ok :: "exec_env \<Rightarrow> nat \<Rightarrow> stop_cause \<Rightarrow> bool" where
  "cause_ok e t0 cause \<longleftrightarrow> (cause = kUserCancel \<longrightarrow> cancel_seen e t0)"

lemma cause_ok_simps [simp]: "cause_ok e t0 kNone" "cause_ok e t0 kDeadline" "cause_ok e t0 kShutdown"
  by (simp_all add: cause_ok_def)

section \<open>The parts of the worker\<close>

lemma finish_from_child_ended:
  assumes "open_from e s0 s" and "fresh s0" and "cause_ok e (ex_tick s0) cause"
    and "heard_result e (ex_tick s0) child"
    and "cause = kNone \<Longrightarrow> wr_code child = RC_SUCCEEDED \<Longrightarrow>
      (\<exists>r. wr_result child = Some r \<and> res_outcome r = COMPLETED) \<Longrightarrow>
      \<exists>t \<ge> ex_tick s0. xe_running e t \<and> \<not> xe_canceling e t \<and> xe_now e t < d"
  shows "ended e s0 (justified e (ex_tick s0) d True) (finish_from_child e g child cause timed_out s)"
    and "dispatched (snd (finish_from_child e g child cause timed_out s)) = dispatched s"
proof -
  note fin = finish_ended [OF assms(1,2)]
  show "dispatched (snd (finish_from_child e g child cause timed_out s)) = dispatched s"
    by (simp add: finish_from_child_def fin(4,5,6) split: option.splits stop_cause.splits)
  show "ended e s0 (justified e (ex_tick s0) d True) (finish_from_child e g child cause timed_out s)"
  proof (cases "wr_result child")
    case None
    then show ?thesis by (auto simp: finish_from_child_def intro!: fin(1))
  next
    case (Some r)
    note outcome = child_outcome_def [THEN iffD2, OF exI [of _ child], OF exI [of _ r]]
    show ?thesis
    proof (cases cause)
      case kUserCancel
      then have "cancel_seen e (ex_tick s0)" using assms(3) by (simp add: cause_ok_def)
      moreover have "child_outcome e (ex_tick s0) (Some RC_CANCELED) CANCELED None"
        if "wr_code child = RC_CANCELED" "res_outcome r = CANCELED"
        using that Some assms(4) by (intro outcome) simp
      ultimately show ?thesis using kUserCancel Some
        by (auto simp: finish_from_child_def canceled_ok_def justified_def aborted_with_def
            intro!: fin(1,2))
    next
      case kNone
      have "child_outcome e (ex_tick s0) (Some RC_SUCCEEDED) COMPLETED None"
        if "wr_code child = RC_SUCCEEDED" "res_outcome r = COMPLETED"
        using that Some assms(4) by (intro outcome) simp
      moreover have "child_outcome e (ex_tick s0) None DEVICE_FAULT (Some (res_error_code r))"
        if "res_outcome r = DEVICE_FAULT"
        using that Some assms(4) by (intro outcome) simp
      ultimately show ?thesis using kNone Some assms(5)
        by (auto simp: finish_from_child_def justified_def aborted_with_def intro!: fin(1,3))
    qed (auto simp: finish_from_child_def Some intro!: fin(1))
  qed
qed

lemma finish_unaccepted_ended:
  assumes "open_from e s0 s" and "fresh s0" and "cause_ok e (ex_tick s0) cause"
    and "\<not> cs_handle (ex_child s)"
    and "cause = kNone \<or> response_received \<Longrightarrow> cs_goal_response_received (ex_child s)"
  shows "ended e s0 (justified e (ex_tick s0) d True) (finish_unaccepted e g cause response_received s)"
    and "dispatched (snd (finish_unaccepted e g cause response_received s)) = dispatched s"
proof -
  note fin = finish_ended [OF assms(1,2)]
  show "dispatched (snd (finish_unaccepted e g cause response_received s)) = dispatched s"
    by (simp add: finish_unaccepted_def Let_def fin(4,5))
  have "heard_response e (ex_tick s0) False" if "cause = kNone \<or> response_received"
    using that assms by (auto simp: open_from_def child_inv_def)
  with assms(3) show "ended e s0 (justified e (ex_tick s0) d True)
      (finish_unaccepted e g cause response_received s)"
    by (cases cause)
      (auto simp: finish_unaccepted_def cause_ok_def justified_def canceled_ok_def aborted_with_def
        intro!: fin(1,2))
qed

definition flow_ended ::
  "exec_env \<Rightarrow> executor \<Rightarrow> (goal_terminal \<Rightarrow> bool) \<Rightarrow> flow \<times> executor \<Rightarrow> bool" where
  "flow_ended e s0 P x \<longleftrightarrow>
     (case x of (Continue, s) \<Rightarrow> open_from e s0 s | (f, s) \<Rightarrow> ended e s0 P (flow_error f, s))"

lemma flow_ended_finish:
  assumes "ended e s0 P x"
  shows "flow_ended e s0 P (flow_of_finish x)"
proof -
  obtain r s where "x = (r, s)" by fastforce
  with assms show ?thesis by (cases r) (simp_all add: flow_ended_def)
qed

lemma flow_of_finish_snd [simp]: "snd (flow_of_finish x) = snd x"
proof -
  obtain r s where "x = (r, s)" by fastforce
  then show ?thesis by (cases r) simp_all
qed

lemma flow_ended_threw: "open_from e s0 s \<Longrightarrow> flow_ended e s0 P (Threw err, s)"
  by (simp add: flow_ended_def ended_def)

lemma validation_steps_ended:
  assumes "fresh s0"
  shows "open_from e s0 s \<Longrightarrow>
    flow_ended e s0 (justified e (ex_tick s0) d False) (validation_steps e g d steps s) \<and>
    dispatched (snd (validation_steps e g d steps s)) = dispatched s"
proof (induction steps arbitrary: s)
  case Nil
  then show ?case by (simp add: flow_ended_def)
next
  case (Cons step steps)
  have o: "open_from e s0 (ex_observe e s)" using Cons.prems ..
  note fin = finish_ended [OF o assms]
  have canceled: "justified e (ex_tick s0) d False tr"
    if "canceled_ok tr" "xe_canceling e (ex_tick s)" for tr
    using that open_from_tick [OF Cons.prems]
    by (auto simp: canceled_ok_def justified_def cancel_seen_def)
  obtain r s1 where f: "ex_publish_feedback e TASK_VALIDATING (step * 4) (ex_observe e s) = (r, s1)"
    by fastforce
  note f' = ex_publish_feedback_effect [OF f, of s0]
  show ?case
    using f' o Cons.IH [of s1] canceled
    by (auto simp: Let_def f fin(4,5) intro!: flow_ended_finish flow_ended_threw fin(1,2)
        split: option.splits)
qed

text \<open>The command a task sends, and the state after the dispatch.\<close>

definition sent_goal :: "exec_config \<Rightarrow> task_goal \<Rightarrow> u16 \<Rightarrow> device_goal \<Rightarrow> bool" where
  "sent_goal cfg g next d \<longleftrightarrow>
     (\<exists>argument ms. 3 \<le> ms \<and> map_of (ec_target_arguments cfg) (tg_target_id g) = Some argument \<and>
        d = make_device_goal cfg g (fst (allocate_command_id next)) argument
              (child_ack_timeout_ms cfg ms))"

definition dispatch_log :: "exec_config \<Rightarrow> task_goal \<Rightarrow> executor \<Rightarrow> executor \<Rightarrow> bool" where
  "dispatch_log cfg g s s' \<longleftrightarrow>
     ex_device_goals s' = ex_device_goals s \<or>
     (\<exists>d. sent_goal cfg g (ex_next_command_id s) d \<and> ex_device_goals s' = ex_device_goals s @ [d])"

lemma dispatch_log_cong:
  "dispatched s = dispatched t \<Longrightarrow> dispatched s' = dispatched t' \<Longrightarrow>
     dispatch_log cfg g s s' = dispatch_log cfg g t t'"
  by (simp add: dispatch_log_def dispatched_def)

lemma child_inv_started:
  "child_inv e t n (s\<lparr>ex_child := (ex_child s)\<lparr>cs_dispatch_started := b\<rparr>\<rparr>) = child_inv e t n s"
  by (simp add: child_inv_def)

lemma flow_of_step_open:
  "open_from e s0 s \<Longrightarrow> flow_ended e s0 P (flow_of_step (r, s))"
  by (cases r) (simp_all add: flow_ended_def ended_def)

lemma flow_of_step_snd [simp]: "snd (flow_of_step (r, s)) = s"
  by (cases r) simp_all

lemma dispatch_command_ended:
  assumes "open_from e s0 s" and "fresh s0"
  shows "flow_ended e s0 (justified e (ex_tick s0) d True) (dispatch_command cfg e g d s) \<and>
    dispatch_log cfg g s (snd (dispatch_command cfg e g d s))"
proof -
  let ?r = "ns_to_ms (d - xe_now e (ex_tick s))" and ?s1 = "ex_observe e s"
  let ?P = "justified e (ex_tick s0) d True"
  have o: "open_from e s0 ?s1" using assms(1) ..
  note fin = finish_ended [OF o assms(2)]
  have d1: "ex_device_goals ?s1 = ex_device_goals s" "ex_next_command_id ?s1 = ex_next_command_id s"
    using ex_observe_simps(3) [of e s] by (simp_all add: dispatched_def)
  show ?thesis
  proof (cases "?r < 3")
    case True
    then show ?thesis
      using fin(4) by (auto simp: dispatch_command_def dispatch_log_def dispatched_def d1
          intro!: flow_ended_finish fin(1))
  next
    case budget: False
    obtain cid next' where id: "allocate_command_id (ex_next_command_id s) = (cid, next')"
      by fastforce
    let ?s2 = "?s1\<lparr>ex_next_command_id := next'\<rparr>"
    show ?thesis
    proof (cases "map_of (ec_target_arguments cfg) (tg_target_id g)")
      case None
      then show ?thesis using budget o
        by (simp add: dispatch_command_def Let_def d1 id dispatch_log_def flow_ended_threw)
    next
      case (Some argument)
      define ack_ms where "ack_ms = child_ack_timeout_ms cfg ?r"
      define dg where "dg = make_device_goal cfg g cid argument ack_ms"
      have sent: "sent_goal cfg g (ex_next_command_id s) dg"
        using Some budget unfolding sent_goal_def dg_def ack_ms_def id
        by (intro exI [of _ argument] exI [of _ "?r"]) simp
      define s3 where "s3 = ex_emit_stage cfg g ''can_receive'' (can_receive_extra g dg ack_ms)
        (ex_emit_stage cfg g ''action_execute_end'' ''{}'' ?s2)"
      have s3: "open_from e s0 s3" "dispatched s3 = (next', ex_device_goals s)"
        using o by (simp_all add: s3_def dispatched_def d1 ex_emit_stage_def)
      obtain r4 s4 where f: "ex_publish_feedback e TASK_RUNNING 25 s3 = (r4, s4)" by fastforce
      note f' = ex_publish_feedback_effect [OF f, of s0]
      define s5 where "s5 = ex_observe e s4"
      define s6 where "s6 = s5\<lparr>ex_child := (ex_child s5)\<lparr>cs_dispatch_started := True\<rparr>\<rparr>"
      define s7 where "s7 = ex_observe e s6"
      have o5: "open_from e s0 s5" using f' s3 by (auto simp: s5_def)
      then have o7: "open_from e s0 s7"
        by (auto simp: s7_def s6_def open_from_def child_inv_started intro!: ex_observe_inv)
      have dd: "ex_device_goals s4 = ex_device_goals s" "ex_device_goals s5 = ex_device_goals s"
        "ex_device_goals s7 = ex_device_goals s"
        using f' s3 ex_observe_simps(3) [of e s4] ex_observe_simps(3) [of e s6]
        by (simp_all add: dispatched_def s5_def s6_def s7_def)
      let ?s8 = "ex_observe e (s7\<lparr>ex_device_goals := ex_device_goals s7 @ [dg]\<rparr>)"
      have o8: "open_from e s0 ?s8" using o7 by (auto intro!: ex_observe_open)
      have d8: "ex_device_goals ?s8 = ex_device_goals s @ [dg]"
        using ex_observe_simps(3) [of e "s7\<lparr>ex_device_goals := ex_device_goals s7 @ [dg]\<rparr>"] dd
        by (simp add: dispatched_def)
      have step: "dispatch_command cfg e g d s =
        (case r4 of Some err \<Rightarrow> (Threw err, s4)
         | None \<Rightarrow>
          (case xe_hook e (ex_tick s4) kBeforeSendGoal of Some err \<Rightarrow> (Threw err, s5)
           | None \<Rightarrow>
            (case xe_send_goal e (ex_tick s6) of Some err \<Rightarrow> (Threw err, s7)
             | None \<Rightarrow> flow_of_step (xe_hook e (ex_tick s7) kAfterSendGoal, ?s8))))"
        using budget
        by (simp add: dispatch_command_def Let_def d1 id Some ack_ms_def [symmetric]
            dg_def [symmetric] s3_def [symmetric] f ex_run_hook_def s5_def [symmetric]
            s6_def [symmetric] s7_def [symmetric] split: option.split)
      show ?thesis
        unfolding step using f' s3 o5 o7 o8 d8 dd sent
        by (auto simp: dispatch_log_def intro!: flow_ended_threw flow_of_step_open
            split: option.splits)
    qed
  qed
qed

lemma dispatch_wait_Some:
  "dispatch_wait e d p s = Some x \<Longrightarrow>
     (open_from e s0 s \<longrightarrow> open_from e s0 (snd x) \<and> cause_ok e (ex_tick s0) (fst x)) \<and>
     (fst x = kNone \<longrightarrow> cs_goal_response_received (ex_child (snd x))) \<and>
     dispatched (snd x) = dispatched s"
proof (induction rule: dispatch_wait.raw_induct [rotated 1, consumes 1, case_names step])
  case (step dw e d p s x)
  let ?s = "ex_observe e s"
  have rec: "dw e d (next_poll p) ?s = Some x \<Longrightarrow>
     (open_from e s0 ?s \<longrightarrow> open_from e s0 (snd x) \<and> cause_ok e (ex_tick s0) (fst x)) \<and>
     (fst x = kNone \<longrightarrow> cs_goal_response_received (ex_child (snd x))) \<and>
     dispatched (snd x) = dispatched s"
    using step.IH [of e d "next_poll p" ?s x] by simp
  have seen: "open_from e s0 s \<Longrightarrow> xe_canceling e (ex_tick s) \<Longrightarrow> cancel_seen e (ex_tick s0)"
    by (auto simp: cancel_seen_def dest: open_from_tick)
  have obs: "open_from e s0 s \<Longrightarrow> open_from e s0 ?s" by auto
  let ?t = "ex_tick s"
  show ?case
  proof (cases "cs_goal_response_received (ex_child ?s)")
    case True
    with step.hyps obs show ?thesis by (auto simp: Let_def)
  next
    case waiting: False
    show ?thesis
    proof (cases "\<not> xe_running e ?t \<or> \<not> xe_ok e ?t")
      case True
      with step.hyps waiting obs show ?thesis by (auto simp: Let_def)
    next
      case False
      with step.hyps waiting obs seen rec show ?thesis
        by (cases "xe_canceling e ?t"; cases "d \<le> xe_now e ?t") (auto simp: Let_def cause_ok_def)
    qed
  qed
qed

text \<open>A state of the wait for the result, and what one pass makes of it.\<close>

definition drain_ok :: "exec_env \<Rightarrow> executor \<Rightarrow> stop_cause \<Rightarrow> executor \<Rightarrow> bool" where
  "drain_ok e s0 cause s \<longleftrightarrow> open_from e s0 s \<and> cause_ok e (ex_tick s0) cause"

definition drain_exit_ok :: "exec_env \<Rightarrow> executor \<Rightarrow> drain_exit \<times> executor \<Rightarrow> bool" where
  "drain_exit_ok e s0 x \<longleftrightarrow> open_from e s0 (snd x) \<and>
     (\<forall>cause. fst x = DrainTerminal cause \<longrightarrow> cause_ok e (ex_tick s0) cause)"

lemma drain_interrupt_ok:
  assumes "drain_interrupt e t now d cause = Some cause'" and "ex_tick s0 \<le> t"
  shows "cause_ok e (ex_tick s0) cause'" and "cause' \<noteq> kNone"
  using assms by (auto simp: drain_interrupt_def cause_ok_def cancel_seen_def split: if_splits)

text \<open>The state in the middle of a pass, after the checks and a renewed cancel.\<close>

definition drain_mid :: "exec_config \<Rightarrow> exec_env \<Rightarrow> stop_cause \<Rightarrow> executor \<Rightarrow> executor" where
  "drain_mid cfg e cause s =
     (let s2 = ex_observe e (record_cancel_timeout cfg e (xe_now e (ex_tick s)) (ex_observe e s)) in
      if cause \<noteq> kNone then cancel_child_once e s2 else s2)"

lemma drain_mid_effect:
  "dispatched (drain_mid cfg e cause s) = dispatched s"
  "ex_tick s < ex_tick (drain_mid cfg e cause s)"
  "open_from e s0 s \<Longrightarrow> open_from e s0 (drain_mid cfg e cause s)"
  using cancel_child_once_tick
    [of "ex_observe e (record_cancel_timeout cfg e (xe_now e (ex_tick s)) (ex_observe e s))" e]
  by (auto simp: drain_mid_def Let_def record_cancel_timeout_effect
      intro!: cancel_child_once_open ex_observe_open record_cancel_timeout_open)

lemma child_drain_unfold:
  "child_drain cfg e d cause s =
     (let now = xe_now e (ex_tick s); s1 = ex_observe e s;
          s2 = ex_observe e (record_cancel_timeout cfg e now s1); s3 = drain_mid cfg e cause s;
          s4 = ex_observe e s3
      in if cs_terminal (ex_child s1) then Some (DrainTerminal cause, s1)
         else if cancel_drain_expired cfg now (ex_child s2) then Some (DrainExpired, s2)
         else case drain_interrupt e (ex_tick s3) now d cause of
                None \<Rightarrow> child_drain cfg e d cause s4
              | Some cause' \<Rightarrow>
                  (case ex_publish_feedback e TASK_RECOVERING 60 s4 of
                     (Some err, s5) \<Rightarrow> Some (DrainThrew err, s5)
                   | (None, s5) \<Rightarrow> child_drain cfg e d cause' (cancel_child_once e s5)))"
  by (subst child_drain.simps) (simp only: Let_def drain_mid_def)

lemma child_drain_Some:
  "child_drain cfg e d cause s = Some x \<Longrightarrow>
     dispatched (snd x) = dispatched s \<and> (drain_ok e s0 cause s \<longrightarrow> drain_exit_ok e s0 x)"
proof (induction rule: child_drain.raw_induct [rotated 1, consumes 1, case_names step])
  case (step cd cfg e d cause s x)
  let ?now = "xe_now e (ex_tick s)" and ?s1 = "ex_observe e s"
  let ?s2 = "ex_observe e (record_cancel_timeout cfg e ?now ?s1)"
  let ?s3 = "drain_mid cfg e cause s"
  let ?s4 = "ex_observe e ?s3"
  note eq = step.hyps [unfolded Let_def, folded drain_mid_def [unfolded Let_def]]
  note mid = drain_mid_effect(1) [of cfg e cause s] drain_mid_effect(2) [of s cfg e cause]
    drain_mid_effect(3) [of e s0 s cfg cause]
  have d4: "dispatched ?s4 = dispatched s" using mid by simp
  have o4: "open_from e s0 s \<Longrightarrow> open_from e s0 ?s4" using mid by auto
  show ?case
  proof (cases "cs_terminal (ex_child ?s1)")
    case True
    with eq show ?thesis by (auto simp: drain_ok_def drain_exit_ok_def)
  next
    case running: False
    show ?thesis
    proof (cases "cancel_drain_expired cfg ?now (ex_child ?s2)")
      case True
      with eq running have "x = (DrainExpired, ?s2)" by simp
      then show ?thesis
        by (auto simp: drain_ok_def drain_exit_ok_def record_cancel_timeout_effect
            intro!: ex_observe_open record_cancel_timeout_open)
    next
      case live: False
      show ?thesis
      proof (cases "drain_interrupt e (ex_tick ?s3) ?now d cause")
        case None
        with eq running live have "cd cfg e d cause ?s4 = Some x" by simp
        from step.IH [OF this] d4 o4 show ?thesis by (simp add: drain_ok_def)
      next
        case (Some cause')
        obtain r s5 where f: "ex_publish_feedback e TASK_RECOVERING 60 ?s4 = (r, s5)" by fastforce
        note f' = ex_publish_feedback_effect [OF f, of s0]
        have tick: "open_from e s0 s \<Longrightarrow> ex_tick s0 \<le> ex_tick ?s3"
          using mid open_from_tick by fastforce
        show ?thesis
        proof (cases r)
          case (Some err)
          with eq running live \<open>drain_interrupt _ _ _ _ _ = _\<close> f
          have "x = (DrainThrew err, s5)" by simp
          with f' d4 o4 show ?thesis by (simp add: drain_ok_def drain_exit_ok_def)
        next
          case None
          with eq running live \<open>drain_interrupt _ _ _ _ _ = _\<close> f
          have "cd cfg e d cause' (cancel_child_once e s5) = Some x" by simp
          from step.IH [OF this] f' d4 o4 drain_interrupt_ok(1) [OF Some tick]
          show ?thesis by (auto simp: drain_ok_def)
        qed
      qed
    qed
  qed
qed

lemma before_success_effect:
  assumes "before_success e d s = (r, s')" and "open_from e s0 s"
  shows "dispatched s' = dispatched s \<and> open_from e s0 s' \<and>
    (\<forall>cause. r = Inr cause \<longrightarrow> cause_ok e (ex_tick s0) cause \<and>
      (cause = kNone \<longrightarrow>
        (\<exists>t \<ge> ex_tick s0. xe_running e t \<and> \<not> xe_canceling e t \<and> xe_now e t < d)))"
proof (cases "xe_hook e (ex_tick s) kBeforeSuccess")
  case (Some err)
  with assms show ?thesis by (auto simp: before_success_def ex_run_hook_def)
next
  case None
  let ?t = "Suc (ex_tick s)" and ?s2 = "ex_observe e (ex_observe e s)"
  have t: "ex_tick s0 \<le> ?t" using open_from_tick [OF assms(2)] by simp
  have o: "open_from e s0 ?s2" "open_from e s0 (cancel_child_once e ?s2)" using assms(2) by auto
  have seen: "xe_canceling e ?t \<Longrightarrow> cancel_seen e (ex_tick s0)"
    using t by (auto simp: cancel_seen_def)
  from assms(1) [symmetric] None have eq: "(r, s') =
    (if \<not> xe_running e ?t then (Inr kShutdown, cancel_child_once e ?s2)
     else if xe_canceling e ?t then (Inr kUserCancel, cancel_child_once e ?s2)
     else if d \<le> xe_now e ?t then (Inr kDeadline, cancel_child_once e ?s2) else (Inr kNone, ?s2))"
    by (simp add: before_success_def ex_run_hook_def Let_def)
  then show ?thesis using t o seen by (auto simp: cause_ok_def split: if_splits)
qed

lemma settle_terminal_ended:
  assumes "drain_ok e s0 cause s" and "fresh s0"
  shows "ended e s0 (justified e (ex_tick s0) d True) (settle_terminal cfg e g d cause s)"
    and "dispatched (snd (settle_terminal cfg e g d cause s)) = dispatched s"
proof -
  let ?P = "justified e (ex_tick s0) d True"
  define s1 where "s1 = ex_observe e (record_cancel_timeout cfg e (xe_now e (ex_tick s)) s)"
  have o: "open_from e s0 s1" and c: "cause_ok e (ex_tick s0) cause" and d1: "dispatched s1 = dispatched s"
    using assms(1) by (auto simp: drain_ok_def s1_def record_cancel_timeout_effect
        intro!: ex_observe_open record_cancel_timeout_open)
  have "ended e s0 ?P (settle_terminal cfg e g d cause s) \<and>
    dispatched (snd (settle_terminal cfg e g d cause s)) = dispatched s"
  proof (cases "cs_result (ex_child s1)")
    case None
    then show ?thesis using o d1
      by (simp add: settle_terminal_def Let_def s1_def [symmetric] ended_def)
  next
    case (Some child)
    with o have heard: "heard_result e (ex_tick s0) child"
      by (auto simp: open_from_def child_inv_def)
    define completed where "completed \<longleftrightarrow> (case wr_result child of None \<Rightarrow> False
      | Some r \<Rightarrow> cause = kNone \<and> wr_code child = RC_SUCCEEDED \<and> res_outcome r = COMPLETED)"
    show ?thesis
    proof (cases completed)
      case True
      obtain r s2 where b: "before_success e d s1 = (r, s2)" by fastforce
      note b' = before_success_effect [OF b o]
      show ?thesis
      proof (cases r)
        case (Inl err)
        with b b' d1 True Some show ?thesis
          by (simp add: settle_terminal_def Let_def s1_def [symmetric] completed_def [symmetric] ended_def)
      next
        case (Inr cause')
        have o2: "open_from e s0 s2" and c2: "cause_ok e (ex_tick s0) cause'"
          and suc: "cause' = kNone \<Longrightarrow> wr_code child = RC_SUCCEEDED \<Longrightarrow>
            (\<exists>r. wr_result child = Some r \<and> res_outcome r = COMPLETED) \<Longrightarrow>
            \<exists>t \<ge> ex_tick s0. xe_running e t \<and> \<not> xe_canceling e t \<and> xe_now e t < d"
          using b' Inr by auto
        note ff = finish_from_child_ended [OF o2 assms(2) c2 heard suc, of g "cs_cancel_timed_out (ex_child s1)"]
        from ff b b' d1 True Some Inr show ?thesis
          by (simp add: settle_terminal_def Let_def s1_def [symmetric] completed_def [symmetric])
      qed
    next
      case False
      have suc: "cause = kNone \<Longrightarrow> wr_code child = RC_SUCCEEDED \<Longrightarrow>
          (\<exists>r. wr_result child = Some r \<and> res_outcome r = COMPLETED) \<Longrightarrow>
          \<exists>t \<ge> ex_tick s0. xe_running e t \<and> \<not> xe_canceling e t \<and> xe_now e t < d"
        using False by (auto simp: completed_def)
      note ff = finish_from_child_ended [OF o assms(2) c heard suc, of g "cs_cancel_timed_out (ex_child s1)"]
      from ff d1 False Some show ?thesis
        by (simp add: settle_terminal_def Let_def s1_def [symmetric] completed_def [symmetric])
    qed
  qed
  then show "ended e s0 ?P (settle_terminal cfg e g d cause s)"
    and "dispatched (snd (settle_terminal cfg e g d cause s)) = dispatched s" by simp_all
qed

text \<open>The outcome of a later part of the worker: ended with evidence, no further command.\<close>

definition tail_ok :: "exec_env \<Rightarrow> executor \<Rightarrow> int \<Rightarrow> executor \<Rightarrow> string option \<times> executor \<Rightarrow> bool" where
  "tail_ok e s0 d s x \<longleftrightarrow>
     ended e s0 (justified e (ex_tick s0) d True) x \<and> dispatched (snd x) = dispatched s"

lemma tail_ok_threw: "open_from e s0 s' \<Longrightarrow> dispatched s' = dispatched s \<Longrightarrow> tail_ok e s0 d s (Some err, s')"
  by (simp add: tail_ok_def ended_def)

lemma run_accepted_child_ended:
  assumes "drain_ok e s0 cause s" and "fresh s0"
    and "run_accepted_child cfg e g d cause s = Some x"
  shows "tail_ok e s0 d s x"
proof (cases "xe_hook e (ex_tick s) kAfterChildAccepted")
  case (Some err)
  with assms show ?thesis
    by (auto simp: run_accepted_child_def ex_run_hook_def drain_ok_def intro!: tail_ok_threw)
next
  case None
  let ?fb = "if cause \<noteq> kNone then ex_publish_feedback e TASK_RECOVERING 60 (ex_observe e s)
    else ex_publish_feedback e TASK_WAITING_ACK 50 (ex_observe e s)"
  obtain r s2 where f: "?fb = (r, s2)" by fastforce
  have o: "open_from e s0 (ex_observe e s)" using assms(1) by (auto simp: drain_ok_def)
  have s2: "dispatched s2 = dispatched s" "open_from e s0 s2"
    using f ex_publish_feedback_effect [of e _ _ "ex_observe e s" r s2 s0] o
    by (auto split: if_splits)
  show ?thesis
  proof (cases r)
    case (Some err)
    with assms(3) None f s2 show ?thesis
      by (auto simp: run_accepted_child_def ex_run_hook_def intro!: tail_ok_threw)
  next
    case no_throw: None
    let ?s3 = "if cause \<noteq> kNone then cancel_child_once e s2 else s2"
    have s3: "drain_ok e s0 cause ?s3" "dispatched ?s3 = dispatched s"
      using s2 assms(1) by (auto simp: drain_ok_def)
    have eq: "(case child_drain cfg e d cause ?s3 of
          None \<Rightarrow> None
        | Some (DrainThrew err, s3) \<Rightarrow> Some (Some err, s3)
        | Some (DrainExpired, s3) \<Rightarrow> Some (ex_finish_aborted e g SAFE_STOP kErrorCancelUnconfirmed
            ''device cancel exceeded drain timeout'' s3)
        | Some (DrainTerminal cause', s3) \<Rightarrow> Some (settle_terminal cfg e g d cause' s3)) = Some x"
      using assms(3) unfolding run_accepted_child_def ex_run_hook_def None prod.case option.case
        f no_throw .
    show ?thesis
    proof (cases "child_drain cfg e d cause ?s3")
      case None
      with eq show ?thesis by simp
    next
      case (Some y)
      obtain ex s4 where y: "y = (ex, s4)" by fastforce
      from child_drain_Some [OF Some, of s0] s3 y
      have s4: "dispatched s4 = dispatched s" "open_from e s0 s4"
        "\<And>c. ex = DrainTerminal c \<Longrightarrow> drain_ok e s0 c s4"
        by (auto simp: drain_exit_ok_def drain_ok_def)
      show ?thesis
      proof (cases ex)
        case (DrainTerminal c)
        with eq Some y have "x = settle_terminal cfg e g d c s4" by simp
        with settle_terminal_ended [OF s4(3) assms(2)] DrainTerminal s4(1) show ?thesis
          by (simp add: tail_ok_def)
      next
        case DrainExpired
        with eq Some y have "x = ex_finish_aborted e g SAFE_STOP kErrorCancelUnconfirmed
          ''device cancel exceeded drain timeout'' s4" by simp
        moreover note fin = finish_ended [OF s4(2) assms(2)]
        ultimately show ?thesis
          using s4(1) by (auto simp: tail_ok_def fin(4) intro!: fin(1))
      next
        case (DrainThrew err)
        with eq Some y s4 show ?thesis by (auto intro!: tail_ok_threw)
      qed
    qed
  qed
qed

lemma fold_callback_response:
  "cs_goal_response_received (ex_child s) \<Longrightarrow>
     cs_goal_response_received (ex_child (fold child_callback evs s))"
proof (induction evs arbitrary: s)
  case (Cons ev evs)
  have "cs_goal_response_received (ex_child (child_callback ev s))"
    using Cons.prems by (cases ev) (auto simp: Let_def split: option.splits)
  from Cons.IH [OF this] show ?case by simp
qed simp

lemma response_stays:
  "cs_goal_response_received (ex_child s) \<Longrightarrow> cs_goal_response_received (ex_child (ex_observe e s))"
  unfolding ex_observe_def by (rule fold_callback_response) simp

lemma await_child_ended:
  assumes "open_from e s0 s" and "fresh s0" and "cause_ok e (ex_tick s0) cause0"
    and "cause0 = kNone \<Longrightarrow> cs_goal_response_received (ex_child s)"
    and "await_child cfg e g d cause0 s = Some x"
  shows "tail_ok e s0 d s x"
proof -
  let ?t = "ex_tick s" and ?s1 = "ex_observe e s"
  define cause where "cause = (if \<not> xe_running e ?t \<or> \<not> xe_ok e ?t then kShutdown else cause0)"
  have c: "cause_ok e (ex_tick s0) cause" using assms(3) by (simp add: cause_def)
  have o1: "open_from e s0 ?s1" using assms(1) ..
  note eq = assms(5) [unfolded await_child_def Let_def, folded cause_def]
  show ?thesis
  proof (cases "cause = kNone")
    case True
    then have "cause0 = kNone" by (auto simp: cause_def split: if_splits)
    then have resp: "cs_goal_response_received (ex_child ?s1)"
      using response_stays [OF assms(4)] by simp
    show ?thesis
    proof (cases "cs_handle (ex_child ?s1)")
      case h: True
      from eq True h have "run_accepted_child cfg e g d cause ?s1 = Some x" by simp
      from run_accepted_child_ended [OF _ assms(2) this] o1 c show ?thesis
        by (simp add: drain_ok_def tail_ok_def)
    next
      case False
      note un = finish_unaccepted_ended [OF o1 assms(2) c False resp]
      from eq True False have "x = finish_unaccepted e g cause False ?s1" by simp
      then show ?thesis using un by (simp add: tail_ok_def)
    qed
  next
    case stop: False
    obtain r s2 where f: "ex_publish_feedback e TASK_RECOVERING 60 ?s1 = (r, s2)" by fastforce
    note f' = ex_publish_feedback_effect [OF f, of s0]
    show ?thesis
    proof (cases r)
      case (Some err)
      with eq stop f f' o1 show ?thesis by (auto intro!: tail_ok_threw)
    next
      case None
      let ?s3 = "ex_observe e (cancel_child_once e s2)"
      have s3: "open_from e s0 ?s3" "dispatched ?s3 = dispatched s" using f' o1 by auto
      show ?thesis
      proof (cases "cs_handle (ex_child ?s3)")
        case True
        with eq stop f None have "run_accepted_child cfg e g d cause ?s3 = Some x" by simp
        from run_accepted_child_ended [OF _ assms(2) this] s3 c show ?thesis
          by (simp add: drain_ok_def tail_ok_def)
      next
        case False
        from finish_unaccepted_ended [OF s3(1) assms(2) c False] stop
        have un: "ended e s0 (justified e (ex_tick s0) d True)
            (finish_unaccepted e g cause (cs_goal_response_received (ex_child ?s3)) ?s3)"
          "dispatched (snd (finish_unaccepted e g cause
            (cs_goal_response_received (ex_child ?s3)) ?s3)) = dispatched ?s3"
          by simp_all
        from eq stop f None False
        have "x = finish_unaccepted e g cause (cs_goal_response_received (ex_child ?s3)) ?s3" by simp
        then show ?thesis using un s3(2) by (simp add: tail_ok_def)
      qed
    qed
  qed
qed

text \<open>The whole worker: one justified transition, or an exception that leaves the task open.\<close>

definition worker_ok ::
  "exec_config \<Rightarrow> exec_env \<Rightarrow> task_goal \<Rightarrow> executor \<Rightarrow> string option \<times> executor \<Rightarrow> bool" where
  "worker_ok cfg e g s0 x \<longleftrightarrow>
     ended e s0 (justified e (ex_tick s0)
         (xe_now e (ex_tick s0) + to_steady_duration (tg_allowed_duration g))
         (ex_device_goals (snd x) \<noteq> ex_device_goals s0)) x \<and>
     dispatch_log cfg g s0 (snd x)"

lemma justified_any: "justified e t0 d True tr \<Longrightarrow> justified e t0 d sent tr"
  by (auto simp: justified_def split: goal_terminal.splits)

lemma open_from_start: "ex_child s0 = child_init \<Longrightarrow> open_from e s0 s0"
  by (simp add: open_from_def child_inv_def child_init_def)

lemma dispatched_goals: "dispatched s = dispatched t \<Longrightarrow> ex_device_goals s = ex_device_goals t"
  by (simp add: dispatched_def)

lemma execute_worker_ok:
  assumes "ex_child s0 = child_init" and "fresh s0" and "execute_worker cfg e g s0 = Some x"
  shows "worker_ok cfg e g s0 x"
proof -
  define d where "d = xe_now e (ex_tick s0) + to_steady_duration (tg_allowed_duration g)"
  define s1 where "s1 = ex_emit_stage cfg g ''action_execute_start'' ''{}'' (ex_observe e s0)"
  have o1: "open_from e s0 s1" and d1: "dispatched s1 = dispatched s0"
    using open_from_start [OF assms(1)] by (auto simp: s1_def)
  obtain f2 s2 where v: "validation_steps e g d [1, 2, 3, 4, 5] s1 = (f2, s2)" by fastforce
  from validation_steps_ended [OF assms(2) o1, of d g "[1, 2, 3, 4, 5]"] v d1
  have fe: "flow_ended e s0 (justified e (ex_tick s0) d False) (f2, s2)"
    and d2: "dispatched s2 = dispatched s0" by simp_all
  note eq = assms(3) [unfolded execute_worker_def Let_def, folded d_def, folded s1_def, unfolded v]
  have goals: "ex_device_goals s2 = ex_device_goals s0" using dispatched_goals [OF d2] .
  have final: "worker_ok cfg e g s0 y"
    if "ended e s0 (justified e (ex_tick s0) d True) y" "dispatch_log cfg g s2 (snd y)" for y
  proof -
    have "ended e s0 (justified e (ex_tick s0) d sent) y" for sent
      by (rule ended_mono [OF that(1)]) (rule justified_any)
    moreover have "dispatch_log cfg g s0 (snd y)"
      using that(2) unfolding dispatch_log_cong [OF d2 refl] .
    ultimately show ?thesis by (simp add: worker_ok_def d_def [symmetric])
  qed
  show ?thesis
  proof (cases "f2 = Continue")
    case False
    with eq have x: "x = (flow_error f2, s2)" by (cases f2) simp_all
    from fe False have "ended e s0 (justified e (ex_tick s0) d False) x"
      unfolding x by (cases f2) (simp_all add: flow_ended_def)
    with goals show ?thesis
      by (simp add: worker_ok_def d_def [symmetric] x dispatch_log_def)
  next
    case True
    with fe have o2: "open_from e s0 s2" by (simp add: flow_ended_def)
    obtain f3 s3 where dc: "dispatch_command cfg e g d s2 = (f3, s3)" by fastforce
    from dispatch_command_ended [OF o2 assms(2), of d cfg g] dc
    have fe3: "flow_ended e s0 (justified e (ex_tick s0) d True) (f3, s3)"
      and log: "dispatch_log cfg g s2 s3" by simp_all
    show ?thesis
    proof (cases "f3 = Continue")
      case False
      with eq True dc have x: "x = (flow_error f3, s3)" by (cases f3) simp_all
      from fe3 False have "ended e s0 (justified e (ex_tick s0) d True) x"
        unfolding x by (cases f3) (simp_all add: flow_ended_def)
      then show ?thesis by (rule final) (simp add: x log)
    next
      case cont: True
      with fe3 have o3: "open_from e s0 s3" by (simp add: flow_ended_def)
      from eq True dc cont obtain cause s4 where w: "dispatch_wait e d 5 s3 = Some (cause, s4)"
        and a: "await_child cfg e g d cause s4 = Some x" by (auto split: option.splits)
      from dispatch_wait_Some [OF w, of s0] o3
      have "open_from e s0 s4" "cause_ok e (ex_tick s0) cause"
        "cause = kNone \<Longrightarrow> cs_goal_response_received (ex_child s4)" and d4: "dispatched s4 = dispatched s3"
        by simp_all
      from await_child_ended [OF this(1) assms(2) this(2,3) a]
      have t: "tail_ok e s0 d s4 x" .
      then have "dispatched (snd x) = dispatched s3" using d4 by (simp add: tail_ok_def)
      from log [folded dispatch_log_cong [OF refl this]] have "dispatch_log cfg g s2 (snd x)" .
      with t show ?thesis by (intro final) (simp_all add: tail_ok_def)
    qed
  qed
qed

section \<open>Exceptions of the worker\<close>

lemma settle_loop_Some:
  "settle_loop e d s = Some x \<Longrightarrow>
     dispatched x = dispatched s \<and> (open_from e s0 s \<longrightarrow> open_from e s0 x)"
proof (induction rule: settle_loop.raw_induct [rotated 1, consumes 1, case_names step])
  case (step sl e d s x)
  let ?s = "ex_observe e (cancel_child_once e s)"
  have o: "open_from e s0 s \<longrightarrow> open_from e s0 ?s" by auto
  from step.hyps have "x = ?s \<or> sl e d ?s = Some x" by (auto simp: Let_def split: if_splits)
  then show ?case using step.IH [of e d ?s x] o by auto
qed

lemma settle_child_after_exception_Some:
  assumes "settle_child_after_exception cfg e s = Some x"
  shows "dispatched x = dispatched s \<and> (open_from e s0 s \<longrightarrow> open_from e s0 x)"
proof -
  let ?s2 = "ex_observe e (cancel_child_once e s)"
  have o: "open_from e s0 s \<longrightarrow> open_from e s0 ?s2 \<and> open_from e s0 (ex_observe e ?s2)" by auto
  show ?thesis
  proof (cases "cs_dispatch_started (ex_child ?s2)")
    case False
    with assms have "x = ?s2" by (simp add: settle_child_after_exception_def Let_def)
    with o show ?thesis by simp
  next
    case started: True
    let ?s3 = "ex_observe e ?s2"
    show ?thesis
    proof (cases "\<not> cs_handle (ex_child ?s3) \<or> cs_terminal (ex_child ?s3)")
      case True
      with assms started have "x = ?s3" by (simp add: settle_child_after_exception_def Let_def)
      with o show ?thesis by simp
    next
      case False
      with assms started obtain dl where "settle_loop e dl ?s3 = Some x"
        by (simp add: settle_child_after_exception_def Let_def)
      from settle_loop_Some [OF this, of s0] o show ?thesis by simp
    qed
  qed
qed

text \<open>
  A whole execution. The worker's exceptions end the task with a safe stop; only when the
  transition itself keeps throwing does the task stay open, and then nothing was reported.
\<close>

lemma ex_execute_ok:
  assumes "fresh s0" and "ex_execute cfg e g s0 = Some s'"
  shows "\<exists>x sx. worker_ok cfg e g (s0\<lparr>ex_child := child_init\<rparr>) (x, sx) \<and> s' = release_guards sx \<and>
    (x = None \<or> \<not> transitions_ok e)"
proof -
  let ?s0 = "s0\<lparr>ex_child := child_init\<rparr>"
  have f: "fresh ?s0" using assms(1) by (simp add: fresh_def)
  from assms(2) obtain r s1 where w: "execute_worker cfg e g ?s0 = Some (r, s1)"
    by (auto simp: ex_execute_def split: option.splits)
  note ok = execute_worker_ok [OF _ f w]
  show ?thesis
  proof (cases r)
    case None
    with assms(2) w have "s' = release_guards s1" by (simp add: ex_execute_def)
    with ok None show ?thesis by auto
  next
    case (Some err)
    let ?m = "''executor worker exception: '' @ err"
    from assms(2) w Some obtain s2 where s2: "settle_child_after_exception cfg e s1 = Some s2"
      and s': "s' = release_guards (snd (ex_finish_aborted e g SAFE_STOP kErrorUnexpectedChildResult ?m s2))"
      by (auto simp: ex_execute_def finish_worker_exception_def)
    from ok Some have o1: "open_from e ?s0 s1" by (simp add: worker_ok_def ended_def)
    from settle_child_after_exception_Some [OF s2, of ?s0] o1
    have o2: "open_from e ?s0 s2" and d2: "dispatched s2 = dispatched s1" by simp_all
    obtain r3 s3 where fin: "ex_finish_aborted e g SAFE_STOP kErrorUnexpectedChildResult ?m s2 = (r3, s3)"
      by fastforce
    note fe = finish_ended [OF o2 f]
    have d3: "dispatched s3 = dispatched s1" using fe(4) fin d2 by (metis snd_conv)
    have log: "dispatch_log cfg g ?s0 s3"
      using ok by (simp add: worker_ok_def dispatch_log_cong [OF refl d3])
    have "ended e ?s0 P (r3, s3)" if "\<And>tr. aborted_with SAFE_STOP kErrorUnexpectedChildResult tr \<Longrightarrow> P tr" for P
      unfolding fin [symmetric] by (rule fe(1)) (rule that)
    from this [OF justified_safe_stop] have "worker_ok cfg e g ?s0 (r3, s3)"
      using log by (simp add: worker_ok_def)
    moreover have "r3 = None \<or> \<not> transitions_ok e"
    proof -
      have "open_from e ?s0 (ex_publish_diagnostics e (ex_update_diag
          (td_record_failure ''SAFE_STOP'' kErrorUnexpectedChildResult) s2))"
        using o2 by simp
      from finish_terminal_ended [OF this f fin [unfolded ex_finish_aborted_def Let_def, simplified]]
      show ?thesis by auto
    qed
    ultimately show ?thesis using s' fin by auto
  qed
qed

section \<open>Termination\<close>

text \<open>The steady clock passes every instant for good.\<close>

definition clock_passes :: "exec_env \<Rightarrow> bool" where
  "clock_passes e \<longleftrightarrow> (\<forall>d. \<exists>T. \<forall>t \<ge> T. d \<le> xe_now e t)"

lemma dispatch_wait_returns:
  "d \<le> xe_now e (ex_tick s + n) \<Longrightarrow> \<exists>x. dispatch_wait e d p s = Some x"
proof (induction n arbitrary: s p)
  case 0
  then show ?case by (subst dispatch_wait.simps) (simp add: Let_def)
next
  case (Suc n)
  have "\<exists>x. dispatch_wait e d (next_poll p) (ex_observe e s) = Some x"
    by (rule Suc.IH) (use Suc.prems in simp)
  then show ?case by (subst dispatch_wait.simps) (simp add: Let_def)
qed

text \<open>A recorded cancel request is never forgotten, nor its time.\<close>

definition requested_since :: "int \<Rightarrow> executor \<Rightarrow> bool" where
  "requested_since a s \<longleftrightarrow>
     cs_cancel_requested (ex_child s) \<and> cs_cancel_requested_at (ex_child s) = a"

lemma requested_since_observe: "requested_since a s \<Longrightarrow> requested_since a (ex_observe e s)"
  using ex_observe_requested [of s e] by (simp add: requested_since_def)

lemma requested_since_cancel: "requested_since a s \<Longrightarrow> requested_since a (cancel_child_once e s)"
  using cancel_child_once_requests [of e s] cancel_child_once_requested [of s e]
  by (simp add: requested_since_def)

lemma requested_since_record:
  "requested_since a s \<Longrightarrow> requested_since a (record_cancel_timeout cfg e now s)"
  using requested_since_observe [of a s e]
  by (simp add: requested_since_def record_cancel_timeout_effect)

lemma requested_since_mid: "requested_since a s \<Longrightarrow> requested_since a (drain_mid cfg e cause s)"
  by (simp add: drain_mid_def Let_def requested_since_cancel requested_since_observe
      requested_since_record)

lemma requested_since_feedback:
  "ex_publish_feedback e st p s = (r, s') \<Longrightarrow> requested_since a s \<Longrightarrow> requested_since a s'"
  using ex_publish_feedback_effect [of e st p s r s'] requested_since_observe [of a s e]
  by (simp add: requested_since_def)

lemma requested_since_intro: "\<exists>a. requested_since a (cancel_child_once e s)"
  by (simp add: requested_since_def cancel_child_once_requests)

lemma child_drain_requested_returns:
  assumes "\<And>t. T \<le> t \<Longrightarrow> a + drain_budget cfg \<le> xe_now e t"
  shows "requested_since a s \<Longrightarrow> \<exists>x. child_drain cfg e d cause s = Some x"
proof (induction "T - ex_tick s" arbitrary: s cause rule: less_induct)
  case less
  let ?now = "xe_now e (ex_tick s)" and ?s1 = "ex_observe e s"
  let ?s2 = "ex_observe e (record_cancel_timeout cfg e ?now ?s1)"
  let ?s3 = "drain_mid cfg e cause s"
  let ?s4 = "ex_observe e ?s3"
  note mid = drain_mid_effect(2) [of s cfg e cause]
  have r2: "requested_since a ?s2" and r4: "requested_since a ?s4"
    using less.prems by (simp_all add: requested_since_observe requested_since_record requested_since_mid)
  show ?case
  proof (cases "T \<le> ex_tick s")
    case True
    then have "a + drain_budget cfg \<le> ?now" by (rule assms)
    with r2 have "cancel_drain_expired cfg ?now (ex_child ?s2)"
      by (simp add: cancel_drain_expired_def requested_since_def)
    then show ?thesis by (subst child_drain_unfold) (simp add: Let_def)
  next
    case False
    obtain r s5 where f: "ex_publish_feedback e TASK_RECOVERING 60 ?s4 = (r, s5)" by fastforce
    note f' = ex_publish_feedback_effect [OF f]
    have "\<exists>x. child_drain cfg e d cause ?s4 = Some x"
      by (rule less.hyps) (use False mid r4 in simp_all)
    moreover have "\<exists>x. child_drain cfg e d c (cancel_child_once e s5) = Some x" for c
    proof (rule less.hyps)
      show "T - ex_tick (cancel_child_once e s5) < T - ex_tick s"
        using False mid f' cancel_child_once_tick [of s5 e] by simp
      show "requested_since a (cancel_child_once e s5)"
        using requested_since_feedback [OF f r4] by (rule requested_since_cancel)
    qed
    ultimately show ?thesis
      by (subst child_drain_unfold) (auto simp: Let_def f split: option.split)
  qed
qed

lemma child_drain_returns:
  assumes "clock_passes e"
  shows "\<exists>x. child_drain cfg e d cause s = Some x"
proof -
  have requested: "\<exists>x. child_drain cfg e d c s' = Some x" if req: "\<exists>a. requested_since a s'" for c s'
  proof -
    from req obtain a where a: "requested_since a s'" ..
    from assms obtain T where "\<And>t. T \<le> t \<Longrightarrow> a + drain_budget cfg \<le> xe_now e t"
      unfolding clock_passes_def by blast
    from child_drain_requested_returns [OF this a] show ?thesis .
  qed
  from assms obtain T where T: "\<And>t. T \<le> t \<Longrightarrow> d \<le> xe_now e t"
    unfolding clock_passes_def by blast
  show ?thesis
  proof (induction "T - ex_tick s" arbitrary: s cause rule: less_induct)
    case less
    let ?now = "xe_now e (ex_tick s)"
    let ?s3 = "drain_mid cfg e cause s"
    let ?s4 = "ex_observe e ?s3"
    note mid = drain_mid_effect(2) [of s cfg e cause]
    obtain r s5 where f: "ex_publish_feedback e TASK_RECOVERING 60 ?s4 = (r, s5)" by fastforce
    have "\<exists>x. child_drain cfg e d c (cancel_child_once e s5) = Some x" for c
      by (rule requested) (rule requested_since_intro)
    moreover have "\<exists>x. child_drain cfg e d cause ?s4 = Some x"
      if "drain_interrupt e (ex_tick ?s3) ?now d cause = None"
    proof (cases "cause = kNone")
      case True
      with that have "\<not> d \<le> ?now" by (auto simp: drain_interrupt_def split: if_splits)
      then have "\<not> T \<le> ex_tick s" using T by blast
      then show ?thesis by (intro less.hyps) (use mid in simp)
    next
      case False
      then obtain a where "requested_since a ?s3"
        unfolding drain_mid_def Let_def using requested_since_intro by (metis (full_types))
      then have "requested_since a ?s4" by (rule requested_since_observe)
      then show ?thesis by (intro requested) blast
    qed
    ultimately show ?case
      by (subst child_drain_unfold) (auto simp: Let_def f split: option.split)
  qed
qed

lemma settle_loop_returns:
  assumes "\<And>t. T \<le> t \<Longrightarrow> d \<le> xe_now e t"
  shows "\<exists>x. settle_loop e d s = Some x"
proof (induction "T - ex_tick s" arbitrary: s rule: less_induct)
  case less
  let ?s1 = "cancel_child_once e s"
  note tick = cancel_child_once_tick [of s e]
  show ?case
  proof (cases "T \<le> ex_tick ?s1")
    case True
    then have "d \<le> xe_now e (ex_tick ?s1)" by (rule assms)
    then show ?thesis by (subst settle_loop.simps) (simp add: Let_def)
  next
    case False
    have "\<exists>x. settle_loop e d (ex_observe e ?s1) = Some x"
      by (rule less.hyps) (use False tick in simp)
    then show ?thesis by (subst settle_loop.simps) (simp add: Let_def)
  qed
qed

lemma settle_child_after_exception_returns:
  assumes "clock_passes e"
  shows "\<exists>x. settle_child_after_exception cfg e s = Some x"
proof -
  have "\<exists>x. settle_loop e d s' = Some x" for d s'
    using assms settle_loop_returns unfolding clock_passes_def by metis
  then show ?thesis by (simp add: settle_child_after_exception_def Let_def)
qed

lemma execute_worker_returns:
  assumes "clock_passes e"
  shows "\<exists>x. execute_worker cfg e g s = Some x"
proof -
  have drain: "\<exists>ex s2. child_drain cfg e d c s' = Some (ex, s2)" for d c s'
    using child_drain_returns [OF assms, of cfg d c s'] by auto
  have accepted: "\<exists>x. run_accepted_child cfg e g d c s' = Some x" for d c s'
  proof (cases "xe_hook e (ex_tick s') kAfterChildAccepted")
    case None
    obtain r s2 where f: "(if c \<noteq> kNone then ex_publish_feedback e TASK_RECOVERING 60 (ex_observe e s')
      else ex_publish_feedback e TASK_WAITING_ACK 50 (ex_observe e s')) = (r, s2)" by fastforce
    obtain ex s3 where dr: "child_drain cfg e d c (if c \<noteq> kNone then cancel_child_once e s2 else s2)
      = Some (ex, s3)" using drain by blast
    show ?thesis
      unfolding run_accepted_child_def ex_run_hook_def None prod.case option.case f
      using dr by (cases r; cases ex) simp_all
  qed (simp add: run_accepted_child_def ex_run_hook_def)
  have await: "\<exists>x. await_child cfg e g d c s' = Some x" for d c s'
  proof -
    obtain r s2 where f: "ex_publish_feedback e TASK_RECOVERING 60 (ex_observe e s') = (r, s2)"
      by fastforce
    show ?thesis
      unfolding await_child_def Let_def f prod.case using accepted by (cases r) simp_all
  qed
  have wait: "\<exists>c s2. dispatch_wait e d p s' = Some (c, s2)" for d p s'
  proof -
    from assms obtain T where "\<And>t. T \<le> t \<Longrightarrow> d \<le> xe_now e t" unfolding clock_passes_def by blast
    then have "d \<le> xe_now e (ex_tick s' + T)" by simp
    from dispatch_wait_returns [OF this] show ?thesis by auto
  qed
  let ?d = "xe_now e (ex_tick s) + to_steady_duration (tg_allowed_duration g)"
  obtain f2 s2 where v: "validation_steps e g ?d [1, 2, 3, 4, 5]
      (ex_emit_stage cfg g ''action_execute_start'' ''{}'' (ex_observe e s)) = (f2, s2)" by fastforce
  obtain f3 s3 where dc: "dispatch_command cfg e g ?d s2 = (f3, s3)" by fastforce
  obtain c s4 where w: "dispatch_wait e ?d 5 s3 = Some (c, s4)" using wait by blast
  show ?thesis
    unfolding execute_worker_def Let_def v prod.case dc
    using await w by (cases f2; cases f3) simp_all
qed

section \<open>A task from acceptance to its end\<close>

definition accepted_state :: "exec_config \<Rightarrow> exec_env \<Rightarrow> task_goal \<Rightarrow> executor \<Rightarrow> executor" where
  "accepted_state cfg e g s =
     ex_update_diag (td_begin_task (tg_task_id g))
       (ex_emit_stage cfg g ''action_receive'' ''{}''
         ((ex_observe e s)\<lparr>ex_started_at := xe_now e (ex_tick s), ex_parent_terminal := False,
            ex_terminal_event_published := False, ex_goal_open := True,
            ex_workers_active := Suc (ex_workers_active (ex_observe e s))\<rparr>))"

lemma accepted_state_simps:
  "ex_tick (accepted_state cfg e g s) = Suc (ex_tick s)"
  "ex_results (accepted_state cfg e g s) = ex_results s"
  "ex_events (accepted_state cfg e g s) = ex_events s"
  "ex_goal_id (accepted_state cfg e g s) = ex_goal_id s"
  "ex_workers_active (accepted_state cfg e g s) = Suc (ex_workers_active s)"
  "ex_device_goals (accepted_state cfg e g s) = ex_device_goals s"
  "ex_next_command_id (accepted_state cfg e g s) = ex_next_command_id s"
  "ex_child_cancels (accepted_state cfg e g s) = ex_child_cancels (ex_observe e s)"
  "fresh (accepted_state cfg e g s)"
proof -
  have d: "dispatched (ex_observe e s) = dispatched s" by simp
  show "ex_device_goals (accepted_state cfg e g s) = ex_device_goals s"
    "ex_next_command_id (accepted_state cfg e g s) = ex_next_command_id s"
    using d by (simp_all add: accepted_state_def ex_update_diag_def ex_emit_stage_def dispatched_def)
qed (simp_all add: accepted_state_def ex_update_diag_def ex_emit_stage_def ex_observe_ctl fresh_def)

lemma executor_handle_accepted_eq:
  "executor_handle_accepted cfg e g s = ex_execute cfg e g (accepted_state cfg e g s)"
  by (simp add: executor_handle_accepted_def accepted_state_def Let_def)

text \<open>The summary of a run that every property below unfolds.\<close>

definition task_deadline :: "exec_env \<Rightarrow> task_goal \<Rightarrow> executor \<Rightarrow> int" where
  "task_deadline e g s = xe_now e (Suc (ex_tick s)) + to_steady_duration (tg_allowed_duration g)"

lemma executor_run_summary:
  assumes "executor_handle_accepted cfg e g s = Some s'"
  shows "(\<exists>x sx. worker_ok cfg e g ((accepted_state cfg e g s)\<lparr>ex_child := child_init\<rparr>) (x, sx) \<and>
      s' = release_guards sx \<and> (x = None \<or> \<not> transitions_ok e))"
  using ex_execute_ok [OF accepted_state_simps(9) assms [unfolded executor_handle_accepted_eq]] .

lemma release_guards_simps [simp]:
  "ex_results (release_guards s) = ex_results s" "ex_events (release_guards s) = ex_events s"
  "ex_device_goals (release_guards s) = ex_device_goals s"
  "ex_child_cancels (release_guards s) = ex_child_cancels s"
  "ex_workers_active (release_guards s) = ex_workers_active s - 1"
  by (simp_all add: release_guards_def)

section \<open>A sample task\<close>

definition sample_exec_config :: exec_config where
  "sample_exec_config =
     \<lparr>ec_targets = [''dock_a'', ''home''], ec_target_arguments = [(''dock_a'', 42), (''home'', 0)],
      ec_device_opcode = 1, ec_ack_timeout_ms = 500, ec_cancel_timeout_ms = 1000,
      ec_validation_delay_ms = 0, ec_diagnostic_period_ms = 1000, ec_event_history_depth = 128,
      ec_stage_log_enabled = False\<rparr>"

definition sample_task :: task_goal where
  "sample_task =
     \<lparr>tg_task_id = ''t1'', tg_target_id = ''dock_a'', tg_request_id = [], tg_workflow_id = [],
      tg_allowed_duration = \<lparr>dur_sec = 5, dur_nanosec = 0\<rparr>\<rparr>"

text \<open>A clock that ticks every 10 ms, a bridge that accepts and completes.\<close>

definition sample_exec_env :: exec_env where
  "sample_exec_env =
     \<lparr>xe_running = (\<lambda>_. True), xe_ok = (\<lambda>_. True), xe_canceling = (\<lambda>_. False),
      xe_now = (\<lambda>t. int t * 10000000), xe_bridge_ready = (\<lambda>_. True),
      xe_child = (\<lambda>t. if t = 20 then [ChildResponse True 200000000]
                      else if t = 30 then [ChildResult \<lparr>wr_code = RC_SUCCEEDED,
                             wr_result = Some \<lparr>res_outcome = COMPLETED, res_error_code = 0,
                                               res_message = ''ok''\<rparr>\<rparr>] else []),
      xe_hook = (\<lambda>_ _. None), xe_send_goal = (\<lambda>_. None), xe_cancel_goal = (\<lambda>_. None),
      xe_transition = (\<lambda>_. None), xe_event_throws = (\<lambda>_. False), xe_stamp = (\<lambda>_. (0, 0))\<rparr>"

lemma sample_clock: "clock_passes sample_exec_env"
proof -
  have "d \<le> int t * 10000000" if "nat d \<le> t" for d :: int and t using that by linarith
  then show ?thesis unfolding clock_passes_def sample_exec_env_def by auto
qed

lemma sample_transitions: "transitions_ok sample_exec_env"
  by (simp add: transitions_ok_def sample_exec_env_def)

lemma sample_config: "executor_configure [''dock_a'', ''home''] [42, 0] 1 500 1000 0 128 1000 False =
    Inr sample_exec_config"
  by (simp add: executor_configure_def target_validator_new_def has_non_whitespace_def isspace_def
      clamp_int_def sample_exec_config_def Let_def)

lemma sample_run:
  "\<exists>s'. executor_handle_accepted sample_exec_config sample_exec_env sample_task (executor_init 1) = Some s'"
proof -
  obtain r s1 where "execute_worker sample_exec_config sample_exec_env sample_task
      ((accepted_state sample_exec_config sample_exec_env sample_task (executor_init 1))
        \<lparr>ex_child := child_init\<rparr>) = Some (r, s1)"
    using execute_worker_returns [OF sample_clock] by (metis surj_pair)
  then show ?thesis
    using settle_child_after_exception_returns [OF sample_clock, of sample_exec_config s1]
    by (cases r) (auto simp: executor_handle_accepted_eq ex_execute_def finish_worker_exception_def)
qed

text \<open>The model runs: the sample task sends one command and completes.\<close>

lemma sample_run_completes:
  "map_option (\<lambda>s. (ex_results s, ex_device_goals s))
     (executor_handle_accepted sample_exec_config sample_exec_env sample_task (executor_init 1)) =
   Some ([GSucceeded \<lparr>res_outcome = COMPLETED, res_error_code = 0,
            res_message = ''task completed through Device Bridge''\<rparr>],
         [\<lparr>dg_command_id = 1, dg_opcode = 1, dg_argument = 42,
           dg_ack_timeout = \<lparr>dur_sec = 0, dur_nanosec = 500000000\<rparr>, dg_trace_id = ''t1''\<rparr>])"
  by code_simp



text \<open>C10. No task hangs. When the steady clock passes every instant and the action
  server's transitions do not throw, every accepted task ends, whatever the child action does
  or fails to do (a goal response or result that never comes, cancels that fail), with exactly
  one terminal result; the executor is then free for the next goal and its worker count is back.
\<close>

theorem executor_ends_every_task:
  assumes "clock_passes e" and "transitions_ok e"
  shows "\<exists>s' tr. executor_handle_accepted cfg e g s = Some s' \<and>
    ex_results s' = ex_results s @ [tr] \<and> \<not> ex_active_goal s' \<and>
    ex_workers_active s' = ex_workers_active s"
proof -
  obtain r s1 where w: "execute_worker cfg e g ((accepted_state cfg e g s)\<lparr>ex_child := child_init\<rparr>)
      = Some (r, s1)"
    using execute_worker_returns [OF assms(1)] by (metis surj_pair)
  obtain s' where s': "executor_handle_accepted cfg e g s = Some s'"
    using w settle_child_after_exception_returns [OF assms(1), of cfg s1]
    by (cases r) (auto simp: executor_handle_accepted_eq ex_execute_def finish_worker_exception_def)
  from executor_run_summary [OF this] assms(2) obtain sx where
    "worker_ok cfg e g ((accepted_state cfg e g s)\<lparr>ex_child := child_init\<rparr>) (None, sx)"
    "s' = release_guards sx" by auto
  with s' show ?thesis
    by (auto simp: worker_ok_def ended_def closed_with_def accepted_state_simps release_guards_def)
qed

theorem executor_ends_every_task_witness:
  "\<exists>s' tr. executor_handle_accepted sample_exec_config sample_exec_env sample_task (executor_init 1) = Some s' \<and>
     ex_results s' = [tr] \<and> \<not> ex_active_goal s' \<and> ex_workers_active s' = 0"
  using executor_ends_every_task [OF sample_clock sample_transitions,
    of sample_exec_config sample_task "executor_init 1"]
  by (simp add: executor_init_def)

text \<open>C14. The child action receives at most one cancel request per task: the worker's
  repeated attempts and the late cancel of the goal-response callback race for one claim, and
  only an attempt that threw gives it back. (The count starts after the callbacks that were
  pending when the task was accepted.)
\<close>

theorem executor_cancels_child_at_most_once:
  assumes "executor_handle_accepted cfg e g s = Some s'"
  shows "ex_child_cancels s' \<le> Suc (ex_child_cancels (ex_observe e s))"
proof -
  from executor_run_summary [OF assms] obtain x sx where
    ok: "worker_ok cfg e g ((accepted_state cfg e g s)\<lparr>ex_child := child_init\<rparr>) (x, sx)"
    and s': "s' = release_guards sx" by blast
  from ok have "child_inv e (Suc (ex_tick s)) (ex_child_cancels (ex_observe e s)) sx"
    by (auto simp: worker_ok_def ended_def closed_with_def open_from_def accepted_state_simps)
  with s' show ?thesis by (auto simp: child_inv_def split: if_splits)
qed

theorem executor_cancels_child_at_most_once_witness:
  "\<exists>s'. executor_handle_accepted sample_exec_config sample_exec_env sample_task (executor_init 1) = Some s' \<and>
     ex_child_cancels s' \<le> 1"
proof -
  from sample_run obtain s' where s': "executor_handle_accepted sample_exec_config sample_exec_env
      sample_task (executor_init 1) = Some s'" ..
  from executor_cancels_child_at_most_once [OF s'] s' show ?thesis
    by (auto simp: ex_observe_def sample_exec_env_def executor_init_def)
qed

section \<open>Command identifiers\<close>

definition next_command_slot :: "u16 \<Rightarrow> nat" where
  "next_command_slot next = (if next = 0 \<or> kMaxApplicationCommandId < next then 1 else unat next)"

lemma next_command_slot_range: "1 \<le> next_command_slot next \<and> next_command_slot next \<le> 0x7FFF"
proof -
  have "1 \<le> unat next" if "next \<noteq> 0" using that unat_gt_0 [of "next"] by simp
  then show ?thesis
    by (auto simp: next_command_slot_def kMaxApplicationCommandId_def word_less_nat_alt not_less)
qed

lemma next_command_slot_unat:
  "next_command_slot w = (if unat w = 0 \<or> 0x7FFF < unat w then 1 else unat w)"
  by (simp add: next_command_slot_def kMaxApplicationCommandId_def word_less_nat_alt unat_eq_zero)

lemma allocate_command_id_slot: "fst (allocate_command_id next) = of_nat (next_command_slot next)"
  by (simp add: allocate_command_id_def next_command_slot_def Let_def)

interpretation app_ids: id_allocator allocate_command_id next_command_slot "\<lambda>_. True" 1 "0x7FFF"
proof unfold_locales
  fix s :: u16
  show "1 \<le> next_command_slot s \<and> next_command_slot s \<le> 0x7FFF" by (rule next_command_slot_range)
  show "fst (allocate_command_id s) = of_nat (next_command_slot s)" by (rule allocate_command_id_slot)
  have "snd (allocate_command_id s) = of_nat (Suc (next_command_slot s))"
    by (simp add: allocate_command_id_def next_command_slot_def Let_def)
  moreover have "unat (of_nat (Suc (next_command_slot s)) :: u16) = Suc (next_command_slot s)"
    using next_command_slot_range [of s] by (simp add: unat_of_nat del: of_nat_Suc)
  ultimately have "unat (snd (allocate_command_id s)) = Suc (next_command_slot s)" by simp
  then show "next_command_slot (snd (allocate_command_id s)) =
      (if next_command_slot s = 0x7FFF then 1 else Suc (next_command_slot s))"
    using next_command_slot_range [of s]
    by (simp add: next_command_slot_unat [of "snd (allocate_command_id s)"])
qed simp_all

section \<open>The bridge accepts what the executor sends\<close>

lemma ack_duration_roundtrip:
  assumes "1 \<le> ms" and "ms \<le> 60000" and "ms \<le> max_ms"
  shows "duration_to_milliseconds (ack_duration ms) max_ms = Some ms"
proof -
  have s: "sint (dur_sec (ack_duration ms)) = ms div 1000"
    using assms by (simp add: ack_duration_def)
  have n: "uint (dur_nanosec (ack_duration ms)) = ms mod 1000 * 1000000"
    using pos_mod_bound [of 1000 ms] assms by (simp add: ack_duration_def del: of_int_mult)
  have t: "total_nanoseconds (ack_duration ms) = ms * 1000000"
    unfolding total_nanoseconds_def s n kNanosecondsPerSecond_def by presburger
  have r: "(ms * 1000000 + 1000000 - 1) div 1000000 = ms" by simp
  have b: "\<not> ms div 1000 < 0" "\<not> 1000000000 \<le> ms mod 1000 * 1000000"
    using assms pos_mod_bound [of 1000 ms] pos_imp_zdiv_nonneg_iff [of 1000 ms] by linarith+
  show ?thesis
    using assms b r
    by (simp add: duration_to_milliseconds_def t s n Let_def kNanosecondsPerMillisecond_def)
qed

lemma child_ack_timeout_range:
  "1 \<le> ec_ack_timeout_ms cfg \<Longrightarrow>
     1 \<le> child_ack_timeout_ms cfg ms \<and> child_ack_timeout_ms cfg ms \<le> ec_ack_timeout_ms cfg"
  by (simp add: child_ack_timeout_ms_def)

lemma executor_configure_ack:
  "executor_configure targets args opcode ack cancel delay depth period log = Inr cfg \<Longrightarrow>
     1 \<le> ec_ack_timeout_ms cfg \<and> ec_ack_timeout_ms cfg \<le> 60000"
  by (auto simp: executor_configure_def split: if_splits sum.splits)

lemma unat_ucast_u32 [simp]: "unat (ucast (x :: u16) :: u32) = unat x"
proof -
  have "unat x < 2 ^ 16" using unsigned_less [of x] by simp
  then have "unat x < 2 ^ 32" by simp
  then show ?thesis by (simp add: unsigned_ucast_eq take_bit_nat_eq_self)
qed

lemma sent_goal_fields:
  assumes "sent_goal cfg g next d"
  shows "dg_trace_id d = tg_task_id g" and "1 \<le> unat (dg_command_id d)"
    and "unat (dg_command_id d) \<le> unat kApplicationCommandIdMax"
    and "\<exists>ms. dg_ack_timeout d = ack_duration (child_ack_timeout_ms cfg ms)"
  using assms app_ids.alloc_range [of "next"]
  by (auto simp: sent_goal_def make_device_goal_def kApplicationCommandIdMax_def)

lemma sent_goal_accepted:
  assumes "sent_goal cfg g next d" and "1 \<le> ec_ack_timeout_ms cfg" and "ec_ack_timeout_ms cfg \<le> 60000"
    and "ec_ack_timeout_ms cfg \<le> bc_max_ack_timeout_ms bcfg" and "be_socket_open be"
    and "\<not> br_active_goal b"
  shows "bridge_handle_goal bcfg be d b = (ACCEPT_AND_EXECUTE, b\<lparr>br_active_goal := True\<rparr>)"
proof -
  note f = sent_goal_fields [OF assms(1)]
  from f(4) obtain ms where "dg_ack_timeout d = ack_duration (child_ack_timeout_ms cfg ms)" ..
  then have "duration_to_milliseconds (dg_ack_timeout d) (bc_max_ack_timeout_ms bcfg) =
      Some (child_ack_timeout_ms cfg ms)"
    using child_ack_timeout_range [OF assms(2), of ms] assms(3,4)
    by (simp add: ack_duration_roundtrip)
  moreover have "dg_command_id d \<noteq> 0" using f(2) by auto
  moreover have "\<not> 0xFFFF < dg_command_id d"
    using f(3) by (simp add: word_less_nat_alt kApplicationCommandIdMax_def)
  ultimately show ?thesis using assms(5,6) by (simp add: bridge_handle_goal_def)
qed

lemma executor_device_goals:
  assumes "executor_configure targets args opcode ack cancel delay depth period log = Inr cfg"
    and "executor_handle_accepted cfg e g s = Some s'"
    and "ec_ack_timeout_ms cfg \<le> bc_max_ack_timeout_ms bcfg"
  shows "ex_device_goals s' = ex_device_goals s \<or>
    (\<exists>d. ex_device_goals s' = ex_device_goals s @ [d] \<and> dg_trace_id d = tg_task_id g \<and>
       1 \<le> unat (dg_command_id d) \<and> unat (dg_command_id d) \<le> unat kApplicationCommandIdMax \<and>
       (\<forall>be b. be_socket_open be \<and> \<not> br_active_goal b \<longrightarrow>
          bridge_handle_goal bcfg be d b = (ACCEPT_AND_EXECUTE, b\<lparr>br_active_goal := True\<rparr>)))"
proof -
  from executor_run_summary [OF assms(2)] obtain x sx where
    ok: "worker_ok cfg e g ((accepted_state cfg e g s)\<lparr>ex_child := child_init\<rparr>) (x, sx)"
    and s': "s' = release_guards sx" by blast
  note ack = executor_configure_ack [OF assms(1)]
  from ok s' have "ex_device_goals s' = ex_device_goals s \<or>
      (\<exists>d. sent_goal cfg g (ex_next_command_id s) d \<and> ex_device_goals s' = ex_device_goals s @ [d])"
    by (simp add: worker_ok_def dispatch_log_def accepted_state_simps)
  then show ?thesis
    using sent_goal_accepted [of cfg g _ _ bcfg] sent_goal_fields ack assms(3) by blast
qed

text \<open>C13. A task sends at most one command to the bridge, and it is one that the
  bridge accepts: with a configured executor whose acknowledgement timeout is within the
  bridge's bound, the command's identifier lies in the application range, its timeout converts,
  its trace is the task's identifier, and a bridge that is idle with an open socket answers
  ACCEPT.
\<close>

theorem executor_command_accepted_by_bridge:
  assumes "executor_configure targets args opcode ack cancel delay depth period log = Inr cfg"
    and "executor_handle_accepted cfg e g s = Some s'"
    and "ec_ack_timeout_ms cfg \<le> bc_max_ack_timeout_ms bcfg"
  shows "ex_device_goals s' = ex_device_goals s \<or>
    (\<exists>d. ex_device_goals s' = ex_device_goals s @ [d] \<and> dg_trace_id d = tg_task_id g \<and>
       1 \<le> unat (dg_command_id d) \<and> unat (dg_command_id d) \<le> unat kApplicationCommandIdMax \<and>
       (\<forall>be b. be_socket_open be \<and> \<not> br_active_goal b \<longrightarrow>
          bridge_handle_goal bcfg be d b = (ACCEPT_AND_EXECUTE, b\<lparr>br_active_goal := True\<rparr>)))"
  using assms by (rule executor_device_goals)

theorem executor_command_accepted_by_bridge_witness:
  "\<exists>s'. executor_handle_accepted sample_exec_config sample_exec_env sample_task (executor_init 1) = Some s' \<and>
     (ex_device_goals s' = [] \<or>
      (\<exists>d. ex_device_goals s' = [d] \<and> dg_trace_id d = ''t1''))"
proof -
  from sample_run obtain s' where s': "executor_handle_accepted sample_exec_config sample_exec_env
      sample_task (executor_init 1) = Some s'" ..
  have "ec_ack_timeout_ms sample_exec_config \<le> bc_max_ack_timeout_ms
      \<lparr>bc_max_ack_timeout_ms = 5000, bc_receive_poll_ms = 20, bc_stop_timeout_ms = 500,
       bc_diagnostic_period_ms = 1000, bc_stage_log_enabled = False\<rparr>"
    by (simp add: sample_exec_config_def)
  from executor_command_accepted_by_bridge [OF sample_config s' this] s' show ?thesis
    by (auto simp: executor_init_def sample_task_def)
qed

end
