(* ===== verification/Request_Registry.thy ===== *)
theory Request_Registry
  imports Runtime_Prelude
begin

text \<open>
  \<open>runtime_gateway/request_registry.cpp\<close>: the bounded in-memory table of admitted requests.
  The \<open>unordered_map\<close> is an association list; nothing the code computes depends on its
  iteration order, because the invariant makes task identifiers unique in it.
\<close>

section \<open>Records and their fingerprint\<close>

record request_record =
  rq_request_id :: string
  rq_task_id :: string
  rq_target_id :: string
  rq_workflow_id :: string
  rq_timeout_ms :: u64
  rq_state :: string
  rq_outcome :: u8
  rq_error_code :: u16
  rq_message :: string

definition terminal_states :: "string list" where
  "terminal_states = [''COMPLETED'', ''CANCELED'', ''SAFE_STOP'', ''DEVICE_FAULT'', ''ABORTED'', ''REJECTED'']"

definition is_terminal :: "request_record \<Rightarrow> bool" where
  "is_terminal r \<longleftrightarrow> rq_state r \<in> set terminal_states"

definition length_prefixed :: "string \<Rightarrow> string" where
  "length_prefixed s = nat_to_string (length s) @ '':'' @ s"

definition fingerprint :: "request_record \<Rightarrow> string" where
  "fingerprint r = length_prefixed (rq_request_id r) @ length_prefixed (rq_task_id r) @
     length_prefixed (rq_target_id r) @ length_prefixed (rq_workflow_id r) @
     length_prefixed (nat_to_string (unat (rq_timeout_ms r)))"

text \<open>The identity the fingerprint stands for.\<close>

definition payload_of :: "request_record \<Rightarrow> string \<times> string \<times> string \<times> string \<times> u64" where
  "payload_of r = (rq_request_id r, rq_task_id r, rq_target_id r, rq_workflow_id r, rq_timeout_ms r)"

lemma takeWhile_digits: "takeWhile is_digit (nat_to_string n @ '':'' @ rest) = nat_to_string n"
proof -
  have "\<not> is_digit (CHR '':'')" by (simp add: is_digit_def)
  then show ?thesis
    using nat_to_string_digits [of n] by (simp add: takeWhile_append2)
qed

lemma length_prefixed_inject:
  "length_prefixed s @ r = length_prefixed t @ q \<longleftrightarrow> s = t \<and> r = q"
proof
  assume eq: "length_prefixed s @ r = length_prefixed t @ q"
  from arg_cong [OF eq, of "takeWhile is_digit"]
  have "nat_to_string (length s) = nat_to_string (length t)"
    using takeWhile_digits [of "length s" "s @ r"] takeWhile_digits [of "length t" "t @ q"]
    by (simp add: length_prefixed_def)
  then have "length s = length t" by simp
  with eq show "s = t \<and> r = q" by (simp add: length_prefixed_def)
qed simp

lemma fingerprint_inject: "fingerprint r = fingerprint q \<longleftrightarrow> payload_of r = payload_of q"
proof -
  have last: "length_prefixed s = length_prefixed t \<longleftrightarrow> s = t" for s t
    using length_prefixed_inject [of s "[]" t "[]"] by simp
  show ?thesis
    by (simp add: fingerprint_def payload_of_def length_prefixed_inject last word_unat_eq_iff)
qed

lemma fingerprint_nonempty [simp]: "fingerprint r \<noteq> []"
  by (simp add: fingerprint_def length_prefixed_def)

section \<open>Operations\<close>

datatype insert_result = INSERTED | DUPLICATE | CONFLICT | INVALID | CAPACITY

record registry =
  rg_capacity :: nat
  rg_order :: "string list"
  rg_records :: "(string \<times> request_record) list"

definition registry_new :: "nat \<Rightarrow> string + registry" where
  "registry_new capacity =
     (if capacity = 0 then Inl ''request registry capacity must be positive''
      else Inr \<lparr>rg_capacity = capacity, rg_order = [], rg_records = []\<rparr>)"

definition get_by_request_id :: "string \<Rightarrow> registry \<Rightarrow> request_record option" where
  "get_by_request_id rid g = map_of (rg_records g) rid"

definition get_by_task_id :: "string \<Rightarrow> registry \<Rightarrow> request_record option" where
  "get_by_task_id tid g = map_option snd (List.find (\<lambda>(k, r). rq_task_id r = tid) (rg_records g))"

definition evictable :: "registry \<Rightarrow> string option" where
  "evictable g = List.find (\<lambda>rid.
     (case map_of (rg_records g) rid of None \<Rightarrow> False | Some r \<Rightarrow> is_terminal r)) (rg_order g)"

definition evict :: "string \<Rightarrow> registry \<Rightarrow> registry" where
  "evict rid g = g\<lparr>rg_records := AList.delete rid (rg_records g),
     rg_order := remove1 rid (rg_order g)\<rparr>"

definition registry_add :: "request_record \<Rightarrow> registry \<Rightarrow> registry" where
  "registry_add r g = g\<lparr>rg_records := rg_records g @ [(rq_request_id r, r)],
     rg_order := rg_order g @ [rq_request_id r]\<rparr>"

definition registry_insert :: "request_record \<Rightarrow> registry \<Rightarrow> insert_result \<times> registry" where
  "registry_insert r g =
     (if rq_request_id r = [] \<or> rq_task_id r = [] \<or> rq_target_id r = [] then (INVALID, g)
      else case get_by_request_id (rq_request_id r) g of
        Some existing \<Rightarrow>
          (if fingerprint existing = fingerprint r then (DUPLICATE, g) else (CONFLICT, g))
      | None \<Rightarrow>
          if \<exists>(k, v) \<in> set (rg_records g). rq_task_id v = rq_task_id r then (CONFLICT, g)
          else if rg_capacity g \<le> length (rg_records g) then
            (case evictable g of
               None \<Rightarrow> (CAPACITY, g)
             | Some rid \<Rightarrow> (INSERTED, registry_add r (evict rid g)))
          else (INSERTED, registry_add r g))"

definition set_terminal :: "string \<Rightarrow> u8 \<Rightarrow> u16 \<Rightarrow> string \<Rightarrow> request_record \<Rightarrow> request_record" where
  "set_terminal state oc code message r =
     r\<lparr>rq_state := state, rq_outcome := oc, rq_error_code := code, rq_message := message\<rparr>"

definition update_terminal ::
  "string \<Rightarrow> string \<Rightarrow> u8 \<Rightarrow> u16 \<Rightarrow> string \<Rightarrow> registry \<Rightarrow> bool \<times> registry" where
  "update_terminal rid state oc code message g =
     (case get_by_request_id rid g of
        None \<Rightarrow> (False, g)
      | Some r \<Rightarrow> (True, g\<lparr>rg_records :=
          map (\<lambda>(k, v). (k, if k = rid then set_terminal state oc code message v else v))
            (rg_records g)\<rparr>))"

definition registry_erase :: "string \<Rightarrow> registry \<Rightarrow> bool \<times> registry" where
  "registry_erase rid g =
     (case get_by_request_id rid g of
        None \<Rightarrow> (False, g)
      | Some r \<Rightarrow> (True, g\<lparr>rg_records := AList.delete rid (rg_records g),
                          rg_order := removeAll rid (rg_order g)\<rparr>))"

definition registry_clear :: "registry \<Rightarrow> registry" where
  "registry_clear g = g\<lparr>rg_records := [], rg_order := []\<rparr>"

definition registry_size :: "registry \<Rightarrow> nat" where
  "registry_size g = length (rg_records g)"

section \<open>The invariant\<close>

text \<open>
  The order deque lists exactly the keys, once each; a record is stored under its own
  identifier; no two records share a task; the table respects the capacity.
\<close>

definition registry_inv :: "registry \<Rightarrow> bool" where
  "registry_inv g \<longleftrightarrow> 0 < rg_capacity g \<and> length (rg_records g) \<le> rg_capacity g \<and>
     rg_order g = map fst (rg_records g) \<and> distinct (rg_order g) \<and>
     (\<forall>(k, r) \<in> set (rg_records g). k = rq_request_id r \<and> k \<noteq> []) \<and>
     distinct (map (rq_task_id \<circ> snd) (rg_records g))"

lemma registry_inv_new: "registry_new capacity = Inr g \<Longrightarrow> registry_inv g"
  by (auto simp: registry_new_def registry_inv_def split: if_splits)

lemma delete_eq_filter: "AList.delete k al = filter (\<lambda>p. fst p \<noteq> k) al"
  by (induction al) auto

lemma remove1_eq_filter: "distinct xs \<Longrightarrow> remove1 k xs = filter (\<lambda>x. x \<noteq> k) xs"
proof (induction xs)
  case (Cons x xs)
  have "x = k \<Longrightarrow> filter (\<lambda>y. y \<noteq> k) xs = xs"
    using Cons.prems by (auto simp: filter_id_conv)
  with Cons show ?case by auto
qed simp

lemma removeAll_eq_filter: "removeAll k xs = filter (\<lambda>x. x \<noteq> k) xs"
  by (induction xs) auto

lemma length_delete_less: "k \<in> fst ` set al \<Longrightarrow> length (AList.delete k al) < length al"
  by (auto simp: delete_eq_filter intro: length_filter_less)

text \<open>Dropping one key from the table and from the order keeps the invariant.\<close>

lemma registry_filter_inv:
  assumes "registry_inv g" and "rg_capacity g' = rg_capacity g"
    and "rg_records g' = filter (\<lambda>p. fst p \<noteq> rid) (rg_records g)"
    and "rg_order g' = filter (\<lambda>x. x \<noteq> rid) (rg_order g)"
  shows "registry_inv g'"
proof -
  have "length (filter (\<lambda>p. fst p \<noteq> rid) (rg_records g)) \<le> rg_capacity g"
    using length_filter_le assms(1) unfolding registry_inv_def by (meson order_trans)
  with assms show ?thesis
    by (auto simp: registry_inv_def filter_map comp_def distinct_map_filter)
qed

lemma evict_inv:
  assumes "registry_inv g"
  shows "registry_inv (evict rid g)"
proof (rule registry_filter_inv [OF assms])
  have "distinct (rg_order g)" using assms by (auto simp: registry_inv_def)
  then show "rg_order (evict rid g) = filter (\<lambda>x. x \<noteq> rid) (rg_order g)"
    by (simp add: evict_def remove1_eq_filter)
qed (simp_all add: evict_def delete_eq_filter)

lemma evictable_mem:
  "evictable g = Some rid \<Longrightarrow> rid \<in> fst ` set (rg_records g) \<and>
     (\<exists>r. get_by_request_id rid g = Some r \<and> is_terminal r)"
  by (auto simp: evictable_def get_by_request_id_def dest!: find_Some_split split: option.splits
      intro: map_of_fst_mem)

lemma registry_add_inv:
  assumes "registry_inv g" and "length (rg_records g) < rg_capacity g"
    and "rq_request_id r \<noteq> []" and "get_by_request_id (rq_request_id r) g = None"
    and "\<forall>(k, v) \<in> set (rg_records g). rq_task_id v \<noteq> rq_task_id r"
  shows "registry_inv (registry_add r g)"
  using assms
  by (auto simp: registry_inv_def registry_add_def get_by_request_id_def map_of_None_fst)

lemma registry_insert_inv [laws]:
  assumes "registry_inv g"
  shows "registry_inv (snd (registry_insert r g))"
proof -
  have "registry_inv (registry_add r (evict rid g))"
    if "evictable g = Some rid" "rq_request_id r \<noteq> []"
      "get_by_request_id (rq_request_id r) g = None"
      "\<not> (\<exists>(k, v) \<in> set (rg_records g). rq_task_id v = rq_task_id r)" for rid
  proof (rule registry_add_inv [OF evict_inv [OF assms]])
    have "length (rg_records (evict rid g)) < length (rg_records g)"
      using evictable_mem [OF that(1)] by (simp add: evict_def length_delete_less)
    then show "length (rg_records (evict rid g)) < rg_capacity (evict rid g)"
      using assms by (simp add: registry_inv_def evict_def)
    show "get_by_request_id (rq_request_id r) (evict rid g) = None"
      using that(3) by (auto simp: get_by_request_id_def evict_def delete_eq_filter map_of_None_fst)
    show "\<forall>(k, v) \<in> set (rg_records (evict rid g)). rq_task_id v \<noteq> rq_task_id r"
      using that(4) by (auto simp: evict_def delete_eq_filter)
  qed (use that in auto)
  moreover have "registry_inv (registry_add r g)"
    if "\<not> rg_capacity g \<le> length (rg_records g)" "rq_request_id r \<noteq> []"
      "get_by_request_id (rq_request_id r) g = None"
      "\<not> (\<exists>(k, v) \<in> set (rg_records g). rq_task_id v = rq_task_id r)"
    by (rule registry_add_inv [OF assms]) (use that in auto)
  ultimately show ?thesis
    using assms by (simp add: registry_insert_def split: option.split)
qed

lemma set_terminal_ids [simp]:
  "rq_request_id (set_terminal st oc c m r) = rq_request_id r"
  "rq_task_id (set_terminal st oc c m r) = rq_task_id r"
  "payload_of (set_terminal st oc c m r) = payload_of r"
  by (simp_all add: set_terminal_def payload_of_def)

lemma update_terminal_inv [laws]:
  assumes "registry_inv g"
  shows "registry_inv (snd (update_terminal rid st oc c m g))"
proof -
  let ?f = "\<lambda>(k, v). (k, if k = rid then set_terminal st oc c m v else v)"
  have "map fst (map ?f al) = map fst al"
    "map (rq_task_id \<circ> snd) (map ?f al) = map (rq_task_id \<circ> snd) al" for al
    by (induction al) auto
  then show ?thesis
    using assms by (fastforce simp: update_terminal_def registry_inv_def simp del: map_map
        split: option.split)
qed

lemma registry_erase_inv [laws]: "registry_inv g \<Longrightarrow> registry_inv (snd (registry_erase rid g))"
  by (cases "get_by_request_id rid g")
    (auto simp: registry_erase_def delete_eq_filter removeAll_eq_filter
      intro: registry_filter_inv [where rid = rid])

lemma registry_clear_inv [laws]: "registry_inv g \<Longrightarrow> registry_inv (registry_clear g)"
  by (simp add: registry_inv_def registry_clear_def)

section \<open>Lookups after updates\<close>

lemma map_of_delete_key: "map_of (AList.delete k al) x = (if x = k then None else map_of al x)"
  by (simp add: delete_conv')

lemma get_update_terminal [ops]:
  "get_by_request_id k (snd (update_terminal rid st oc c m g)) =
     (if k = rid then map_option (set_terminal st oc c m) (get_by_request_id rid g)
      else get_by_request_id k g)"
proof -
  have "map_of (map (\<lambda>(k, v). (k, if k = rid then set_terminal st oc c m v else v)) al) k =
    (if k = rid then map_option (set_terminal st oc c m) (map_of al k) else map_of al k)" for al
    by (induction al) auto
  then show ?thesis
    by (auto simp: update_terminal_def get_by_request_id_def split: option.split)
qed

lemma get_erase [ops]:
  "get_by_request_id k (snd (registry_erase rid g)) = (if k = rid then None else get_by_request_id k g)"
  by (auto simp: registry_erase_def get_by_request_id_def map_of_delete_key split: option.split)

lemma get_registry_add:
  "get_by_request_id k (registry_add r g) =
     (case get_by_request_id k g of Some v \<Rightarrow> Some v
      | None \<Rightarrow> if rq_request_id r = k then Some r else None)"
  unfolding get_by_request_id_def registry_add_def by (simp add: map_of_snoc del: map_of_append)

lemma get_evict:
  "get_by_request_id k (evict rid g) = (if k = rid then None else get_by_request_id k g)"
  by (simp add: get_by_request_id_def evict_def map_of_delete_key)

lemma get_insert_self:
  "registry_insert r g = (INSERTED, g') \<Longrightarrow> get_by_request_id (rq_request_id r) g' = Some r"
  by (auto simp: registry_insert_def get_registry_add get_evict split: if_splits option.splits)

lemma get_insert_other:
  "registry_insert r g = (res, g') \<Longrightarrow> k \<noteq> rq_request_id r \<Longrightarrow>
     get_by_request_id k g' = get_by_request_id k g \<or>
     (get_by_request_id k g' = None \<and> (\<exists>v. get_by_request_id k g = Some v \<and> is_terminal v))"
  using evictable_mem
  by (fastforce simp: registry_insert_def get_registry_add get_evict split: if_splits option.splits)

lemma insert_known_key:
  "get_by_request_id (rq_request_id r) g = Some e \<Longrightarrow>
     registry_insert r g = (INVALID, g) \<or>
     registry_insert r g = (if payload_of e = payload_of r then DUPLICATE else CONFLICT, g)"
  by (simp add: registry_insert_def fingerprint_inject)

lemma insert_not_inserted: "registry_insert r g = (res, g') \<Longrightarrow> res \<noteq> INSERTED \<Longrightarrow> g' = g"
  by (auto simp: registry_insert_def split: if_splits option.splits)

lemma get_by_task_id_unique:
  assumes "registry_inv g" and "(k, r) \<in> set (rg_records g)"
  shows "get_by_task_id (rq_task_id r) g = Some r"
proof -
  have "List.find (\<lambda>(k, v). rq_task_id v = rq_task_id r) al = Some (k, r)"
    if "distinct (map (rq_task_id \<circ> snd) al)" "(k, r) \<in> set al" for al
    using that by (induction al) (force split: prod.splits)+
  then show ?thesis
    using assms by (simp add: registry_inv_def get_by_task_id_def)
qed

section \<open>Properties\<close>

definition example_request :: request_record where
  "example_request = \<lparr>rq_request_id = ''r1'', rq_task_id = ''t1'', rq_target_id = ''a'',
     rq_workflow_id = ''single_task'', rq_timeout_ms = 1000, rq_state = ''SUBMITTING'',
     rq_outcome = 0, rq_error_code = 0, rq_message = []\<rparr>"

text \<open>The fingerprint identifies the execution payload: two records have the same one exactly
  when request, task, target, workflow and timeout are all equal, whatever separators or digits
  the fields contain.\<close>

theorem fingerprint_identifies_payload:
  "fingerprint r = fingerprint q \<longleftrightarrow>
     rq_request_id r = rq_request_id q \<and> rq_task_id r = rq_task_id q \<and>
     rq_target_id r = rq_target_id q \<and> rq_workflow_id r = rq_workflow_id q \<and>
     rq_timeout_ms r = rq_timeout_ms q"
  using fingerprint_inject [of r q] by (simp add: payload_of_def)

text \<open>C32. The registry forgets only finished requests: inserting any record into it, full or not,
  keeps every unfinished record and the identities it was admitted under.\<close>

theorem registry_keeps_unfinished_requests:
  assumes "get_by_request_id k g = Some v" and "\<not> is_terminal v"
  shows "get_by_request_id k (snd (registry_insert r g)) = Some v"
proof (cases "k = rq_request_id r")
  case True
  with assms(1) insert_known_key [of r g v] show ?thesis by auto
next
  case False
  obtain res g' where ins: "registry_insert r g = (res, g')" by fastforce
  from get_insert_other [OF this False] assms ins show ?thesis by auto
qed

theorem registry_keeps_unfinished_requests_witness:
  "get_by_request_id ''r1'' (snd (registry_insert
     (example_request\<lparr>rq_request_id := ''r2'', rq_task_id := ''t2''\<rparr>)
     \<lparr>rg_capacity = 1, rg_order = [''r1''], rg_records = [(''r1'', example_request)]\<rparr>)) =
   Some example_request"
  by (rule registry_keeps_unfinished_requests)
    (simp_all add: get_by_request_id_def is_terminal_def terminal_states_def example_request_def)

datatype registry_op =
    OpInsert request_record | OpUpdate string string u8 u16 string | OpErase string | OpClear

fun registry_apply :: "registry_op \<Rightarrow> registry \<Rightarrow> registry" where
  "registry_apply (OpInsert r) g = snd (registry_insert r g)"
| "registry_apply (OpUpdate rid st oc c m) g = snd (update_terminal rid st oc c m g)"
| "registry_apply (OpErase rid) g = snd (registry_erase rid g)"
| "registry_apply OpClear g = registry_clear g"

lemma registry_apply_inv: "registry_inv g \<Longrightarrow> registry_inv (registry_apply opn g)"
  by (cases opn) (simp_all add: laws)

text \<open>Every operation preserves the registry's invariant: the order deque and the table hold
  the same keys, each record is stored under its own identifier, no task occurs twice, and the
  capacity is respected.\<close>

theorem registry_run_preserves_invariant:
  assumes "registry_new capacity = Inr g"
  shows "registry_inv (fold registry_apply ops_list g)"
proof -
  have "registry_inv h \<Longrightarrow> registry_inv (fold registry_apply ops_list h)" for h
    by (induction ops_list arbitrary: h) (simp_all add: registry_apply_inv)
  then show ?thesis using registry_inv_new [OF assms] by blast
qed

theorem registry_run_preserves_invariant_witness:
  "registry_inv (fold registry_apply [OpInsert example_request, OpErase ''r1'']
     \<lparr>rg_capacity = 1, rg_order = [], rg_records = []\<rparr>)"
  by (rule registry_run_preserves_invariant [of 1]) (simp add: registry_new_def)

end
