(* ===== verification/Durable_Ledger.thy ===== *)
theory Durable_Ledger
  imports History_Store Request_Registry
begin

text \<open>
  \<open>runtime_gateway/durable_idempotency.cpp\<close>: the ledger that decides, before every dispatch
  and across restarts, whether a request may reach the device. What it needs of the store is
  the locale \<open>ledger_contract\<close>, interpreted on the store's SQL operations.
\<close>

section \<open>Decisions\<close>

datatype idempotency_decision = PROCEED | REPLAY | LEDGER_CONFLICT | UNCERTAIN | UNAVAILABLE

record idempotency_outcome =
  io_decision :: idempotency_decision
  io_state :: string
  io_outcome :: u8
  io_error_code :: u16
  io_message :: string

text \<open>Which SQLite calls of one ledger operation fail.\<close>

record ledger_env =
  le_get :: "string option"
  le_put :: "sql_call \<Rightarrow> bool"
  le_prune :: "sql_call \<Rightarrow> bool"
  le_count :: "string option"

definition sound_ledger :: ledger_env where
  "sound_ledger = \<lparr>le_get = None, le_put = (\<lambda>_. False), le_prune = (\<lambda>_. False), le_count = None\<rparr>"

definition kRetryHorizonNs :: int where
  "kRetryHorizonNs = 24 * 60 * 60 * 1000 * 1000 * 1000"

definition horizon_start :: "int \<Rightarrow> int" where
  "horizon_start now = now - kRetryHorizonNs"

definition kAdmitted :: string where "kAdmitted = ''ADMITTED''"

definition reclaimable_states :: "string list" where
  "reclaimable_states =
     [''COMPLETED'', ''CANCELED'', ''SAFE_STOP'', ''DEVICE_FAULT'', ''ABORTED'', ''REJECTED'']"

definition is_terminal_state :: "string \<Rightarrow> bool" where
  "is_terminal_state s \<longleftrightarrow> s = ''COMPLETED'' \<or> s = ''CANCELED'' \<or> s = ''SAFE_STOP'' \<or>
     s = ''DEVICE_FAULT'' \<or> s = ''ABORTED'' \<or> s = ''REJECTED''"

definition is_uncertain_state :: "string \<Rightarrow> bool" where
  "is_uncertain_state s \<longleftrightarrow> \<not> is_terminal_state s"

lemma reclaimable_iff_terminal: "s \<in> set reclaimable_states \<longleftrightarrow> is_terminal_state s"
  by (auto simp: reclaimable_states_def is_terminal_state_def)

lemma registry_terminal_iff: "is_terminal r \<longleftrightarrow> is_terminal_state (rq_state r)"
  by (auto simp: is_terminal_def terminal_states_def is_terminal_state_def)

definition unavailable :: "u16 \<Rightarrow> string \<Rightarrow> idempotency_outcome" where
  "unavailable code message = \<lparr>io_decision = UNAVAILABLE, io_state = [], io_outcome = 0,
     io_error_code = code, io_message = message\<rparr>"

definition known_outcome :: "idempotency_decision \<Rightarrow> idempotency_record \<Rightarrow> idempotency_outcome" where
  "known_outcome d q = \<lparr>io_decision = d, io_state = ir_state q, io_outcome = ir_outcome q,
     io_error_code = ir_error_code q, io_message = ir_message q\<rparr>"

section \<open>Operations\<close>

definition durable_new :: "nat \<Rightarrow> string + nat" where
  "durable_new capacity =
     (if capacity = 0 then Inl ''durable idempotency capacity must be positive'' else Inr capacity)"

definition durable_claim ::
  "ledger_env \<Rightarrow> request_record \<Rightarrow> int \<Rightarrow> database \<Rightarrow> idempotency_outcome \<times> database" where
  "durable_claim e r now db =
     (let (ok, db') = store_put_idempotency (le_put e)
            \<lparr>ir_request_id = rq_request_id r, ir_fingerprint = fingerprint r,
             ir_state = kAdmitted, ir_outcome = 0, ir_error_code = 0,
             ir_message = ''admitted'', ir_updated_at_ns = now\<rparr> db
      in if ok then (\<lparr>io_decision = PROCEED, io_state = [], io_outcome = 0, io_error_code = 0,
                     io_message = []\<rparr>, db')
         else (unavailable 503 ''failed to persist idempotency admission'', db'))"

definition durable_admit ::
  "ledger_env \<Rightarrow> nat \<Rightarrow> request_record \<Rightarrow> int \<Rightarrow> database \<Rightarrow> idempotency_outcome \<times> database" where
  "durable_admit e capacity r now db =
     (case store_get_idempotency (le_get e) (rq_request_id r) db of
        Inl _ \<Rightarrow> (unavailable 503 ''durable idempotency ledger unavailable'', db)
      | Inr (Some q) \<Rightarrow>
          if ir_fingerprint q \<noteq> fingerprint r then
            (\<lparr>io_decision = LEDGER_CONFLICT, io_state = [], io_outcome = 0, io_error_code = 409,
              io_message = ''request_id conflicts with a durable request''\<rparr>, db)
          else if is_uncertain_state (ir_state q) then
            ((known_outcome UNCERTAIN q)\<lparr>io_message :=
               if ir_message q = [] then ''prior dispatch outcome unknown'' else ir_message q\<rparr>, db)
          else (known_outcome REPLAY q, db)
      | Inr None \<Rightarrow>
          (let (_, db1) = store_prune_idempotency (le_prune e) (horizon_start now) capacity
                            reclaimable_states db
           in case store_count_idempotency (le_count e) (horizon_start now) db1 of
                Inr n \<Rightarrow>
                  if capacity \<le> n
                  then (unavailable 429 ''durable idempotency ledger is at capacity'', db1)
                  else durable_claim e r now db1
              | Inl _ \<Rightarrow> durable_claim e r now db1))"

definition durable_complete ::
  "ledger_env \<Rightarrow> request_record \<Rightarrow> string \<Rightarrow> u8 \<Rightarrow> u16 \<Rightarrow> string \<Rightarrow> int \<Rightarrow> database \<Rightarrow> bool \<times> database"
where
  "durable_complete e r state oc code message now db =
     store_put_idempotency (le_put e)
       \<lparr>ir_request_id = rq_request_id r, ir_fingerprint = fingerprint r, ir_state = state,
        ir_outcome = oc, ir_error_code = code, ir_message = message, ir_updated_at_ns = now\<rparr> db"

text \<open>The two overloads: by the full record, and by the stored identity.\<close>

definition durable_resolve_record ::
  "ledger_env \<Rightarrow> request_record \<Rightarrow> string \<Rightarrow> u8 \<Rightarrow> u16 \<Rightarrow> string \<Rightarrow> int \<Rightarrow> database \<Rightarrow> bool \<times> database"
where
  "durable_resolve_record e r state oc code message now db =
     (if \<not> is_terminal_state state then (False, db)
      else case store_get_idempotency (le_get e) (rq_request_id r) db of
        Inr (Some q) \<Rightarrow>
          if is_uncertain_state (ir_state q) then durable_complete e r state oc code message now db
          else (False, db)
      | _ \<Rightarrow> (False, db))"

definition durable_resolve ::
  "ledger_env \<Rightarrow> string \<Rightarrow> string \<Rightarrow> string \<Rightarrow> u8 \<Rightarrow> string \<Rightarrow> int \<Rightarrow> database \<Rightarrow> bool \<times> database" where
  "durable_resolve e rid fp state oc message now db =
     (if \<not> is_terminal_state state then (False, db)
      else case store_get_idempotency (le_get e) rid db of
        Inr (Some q) \<Rightarrow>
          if is_uncertain_state (ir_state q) \<and> ir_fingerprint q = fp then
            store_put_idempotency (le_put e)
              \<lparr>ir_request_id = rid, ir_fingerprint = fp, ir_state = state, ir_outcome = oc,
               ir_error_code = 0, ir_message = message, ir_updated_at_ns = now\<rparr> db
          else (False, db)
      | _ \<Rightarrow> (False, db))"

definition durable_lookup ::
  "ledger_env \<Rightarrow> string \<Rightarrow> database \<Rightarrow> string + idempotency_outcome option" where
  "durable_lookup e rid db =
     (case store_get_idempotency (le_get e) rid db of
        Inl err \<Rightarrow> Inl err
      | Inr q \<Rightarrow> Inr (map_option (\<lambda>q.
          known_outcome (if is_uncertain_state (ir_state q) then UNCERTAIN else REPLAY) q) q))"

definition durable_prune :: "ledger_env \<Rightarrow> nat \<Rightarrow> int \<Rightarrow> database \<Rightarrow> nat \<times> database" where
  "durable_prune e capacity now db =
     store_prune_idempotency (le_prune e) (horizon_start now) capacity reclaimable_states db"

section \<open>What the ledger needs of the store\<close>

text \<open>
  \<open>ledger_step lo hi\<close>: one successful or failed write the ledger may issue at a time between
  \<open>lo\<close> and \<open>hi\<close>; only terminal rows older than the horizon may be dropped.
\<close>

inductive ledger_step ::
  "('f \<Rightarrow> idempotency_record \<Rightarrow> 'db \<Rightarrow> bool \<times> 'db) \<Rightarrow>
   ('f \<Rightarrow> int \<Rightarrow> nat \<Rightarrow> string list \<Rightarrow> 'db \<Rightarrow> nat \<times> 'db) \<Rightarrow> int \<Rightarrow> int \<Rightarrow> 'db \<Rightarrow> 'db \<Rightarrow> bool"
  for put prune lo hi where
  ledger_put: "lo \<le> ir_updated_at_ns q \<Longrightarrow> ir_updated_at_ns q \<le> hi \<Longrightarrow>
    ledger_step put prune lo hi db (snd (put f q db))"
| ledger_prune: "lo \<le> now \<Longrightarrow> now \<le> hi \<Longrightarrow>
    ledger_step put prune lo hi db (snd (prune f (horizon_start now) capacity reclaimable_states db))"

locale ledger_contract =
  fixes get :: "string \<Rightarrow> 'db \<Rightarrow> idempotency_record option"
    and put :: "'f \<Rightarrow> idempotency_record \<Rightarrow> 'db \<Rightarrow> bool \<times> 'db"
    and prune :: "'f \<Rightarrow> int \<Rightarrow> nat \<Rightarrow> string list \<Rightarrow> 'db \<Rightarrow> nat \<times> 'db"
    and inv :: "'db \<Rightarrow> bool"
  assumes put_inv: "inv db \<Longrightarrow> inv (snd (put f q db))"
    and prune_inv: "inv db \<Longrightarrow> inv (snd (prune f older keep states db))"
    and put_get: "put f q db = (True, db') \<Longrightarrow>
      get rid db' = (if rid = ir_request_id q then Some q else get rid db)"
    and put_rejected: "put f q db = (False, db') \<Longrightarrow> db' = db"
    and put_fingerprint: "put f q db = (True, db') \<Longrightarrow> get (ir_request_id q) db = Some p \<Longrightarrow>
      ir_fingerprint p = ir_fingerprint q"
    and prune_get: "inv db \<Longrightarrow> prune f older keep states db = (n, db') \<Longrightarrow>
      get rid db' = get rid db \<or>
      (get rid db' = None \<and> (\<exists>q. get rid db = Some q \<and>
         ir_updated_at_ns q < older \<and> ir_state q \<in> set states))"
begin

lemma step_inv: "ledger_step put prune lo hi db db' \<Longrightarrow> inv db \<Longrightarrow> inv db'"
  by (induction rule: ledger_step.induct) (auto intro: put_inv prune_inv)

lemma put_cases:
  "get rid (snd (put f q db)) = get rid db \<or>
   (rid = ir_request_id q \<and> get rid (snd (put f q db)) = Some q \<and>
    (\<forall>p. get rid db = Some p \<longrightarrow> ir_fingerprint p = ir_fingerprint q))"
proof (cases "put f q db")
  case (Pair ok db')
  then show ?thesis
    using put_get [of f q db db'] put_rejected [of f q db db'] put_fingerprint [of f q db db']
    by (cases ok) auto
qed

text \<open>
  A row written at or after \<open>lo\<close> survives every step taken before the horizon reaches
  \<open>lo\<close>, under the fingerprint it was written with.
\<close>

lemma step_keeps_row:
  assumes "ledger_step put prune lo hi db db'" and "hi \<le> lo + kRetryHorizonNs" and "inv db"
    and "get rid db = Some q" and "lo \<le> ir_updated_at_ns q"
  shows "\<exists>q'. get rid db' = Some q' \<and> lo \<le> ir_updated_at_ns q' \<and> ir_fingerprint q' = ir_fingerprint q"
  using assms(1)
proof cases
  case (ledger_put p f)
  with put_cases [of rid f p db] assms(4,5) show ?thesis by auto
next
  case (ledger_prune now f capacity)
  obtain n where "prune f (horizon_start now) capacity reclaimable_states db = (n, db')"
    using ledger_prune by (metis prod.collapse)
  from prune_get [OF assms(3) this, of rid] show ?thesis
    using assms(2,4,5) ledger_prune by (auto simp: horizon_start_def)
qed

lemma steps_keep_row:
  assumes "(ledger_step put prune lo hi)\<^sup>*\<^sup>* db db'" and "hi \<le> lo + kRetryHorizonNs" and "inv db"
    and "get rid db = Some q" and "lo \<le> ir_updated_at_ns q"
  shows "inv db' \<and>
    (\<exists>q'. get rid db' = Some q' \<and> lo \<le> ir_updated_at_ns q' \<and> ir_fingerprint q' = ir_fingerprint q)"
  using assms(1)
proof induction
  case base
  with assms show ?case by auto
next
  case (step db1 db2)
  then obtain q1 where "inv db1" "get rid db1 = Some q1" "lo \<le> ir_updated_at_ns q1"
    "ir_fingerprint q1 = ir_fingerprint q" by blast
  with step_keeps_row [OF step(2) assms(2)] step_inv [OF step(2)] show ?case by fastforce
qed

text \<open>An unresolved row is never dropped at all: only a write can change it.\<close>

lemma prune_keeps_unresolved:
  assumes "inv db" and "get rid db = Some q" and "is_uncertain_state (ir_state q)"
  shows "get rid (snd (prune f older keep reclaimable_states db)) = Some q"
  using prune_get [OF assms(1) surjective_pairing, of rid f older keep reclaimable_states] assms(2,3)
  by (auto simp: is_uncertain_state_def reclaimable_iff_terminal)

end

interpretation sql_ledger: ledger_contract find_request store_put_idempotency
  store_prune_idempotency db_inv
  by unfold_locales
    (auto simp: find_request_put intro: store_put_inv store_prune_inv
      dest: store_put_rejected store_put_fingerprint find_request_prune)

section \<open>Runs of the ledger\<close>

datatype ledger_op =
    LAdmit ledger_env nat request_record int
  | LComplete ledger_env request_record string u8 u16 string int
  | LResolve ledger_env string string string u8 string int
  | LPrune ledger_env nat int

fun ledger_time :: "ledger_op \<Rightarrow> int" where
  "ledger_time (LAdmit e cap r now) = now"
| "ledger_time (LComplete e r st oc c m now) = now"
| "ledger_time (LResolve e rid fp st oc m now) = now"
| "ledger_time (LPrune e cap now) = now"

fun ledger_apply :: "ledger_op \<Rightarrow> database \<Rightarrow> database" where
  "ledger_apply (LAdmit e cap r now) db = snd (durable_admit e cap r now db)"
| "ledger_apply (LComplete e r st oc c m now) db = snd (durable_complete e r st oc c m now db)"
| "ledger_apply (LResolve e rid fp st oc m now) db = snd (durable_resolve e rid fp st oc m now db)"
| "ledger_apply (LPrune e cap now) db = snd (durable_prune e cap now db)"

abbreviation sql_step :: "int \<Rightarrow> int \<Rightarrow> database \<Rightarrow> database \<Rightarrow> bool" where
  "sql_step \<equiv> ledger_step store_put_idempotency store_prune_idempotency"

lemma put_step: "lo \<le> ir_updated_at_ns q \<Longrightarrow> ir_updated_at_ns q \<le> hi \<Longrightarrow>
    (sql_step lo hi)\<^sup>*\<^sup>* db (snd (store_put_idempotency f q db))"
  by (rule r_into_rtranclp) (rule ledger_put)

lemma prune_step: "lo \<le> now \<Longrightarrow> now \<le> hi \<Longrightarrow> (sql_step lo hi)\<^sup>*\<^sup>* db
    (snd (store_prune_idempotency f (horizon_start now) capacity reclaimable_states db))"
  by (rule r_into_rtranclp) (rule ledger_prune)

lemma claim_step:
  assumes "lo \<le> now" "now \<le> hi"
  shows "(sql_step lo hi)\<^sup>*\<^sup>* db (snd (durable_claim e r now db))"
proof -
  have "snd (durable_claim e r now db) = snd (store_put_idempotency (le_put e)
    \<lparr>ir_request_id = rq_request_id r, ir_fingerprint = fingerprint r, ir_state = kAdmitted,
     ir_outcome = 0, ir_error_code = 0, ir_message = ''admitted'', ir_updated_at_ns = now\<rparr> db)"
    by (simp add: durable_claim_def split_def Let_def)
  then show ?thesis using assms by (auto intro: put_step)
qed

lemma complete_step:
  "lo \<le> now \<Longrightarrow> now \<le> hi \<Longrightarrow> (sql_step lo hi)\<^sup>*\<^sup>* db (snd (durable_complete e r st oc c m now db))"
  unfolding durable_complete_def by (rule put_step) simp_all

lemma admit_step:
  assumes "lo \<le> now" "now \<le> hi"
  shows "(sql_step lo hi)\<^sup>*\<^sup>* db (snd (durable_admit e cap r now db))"
proof -
  obtain n db1 where p: "store_prune_idempotency (le_prune e) (horizon_start now) cap
      reclaimable_states db = (n, db1)" by fastforce
  with prune_step [OF assms, of db "le_prune e" cap] have *: "(sql_step lo hi)\<^sup>*\<^sup>* db db1" by simp
  have "(sql_step lo hi)\<^sup>*\<^sup>* db (snd (durable_claim e r now db1))"
    by (rule rtranclp_trans [OF * claim_step [OF assms]])
  with * p show ?thesis
    by (simp add: durable_admit_def split: sum.split option.split)
qed

lemma resolve_step:
  assumes "lo \<le> now" "now \<le> hi"
  shows "(sql_step lo hi)\<^sup>*\<^sup>* db (snd (durable_resolve e rid fp st oc m now db))"
  using put_step [of lo "\<lparr>ir_request_id = rid, ir_fingerprint = fp, ir_state = st, ir_outcome = oc,
    ir_error_code = 0, ir_message = m, ir_updated_at_ns = now\<rparr>" hi db "le_put e"] assms
  by (simp add: durable_resolve_def split: sum.split option.split)

lemma ledger_apply_steps:
  "lo \<le> ledger_time opn \<Longrightarrow> ledger_time opn \<le> hi \<Longrightarrow> (sql_step lo hi)\<^sup>*\<^sup>* db (ledger_apply opn db)"
  by (cases opn) (simp_all add: admit_step complete_step resolve_step durable_prune_def prune_step)

lemma ledger_run_steps:
  "(\<forall>opn \<in> set opns. lo \<le> ledger_time opn \<and> ledger_time opn \<le> hi) \<Longrightarrow>
     (sql_step lo hi)\<^sup>*\<^sup>* db (fold ledger_apply opns db)"
proof (induction opns arbitrary: db)
  case (Cons opn opns)
  then show ?case
    using ledger_apply_steps [of lo opn hi db] by (auto intro: rtranclp_trans)
qed simp

lemma admit_proceed:
  assumes "durable_admit e cap r now db = (out, db')" and "io_decision out = PROCEED"
  shows "find_request (rq_request_id r) db = None \<and>
    find_request (rq_request_id r) db' = Some \<lparr>ir_request_id = rq_request_id r,
      ir_fingerprint = fingerprint r, ir_state = kAdmitted, ir_outcome = 0, ir_error_code = 0,
      ir_message = ''admitted'', ir_updated_at_ns = now\<rparr>"
  using assms
  by (auto simp: durable_admit_def durable_claim_def store_get_idempotency_def Let_def
      unavailable_def known_outcome_def find_request_put
      split: sum.splits option.splits prod.splits if_splits)

lemma admit_known_not_proceed:
  assumes "find_request (rq_request_id r) db = Some q"
  shows "io_decision (fst (durable_admit e cap r now db)) \<noteq> PROCEED"
  using admit_proceed [of e cap r now db] assms by (metis option.distinct(1) prod.collapse)

lemma sql_steps_inv: "(sql_step lo hi)\<^sup>*\<^sup>* db db' \<Longrightarrow> db_inv db \<Longrightarrow> db_inv db'"
  by (induction rule: rtranclp_induct) (auto intro: sql_ledger.step_inv)

lemma admit_inv: "db_inv db \<Longrightarrow> db_inv (snd (durable_admit e cap r now db))"
  by (rule sql_steps_inv [OF admit_step [of now now now]]) simp_all

lemma decimal_nul_free [simp]: "nul_free (nat_to_string n)"
  using nat_to_string_digits [of n] by (auto simp: nul_free_def is_digit_def)

lemma fingerprint_nul_free:
  "nul_free (rq_request_id r) \<Longrightarrow> nul_free (rq_task_id r) \<Longrightarrow> nul_free (rq_target_id r) \<Longrightarrow>
     nul_free (rq_workflow_id r) \<Longrightarrow> nul_free (fingerprint r)"
  using decimal_nul_free unfolding nul_free_def fingerprint_def length_prefixed_def by auto

lemma admit_replays:
  assumes "durable_complete e r state oc code message t db = (True, db')"
    and "is_terminal_state state" and "fingerprint r' = fingerprint r"
    and "nul_free (rq_request_id r)" and "nul_free (fingerprint r)" and "nul_free message"
    and "le_get e' = None"
  shows "durable_admit e' cap r' now db' =
    (\<lparr>io_decision = REPLAY, io_state = state, io_outcome = oc, io_error_code = code,
      io_message = message\<rparr>, db')"
proof -
  have "nul_free state" using assms(2) by (auto simp: is_terminal_state_def nul_free_def)
  moreover have "rq_request_id r' = rq_request_id r"
    using assms(3) by (simp add: fingerprint_inject payload_of_def)
  moreover have "find_request (rq_request_id r) db' = Some \<lparr>ir_request_id = rq_request_id r,
    ir_fingerprint = fingerprint r, ir_state = state, ir_outcome = oc, ir_error_code = code,
    ir_message = message, ir_updated_at_ns = t\<rparr>"
    using assms(1) by (simp add: durable_complete_def find_request_put)
  ultimately show ?thesis
    using assms(2-7)
    by (simp add: durable_admit_def store_get_idempotency_def request_nul_free_def
        is_uncertain_state_def known_outcome_def)
qed

section \<open>Properties\<close>

text \<open>C27. Within the retry horizon the ledger lets a request through at most once: after it said
  PROCEED at time \<open>t\<close>, then whatever admissions, results, operator decisions and prunings of any
  requests follow at times in [t, t + 24 h], and whichever SQLite calls fail, no admission of the
  same request identifier answers PROCEED again. A restart changes nothing: the ledger has no
  other state than the database.\<close>

theorem ledger_admits_once_within_horizon:
  assumes "db_inv db" and "durable_admit e cap r t db = (out, db1)" and "io_decision out = PROCEED"
    and "\<forall>opn \<in> set opns. t \<le> ledger_time opn \<and> ledger_time opn \<le> t + kRetryHorizonNs"
    and "rq_request_id r' = rq_request_id r"
  shows "io_decision (fst (durable_admit e' cap' r' now (fold ledger_apply opns db1))) \<noteq> PROCEED"
proof -
  have "db_inv db1" using admit_inv [OF assms(1), of e cap r t] assms(2) by simp
  with sql_ledger.steps_keep_row [OF ledger_run_steps [OF assms(4)] order_refl this]
    admit_proceed [OF assms(2,3)]
  obtain q where "find_request (rq_request_id r) (fold ledger_apply opns db1) = Some q" by fastforce
  then show ?thesis by (intro admit_known_not_proceed) (simp add: assms(5))
qed

theorem ledger_admits_once_within_horizon_witness:
  "io_decision (fst (durable_admit sound_ledger 4 example_request 9
     (fold ledger_apply [LComplete sound_ledger example_request ''ABORTED'' 9 1 [] 6]
       (snd (durable_admit sound_ledger 4 example_request 5 empty_database))))) \<noteq> PROCEED"
proof (rule ledger_admits_once_within_horizon [OF db_inv_empty surjective_pairing])
  show "io_decision (fst (durable_admit sound_ledger 4 example_request 5 empty_database)) = PROCEED"
    by (simp add: durable_admit_def durable_claim_def sound_ledger_def store_get_idempotency_def
        store_prune_idempotency_def store_count_idempotency_def store_put_idempotency_def
        find_request_def empty_database_def example_request_def)
qed (simp_all add: kRetryHorizonNs_def)

text \<open>The ledger fails closed: it answers PROCEED only when the request had no row and the
  claim (state ADMITTED, with the fingerprint of exactly this payload) is in the database when it
  answers, so a crash right after it leaves a row that later admissions see as uncertain.\<close>

theorem ledger_proceeds_only_with_durable_claim:
  assumes "durable_admit e cap r now db = (out, db')" and "io_decision out = PROCEED"
  shows "find_request (rq_request_id r) db = None \<and>
    (\<exists>q. find_request (rq_request_id r) db' = Some q \<and> ir_fingerprint q = fingerprint r \<and>
       is_uncertain_state (ir_state q))"
  using admit_proceed [OF assms]
  by (simp add: is_uncertain_state_def is_terminal_state_def kAdmitted_def)

theorem ledger_proceeds_only_with_durable_claim_witness:
  "\<exists>q. find_request ''r1'' (snd (durable_admit sound_ledger 4 example_request 5 empty_database)) =
     Some q \<and> ir_fingerprint q = fingerprint example_request \<and> is_uncertain_state (ir_state q)"
proof -
  have "io_decision (fst (durable_admit sound_ledger 4 example_request 5 empty_database)) = PROCEED"
    by (simp add: durable_admit_def durable_claim_def sound_ledger_def store_get_idempotency_def
        store_prune_idempotency_def store_count_idempotency_def store_put_idempotency_def
        find_request_def empty_database_def example_request_def)
  from ledger_proceeds_only_with_durable_claim [OF surjective_pairing this]
  show ?thesis by (simp add: example_request_def)
qed

text \<open>A recorded terminal result is what a later retry of the same payload gets, and it is
  replayed instead of dispatched; the texts must be free of NUL bytes.\<close>

theorem ledger_replays_recorded_result:
  assumes "durable_complete e r state oc code message t db = (True, db')"
    and "is_terminal_state state" and "fingerprint r' = fingerprint r"
    and "nul_free (rq_request_id r)" and "nul_free (fingerprint r)" and "nul_free message"
    and "le_get e' = None"
  shows "durable_admit e' cap r' now db' =
    (\<lparr>io_decision = REPLAY, io_state = state, io_outcome = oc, io_error_code = code,
      io_message = message\<rparr>, db')"
  using assms by (rule admit_replays)

theorem ledger_replays_recorded_result_witness:
  "durable_admit sound_ledger 4 (example_request\<lparr>rq_state := ''X''\<rparr>) 9
     (snd (durable_complete sound_ledger example_request ''COMPLETED'' 0 0 ''ok'' 6 empty_database)) =
   (\<lparr>io_decision = REPLAY, io_state = ''COMPLETED'', io_outcome = 0, io_error_code = 0,
     io_message = ''ok''\<rparr>,
    snd (durable_complete sound_ledger example_request ''COMPLETED'' 0 0 ''ok'' 6 empty_database))"
proof (rule ledger_replays_recorded_result)
  show "durable_complete sound_ledger example_request ''COMPLETED'' 0 0 ''ok'' 6 empty_database =
    (True, snd (durable_complete sound_ledger example_request ''COMPLETED'' 0 0 ''ok'' 6 empty_database))"
    by (simp add: durable_complete_def store_put_idempotency_def sound_ledger_def find_request_def
        empty_database_def example_request_def)
  show "nul_free (fingerprint example_request)"
    by (rule fingerprint_nul_free) (simp_all add: nul_free_def example_request_def)
qed (simp_all add: is_terminal_state_def nul_free_def example_request_def sound_ledger_def
    fingerprint_def)

end
