(* ===== verification/Gateway_Service.thy ===== *)
theory Gateway_Service
  imports Durable_Ledger
begin

text \<open>
  \<open>runtime_gateway/gateway_service.cpp\<close>: the RPC handlers and action callbacks of the gateway.
  A handler that waits or releases the mutex is cut there into phases, each a function on the
  gateway's state, so that other handlers and callbacks can run between two phases.
\<close>

section \<open>Messages\<close>

record submit_request =
  sr_request_id :: string
  sr_workflow_id :: string
  sr_task_id :: string
  sr_target_id :: string
  sr_timeout_ms :: u64

record submit_reply =
  sp_accepted :: bool
  sp_request_id :: string
  sp_task_id :: string
  sp_state :: string
  sp_outcome :: u32
  sp_error_code :: u32
  sp_message :: string

definition empty_submit_reply :: submit_reply where
  "empty_submit_reply = \<lparr>sp_accepted = False, sp_request_id = [], sp_task_id = [], sp_state = [],
     sp_outcome = 0, sp_error_code = 0, sp_message = []\<rparr>"

record cancel_reply =
  cp_accepted :: bool
  cp_state :: string
  cp_outcome :: u32
  cp_error_code :: u32
  cp_message :: string

definition empty_cancel_reply :: cancel_reply where
  "empty_cancel_reply = \<lparr>cp_accepted = False, cp_state = [], cp_outcome = 0, cp_error_code = 0,
     cp_message = []\<rparr>"

record task_reply =
  tp_found :: bool
  tp_task_id :: string
  tp_request_id :: string
  tp_workflow_id :: string
  tp_goal_id :: string
  tp_target_id :: string
  tp_state :: string
  tp_action_status :: u32
  tp_outcome :: u32
  tp_error_code :: u32
  tp_duration_ms :: u64
  tp_message :: string
  tp_completed_at_ns :: int

definition empty_task_reply :: task_reply where
  "empty_task_reply = \<lparr>tp_found = False, tp_task_id = [], tp_request_id = [], tp_workflow_id = [],
     tp_goal_id = [], tp_target_id = [], tp_state = [], tp_action_status = 0, tp_outcome = 0,
     tp_error_code = 0, tp_duration_ms = 0, tp_message = [], tp_completed_at_ns = 0\<rparr>"

record stats_reply =
  gp_has_data :: bool
  gp_sample_count :: u64
  gp_outcome_counts :: "u64 list"
  gp_p50_ms :: u64
  gp_p95_ms :: u64
  gp_p99_ms :: u64
  gp_max_ms :: u64
  gp_state :: string

definition empty_stats_reply :: stats_reply where
  "empty_stats_reply = \<lparr>gp_has_data = False, gp_sample_count = 0, gp_outcome_counts = [],
     gp_p50_ms = 0, gp_p95_ms = 0, gp_p99_ms = 0, gp_max_ms = 0, gp_state = []\<rparr>"

record resolve_reply =
  rp_resolved :: bool
  rp_state :: string
  rp_message :: string

datatype grpc_code =
  INVALID_ARGUMENT | RESOURCE_EXHAUSTED | GRPC_UNAVAILABLE | DEADLINE_EXCEEDED | INTERNAL

text \<open>\<open>HandlerThrew\<close>: an exception (or an empty optional) left the handler.\<close>

datatype grpc_status = StatusOK | StatusError grpc_code string | HandlerThrew string

record workflow_goal =
  wg_request_id :: string
  wg_workflow_id :: string
  wg_task_id :: string
  wg_target_id :: string
  wg_allowed_duration :: duration

section \<open>State\<close>

record pending_goal =
  pg_handle :: "nat option"
  pg_payload :: request_record
  pg_pending :: bool
  pg_cancel_requested :: bool
  pg_cancel_dispatched :: bool
  pg_cancel_failed :: bool

record gateway =
  gw_store :: database
  gw_registry :: registry
  gw_goals :: "(string \<times> pending_goal) list"
  gw_stopping :: bool
  gw_cancel_dispatches :: nat
  gw_dispatched :: "(string \<times> workflow_goal) list"
  gw_cancels_sent :: "(string \<times> nat) list"

text \<open>
  What one phase sees of its surroundings: which SQLite calls fail (the ledger may be called
  twice in a phase), the wall clock at both calls, the action client.
\<close>

record gw_env =
  ge_ledger :: ledger_env
  ge_ledger_later :: ledger_env
  ge_task_get :: "string option"
  ge_stats :: "string option"
  ge_now :: int
  ge_later :: int
  ge_server_ready :: bool
  ge_send :: "string option"
  ge_cancel :: "string option"

definition kLedgerCapacity :: nat where "kLedgerCapacity = 4096"
definition kRegistryCapacity :: nat where "kRegistryCapacity = 4096"

definition gateway_init :: "database \<Rightarrow> gateway" where
  "gateway_init db =
     \<lparr>gw_store = db,
      gw_registry = \<lparr>rg_capacity = kRegistryCapacity, rg_order = [], rg_records = []\<rparr>,
      gw_goals = [], gw_stopping = False, gw_cancel_dispatches = 0, gw_dispatched = [],
      gw_cancels_sent = []\<rparr>"

section \<open>Validation and conversions\<close>

definition max_duration_ms :: u64 where
  "max_duration_ms = 2147483647 * 1000 + 999"

definition valid_request :: "submit_request \<Rightarrow> bool" where
  "valid_request r \<longleftrightarrow> sr_request_id r \<noteq> [] \<and> sr_workflow_id r \<noteq> [] \<and> sr_task_id r \<noteq> [] \<and>
     sr_target_id r \<noteq> [] \<and> 0 < sr_timeout_ms r \<and> sr_timeout_ms r \<le> max_duration_ms"

definition allowed_workflow :: "string \<Rightarrow> bool" where
  "allowed_workflow w \<longleftrightarrow> w = ''single_task'' \<or> w = ''ready_then_task''"

definition active_record :: "request_record \<Rightarrow> bool" where
  "active_record r \<longleftrightarrow> rq_state r = ''SUBMITTING'' \<or> rq_state r = ''RUNNING'' \<or> rq_state r = ''CANCELING''"

definition initial_record :: "submit_request \<Rightarrow> request_record" where
  "initial_record r = \<lparr>rq_request_id = sr_request_id r, rq_task_id = sr_task_id r,
     rq_target_id = sr_target_id r, rq_workflow_id = sr_workflow_id r,
     rq_timeout_ms = sr_timeout_ms r, rq_state = ''SUBMITTING'', rq_outcome = 0,
     rq_error_code = 0, rq_message = []\<rparr>"

definition fill_submit :: "request_record \<Rightarrow> submit_reply" where
  "fill_submit r = \<lparr>sp_accepted = active_record r, sp_request_id = rq_request_id r,
     sp_task_id = rq_task_id r, sp_state = rq_state r, sp_outcome = ucast (rq_outcome r),
     sp_error_code = ucast (rq_error_code r), sp_message = rq_message r\<rparr>"

definition fill_durable :: "idempotency_outcome \<Rightarrow> submit_request \<Rightarrow> submit_reply" where
  "fill_durable known r = \<lparr>sp_accepted = False, sp_request_id = sr_request_id r,
     sp_task_id = sr_task_id r, sp_state = io_state known, sp_outcome = ucast (io_outcome known),
     sp_error_code = ucast (io_error_code known), sp_message = io_message known\<rparr>"

definition state_for_outcome :: "u8 \<Rightarrow> string" where
  "state_for_outcome oc =
     (if oc = COMPLETED then ''COMPLETED'' else if oc = CANCELED then ''CANCELED''
      else if oc = SAFE_STOP then ''SAFE_STOP'' else if oc = DEVICE_FAULT then ''DEVICE_FAULT''
      else ''ABORTED'')"

definition goal_of_request :: "submit_request \<Rightarrow> workflow_goal" where
  "goal_of_request r = \<lparr>wg_request_id = sr_request_id r, wg_workflow_id = sr_workflow_id r,
     wg_task_id = sr_task_id r, wg_target_id = sr_target_id r,
     wg_allowed_duration = \<lparr>dur_sec = ucast (sr_timeout_ms r div 1000),
       dur_nanosec = ucast (sr_timeout_ms r mod 1000 * 1000000)\<rparr>\<rparr>"

section \<open>State updates the handlers share\<close>

definition gw_update ::
  "string \<Rightarrow> string \<Rightarrow> u8 \<Rightarrow> u16 \<Rightarrow> string \<Rightarrow> gateway \<Rightarrow> gateway" where
  "gw_update rid state oc code message s =
     s\<lparr>gw_registry := snd (update_terminal rid state oc code message (gw_registry s))\<rparr>"

definition gw_erase_request :: "string \<Rightarrow> gateway \<Rightarrow> gateway" where
  "gw_erase_request rid s = s\<lparr>gw_registry := snd (registry_erase rid (gw_registry s))\<rparr>"

definition gw_complete ::
  "ledger_env \<Rightarrow> request_record \<Rightarrow> string \<Rightarrow> u8 \<Rightarrow> u16 \<Rightarrow> string \<Rightarrow> int \<Rightarrow> gateway \<Rightarrow> gateway" where
  "gw_complete le r state oc code message now s =
     s\<lparr>gw_store := snd (durable_complete le r state oc code message now (gw_store s))\<rparr>"

definition gw_reject ::
  "gw_env \<Rightarrow> request_record \<Rightarrow> string \<Rightarrow> u16 \<Rightarrow> string \<Rightarrow> gateway \<Rightarrow> gateway" where
  "gw_reject e payload state code message s =
     gw_complete (ge_ledger_later e) payload state 0 code message (ge_later e)
       (gw_update (rq_request_id payload) state 0 code message s)"

definition gw_set_goal :: "string \<Rightarrow> (pending_goal \<Rightarrow> pending_goal) \<Rightarrow> gateway \<Rightarrow> gateway" where
  "gw_set_goal rid f s =
     s\<lparr>gw_goals := map (\<lambda>(k, g). (k, if k = rid then f g else g)) (gw_goals s)\<rparr>"

definition gw_erase_goal :: "string \<Rightarrow> gateway \<Rightarrow> gateway" where
  "gw_erase_goal rid s = s\<lparr>gw_goals := AList.delete rid (gw_goals s)\<rparr>"

definition gw_goal :: "string \<Rightarrow> gateway \<Rightarrow> pending_goal option" where
  "gw_goal rid s = map_of (gw_goals s) rid"

definition gw_record :: "string \<Rightarrow> gateway \<Rightarrow> request_record option" where
  "gw_record rid s = get_by_request_id rid (gw_registry s)"

text \<open>A reply built from the registry's current record of the request.\<close>

definition reply_current :: "string \<Rightarrow> gateway \<Rightarrow> grpc_status \<times> submit_reply" where
  "reply_current rid s =
     (case gw_record rid s of
        Some r \<Rightarrow> (StatusOK, fill_submit r)
      | None \<Rightarrow> (HandlerThrew ''bad optional access'', empty_submit_reply))"

definition refuse :: "grpc_code \<Rightarrow> string \<Rightarrow> grpc_status \<times> submit_reply" where
  "refuse code message = (StatusError code message, empty_submit_reply)"

section \<open>SubmitWorkflow\<close>

text \<open>The outcome of a phase: the handler returns, or goes on to its next phase (\<open>None\<close>).\<close>

type_synonym submit_outcome = "(grpc_status \<times> submit_reply) option"

text \<open>Phase 1: the shutdown check, validation and the in-memory reservation.\<close>

definition submit_enter ::
  "gw_env \<Rightarrow> submit_request \<Rightarrow> gateway \<Rightarrow> submit_outcome \<times> gateway" where
  "submit_enter e r s =
     (if gw_stopping s then (Some (refuse GRPC_UNAVAILABLE ''gateway is shutting down''), s)
      else if \<not> valid_request r
      then (Some (refuse INVALID_ARGUMENT ''required fields and timeout_ms must be valid''), s)
      else
        let (inserted, reg) = registry_insert (initial_record r) (gw_registry s);
            s1 = s\<lparr>gw_registry := reg\<rparr>
        in case inserted of
             DUPLICATE \<Rightarrow> (Some (reply_current (sr_request_id r) s1), s1)
           | CONFLICT \<Rightarrow>
               (Some (refuse INVALID_ARGUMENT ''request_id conflicts with an existing request''), s1)
           | CAPACITY \<Rightarrow>
               (case durable_lookup (ge_ledger e) (sr_request_id r) (gw_store s1) of
                  Inl err \<Rightarrow> (Some (HandlerThrew err, empty_submit_reply), s1)
                | Inr (Some known) \<Rightarrow> (Some (StatusOK, fill_durable known r), s1)
                | Inr None \<Rightarrow>
                    (Some (refuse RESOURCE_EXHAUSTED ''request registry capacity reached''), s1))
           | INVALID \<Rightarrow> (None, s1)
           | INSERTED \<Rightarrow> (None, s1))"

text \<open>Phase 2: the recorded task, the durable admission, the allow-list and the action server.\<close>

definition submit_admit ::
  "gw_env \<Rightarrow> submit_request \<Rightarrow> gateway \<Rightarrow> submit_outcome \<times> gateway" where
  "submit_admit e r s =
     (let rid = sr_request_id r; initial = initial_record r in
      case store_get (ge_task_get e) (sr_task_id r) (gw_store s) of
        Inl err \<Rightarrow> (Some (refuse GRPC_UNAVAILABLE err), gw_erase_request rid s)
      | Inr (Some _) \<Rightarrow>
          (Some (refuse INVALID_ARGUMENT ''task_id already belongs to a recorded task''),
           gw_erase_request rid s)
      | Inr None \<Rightarrow>
          let (a, db) = durable_admit (ge_ledger e) kLedgerCapacity initial (ge_now e) (gw_store s);
              s1 = s\<lparr>gw_store := db\<rparr>
          in case io_decision a of
               UNAVAILABLE \<Rightarrow>
                 (Some (refuse GRPC_UNAVAILABLE (io_message a)), gw_erase_request rid s1)
             | LEDGER_CONFLICT \<Rightarrow>
                 (Some (refuse INVALID_ARGUMENT ''request_id conflicts with a durable request''),
                  gw_erase_request rid s1)
             | UNCERTAIN \<Rightarrow>
                 (let s2 = gw_update rid ''UNCERTAIN'' 0
                        (if io_error_code a = 0 then 409 else io_error_code a)
                        (if io_message a = [] then ''prior dispatch outcome unknown''
                         else io_message a) s1
                  in (Some (reply_current rid s2), s2))
             | REPLAY \<Rightarrow>
                 (let s2 = gw_update rid (io_state a) (io_outcome a) (io_error_code a)
                        (io_message a) s1
                  in (Some (reply_current rid s2), s2))
             | PROCEED \<Rightarrow>
                 if \<not> allowed_workflow (sr_workflow_id r) then
                   (let s2 = gw_reject e initial ''REJECTED'' 400 ''workflow is not allowlisted'' s1
                    in (Some (reply_current rid s2), s2))
                 else if \<not> ge_server_ready e then
                   (Some (refuse GRPC_UNAVAILABLE ''orchestrator unavailable''),
                    gw_reject e initial ''REJECTED'' 503 ''orchestrator unavailable'' s1)
                 else (None, s1))"

text \<open>Phase 3: the second shutdown check and the pending goal, in one critical section.\<close>

definition submit_register ::
  "gw_env \<Rightarrow> submit_request \<Rightarrow> gateway \<Rightarrow> submit_outcome \<times> gateway" where
  "submit_register e r s =
     (if gw_stopping s then
        (Some (refuse GRPC_UNAVAILABLE ''gateway is shutting down''),
         gw_reject e (initial_record r) ''REJECTED'' 503 ''gateway is shutting down'' s)
      else
        (None, if gw_goal (sr_request_id r) s \<noteq> None then s
               else s\<lparr>gw_goals := gw_goals s @ [(sr_request_id r,
                 \<lparr>pg_handle = None, pg_payload = initial_record r, pg_pending = True,
                  pg_cancel_requested = False, pg_cancel_dispatched = False,
                  pg_cancel_failed = False\<rparr>)]\<rparr>))"

text \<open>Phase 4: the dispatch. Only here does anything reach the orchestrator.\<close>

definition submit_send ::
  "gw_env \<Rightarrow> submit_request \<Rightarrow> gateway \<Rightarrow> submit_outcome \<times> gateway" where
  "submit_send e r s =
     (let rid = sr_request_id r in
      case ge_send e of
        Some err \<Rightarrow>
          (Some (refuse GRPC_UNAVAILABLE err),
           gw_complete (ge_ledger e) (initial_record r) ''REJECTED'' 0 503 err (ge_now e)
             (gw_update rid ''REJECTED'' 0 503 err (gw_erase_goal rid s)))
      | None \<Rightarrow> (None, s\<lparr>gw_dispatched := gw_dispatched s @ [(rid, goal_of_request r)]\<rparr>))"

section \<open>Cancellation\<close>

definition dispatch_cancel :: "gw_env \<Rightarrow> string \<Rightarrow> nat \<Rightarrow> gateway \<Rightarrow> bool \<times> gateway" where
  "dispatch_cancel e rid handle s =
     (case gw_goal rid s of
        None \<Rightarrow> (True, s)
      | Some g \<Rightarrow>
          if pg_cancel_dispatched g then (True, s)
          else
            let s1 = (gw_set_goal rid (\<lambda>g. g\<lparr>pg_cancel_dispatched := True, pg_cancel_failed := False\<rparr>) s)
                       \<lparr>gw_cancel_dispatches := Suc (gw_cancel_dispatches s)\<rparr>
            in case ge_cancel e of
                 None \<Rightarrow> (True, s1\<lparr>gw_cancels_sent := gw_cancels_sent s1 @ [(rid, handle)]\<rparr>)
               | Some err \<Rightarrow>
                   (False, gw_update rid ''CANCEL_FAILED'' 0 500 err
                      (gw_set_goal rid
                        (\<lambda>g. g\<lparr>pg_cancel_dispatched := False, pg_cancel_failed := True\<rparr>) s1)))"

text \<open>Phase 5 of a submission whose goal response did not come within 500 ms.\<close>

definition submit_timeout ::
  "gw_env \<Rightarrow> submit_request \<Rightarrow> gateway \<Rightarrow> (grpc_status \<times> submit_reply) \<times> gateway" where
  "submit_timeout e r s =
     (let rid = sr_request_id r;
          late = (case gw_goal rid s of None \<Rightarrow> None | Some g \<Rightarrow> pg_handle g);
          s1 = (case gw_goal rid s of
                  None \<Rightarrow> s
                | Some g \<Rightarrow>
                    let s' = gw_set_goal rid (\<lambda>g. g\<lparr>pg_cancel_requested := True\<rparr>) s in
                    if pg_cancel_requested g then s'
                    else gw_update rid ''TIMED_OUT'' 0 504 ''goal response exceeded 500ms'' s');
          s2 = (case late of None \<Rightarrow> s1 | Some h \<Rightarrow> snd (dispatch_cancel e rid h s1))
      in (refuse DEADLINE_EXCEEDED ''goal response exceeded 500ms'', s2))"

text \<open>Phase 5 of a submission whose goal response came in time (no handle: it was rejected).\<close>

definition submit_finish ::
  "submit_request \<Rightarrow> nat option \<Rightarrow> gateway \<Rightarrow> grpc_status \<times> submit_reply" where
  "submit_finish r handle s =
     (case gw_record (sr_request_id r) s of
        None \<Rightarrow> (HandlerThrew ''bad optional access'', empty_submit_reply)
      | Some current \<Rightarrow>
          let reply = (fill_submit current)\<lparr>sp_accepted := (handle \<noteq> None)\<rparr> in
          (StatusOK,
           if handle = None
           then reply\<lparr>sp_state := ''REJECTED'', sp_error_code := 400, sp_message := ''goal rejected''\<rparr>
           else reply))"

section \<open>Action callbacks\<close>

definition goal_response_callback :: "gw_env \<Rightarrow> string \<Rightarrow> nat option \<Rightarrow> gateway \<Rightarrow> gateway" where
  "goal_response_callback e rid handle s =
     (case handle of
        Some h \<Rightarrow>
          (case gw_goal rid s of
             None \<Rightarrow> s
           | Some g \<Rightarrow>
               let cancel = (gw_stopping s \<or> pg_cancel_requested g);
                   s1 = gw_update rid (if cancel then ''CANCELING'' else ''RUNNING'') 0 0
                          (if cancel then ''cancel requested'' else ''accepted'')
                          (gw_set_goal rid (\<lambda>g. g\<lparr>pg_pending := False, pg_handle := Some h\<rparr>) s)
               in if cancel then snd (dispatch_cancel e rid h s1) else s1)
      | None \<Rightarrow>
          (case gw_goal rid s of
             None \<Rightarrow> s
           | Some g \<Rightarrow>
               let s1 = gw_erase_goal rid s in
               if rq_request_id (pg_payload g) = [] then s1
               else gw_update rid ''REJECTED'' 0 400 ''goal rejected''
                      (gw_complete (ge_ledger e) (pg_payload g) ''REJECTED'' 0 400 ''goal rejected''
                        (ge_now e) s1)))"

definition result_fields :: "wrapped_result \<Rightarrow> u8 \<times> u16 \<times> string" where
  "result_fields w =
     (case wr_result w of
        Some r \<Rightarrow> (res_outcome r, res_error_code r, res_message r)
      | None \<Rightarrow> (SAFE_STOP, 500, ''workflow result unavailable''))"

definition result_callback :: "gw_env \<Rightarrow> string \<Rightarrow> wrapped_result \<Rightarrow> gateway \<Rightarrow> gateway" where
  "result_callback e rid w s =
     (let (oc, code, message) = result_fields w;
          state = state_for_outcome oc;
          payload = map_option pg_payload (gw_goal rid s);
          s1 = gw_erase_goal rid (gw_update rid state oc code message s)
      in case payload of
           None \<Rightarrow> s1
         | Some p \<Rightarrow>
             if rq_request_id p = [] then s1
             else gw_complete (ge_ledger e) p state oc code message (ge_now e) s1)"

section \<open>CancelWorkflow\<close>

text \<open>
  Phase 1 looks the record up, phase 2 marks the pending goal (with the outcome and code of the
  record phase 1 saw) and picks up its handle, phase 3 dispatches and answers.
\<close>

definition cancel_enter :: "string \<Rightarrow> gateway \<Rightarrow> (grpc_status \<times> cancel_reply) + request_record" where
  "cancel_enter rid s =
     (if rid = [] then Inl (StatusError INVALID_ARGUMENT ''request_id is required'', empty_cancel_reply)
      else case gw_record rid s of
        None \<Rightarrow> Inl (StatusOK, empty_cancel_reply\<lparr>cp_state := ''NOT_FOUND'',
                      cp_message := ''request not found''\<rparr>)
      | Some r \<Rightarrow> Inr r)"

definition cancel_mark :: "string \<Rightarrow> request_record \<Rightarrow> gateway \<Rightarrow> nat option \<times> gateway" where
  "cancel_mark rid record s =
     (case gw_goal rid s of
        None \<Rightarrow> (None, s)
      | Some g \<Rightarrow>
          (pg_handle g, gw_update rid ''CANCELING'' (rq_outcome record) (rq_error_code record)
             ''cancel requested'' (gw_set_goal rid (\<lambda>g. g\<lparr>pg_cancel_requested := True\<rparr>) s)))"

definition cancel_reply_of :: "request_record \<Rightarrow> cancel_reply" where
  "cancel_reply_of r = \<lparr>cp_accepted = False, cp_state = rq_state r, cp_outcome = ucast (rq_outcome r),
     cp_error_code = ucast (rq_error_code r), cp_message = rq_message r\<rparr>"

definition cancel_accepted :: "grpc_status \<times> cancel_reply" where
  "cancel_accepted = (StatusOK, empty_cancel_reply\<lparr>cp_accepted := True, cp_state := ''CANCELING'',
     cp_message := ''cancel requested''\<rparr>)"

definition cancel_finish ::
  "gw_env \<Rightarrow> string \<Rightarrow> nat option \<Rightarrow> gateway \<Rightarrow> (grpc_status \<times> cancel_reply) \<times> gateway" where
  "cancel_finish e rid handle s =
     (case handle of
        None \<Rightarrow>
          ((case gw_record rid s of
              None \<Rightarrow> (StatusOK, empty_cancel_reply\<lparr>cp_state := ''NOT_FOUND'',
                        cp_message := ''request not found''\<rparr>)
            | Some latest \<Rightarrow>
                if rq_state latest \<noteq> ''CANCELING'' then (StatusOK, cancel_reply_of latest)
                else cancel_accepted), s)
      | Some h \<Rightarrow>
          (case dispatch_cancel e rid h s of
             (False, s1) \<Rightarrow>
               ((StatusError INTERNAL ''failed to dispatch workflow cancel'', empty_cancel_reply), s1)
           | (True, s1) \<Rightarrow>
               ((case gw_record rid s1 of
                   None \<Rightarrow> cancel_accepted
                 | Some latest \<Rightarrow>
                     if active_record latest then cancel_accepted
                     else (StatusOK, cancel_reply_of latest)), s1)))"

definition cancel_workflow ::
  "gw_env \<Rightarrow> string \<Rightarrow> gateway \<Rightarrow> (grpc_status \<times> cancel_reply) \<times> gateway" where
  "cancel_workflow e rid s =
     (case cancel_enter rid s of
        Inl reply \<Rightarrow> (reply, s)
      | Inr record \<Rightarrow> (case cancel_mark rid record s of (h, s1) \<Rightarrow> cancel_finish e rid h s1))"

section \<open>Queries\<close>

definition fill_task :: "request_record \<Rightarrow> task_reply" where
  "fill_task r = empty_task_reply\<lparr>tp_found := True, tp_task_id := rq_task_id r,
     tp_target_id := rq_target_id r, tp_state := rq_state r, tp_outcome := ucast (rq_outcome r),
     tp_error_code := ucast (rq_error_code r), tp_message := rq_message r\<rparr>"

definition stored_task_reply :: "task_record \<Rightarrow> task_reply" where
  "stored_task_reply t = \<lparr>tp_found = True, tp_task_id = tr_task_id t,
     tp_request_id = tr_request_id t, tp_workflow_id = tr_workflow_id t,
     tp_goal_id = tr_goal_id t, tp_target_id = tr_target_id t,
     tp_state = state_for_outcome (tr_outcome t), tp_action_status = ucast (tr_action_status t),
     tp_outcome = ucast (tr_outcome t), tp_error_code = ucast (tr_error_code t),
     tp_duration_ms = tr_duration_ms t, tp_message = tr_message t,
     tp_completed_at_ns = tr_completed_at_ns t\<rparr>"

definition get_task :: "gw_env \<Rightarrow> string \<Rightarrow> gateway \<Rightarrow> grpc_status \<times> task_reply" where
  "get_task e tid s =
     (if tid = [] then (StatusError INVALID_ARGUMENT ''task_id is required'', empty_task_reply)
      else
        let memory = get_by_task_id tid (gw_registry s);
            from_store =
              (case store_get (ge_task_get e) tid (gw_store s) of
                 Inl err \<Rightarrow> (StatusError INTERNAL err, empty_task_reply)
               | Inr (Some t) \<Rightarrow> (StatusOK, stored_task_reply t)
               | Inr None \<Rightarrow>
                   (case memory of
                      Some r \<Rightarrow> (StatusOK, fill_task r)
                    | None \<Rightarrow> (StatusOK, empty_task_reply\<lparr>tp_task_id := tid, tp_state := ''NOT_FOUND''\<rparr>)))
        in case memory of
             Some r \<Rightarrow> if active_record r then (StatusOK, fill_task r) else from_store
           | None \<Rightarrow> from_store)"

definition get_stats :: "gw_env \<Rightarrow> gateway \<Rightarrow> grpc_status \<times> stats_reply" where
  "get_stats e s =
     (case store_stats (ge_stats e) (gw_store s) of
        Inl err \<Rightarrow> (StatusError INTERNAL err, empty_stats_reply)
      | Inr st \<Rightarrow> (StatusOK,
          \<lparr>gp_has_data = st_has_data st, gp_sample_count = st_sample_count st,
           gp_outcome_counts = st_outcome_counts st, gp_p50_ms = st_p50_ms st,
           gp_p95_ms = st_p95_ms st, gp_p99_ms = st_p99_ms st, gp_max_ms = st_max_ms st,
           gp_state = (if st_has_data st then ''AVAILABLE'' else ''EMPTY'')\<rparr>))"

section \<open>ResolveUncertain\<close>

record resolve_result =
  rv_ok :: bool
  rv_fatal :: bool
  rv_state :: string
  rv_message :: string

text \<open>\<open>State::resolve\<close>; the second ledger environment is the one of the update.\<close>

definition gw_resolve ::
  "gw_env \<Rightarrow> string \<Rightarrow> string \<Rightarrow> string \<Rightarrow> gateway \<Rightarrow> resolve_result \<times> gateway" where
  "gw_resolve e rid state message s =
     (case store_get_idempotency (le_get (ge_ledger e)) rid (gw_store s) of
        Inl err \<Rightarrow> (\<lparr>rv_ok = False, rv_fatal = True, rv_state = state, rv_message = err\<rparr>, s)
      | Inr None \<Rightarrow> (\<lparr>rv_ok = False, rv_fatal = False, rv_state = ''NOT_FOUND'',
                       rv_message = ''no durable record for this request_id''\<rparr>, s)
      | Inr (Some stored) \<Rightarrow>
          if is_terminal_state (ir_state stored) then
            (\<lparr>rv_ok = False, rv_fatal = False, rv_state = ir_state stored,
              rv_message = ''request already has a terminal outcome''\<rparr>, s)
          else
            let (ok, db) = durable_resolve (ge_ledger_later e) rid (ir_fingerprint stored) state 0
                  message (ge_now e) (gw_store s);
                s1 = s\<lparr>gw_store := db\<rparr>
            in if \<not> ok then
                 (\<lparr>rv_ok = False, rv_fatal = False, rv_state = state,
                   rv_message = ''the stored row could not be updated''\<rparr>, s1)
               else (\<lparr>rv_ok = True, rv_fatal = False, rv_state = state, rv_message = message\<rparr>,
                     gw_update rid state 0 0 message s1))"

definition resolve_uncertain ::
  "gw_env \<Rightarrow> string \<Rightarrow> string \<Rightarrow> string \<Rightarrow> gateway \<Rightarrow> (grpc_status \<times> resolve_reply) \<times> gateway" where
  "resolve_uncertain e rid state message s =
     (let empty = \<lparr>rp_resolved = False, rp_state = [], rp_message = []\<rparr> in
      if rid = [] then ((StatusError INVALID_ARGUMENT ''request_id is required'', empty), s)
      else if \<not> is_terminal_state state then
        ((StatusError INVALID_ARGUMENT
           ''state must be a terminal outcome: COMPLETED, CANCELED, SAFE_STOP, DEVICE_FAULT, ABORTED or REJECTED'',
          empty), s)
      else
        let (v, s1) = gw_resolve e rid state message s in
        if rv_fatal v then ((StatusError GRPC_UNAVAILABLE (rv_message v), empty), s1)
        else ((StatusOK, \<lparr>rp_resolved = rv_ok v, rp_state = rv_state v, rp_message = rv_message v\<rparr>), s1))"

section \<open>Shutdown\<close>

definition stop_accepting :: "gateway \<Rightarrow> gateway" where
  "stop_accepting s = s\<lparr>gw_stopping := True\<rparr>"

text \<open>
  \<open>cancel_active\<close>: mark every goal, dispatch the cancels it can, then wait up to five seconds
  for the goals to drain. The wait is cut out: \<open>cancel_active_verdict\<close> is what it returns on
  the state it ends in.
\<close>

definition cancel_active_mark :: "gateway \<Rightarrow> (string \<times> nat) list \<times> gateway" where
  "cancel_active_mark s =
     (let handles = concat (map (\<lambda>(rid, g).
            (case pg_handle g of
               Some h \<Rightarrow> if pg_cancel_dispatched g then [] else [(rid, h)]
             | None \<Rightarrow> [])) (gw_goals s));
          s1 = s\<lparr>gw_stopping := True,
                 gw_goals := map (\<lambda>(rid, g). (rid, g\<lparr>pg_cancel_requested := True\<rparr>)) (gw_goals s)\<rparr>
      in (handles, fold (\<lambda>rid. gw_update rid ''CANCELING'' 0 0 ''shutdown cancel requested'')
                     (map fst (gw_goals s)) s1))"

definition cancel_active_dispatch :: "gw_env \<Rightarrow> (string \<times> nat) list \<Rightarrow> gateway \<Rightarrow> gateway" where
  "cancel_active_dispatch e handles s = fold (\<lambda>(rid, h) s. snd (dispatch_cancel e rid h s)) handles s"

definition goals_drained :: "gateway \<Rightarrow> bool" where
  "goals_drained s \<longleftrightarrow> (\<forall>(rid, g) \<in> set (gw_goals s). pg_cancel_failed g)"

fun join_ids :: "string list \<Rightarrow> string" where
  "join_ids [] = []"
| "join_ids [x] = x"
| "join_ids (x # y # xs) = x @ '','' @ join_ids (y # xs)"

definition cancel_active_verdict :: "gateway \<Rightarrow> string option" where
  "cancel_active_verdict s =
     (if \<not> goals_drained s
      then Some (''timed out waiting for workflow cancellation: '' @ join_ids (map fst (gw_goals s)))
      else case List.find (\<lambda>(rid, g). pg_cancel_failed g) (gw_goals s) of
             Some (rid, g) \<Rightarrow> Some (''failed to dispatch cancel for request '' @ rid)
           | None \<Rightarrow> None)"

definition gateway_clear :: "gateway \<Rightarrow> gateway" where
  "gateway_clear s = s\<lparr>gw_registry := registry_clear (gw_registry s)\<rparr>"

definition active_request_count :: "gateway \<Rightarrow> nat" where
  "active_request_count s = registry_size (gw_registry s)"

definition cancel_dispatch_count :: "gateway \<Rightarrow> nat" where
  "cancel_dispatch_count s = gw_cancel_dispatches s"

end
