(* ===== verification/Task_Orchestrator.thy ===== *)
theory Task_Orchestrator
  imports Executor_Runs Gateway_Service
begin

text \<open>
  \<open>ready_state.cpp\<close> and \<open>task_orchestrator_node.cpp\<close>: the action server that runs one workflow
  (a behaviour tree of a readiness check and one task), turns its child task's outcome into
  the workflow's, and reports exactly one terminal result.

  The behaviour-tree library is not part of the program. What it does is a parameter of the
  environment: every \<open>tickOnce\<close> and \<open>haltTree\<close> calls some leaves of the tree, in some order,
  and returns some status. The leaves are the program's and are defined here; the theorems hold
  for every such library. Ticks, observations and callbacks work as in the executor's model:
  every observation delivers the callbacks of its tick, here also cancel requests and readiness
  messages. Progress values (32-bit floats) are kept as bit patterns.
\<close>

section \<open>Readiness\<close>

record ready_state =
  rs_received_at :: "int option"
  rs_ready :: bool

definition ready_update :: "bool \<Rightarrow> int \<Rightarrow> ready_state \<Rightarrow> ready_state" where
  "ready_update ready received_at r = r\<lparr>rs_ready := ready, rs_received_at := Some received_at\<rparr>"

definition ready_usable :: "int \<Rightarrow> int \<Rightarrow> ready_state \<Rightarrow> bool" where
  "ready_usable now stale_after_ms r \<longleftrightarrow>
     rs_ready r \<and>
     (case rs_received_at r of None \<Rightarrow> False | Some at \<Rightarrow> now - at \<le> stale_after_ms * 1000000)"

section \<open>Data\<close>

record workflow_state =
  ws_child_goal :: task_goal
  ws_child_handle :: bool
  ws_child_result :: "wrapped_result option"
  ws_deadline :: int
  ws_goal_response_received :: bool
  ws_child_goal_dispatched :: bool
  ws_halt_requested :: bool
  ws_cancel_in_flight :: bool
  ws_cancel_dispatched :: bool
  ws_cancel_timed_out :: bool
  ws_active_node :: string
  ws_progress :: u32
  ws_late_cancel :: bool

definition workflow_state_new :: "workflow_goal \<Rightarrow> int \<Rightarrow> workflow_state" where
  "workflow_state_new g deadline =
     \<lparr>ws_child_goal =
        \<lparr>tg_task_id = wg_task_id g, tg_target_id = wg_target_id g, tg_request_id = wg_request_id g,
         tg_workflow_id = wg_workflow_id g, tg_allowed_duration = \<lparr>dur_sec = 0, dur_nanosec = 0\<rparr>\<rparr>,
      ws_child_handle = False, ws_child_result = None, ws_deadline = deadline,
      ws_goal_response_received = False, ws_child_goal_dispatched = False,
      ws_halt_requested = False, ws_cancel_in_flight = False, ws_cancel_dispatched = False,
      ws_cancel_timed_out = False, ws_active_node = ''RuntimeReady'', ws_progress = 0,
      ws_late_cancel = False\<rparr>"

definition ws_mark :: "string \<Rightarrow> u32 \<Rightarrow> workflow_state \<Rightarrow> workflow_state" where
  "ws_mark node value w = w\<lparr>ws_active_node := node, ws_progress := value\<rparr>"

datatype node_status = BT_SUCCESS | BT_FAILURE | BT_RUNNING

record retry_node =
  rn_delay_ms :: int
  rn_next_check :: int
  rn_attempts :: u32
  rn_used :: u32

datatype fault_point =
    kBeforeCancelDispatch | kBeforeTerminalCommit | kBeforeTerminalTransition | kBeforeFallbackAbort

text \<open>What the library can call on the tree's leaves.\<close>

datatype leaf_call =
    RuntimeReadyTick | RetryReadyStart u32 u32 | RetryReadyRunning
  | ExecuteTaskStart | ExecuteTaskRunning | ExecuteTaskHalted

text \<open>Callbacks that run beside the worker; \<open>CancelVisible\<close> is the goal entering CANCELING
  after its cancel request was accepted.\<close>

datatype orch_event =
    TaskResponse bool | TaskLateCancelDone "string option" | TaskFeedback u32
  | TaskResult wrapped_result | ReadyMessage bool int | CancelRequest | CancelVisible

record orch_config =
  oc_ready_stale_ms :: int
  oc_cancel_timeout_ms :: int

record orch_env =
  oe_running :: "nat \<Rightarrow> bool"
  oe_ok :: "nat \<Rightarrow> bool"
  oe_now :: "nat \<Rightarrow> int"
  oe_events :: "nat \<Rightarrow> orch_event list"
  oe_fault :: "nat \<Rightarrow> fault_point \<Rightarrow> string option"
  oe_send_goal :: "nat \<Rightarrow> string option"
  oe_cancel_goal :: "nat \<Rightarrow> string option"
  oe_feedback :: "nat \<Rightarrow> string option"
  oe_create_tree :: "string option"
  oe_tick_tree :: "nat \<Rightarrow> leaf_call list \<times> node_status"
  oe_halt_tree :: "nat \<Rightarrow> leaf_call list"
  oe_transition :: "nat \<Rightarrow> (string \<times> bool) option"

record orchestrator =
  or_tick :: nat
  or_active :: bool
  or_generation_counter :: u64
  or_active_generation :: u64
  or_terminal_started :: bool
  or_fallback_attempted :: bool
  or_transition_failed :: bool
  or_cancel_accepted :: bool
  or_terminal_reserved :: bool
  or_active_deadline :: int
  or_ready :: ready_state
  or_goal_open :: bool
  or_canceling :: bool
  or_workflow :: workflow_state
  or_retry :: retry_node
  or_child_goals :: "task_goal list"
  or_child_cancels :: nat
  or_feedback :: "(string \<times> u32) list"
  or_cancel_replies :: "bool list"
  or_results :: "goal_terminal list"

definition orch_kErrorShutdown :: u16 where "orch_kErrorShutdown = 205"
definition kErrorPrecondition :: u16 where "kErrorPrecondition = 206"
definition orch_kErrorCancelUnconfirmed :: u16 where "orch_kErrorCancelUnconfirmed = 207"
definition kErrorInternal :: u16 where "kErrorInternal = 208"
definition kErrorDeadline :: u16 where "kErrorDeadline = 209"

definition orch_configure :: "int \<Rightarrow> int \<Rightarrow> string + orch_config" where
  "orch_configure ready_stale_ms cancel_timeout_ms =
     (if ready_stale_ms \<le> 0 \<or> cancel_timeout_ms \<le> 0
      then Inl ''ready_stale_ms and cancel_timeout_ms must be positive''
      else Inr \<lparr>oc_ready_stale_ms = ready_stale_ms, oc_cancel_timeout_ms = cancel_timeout_ms\<rparr>)"

section \<open>Goal callbacks\<close>

definition steady_max :: int where "steady_max = INT64_MAX"

text \<open>\<open>accepting_\<close> is read twice; a shutdown can come in between.\<close>

definition orch_handle_goal ::
  "bool \<Rightarrow> bool \<Rightarrow> int \<Rightarrow> workflow_goal \<Rightarrow> orchestrator \<Rightarrow> goal_response \<times> orchestrator" where
  "orch_handle_goal accepting still_accepting started_at g s =
     (let d = wg_allowed_duration g in
      if \<not> accepting \<or> sint (dur_sec d) < 0 \<or> 1000000000 \<le> uint (dur_nanosec d) \<or>
         (dur_sec d = 0 \<and> dur_nanosec d = 0)
      then (REJECT ''INVALID_DURATION_OR_SHUTDOWN'', s)
      else if wg_workflow_id g \<noteq> ''single_task'' \<and> wg_workflow_id g \<noteq> ''ready_then_task''
      then (REJECT ''WORKFLOW_NOT_ALLOWLISTED'', s)
      else if or_active s then (REJECT ''WORKFLOW_BUSY'', s)
      else
        let s1 = s\<lparr>or_active := True, or_generation_counter := or_generation_counter s + 1,
                   or_active_generation := or_generation_counter s + 1\<rparr>
        in if \<not> still_accepting then (REJECT [], s1\<lparr>or_active := False\<rparr>)
           else
             let allowed = to_steady_duration d in
             (ACCEPT_AND_EXECUTE,
              s1\<lparr>or_terminal_started := False, or_fallback_attempted := False,
                 or_transition_failed := False, or_cancel_accepted := False,
                 or_terminal_reserved := False,
                 or_active_deadline :=
                   (if steady_max - started_at < allowed then steady_max else started_at + allowed)\<rparr>))"

text \<open>A cancel is refused once the terminal result is reserved.\<close>

definition orch_handle_cancel :: "orchestrator \<Rightarrow> orchestrator" where
  "orch_handle_cancel s =
     (if or_terminal_reserved s then s\<lparr>or_cancel_replies := or_cancel_replies s @ [False]\<rparr>
      else s\<lparr>or_cancel_accepted := True, or_cancel_replies := or_cancel_replies s @ [True]\<rparr>)"

section \<open>Callbacks of the child task\<close>

fun orch_callback :: "orch_event \<Rightarrow> orchestrator \<Rightarrow> orchestrator" where
  "orch_callback (TaskResponse handle) s =
     (let w = (or_workflow s)\<lparr>ws_goal_response_received := True, ws_child_handle := handle\<rparr> in
      s\<lparr>or_workflow :=
         if handle \<and> ws_halt_requested w \<and> \<not> ws_cancel_dispatched w \<and> \<not> ws_cancel_in_flight w
         then w\<lparr>ws_cancel_in_flight := True, ws_late_cancel := True\<rparr> else w\<rparr>)"
| "orch_callback (TaskLateCancelDone err) s =
     (if \<not> ws_late_cancel (or_workflow s) then s
      else s\<lparr>or_workflow := (or_workflow s)\<lparr>ws_late_cancel := False, ws_cancel_in_flight := False,
                              ws_cancel_dispatched := (err = None)\<rparr>,
             or_child_cancels := (if err = None then Suc (or_child_cancels s)
                                  else or_child_cancels s)\<rparr>)"
| "orch_callback (TaskFeedback progress) s =
     s\<lparr>or_workflow := ws_mark ''ExecuteTask'' progress (or_workflow s)\<rparr>"
| "orch_callback (TaskResult r) s =
     s\<lparr>or_workflow := (or_workflow s)\<lparr>ws_child_result := Some r\<rparr>\<rparr>"
| "orch_callback (ReadyMessage ready at) s = s\<lparr>or_ready := ready_update ready at (or_ready s)\<rparr>"
| "orch_callback CancelRequest s = orch_handle_cancel s"
| "orch_callback CancelVisible s =
     (if or_cancel_accepted s \<and> or_goal_open s then s\<lparr>or_canceling := True\<rparr> else s)"

definition or_observe :: "orch_env \<Rightarrow> orchestrator \<Rightarrow> orchestrator" where
  "or_observe e s = fold orch_callback (oe_events e (or_tick s)) (s\<lparr>or_tick := Suc (or_tick s)\<rparr>)"

section \<open>The leaves\<close>

definition or_set_workflow :: "(workflow_state \<Rightarrow> workflow_state) \<Rightarrow> orchestrator \<Rightarrow> orchestrator" where
  "or_set_workflow f s = s\<lparr>or_workflow := f (or_workflow s)\<rparr>"

text \<open>
  \<open>dispatch_cancel\<close>: the request leaves outside the lock; the flags settle under it, by what
  happened. The caller has set \<open>cancel_in_flight\<close>.
\<close>

definition or_dispatch_cancel :: "orch_env \<Rightarrow> orchestrator \<Rightarrow> bool \<times> orchestrator" where
  "or_dispatch_cancel e s =
     (let settle = (\<lambda>ok s'. (ok, or_set_workflow (\<lambda>w. w\<lparr>ws_cancel_in_flight := False,
                                                         ws_cancel_dispatched := ok\<rparr>) s'));
          s1 = or_observe e s; s2 = or_observe e s1
      in if oe_fault e (or_tick s) kBeforeCancelDispatch \<noteq> None then settle False s1
         else if oe_cancel_goal e (or_tick s1) \<noteq> None then settle False s2
         else settle True (s2\<lparr>or_child_cancels := Suc (or_child_cancels s2)\<rparr>))"

definition runtime_ready_tick :: "orch_config \<Rightarrow> orch_env \<Rightarrow> orchestrator \<Rightarrow> node_status \<times> orchestrator" where
  "runtime_ready_tick cfg e s0 =
     (let now = oe_now e (or_tick s0); s = or_observe e s0 in
      (if ready_usable now (oc_ready_stale_ms cfg) (or_ready s) then BT_SUCCESS else BT_FAILURE, s))"

definition retry_ready_start ::
  "orch_config \<Rightarrow> orch_env \<Rightarrow> u32 \<Rightarrow> u32 \<Rightarrow> orchestrator \<Rightarrow> node_status \<times> orchestrator" where
  "retry_ready_start cfg e attempts delay_ms s0 =
     (let now = oe_now e (or_tick s0); s = or_observe e s0;
          n = \<lparr>rn_delay_ms = uint delay_ms, rn_next_check = rn_next_check (or_retry s),
               rn_attempts = attempts, rn_used = 1\<rparr>
      in if ready_usable now (oc_ready_stale_ms cfg) (or_ready s) then (BT_SUCCESS, s\<lparr>or_retry := n\<rparr>)
         else if attempts \<le> 1 then (BT_FAILURE, s\<lparr>or_retry := n\<rparr>)
         else (BT_RUNNING, (or_observe e s)\<lparr>or_retry :=
                 n\<lparr>rn_next_check := oe_now e (or_tick s) + rn_delay_ms n * 1000000\<rparr>\<rparr>))"

definition retry_ready_running ::
  "orch_config \<Rightarrow> orch_env \<Rightarrow> orchestrator \<Rightarrow> node_status \<times> orchestrator" where
  "retry_ready_running cfg e s0 =
     (let s1 = or_observe e s0; n = or_retry s1 in
      if oe_now e (or_tick s0) < rn_next_check n then (BT_RUNNING, s1)
      else
        let now = oe_now e (or_tick s1); s = or_observe e s1; n' = n\<lparr>rn_used := rn_used n + 1\<rparr> in
        if ready_usable now (oc_ready_stale_ms cfg) (or_ready s) then (BT_SUCCESS, s\<lparr>or_retry := n'\<rparr>)
        else if rn_attempts n' \<le> rn_used n' then (BT_FAILURE, s\<lparr>or_retry := n'\<rparr>)
        else (BT_RUNNING, (or_observe e s)\<lparr>or_retry :=
                n'\<lparr>rn_next_check := oe_now e (or_tick s) + rn_delay_ms n' * 1000000\<rparr>\<rparr>))"

text \<open>The child's budget is what is left of the workflow's.\<close>

definition child_budget :: "int \<Rightarrow> duration option" where
  "child_budget remaining =
     (if remaining \<le> 0 then None
      else if INT32_MAX < remaining div 1000000000 then None
      else Some \<lparr>dur_sec = word_of_int (remaining div 1000000000),
                 dur_nanosec = word_of_int (remaining mod 1000000000)\<rparr>)"

definition execute_task_start :: "orch_env \<Rightarrow> orchestrator \<Rightarrow> (string + node_status) \<times> orchestrator" where
  "execute_task_start e s0 =
     (let s1 = or_set_workflow (ws_mark ''ExecuteTask'' 0x3E800000) s0;
          now = oe_now e (or_tick s1); s2 = or_observe e s1
      in case child_budget (ws_deadline (or_workflow s2) - now) of
           None \<Rightarrow> (Inr BT_FAILURE, s2)
         | Some d \<Rightarrow>
             let s3 = or_set_workflow (\<lambda>w. w\<lparr>ws_child_goal := (ws_child_goal w)\<lparr>tg_allowed_duration := d\<rparr>,
                                              ws_child_goal_dispatched := True\<rparr>) s2;
                 s4 = or_observe e s3
             in case oe_send_goal e (or_tick s3) of
                  Some err \<Rightarrow> (Inl err, s4)
                | None \<Rightarrow> (Inr BT_RUNNING,
                    s4\<lparr>or_child_goals := or_child_goals s4 @ [ws_child_goal (or_workflow s4)]\<rparr>))"

definition execute_task_running :: "orch_env \<Rightarrow> orchestrator \<Rightarrow> node_status \<times> orchestrator" where
  "execute_task_running e s0 =
     (let s = or_observe e s0; w = or_workflow s in
      case ws_child_result w of
        Some r \<Rightarrow>
          ((case wr_result r of
              Some res \<Rightarrow> if wr_code r = RC_SUCCEEDED \<and> res_outcome res = COMPLETED
                          then BT_SUCCESS else BT_FAILURE
            | None \<Rightarrow> BT_FAILURE), s)
      | None \<Rightarrow>
          if ws_goal_response_received w \<and> \<not> ws_child_handle w then (BT_FAILURE, s)
          else (BT_RUNNING, s))"

text \<open>
  Halting the task leaf: ask the child to cancel and wait for it, all within the cancel
  timeout. A bounded wait delivers the callbacks of one tick; \<open>mark_timeout\<close> records that its
  condition did not come.
\<close>

definition mark_timeout :: "orch_env \<Rightarrow> (workflow_state \<Rightarrow> bool) \<Rightarrow> orchestrator \<Rightarrow> orchestrator" where
  "mark_timeout e ready s =
     (if ws_cancel_timed_out (or_workflow s) \<or> ready (or_workflow s) then s
      else
        let s1 = or_observe e s in
        if ready (or_workflow s1) then s1
        else or_set_workflow (\<lambda>w. w\<lparr>ws_cancel_timed_out := True\<rparr>) s1)"

text \<open>The loop yields whether \<open>onHalted\<close> goes on.\<close>

partial_function (option) halt_cancel_loop ::
  "orch_env \<Rightarrow> int \<Rightarrow> orchestrator \<Rightarrow> (bool \<times> orchestrator) option" where
  "halt_cancel_loop e cancel_deadline s =
     (let w = or_workflow s;
          timed_out = (\<lambda>s'. (False, or_set_workflow (\<lambda>w. w\<lparr>ws_cancel_timed_out := True\<rparr>) s'))
      in if ws_child_result w \<noteq> None \<or> ws_cancel_dispatched w then Some (True, s)
         else if ws_cancel_in_flight w then
           (let s1 = or_observe e s in
            if ws_child_result (or_workflow s1) \<noteq> None \<or> \<not> ws_cancel_in_flight (or_workflow s1)
            then halt_cancel_loop e cancel_deadline s1
            else Some (timed_out s1))
         else if cancel_deadline \<le> oe_now e (or_tick s) then Some (timed_out s)
         else
           (let (ok, s1) = or_dispatch_cancel e
                  (or_set_workflow (\<lambda>w. w\<lparr>ws_cancel_in_flight := True\<rparr>) s)
            in halt_cancel_loop e cancel_deadline
                 (if \<not> ok \<and> ws_child_result (or_workflow s1) = None then or_observe e s1 else s1)))"

declare halt_cancel_loop.simps [code]

definition execute_task_halted :: "orch_config \<Rightarrow> orch_env \<Rightarrow> orchestrator \<Rightarrow> orchestrator option" where
  "execute_task_halted cfg e s0 =
     (let cancel_deadline = oe_now e (or_tick s0) + oc_cancel_timeout_ms cfg * 1000000;
          s1 = or_set_workflow (\<lambda>w. w\<lparr>ws_halt_requested := True\<rparr>) (or_observe e s0);
          response_ready = (\<lambda>w. ws_child_result w \<noteq> None \<or> ws_goal_response_received w);
          s2 = mark_timeout e response_ready s1; w = or_workflow s2
      in if \<not> response_ready w then Some s2
         else if ws_child_result w \<noteq> None \<or> \<not> ws_child_handle w then Some s2
         else case halt_cancel_loop e cancel_deadline s2 of
                None \<Rightarrow> None
              | Some (False, s3) \<Rightarrow> Some s3
              | Some (True, s3) \<Rightarrow> Some (mark_timeout e (\<lambda>w. ws_child_result w \<noteq> None) s3))"

fun run_leaf ::
  "orch_config \<Rightarrow> orch_env \<Rightarrow> leaf_call \<Rightarrow> orchestrator \<Rightarrow> ((string + node_status) \<times> orchestrator) option"
where
  "run_leaf cfg e RuntimeReadyTick s = Some (apfst Inr (runtime_ready_tick cfg e s))"
| "run_leaf cfg e (RetryReadyStart attempts delay) s =
     Some (apfst Inr (retry_ready_start cfg e attempts delay s))"
| "run_leaf cfg e RetryReadyRunning s = Some (apfst Inr (retry_ready_running cfg e s))"
| "run_leaf cfg e ExecuteTaskStart s = Some (execute_task_start e s)"
| "run_leaf cfg e ExecuteTaskRunning s = Some (apfst Inr (execute_task_running e s))"
| "run_leaf cfg e ExecuteTaskHalted s =
     map_option (\<lambda>s'. (Inr BT_RUNNING, s')) (execute_task_halted cfg e s)"

text \<open>The leaves the library calls, up to the first exception.\<close>

primrec run_leaves ::
  "orch_config \<Rightarrow> orch_env \<Rightarrow> leaf_call list \<Rightarrow> orchestrator \<Rightarrow> (string option \<times> orchestrator) option"
where
  "run_leaves cfg e [] s = Some (None, s)"
| "run_leaves cfg e (l # ls) s =
     (case run_leaf cfg e l s of
        None \<Rightarrow> None
      | Some (Inl err, s1) \<Rightarrow> Some (Some err, s1)
      | Some (Inr _, s1) \<Rightarrow> run_leaves cfg e ls s1)"

section \<open>The terminal transition\<close>

datatype terminal_kind = kSucceed | kAbort | kCanceled

definition terminal_of :: "terminal_kind \<Rightarrow> u8 \<Rightarrow> u16 \<Rightarrow> string \<Rightarrow> goal_terminal" where
  "terminal_of kind oc code message =
     (let r = \<lparr>res_outcome = oc, res_error_code = code, res_message = message\<rparr> in
      case kind of kSucceed \<Rightarrow> GSucceeded r | kAbort \<Rightarrow> GAborted r | kCanceled \<Rightarrow> GCanceled r)"

definition release_active_for_generation :: "u64 \<Rightarrow> orchestrator \<Rightarrow> orchestrator" where
  "release_active_for_generation generation s =
     (if or_active_generation s = generation then s\<lparr>or_active := False\<rparr> else s)"

text \<open>
  One attempt at a transition of the goal handle, after its hook: whether it returned, and the
  state. An exception can come before or after the goal took the transition.
\<close>

definition try_transition ::
  "orch_env \<Rightarrow> fault_point \<Rightarrow> goal_terminal \<Rightarrow> orchestrator \<Rightarrow> bool \<times> orchestrator" where
  "try_transition e point t s =
     (let s1 = or_observe e s;
          commit = (\<lambda>s'. s'\<lparr>or_goal_open := False, or_results := or_results s' @ [t]\<rparr>)
      in if oe_fault e (or_tick s) point \<noteq> None then (False, s1)
         else case oe_transition e (or_tick s1) of
                None \<Rightarrow> (True, release_active_for_generation (or_active_generation s1)
                          (commit (or_observe e s1)))
              | Some (_, committed) \<Rightarrow>
                  (False, if committed then commit (or_observe e s1) else or_observe e s1))"

text \<open>
  What is committed: a success gives way to a cancel accepted in the meantime, then to the
  deadline. The decision and the reservation are one critical section.
\<close>

definition decide_terminal ::
  "terminal_kind \<Rightarrow> u8 \<Rightarrow> u16 \<Rightarrow> string \<Rightarrow> int \<Rightarrow> orchestrator \<Rightarrow> goal_terminal" where
  "decide_terminal kind oc code message now s =
     (if kind = kSucceed \<and> or_cancel_accepted s
      then terminal_of kAbort SAFE_STOP kErrorInternal
             ''parent cancel raced with terminal child result''
      else if kind = kSucceed \<and> or_active_deadline s \<le> now
      then terminal_of kAbort SAFE_STOP kErrorDeadline
             ''workflow allowed duration exceeded at terminal commit''
      else terminal_of kind oc code message)"

definition fallback_terminal :: goal_terminal where
  "fallback_terminal =
     terminal_of kAbort SAFE_STOP kErrorInternal ''workflow terminal transition fallback''"

definition commit_terminal :: "orch_env \<Rightarrow> goal_terminal \<Rightarrow> orchestrator \<Rightarrow> bool \<times> orchestrator" where
  "commit_terminal e t s =
     (if \<not> or_goal_open s then (True, s)
      else case try_transition e kBeforeTerminalTransition t s of
             (True, s1) \<Rightarrow> (True, s1)
           | (False, s1) \<Rightarrow>
               let (done, s2) =
                     (if or_goal_open s1 \<and> \<not> or_fallback_attempted s1
                      then try_transition e kBeforeFallbackAbort fallback_terminal
                             (s1\<lparr>or_fallback_attempted := True\<rparr>)
                      else (False, s1))
               in if done then (True, s2)
                  else if or_goal_open s2 then (False, s2\<lparr>or_transition_failed := True\<rparr>)
                  else (True, s2))"

definition orch_terminal ::
  "orch_env \<Rightarrow> u8 \<Rightarrow> u16 \<Rightarrow> string \<Rightarrow> terminal_kind \<Rightarrow> orchestrator \<Rightarrow> bool \<times> orchestrator" where
  "orch_terminal e oc code message kind s =
     (if or_terminal_started s then (\<not> or_transition_failed s, s)
      else
        let s1 = s\<lparr>or_terminal_started := True\<rparr>;
            s2 = (if kind = kSucceed then or_observe e s1 else s1);
            now = oe_now e (or_tick s2); s3 = or_observe e s2
        in if or_terminal_reserved s3 then (\<not> or_transition_failed s3, s3)
           else commit_terminal e (decide_terminal kind oc code message now s3)
                  (s3\<lparr>or_terminal_reserved := True\<rparr>))"

definition orch_finish :: "orch_env \<Rightarrow> orchestrator \<Rightarrow> orchestrator" where
  "orch_finish e s0 =
     (let parent_canceling = or_canceling s0; s = or_observe e s0; w = or_workflow s;
          terminal = (\<lambda>oc code message kind. snd (orch_terminal e oc code message kind s))
      in if parent_canceling \<and> ws_cancel_timed_out w
         then terminal SAFE_STOP orch_kErrorCancelUnconfirmed
                ''child task cancel exceeded the confirmation budget'' kAbort
         else case (case ws_child_result w of None \<Rightarrow> None
                    | Some r \<Rightarrow> map_option (\<lambda>res. (wr_code r, res)) (wr_result r)) of
                None \<Rightarrow>
                  if parent_canceling \<and> ws_child_goal_dispatched w
                  then terminal SAFE_STOP orch_kErrorCancelUnconfirmed
                         ''child task cancel was not confirmed in time'' kAbort
                  else if parent_canceling
                  then terminal CANCELED 0 ''workflow canceled before child task dispatch'' kCanceled
                  else terminal SAFE_STOP kErrorPrecondition ''workflow precondition failed'' kAbort
              | Some (code, child) \<Rightarrow>
                  if parent_canceling then
                    (if res_outcome child = CANCELED
                     then terminal (res_outcome child) (res_error_code child) (res_message child) kCanceled
                     else if res_outcome child = SAFE_STOP \<or> res_outcome child = DEVICE_FAULT
                     then terminal (res_outcome child) (res_error_code child) (res_message child) kAbort
                     else terminal SAFE_STOP kErrorInternal
                            ''parent cancel raced with non-canceled child result'' kAbort)
                  else if res_outcome child = COMPLETED \<and> code = RC_SUCCEEDED
                  then terminal (res_outcome child) (res_error_code child) (res_message child) kSucceed
                  else if res_outcome child = CANCELED
                  then terminal SAFE_STOP kErrorInternal
                         ''child canceled without parent cancellation'' kAbort
                  else terminal (res_outcome child) (res_error_code child) (res_message child) kAbort)"

section \<open>The worker\<close>

definition or_publish_feedback :: "orch_env \<Rightarrow> orchestrator \<Rightarrow> string option \<times> orchestrator" where
  "or_publish_feedback e s0 =
     (let s = or_observe e s0 in
      case oe_feedback e (or_tick s0) of
        Some err \<Rightarrow> (Some err, s)
      | None \<Rightarrow> (None, s\<lparr>or_feedback := or_feedback s @
          [(ws_active_node (or_workflow s), ws_progress (or_workflow s))]\<rparr>))"

text \<open>Halt the tree, then go on.\<close>

definition halt_then ::
  "orch_config \<Rightarrow> orch_env \<Rightarrow> (orchestrator \<Rightarrow> orchestrator) \<Rightarrow> orchestrator \<Rightarrow>
     (string option \<times> orchestrator) option" where
  "halt_then cfg e k s =
     (case run_leaves cfg e (oe_halt_tree e (or_tick s)) s of
        None \<Rightarrow> None
      | Some (Some err, s1) \<Rightarrow> Some (Some err, s1)
      | Some (None, s1) \<Rightarrow> Some (None, k s1))"

definition deadline_terminal :: "orch_env \<Rightarrow> orchestrator \<Rightarrow> orchestrator" where
  "deadline_terminal e s =
     snd (orch_terminal e SAFE_STOP kErrorDeadline ''workflow allowed duration exceeded'' kAbort s)"

partial_function (option) orch_loop ::
  "orch_config \<Rightarrow> orch_env \<Rightarrow> orchestrator \<Rightarrow> (string option \<times> orchestrator) option" where
  "orch_loop cfg e s0 =
     (let t = or_tick s0; s = or_observe e s0 in
      if \<not> oe_running e t \<or> \<not> oe_ok e t
      then halt_then cfg e (\<lambda>s. snd (orch_terminal e SAFE_STOP orch_kErrorShutdown
             ''orchestrator shutdown'' kAbort s)) s
      else if or_canceling s then halt_then cfg e (orch_finish e) s
      else if ws_deadline (or_workflow s) \<le> oe_now e t then halt_then cfg e (deadline_terminal e) s
      else
        let (leaves, status) = oe_tick_tree e (or_tick s) in
        case run_leaves cfg e leaves s of
          None \<Rightarrow> None
        | Some (Some err, s1) \<Rightarrow> Some (Some err, s1)
        | Some (None, s1) \<Rightarrow>
            (case or_publish_feedback e s1 of
               (Some err, s2) \<Rightarrow> Some (Some err, s2)
             | (None, s2) \<Rightarrow>
                 if ws_deadline (or_workflow s2) \<le> oe_now e (or_tick s2)
                 then halt_then cfg e (deadline_terminal e) s2
                 else if status \<noteq> BT_RUNNING then Some (None, orch_finish e s2)
                 else orch_loop cfg e (or_observe e s2)))"

declare orch_loop.simps [code]

definition orch_execute ::
  "orch_config \<Rightarrow> orch_env \<Rightarrow> workflow_goal \<Rightarrow> orchestrator \<Rightarrow> (string option \<times> orchestrator) option"
where
  "orch_execute cfg e g s =
     (let s1 = s\<lparr>or_workflow := workflow_state_new g (or_active_deadline s)\<rparr> in
      case oe_create_tree e of Some err \<Rightarrow> Some (Some err, s1) | None \<Rightarrow> orch_loop cfg e s1)"

definition finish_worker :: "u64 \<Rightarrow> orchestrator \<Rightarrow> orchestrator" where
  "finish_worker generation s =
     (if \<not> or_transition_failed s \<and> or_active_generation s = generation
      then release_active_for_generation generation s else s)"

text \<open>
  The worker. When the exception of \<open>execute\<close> unwinds, the library's tree is destroyed and may
  call leaves again; then the goal is aborted.
\<close>

definition run_worker ::
  "orch_config \<Rightarrow> orch_env \<Rightarrow> u64 \<Rightarrow> workflow_goal \<Rightarrow> orchestrator \<Rightarrow> orchestrator option" where
  "run_worker cfg e generation g s =
     map_option (finish_worker generation)
       (case orch_execute cfg e g s of
          None \<Rightarrow> None
        | Some (None, s1) \<Rightarrow> Some s1
        | Some (Some _, s1) \<Rightarrow>
            (case run_leaves cfg e (oe_halt_tree e (or_tick s1)) s1 of
               None \<Rightarrow> None
             | Some (_, s2) \<Rightarrow> Some (snd (orch_terminal e SAFE_STOP kErrorInternal
                 ''workflow worker internal error'' kAbort s2))))"

definition orch_handle_accepted ::
  "orch_config \<Rightarrow> orch_env \<Rightarrow> workflow_goal \<Rightarrow> orchestrator \<Rightarrow> orchestrator option" where
  "orch_handle_accepted cfg e g s =
     run_worker cfg e (or_active_generation s) g (s\<lparr>or_goal_open := True, or_canceling := False\<rparr>)"

end
