(* ===== verification/Orchestrator_Runs.thy ===== *)
theory Orchestrator_Runs
  imports Task_Orchestrator
begin

text \<open>
  The runs of the orchestrator's worker: what its leaves keep of the workflow, which evidence a
  terminal result has, how often the child is cancelled, and that a run ends.
\<close>

section \<open>The state of an open workflow\<close>

definition heard_task :: "orch_env \<Rightarrow> wrapped_result \<Rightarrow> bool" where
  "heard_task e r \<longleftrightarrow> (\<exists>t. TaskResult r \<in> set (oe_events e t))"

text \<open>The part of the state only the terminal transition changes.\<close>

definition octl where
  "octl s = (or_active s, or_generation_counter s, or_active_generation s, or_terminal_started s,
             or_fallback_attempted s, or_transition_failed s, or_active_deadline s, or_goal_open s,
             or_results s, or_terminal_reserved s)"

text \<open>A child goal carries the workflow's identities and a duration the executor accepts.\<close>

definition child_goal_of :: "workflow_goal \<Rightarrow> task_goal \<Rightarrow> bool" where
  "child_goal_of g c \<longleftrightarrow>
     tg_task_id c = wg_task_id g \<and> tg_target_id c = wg_target_id g \<and>
     tg_request_id c = wg_request_id g \<and> tg_workflow_id c = wg_workflow_id g"

text \<open>It never outlives the workflow: its budget is what was left at some instant.\<close>

definition child_duration_ok :: "orch_env \<Rightarrow> orchestrator \<Rightarrow> task_goal \<Rightarrow> bool" where
  "child_duration_ok e s0 c \<longleftrightarrow>
     duration_is_valid (tg_allowed_duration c) \<and>
     (\<exists>t. to_steady_duration (tg_allowed_duration c) = or_active_deadline s0 - oe_now e t)"

definition child_inv_w :: "orch_env \<Rightarrow> workflow_goal \<Rightarrow> orchestrator \<Rightarrow> orchestrator \<Rightarrow> bool" where
  "child_inv_w e g s0 s \<longleftrightarrow>
     (\<forall>r. ws_child_result (or_workflow s) = Some r \<longrightarrow> heard_task e r) \<and>
     child_goal_of g (ws_child_goal (or_workflow s)) \<and>
     (ws_child_goal_dispatched (or_workflow s) \<longrightarrow>
        child_duration_ok e s0 (ws_child_goal (or_workflow s))) \<and>
     (\<exists>gs. or_child_goals s = or_child_goals s0 @ gs \<and>
        (gs \<noteq> [] \<longrightarrow> ws_child_goal_dispatched (or_workflow s)) \<and>
        (\<forall>c \<in> set gs. child_goal_of g c \<and> child_duration_ok e s0 c))"

definition cancel_inv :: "orchestrator \<Rightarrow> orchestrator \<Rightarrow> bool" where
  "cancel_inv s0 s \<longleftrightarrow>
     or_child_cancels s =
       or_child_cancels s0 + (if ws_cancel_dispatched (or_workflow s) then 1 else 0) \<and>
     (ws_cancel_in_flight (or_workflow s) \<longrightarrow> \<not> ws_cancel_dispatched (or_workflow s)) \<and>
     (ws_late_cancel (or_workflow s) \<longrightarrow> ws_cancel_in_flight (or_workflow s))"

definition oinv :: "orch_env \<Rightarrow> workflow_goal \<Rightarrow> orchestrator \<Rightarrow> orchestrator \<Rightarrow> bool" where
  "oinv e g s0 s \<longleftrightarrow> child_inv_w e g s0 s \<and> cancel_inv s0 s \<and> (or_canceling s \<longrightarrow> or_cancel_accepted s)"

text \<open>Open and not terminal yet, since the worker started in \<open>s0\<close>.\<close>

definition oopen :: "orch_env \<Rightarrow> workflow_goal \<Rightarrow> orchestrator \<Rightarrow> orchestrator \<Rightarrow> bool" where
  "oopen e g s0 s \<longleftrightarrow>
     octl s = octl s0 \<and> ws_deadline (or_workflow s) = or_active_deadline s0 \<and> oinv e g s0 s"

section \<open>Callbacks and observations\<close>

lemma octl_update [simp]:
  "octl (s\<lparr>or_tick := a\<rparr>) = octl s" "octl (s\<lparr>or_workflow := w\<rparr>) = octl s"
  "octl (s\<lparr>or_child_cancels := n\<rparr>) = octl s" "octl (s\<lparr>or_retry := r\<rparr>) = octl s"
  "octl (s\<lparr>or_child_goals := gs\<rparr>) = octl s" "octl (s\<lparr>or_feedback := f\<rparr>) = octl s"
  "octl (s\<lparr>or_ready := y\<rparr>) = octl s" "octl (s\<lparr>or_cancel_accepted := b\<rparr>) = octl s"
  "octl (s\<lparr>or_canceling := b\<rparr>) = octl s" "octl (s\<lparr>or_cancel_replies := bs\<rparr>) = octl s"
  by (simp_all add: octl_def)

lemma orch_callback_simps [simp]:
  "or_tick (orch_callback ev s) = or_tick s"
  "octl (orch_callback ev s) = octl s"
  "ws_deadline (or_workflow (orch_callback ev s)) = ws_deadline (or_workflow s)"
  "ws_halt_requested (or_workflow (orch_callback ev s)) = ws_halt_requested (or_workflow s)"
  by (cases ev; simp add: Let_def orch_handle_cancel_def ws_mark_def)+

lemma fold_orch_callback [simp]:
  "or_tick (fold orch_callback evs s) = or_tick s"
  "octl (fold orch_callback evs s) = octl s"
  "ws_deadline (or_workflow (fold orch_callback evs s)) = ws_deadline (or_workflow s)"
  by (induction evs arbitrary: s) simp_all

lemma or_observe_simps [simp]:
  "or_tick (or_observe e s) = Suc (or_tick s)"
  "octl (or_observe e s) = octl s"
  "ws_deadline (or_workflow (or_observe e s)) = ws_deadline (or_workflow s)"
  by (simp_all add: or_observe_def)

lemma orch_callback_oinv:
  assumes "oinv e g s0 s" and "ev \<in> set (oe_events e t)"
  shows "oinv e g s0 (orch_callback ev s)"
proof (cases ev)
  case (TaskResult r)
  with assms(2) have "heard_task e r" by (auto simp: heard_task_def)
  with assms(1) TaskResult show ?thesis by (simp add: oinv_def child_inv_w_def cancel_inv_def)
qed (use assms(1) in \<open>auto simp: oinv_def child_inv_w_def cancel_inv_def orch_handle_cancel_def
      ws_mark_def Let_def split: if_splits\<close>)

lemma fold_orch_callback_oinv:
  "oinv e g s0 s \<Longrightarrow> set evs \<subseteq> set (oe_events e t) \<Longrightarrow> oinv e g s0 (fold orch_callback evs s)"
  by (induction evs arbitrary: s) (auto intro!: orch_callback_oinv)

lemma oinv_update [simp]:
  "oinv e g s0 (s\<lparr>or_tick := a\<rparr>) = oinv e g s0 s" "oinv e g s0 (s\<lparr>or_retry := r\<rparr>) = oinv e g s0 s"
  "oinv e g s0 (s\<lparr>or_feedback := f\<rparr>) = oinv e g s0 s"
  "oinv e g s0 (s\<lparr>or_terminal_started := b\<rparr>) = oinv e g s0 s"
  "oinv e g s0 (s\<lparr>or_terminal_reserved := b\<rparr>) = oinv e g s0 s"
  "oinv e g s0 (s\<lparr>or_fallback_attempted := b\<rparr>) = oinv e g s0 s"
  "oinv e g s0 (s\<lparr>or_transition_failed := b\<rparr>) = oinv e g s0 s"
  "oinv e g s0 (s\<lparr>or_goal_open := b\<rparr>) = oinv e g s0 s"
  "oinv e g s0 (s\<lparr>or_active := b\<rparr>) = oinv e g s0 s"
  "oinv e g s0 (s\<lparr>or_results := rs\<rparr>) = oinv e g s0 s"
  by (simp_all add: oinv_def child_inv_w_def cancel_inv_def)

lemma or_observe_oinv: "oinv e g s0 s \<Longrightarrow> oinv e g s0 (or_observe e s)"
  unfolding or_observe_def by (rule fold_orch_callback_oinv) auto

lemma or_observe_oopen [intro]: "oopen e g s0 s \<Longrightarrow> oopen e g s0 (or_observe e s)"
  by (simp add: oopen_def or_observe_oinv)

lemma oopen_update [simp]:
  "oopen e g s0 (s\<lparr>or_retry := r\<rparr>) = oopen e g s0 s"
  "oopen e g s0 (s\<lparr>or_feedback := f\<rparr>) = oopen e g s0 s"
  by (simp_all add: oopen_def)

text \<open>A cancel request of the worker is on its way: it holds the in-flight flag.\<close>

definition oclaimed :: "orchestrator \<Rightarrow> bool" where
  "oclaimed s \<longleftrightarrow> ws_cancel_in_flight (or_workflow s) \<and> \<not> ws_late_cancel (or_workflow s)"

lemma orch_callback_oclaimed: "oclaimed s \<Longrightarrow> oclaimed (orch_callback ev s)"
  by (cases ev) (auto simp: oclaimed_def Let_def orch_handle_cancel_def ws_mark_def)

lemma or_observe_oclaimed: "oclaimed s \<Longrightarrow> oclaimed (or_observe e s)"
proof -
  have "oclaimed s \<Longrightarrow> oclaimed (fold orch_callback evs s)" for evs s
    by (induction evs arbitrary: s) (auto intro!: orch_callback_oclaimed)
  then show "oclaimed s \<Longrightarrow> oclaimed (or_observe e s)" by (simp add: or_observe_def oclaimed_def)
qed

section \<open>The leaves\<close>

lemma or_set_workflow_simps [simp]:
  "or_tick (or_set_workflow f s) = or_tick s" "octl (or_set_workflow f s) = octl s"
  "or_workflow (or_set_workflow f s) = f (or_workflow s)"
  "or_child_goals (or_set_workflow f s) = or_child_goals s"
  by (simp_all add: or_set_workflow_def)

lemma or_set_workflow_oopen:
  assumes "oopen e g s0 s"
  shows "oopen e g s0 (or_set_workflow (ws_mark n v) s)"
    and "oopen e g s0 (or_set_workflow (\<lambda>w. w\<lparr>ws_halt_requested := b\<rparr>) s)"
    and "oopen e g s0 (or_set_workflow (\<lambda>w. w\<lparr>ws_cancel_timed_out := b\<rparr>) s)"
  using assms
  by (simp_all add: oopen_def oinv_def child_inv_w_def cancel_inv_def or_set_workflow_def ws_mark_def)

lemma or_set_in_flight:
  assumes "oopen e g s0 s" and "\<not> ws_cancel_in_flight (or_workflow s)"
    and "\<not> ws_cancel_dispatched (or_workflow s)"
  shows "oopen e g s0 (or_set_workflow (\<lambda>w. w\<lparr>ws_cancel_in_flight := True\<rparr>) s)"
    and "oclaimed (or_set_workflow (\<lambda>w. w\<lparr>ws_cancel_in_flight := True\<rparr>) s)"
  using assms
  by (auto simp: oopen_def oinv_def child_inv_w_def cancel_inv_def or_set_workflow_def oclaimed_def)

lemma or_settle_oopen:
  assumes "oopen e g s0 s" and "oclaimed s"
  shows "oopen e g s0 (or_set_workflow (\<lambda>w. w\<lparr>ws_cancel_in_flight := False,
      ws_cancel_dispatched := False\<rparr>) s)"
    and "oopen e g s0 (or_set_workflow (\<lambda>w. w\<lparr>ws_cancel_in_flight := False,
      ws_cancel_dispatched := True\<rparr>) (s\<lparr>or_child_cancels := Suc (or_child_cancels s)\<rparr>))"
  using assms
  by (auto simp: oopen_def oinv_def child_inv_w_def cancel_inv_def or_set_workflow_def oclaimed_def)

lemma or_dispatch_cancel_oopen:
  assumes "oopen e g s0 s" and "oclaimed s"
  shows "oopen e g s0 (snd (or_dispatch_cancel e s))"
proof -
  let ?s1 = "or_observe e s" let ?s2 = "or_observe e ?s1"
  have "oopen e g s0 ?s1" "oopen e g s0 ?s2" "oclaimed ?s1" "oclaimed ?s2"
    using assms by (auto intro!: or_observe_oclaimed)
  then show ?thesis
    using or_settle_oopen [of e g s0 ?s1] or_settle_oopen [of e g s0 ?s2]
    by (simp add: or_dispatch_cancel_def Let_def)
qed

lemma or_dispatch_cancel_tick: "or_tick s < or_tick (snd (or_dispatch_cancel e s))"
  by (simp add: or_dispatch_cancel_def Let_def)

lemma or_dispatch_cancel_settled:
  "or_dispatch_cancel e s = (ok, s1) \<Longrightarrow>
     ws_cancel_dispatched (or_workflow s1) = ok \<and> \<not> ws_cancel_in_flight (or_workflow s1)"
  by (auto simp: or_dispatch_cancel_def Let_def split: if_splits)

lemma ready_leaves_oopen:
  assumes "oopen e g s0 s"
  shows "oopen e g s0 (snd (runtime_ready_tick cfg e s))"
    and "oopen e g s0 (snd (retry_ready_start cfg e a d s))"
    and "oopen e g s0 (snd (retry_ready_running cfg e s))"
    and "oopen e g s0 (snd (execute_task_running e s))"
proof -
  have o: "oopen e g s0 (or_observe e s)" "oopen e g s0 (or_observe e (or_observe e s))"
    "oopen e g s0 (or_observe e (or_observe e (or_observe e s)))"
    using assms by auto
  then show "oopen e g s0 (snd (runtime_ready_tick cfg e s))"
    and "oopen e g s0 (snd (retry_ready_start cfg e a d s))"
    and "oopen e g s0 (snd (retry_ready_running cfg e s))"
    and "oopen e g s0 (snd (execute_task_running e s))"
    by (simp_all add: runtime_ready_tick_def retry_ready_start_def retry_ready_running_def
        execute_task_running_def Let_def split: option.split)
qed

lemma ready_leaves_tick:
  "or_tick s \<le> or_tick (snd (runtime_ready_tick cfg e s))"
  "or_tick s \<le> or_tick (snd (retry_ready_start cfg e a d s))"
  "or_tick s \<le> or_tick (snd (retry_ready_running cfg e s))"
  "or_tick s \<le> or_tick (snd (execute_task_running e s))"
  by (simp_all add: runtime_ready_tick_def retry_ready_start_def retry_ready_running_def
      execute_task_running_def Let_def split: option.split)

lemma child_budget_valid:
  assumes "child_budget remaining = Some d"
  shows "duration_is_valid d \<and> to_steady_duration d = remaining"
proof -
  have r: "0 < remaining" "remaining div 1000000000 \<le> INT32_MAX"
    and d: "d = \<lparr>dur_sec = word_of_int (remaining div 1000000000),
                 dur_nanosec = word_of_int (remaining mod 1000000000)\<rparr>"
    using assms by (auto simp: child_budget_def split: if_splits)
  have q: "0 \<le> remaining div 1000000000" using r by (simp add: pos_imp_zdiv_nonneg_iff)
  have m: "0 \<le> remaining mod 1000000000" "remaining mod 1000000000 < 1000000000" by simp_all
  have s: "sint (dur_sec d) = remaining div 1000000000" using q r by (simp add: d)
  have n: "uint (dur_nanosec d) = remaining mod 1000000000" using m by (simp add: d)
  have t: "to_steady_duration d = remaining" by (simp add: to_steady_duration_def s n)
  have "0 < remaining div 1000000000 \<or> 0 < remaining mod 1000000000"
    using q m r div_mult_mod_eq [of remaining 1000000000] by linarith
  then show ?thesis using q m t by (simp add: duration_is_valid_def s n)
qed

lemma execute_task_start_oopen:
  assumes "oopen e g s0 s"
  shows "oopen e g s0 (snd (execute_task_start e s))"
proof -
  define s1 where "s1 = or_set_workflow (ws_mark ''ExecuteTask'' 0x3E800000) s"
  define s2 where "s2 = or_observe e s1"
  have o2: "oopen e g s0 s2" using assms by (auto simp: s2_def s1_def or_set_workflow_oopen)
  have dl: "ws_deadline (or_workflow s1) = or_active_deadline s0"
    using assms by (simp add: s1_def oopen_def ws_mark_def)
  show ?thesis
  proof (cases "child_budget (ws_deadline (or_workflow s1) - oe_now e (or_tick s1))")
    case None
    with o2 show ?thesis
      by (simp add: execute_task_start_def s1_def [symmetric] s2_def [symmetric] Let_def)
  next
    case (Some d)
    define s3 where "s3 = or_set_workflow (\<lambda>w. w\<lparr>ws_child_goal := (ws_child_goal w)\<lparr>tg_allowed_duration := d\<rparr>,
      ws_child_goal_dispatched := True\<rparr>) s2"
    define s4 where "s4 = or_observe e s3"
    have o3: "oopen e g s0 s3" and d3: "ws_child_goal_dispatched (or_workflow s3)"
      using o2 child_budget_valid [OF Some] dl
      by (auto simp: child_duration_ok_def s3_def oopen_def oinv_def child_inv_w_def cancel_inv_def child_goal_of_def
          or_set_workflow_def)
    have o4: "oopen e g s0 s4" using o3 by (auto simp: s4_def)
    have "ws_child_goal_dispatched (or_workflow (orch_callback ev x)) =
      ws_child_goal_dispatched (or_workflow x)" for ev x
      by (cases ev) (auto simp: Let_def orch_handle_cancel_def ws_mark_def)
    then have "ws_child_goal_dispatched (or_workflow (fold orch_callback evs x)) =
      ws_child_goal_dispatched (or_workflow x)" for evs x
      by (induction evs arbitrary: x) simp_all
    then have d4: "ws_child_goal_dispatched (or_workflow s4)" using d3 by (simp add: s4_def or_observe_def)
    have "oopen e g s0 (s4\<lparr>or_child_goals := or_child_goals s4 @ [ws_child_goal (or_workflow s4)]\<rparr>)"
      using o4 d4 by (auto simp: oopen_def oinv_def child_inv_w_def cancel_inv_def)
    with o4 show ?thesis
      by (simp add: execute_task_start_def s1_def [symmetric] s2_def [symmetric] Some Let_def
          s3_def [symmetric] s4_def [symmetric] split: option.split)
  qed
qed

lemma execute_task_start_tick: "or_tick s \<le> or_tick (snd (execute_task_start e s))"
  by (simp add: execute_task_start_def Let_def split: option.split)

lemma mark_timeout_oopen: "oopen e g s0 s \<Longrightarrow> oopen e g s0 (mark_timeout e P s)"
  by (auto simp: mark_timeout_def Let_def intro!: or_set_workflow_oopen)

lemma mark_timeout_tick: "or_tick s \<le> or_tick (mark_timeout e P s)"
  by (simp add: mark_timeout_def Let_def)

lemma halt_cancel_loop_Some:
  "halt_cancel_loop e d s = Some x \<Longrightarrow>
     (oopen e g s0 s \<longrightarrow> oopen e g s0 (snd x)) \<and> or_tick s \<le> or_tick (snd x)"
proof (induction rule: halt_cancel_loop.raw_induct [rotated 1, consumes 1, case_names step])
  case (step hl e d s x)
  let ?w = "or_workflow s" and ?s1 = "or_observe e s"
  let ?out = "\<lambda>s'. (False, or_set_workflow (\<lambda>w. w\<lparr>ws_cancel_timed_out := True\<rparr>) s')"
  show ?case
  proof (cases "ws_child_result ?w \<noteq> None \<or> ws_cancel_dispatched ?w")
    case True
    with step.hyps show ?thesis by auto
  next
    case live: False
    show ?thesis
    proof (cases "ws_cancel_in_flight ?w")
      case flight: True
      show ?thesis
      proof (cases "ws_child_result (or_workflow ?s1) \<noteq> None \<or> \<not> ws_cancel_in_flight (or_workflow ?s1)")
        case True
        with step.hyps live flight have "hl e d ?s1 = Some x" by (auto simp: Let_def)
        from step.IH [OF this] show ?thesis by auto
      next
        case False
        with step.hyps live flight have "x = ?out ?s1" by (auto simp: Let_def)
        then show ?thesis by (auto intro!: or_set_workflow_oopen)
      qed
    next
      case idle: False
      show ?thesis
      proof (cases "d \<le> oe_now e (or_tick s)")
        case True
        with step.hyps live idle have "x = ?out s" by (auto simp: Let_def)
        then show ?thesis by (auto intro!: or_set_workflow_oopen)
      next
        case False
        let ?s2 = "or_set_workflow (\<lambda>w. w\<lparr>ws_cancel_in_flight := True\<rparr>) s"
        obtain ok s3 where dc: "or_dispatch_cancel e ?s2 = (ok, s3)" by fastforce
        let ?s4 = "if \<not> ok \<and> ws_child_result (or_workflow s3) = None then or_observe e s3 else s3"
        from step.hyps live idle False dc have rec: "hl e d ?s4 = Some x" by (auto simp: Let_def)
        have o3: "oopen e g s0 s \<Longrightarrow> oopen e g s0 s3"
          using or_set_in_flight [of e g s0 s] or_dispatch_cancel_oopen [of e g s0 ?s2] live idle dc
          by auto
        have "or_tick s < or_tick s3" using or_dispatch_cancel_tick [of ?s2 e] dc by simp
        then have t4: "or_tick s < or_tick ?s4" by simp
        have o4: "oopen e g s0 s \<Longrightarrow> oopen e g s0 ?s4" using o3 by auto
        from step.IH [OF rec] have "(oopen e g s0 ?s4 \<longrightarrow> oopen e g s0 (snd x)) \<and>
            or_tick ?s4 \<le> or_tick (snd x)" .
        with o4 t4 show ?thesis by linarith
      qed
    qed
  qed
qed

lemma execute_task_halted_Some:
  assumes "execute_task_halted cfg e s = Some s'"
  shows "(oopen e g s0 s \<longrightarrow> oopen e g s0 s') \<and> or_tick s < or_tick s'"
proof -
  define s1 where "s1 = or_set_workflow (\<lambda>w. w\<lparr>ws_halt_requested := True\<rparr>) (or_observe e s)"
  define ready where "ready = (\<lambda>w :: workflow_state. ws_child_result w \<noteq> None \<or> ws_goal_response_received w)"
  define s2 where "s2 = mark_timeout e ready s1"
  have o2: "oopen e g s0 s \<longrightarrow> oopen e g s0 s2"
    by (auto simp: s2_def s1_def intro!: mark_timeout_oopen or_set_workflow_oopen)
  have t2: "or_tick s < or_tick s2"
    using mark_timeout_tick [of s1 e ready] by (simp add: s2_def s1_def)
  note eq = assms [unfolded execute_task_halted_def Let_def, folded s1_def ready_def, folded s2_def]
  show ?thesis
  proof (cases "\<not> ready (or_workflow s2) \<or> ws_child_result (or_workflow s2) \<noteq> None \<or>
      \<not> ws_child_handle (or_workflow s2)")
    case True
    with eq have "s' = s2" by (auto simp: ready_def split: if_splits)
    with o2 t2 show ?thesis by simp
  next
    case False
    with eq obtain b s3 where l: "halt_cancel_loop e
        (oe_now e (or_tick s) + oc_cancel_timeout_ms cfg * 1000000) s2 = Some (b, s3)"
      and s': "s' = (if b then mark_timeout e (\<lambda>w. ws_child_result w \<noteq> None) s3 else s3)"
      by (auto simp: ready_def split: option.splits bool.splits)
    from halt_cancel_loop_Some [OF l, of g s0] o2 t2
      mark_timeout_tick [of s3 e "\<lambda>w. ws_child_result w \<noteq> None"] show ?thesis
      by (auto simp: s' intro!: mark_timeout_oopen)
  qed
qed

lemma run_leaf_Some:
  assumes "run_leaf cfg e l s = Some x"
  shows "(oopen e g s0 s \<longrightarrow> oopen e g s0 (snd x)) \<and> or_tick s \<le> or_tick (snd x)"
proof (cases l)
  case ExecuteTaskHalted
  with assms execute_task_halted_Some [of cfg e s _ g s0] show ?thesis by fastforce
qed (use assms in \<open>auto simp: ready_leaves_oopen ready_leaves_tick execute_task_start_oopen
      execute_task_start_tick\<close>)

lemma run_leaves_Some:
  "run_leaves cfg e ls s = Some x \<Longrightarrow>
     (oopen e g s0 s \<longrightarrow> oopen e g s0 (snd x)) \<and> or_tick s \<le> or_tick (snd x)"
proof (induction ls arbitrary: s)
  case (Cons l ls)
  then obtain r s1 where l: "run_leaf cfg e l s = Some (r, s1)" by (auto split: option.splits)
  note l' = run_leaf_Some [OF l, of g s0]
  show ?case
  proof (cases r)
    case (Inl err)
    with Cons.prems l l' show ?thesis by auto
  next
    case (Inr st)
    with Cons.prems l have "run_leaves cfg e ls s1 = Some x" by simp
    from Cons.IH [OF this] l' show ?thesis by auto
  qed
qed auto

section \<open>The terminal transition\<close>

definition orch_fresh :: "orchestrator \<Rightarrow> bool" where
  "orch_fresh s \<longleftrightarrow> or_goal_open s \<and> \<not> or_terminal_started s \<and> \<not> or_terminal_reserved s \<and>
     \<not> or_fallback_attempted s \<and> \<not> or_transition_failed s \<and> or_active s"

definition orch_transitions_ok :: "orch_env \<Rightarrow> bool" where
  "orch_transitions_ok e \<longleftrightarrow>
     (\<forall>t. oe_fault e t kBeforeTerminalTransition = None \<and> oe_transition e t = None)"

text \<open>
  After the terminal decision: the invariant still holds, the reservation stays, and the results
  are those of \<open>s0\<close> followed by at most one, \<open>t\<close> or the fallback.
\<close>

definition oclosed :: "orch_env \<Rightarrow> workflow_goal \<Rightarrow> orchestrator \<Rightarrow> goal_terminal \<Rightarrow> orchestrator \<Rightarrow> bool" where
  "oclosed e g s0 t s \<longleftrightarrow>
     oinv e g s0 s \<and> or_terminal_reserved s \<and> or_active_generation s = or_active_generation s0 \<and>
     (or_results s = or_results s0 @ [t] \<or>
      \<not> orch_transitions_ok e \<and>
        (or_results s = or_results s0 @ [fallback_terminal] \<or> or_results s = or_results s0)) \<and>
     (orch_transitions_ok e \<longrightarrow> \<not> or_active s \<and> \<not> or_transition_failed s)"

lemma octl_eqD:
  assumes "octl s = octl s'"
  shows "or_active s = or_active s'" "or_active_generation s = or_active_generation s'"
    "or_terminal_started s = or_terminal_started s'"
    "or_fallback_attempted s = or_fallback_attempted s'"
    "or_transition_failed s = or_transition_failed s'"
    "or_active_deadline s = or_active_deadline s'" "or_goal_open s = or_goal_open s'"
    "or_results s = or_results s'" "or_terminal_reserved s = or_terminal_reserved s'"
  using assms by (simp_all add: octl_def)

lemmas or_observe_octl = octl_eqD [OF or_observe_simps(2)]

text \<open>A reserved terminal freezes the cancel verdict.\<close>

lemma orch_callback_reserved:
  "or_terminal_reserved s \<Longrightarrow> or_cancel_accepted (orch_callback ev s) = or_cancel_accepted s"
  by (cases ev) (auto simp: orch_handle_cancel_def Let_def)

lemma orch_callback_reserved_kept [simp]:
  "or_terminal_reserved (orch_callback ev s) = or_terminal_reserved s"
  by (cases ev) (auto simp: orch_handle_cancel_def Let_def)

lemma or_observe_frozen:
  "or_terminal_reserved s \<Longrightarrow> or_cancel_accepted (or_observe e s) = or_cancel_accepted s"
proof -
  have "or_terminal_reserved s \<Longrightarrow>
      or_cancel_accepted (fold orch_callback evs s) = or_cancel_accepted s" for evs s
    by (induction evs arbitrary: s) (simp_all add: orch_callback_reserved)
  then show "or_terminal_reserved s \<Longrightarrow> or_cancel_accepted (or_observe e s) = or_cancel_accepted s"
    by (simp add: or_observe_def)
qed

lemma or_observe_child_goals [simp]: "or_child_goals (or_observe e s) = or_child_goals s"
proof -
  have "or_child_goals (orch_callback ev s) = or_child_goals s" for ev s
    by (cases ev) (auto simp: orch_handle_cancel_def Let_def)
  then have "or_child_goals (fold orch_callback evs s) = or_child_goals s" for evs s
    by (induction evs arbitrary: s) simp_all
  then show ?thesis by (simp add: or_observe_def)
qed

lemma or_observe_accepted: "or_cancel_accepted s \<Longrightarrow> or_cancel_accepted (or_observe e s)"
proof -
  have "or_cancel_accepted s \<Longrightarrow> or_cancel_accepted (orch_callback ev s)" for ev s
    by (cases ev) (auto simp: orch_handle_cancel_def Let_def)
  then have "or_cancel_accepted s \<Longrightarrow> or_cancel_accepted (fold orch_callback evs s)" for evs s
    by (induction evs arbitrary: s) simp_all
  then show "or_cancel_accepted s \<Longrightarrow> or_cancel_accepted (or_observe e s)"
    by (simp add: or_observe_def)
qed

lemma release_simps [simp]:
  "or_child_goals (release_active_for_generation n s) = or_child_goals s"
  "or_fallback_attempted (release_active_for_generation n s) = or_fallback_attempted s"
  "or_results (release_active_for_generation n s) = or_results s"
  "or_terminal_reserved (release_active_for_generation n s) = or_terminal_reserved s"
  "or_goal_open (release_active_for_generation n s) = or_goal_open s"
  "or_active_generation (release_active_for_generation n s) = or_active_generation s"
  "or_cancel_accepted (release_active_for_generation n s) = or_cancel_accepted s"
  "or_transition_failed (release_active_for_generation n s) = or_transition_failed s"
  "or_active (release_active_for_generation (or_active_generation s) s) = False"
  "oinv e g s0 (release_active_for_generation n s) = oinv e g s0 s"
  by (simp_all add: release_active_for_generation_def)

lemma try_transition_effect:
  assumes "try_transition e p t s = (ok, s')" and "or_terminal_reserved s" and "oinv e g s0 s"
    and "or_goal_open s"
  shows "oinv e g s0 s' \<and> or_terminal_reserved s' \<and> or_cancel_accepted s' = or_cancel_accepted s \<and>
    or_active_generation s' = or_active_generation s \<and> or_transition_failed s' = or_transition_failed s \<and>
    or_child_goals s' = or_child_goals s \<and>
    or_fallback_attempted s' = or_fallback_attempted s \<and>
    (if or_goal_open s' then or_results s' = or_results s \<and> \<not> ok
     else or_results s' = or_results s @ [t]) \<and>
    (ok \<longrightarrow> \<not> or_active s')"
proof -
  let ?s1 = "or_observe e s" let ?s2 = "or_observe e ?s1"
  have i: "oinv e g s0 ?s1" "oinv e g s0 ?s2" using assms(3) by (auto intro!: or_observe_oinv)
  have f: "or_cancel_accepted ?s1 = or_cancel_accepted s" "or_cancel_accepted ?s2 = or_cancel_accepted s"
    using assms(2) by (simp_all add: or_observe_frozen or_observe_octl)
  show ?thesis
  proof (cases "oe_fault e (or_tick s) p")
    case (Some err)
    with assms i f show ?thesis by (auto simp: try_transition_def or_observe_octl)
  next
    case None
    note nofault = None
    show ?thesis
    proof (cases "oe_transition e (or_tick ?s1)")
      case None
      with assms(1) nofault have "ok" "s' = release_active_for_generation (or_active_generation ?s1)
          (?s2\<lparr>or_goal_open := False, or_results := or_results ?s2 @ [t]\<rparr>)"
        by (simp_all add: try_transition_def Let_def)
      with assms i f show ?thesis
        by (simp add: or_observe_octl release_active_for_generation_def)
    next
      case (Some y)
      obtain m c where y: "y = (m, c)" by fastforce
      with assms(1) nofault Some have "\<not> ok" "s' = (if c
          then ?s2\<lparr>or_goal_open := False, or_results := or_results ?s2 @ [t]\<rparr> else ?s2)"
        by (simp_all add: try_transition_def Let_def)
      with assms i f show ?thesis by (simp add: or_observe_octl)
    qed
  qed
qed

lemma try_transition_ok:
  "orch_transitions_ok e \<Longrightarrow> fst (try_transition e kBeforeTerminalTransition t s)"
  by (simp add: try_transition_def orch_transitions_ok_def Let_def)

lemma commit_terminal_effect:
  assumes "commit_terminal e t s = (ok, s')" and "or_terminal_reserved s" and "oinv e g s0 s"
    and "or_goal_open s" and "\<not> or_fallback_attempted s" and "\<not> or_transition_failed s"
    and "or_results s = or_results s0" and "or_active_generation s = or_active_generation s0"
  shows "oclosed e g s0 t s' \<and> or_cancel_accepted s' = or_cancel_accepted s \<and>
    or_child_goals s' = or_child_goals s"
proof -
  obtain ok1 s1 where t1: "try_transition e kBeforeTerminalTransition t s = (ok1, s1)" by fastforce
  note e1 = try_transition_effect [OF t1 assms(2,3,4)]
  show ?thesis
  proof (cases ok1)
    case True
    with assms t1 e1 show ?thesis
      by (auto simp: commit_terminal_def oclosed_def split: if_splits)
  next
    case False
    then have bad: "\<not> orch_transitions_ok e" using try_transition_ok [of e t s] t1 by auto
    show ?thesis
    proof (cases "or_goal_open s1")
      case closed: False
      with assms t1 False e1 bad show ?thesis
        by (auto simp: commit_terminal_def oclosed_def)
    next
      case True
      let ?s1 = "s1\<lparr>or_fallback_attempted := True\<rparr>"
      obtain ok2 s2 where t2: "try_transition e kBeforeFallbackAbort fallback_terminal ?s1 = (ok2, s2)"
        by fastforce
      have "or_terminal_reserved ?s1" "oinv e g s0 ?s1" "or_goal_open ?s1" using e1 True by auto
      note e2 = try_transition_effect [OF t2 this]
      from assms t1 False True e1 t2 have s': "s' = (if ok2 then s2
          else if or_goal_open s2 then s2\<lparr>or_transition_failed := True\<rparr> else s2)"
        by (auto simp: commit_terminal_def split: if_splits)
      show ?thesis
        using e2 e1 True assms(7,8) bad
        by (cases ok2; cases "or_goal_open s2") (auto simp: s' oclosed_def)
    qed
  qed
qed

section \<open>What justifies a terminal result\<close>

definition task_outcome :: "orch_env \<Rightarrow> result_code option \<Rightarrow> action_result \<Rightarrow> bool" where
  "task_outcome e rc r \<longleftrightarrow>
     (\<exists>child. heard_task e child \<and> wr_result child = Some r \<and> (rc = None \<or> rc = Some (wr_code child)))"

text \<open>
  \<open>s'\<close> is the state after the transition. A success repeats the child's, no cancel was accepted
  and none will be, and the deadline had not passed at the commit. A cancellation answers an
  accepted cancel, with no child goal sent or the child's own cancellation. Anything else is a
  safe stop or repeats the child's result.
\<close>

definition orch_justified ::
  "orch_env \<Rightarrow> int \<Rightarrow> orchestrator \<Rightarrow> orchestrator \<Rightarrow> goal_terminal \<Rightarrow> bool" where
  "orch_justified e deadline s s' t \<longleftrightarrow>
     (case t of
        GSucceeded r \<Rightarrow> res_outcome r = COMPLETED \<and> task_outcome e (Some RC_SUCCEEDED) r \<and>
          \<not> or_cancel_accepted s' \<and> (\<exists>n. oe_now e n < deadline)
      | GCanceled r \<Rightarrow> res_outcome r = CANCELED \<and> or_cancel_accepted s' \<and>
          (or_child_goals s' = or_child_goals s \<or> task_outcome e None r)
      | GAborted r \<Rightarrow> res_outcome r = SAFE_STOP \<or>
          (res_outcome r \<noteq> CANCELED \<and> task_outcome e None r))"

lemma orch_terminal_effect:
  assumes "oopen e g s0 s" and "orch_fresh s0" and "orch_terminal e oc code m kind s = (ok, s')"
  shows "\<exists>t. oclosed e g s0 t s' \<and> or_child_goals s' = or_child_goals s \<and>
    (or_cancel_accepted s \<longrightarrow> or_cancel_accepted s') \<and>
    (t = terminal_of kind oc code m \<and>
       (kind = kSucceed \<longrightarrow> \<not> or_cancel_accepted s' \<and> (\<exists>n. oe_now e n < or_active_deadline s0)) \<or>
     (\<exists>c m'. t = terminal_of kAbort SAFE_STOP c m'))"
proof -
  let ?s1 = "s\<lparr>or_terminal_started := True\<rparr>"
  define s2 where "s2 = (if kind = kSucceed then or_observe e ?s1 else ?s1)"
  define s3 where "s3 = or_observe e s2"
  define t where "t = decide_terminal kind oc code m (oe_now e (or_tick s2)) s3"
  note c = octl_eqD [of s s0] and f = assms(2) [unfolded orch_fresh_def]
  from assms(1) have octl: "octl s = octl s0" and inv: "oinv e g s0 s" by (simp_all add: oopen_def)
  note c = c [OF octl]
  have s3: "oinv e g s0 s3" "or_results s3 = or_results s0" "or_goal_open s3"
    "\<not> or_terminal_reserved s3" "\<not> or_fallback_attempted s3" "\<not> or_transition_failed s3"
    "or_active_generation s3 = or_active_generation s0" "or_child_goals s3 = or_child_goals s"
    "or_active_deadline s3 = or_active_deadline s0"
    using inv c f by (auto simp: s3_def s2_def or_observe_octl intro!: or_observe_oinv)
  have acc: "or_cancel_accepted s \<longrightarrow> or_cancel_accepted s3"
    by (auto simp: s3_def s2_def intro!: or_observe_accepted)
  from assms(3) c f s3 have commit: "commit_terminal e t (s3\<lparr>or_terminal_reserved := True\<rparr>) = (ok, s')"
    by (simp add: orch_terminal_def Let_def s2_def [symmetric] s3_def [symmetric] t_def)
  from commit_terminal_effect [OF commit] s3
  have closed: "oclosed e g s0 t s'" "or_cancel_accepted s' = or_cancel_accepted s3"
    "or_child_goals s' = or_child_goals s" by simp_all
  have "(t = terminal_of kind oc code m \<and>
       (kind = kSucceed \<longrightarrow> \<not> or_cancel_accepted s3 \<and> (\<exists>n. oe_now e n < or_active_deadline s0))) \<or>
     (\<exists>c m'. t = terminal_of kAbort SAFE_STOP c m')"
  proof (cases "kind = kSucceed \<and> (or_cancel_accepted s3 \<or> or_active_deadline s0 \<le> oe_now e (or_tick s2))")
    case True
    then show ?thesis unfolding t_def decide_terminal_def s3(9) by auto
  next
    case False
    then have "t = terminal_of kind oc code m" unfolding t_def decide_terminal_def s3(9) by auto
    moreover have "\<exists>n. oe_now e n < or_active_deadline s0" if "kind = kSucceed"
      using that False by (auto simp: not_le)
    ultimately show ?thesis using False by blast
  qed
  then show ?thesis unfolding closed(2) [symmetric] using closed acc by blast
qed

lemma orch_finish_effect:
  assumes "oopen e g s0 s" and "orch_fresh s0"
  shows "\<exists>t. oclosed e g s0 t (orch_finish e s) \<and>
    orch_justified e (or_active_deadline s0) s0 (orch_finish e s) t"
proof -
  let ?s = "or_observe e s" let ?w = "or_workflow ?s"
  have o: "oopen e g s0 ?s" using assms(1) ..
  have inv: "oinv e g s0 ?s" using o by (simp add: oopen_def)
  have acc: "or_canceling s \<Longrightarrow> or_cancel_accepted ?s"
    using assms(1) by (auto simp: oopen_def oinv_def intro: or_observe_accepted)
  have goals: "\<not> ws_child_goal_dispatched ?w \<Longrightarrow> or_child_goals ?s = or_child_goals s0"
    using inv by (auto simp: oinv_def child_inv_w_def)
  have heard: "task_outcome e None res \<and> (wr_code r = RC_SUCCEEDED \<longrightarrow> task_outcome e (Some RC_SUCCEEDED) res)"
    if "ws_child_result ?w = Some r" "wr_result r = Some res" for r res
    using inv that by (auto simp: oinv_def child_inv_w_def task_outcome_def)
  define ok where "ok oc code m kind \<longleftrightarrow>
    (let r = \<lparr>res_outcome = oc, res_error_code = code, res_message = m\<rparr> in
     oc = SAFE_STOP \<and> kind = kAbort \<or>
     kind = kSucceed \<and> oc = COMPLETED \<and> task_outcome e (Some RC_SUCCEEDED) r \<or>
     kind = kCanceled \<and> oc = CANCELED \<and> or_canceling s \<and>
       (\<not> ws_child_goal_dispatched ?w \<or> task_outcome e None r) \<or>
     kind = kAbort \<and> oc \<noteq> CANCELED \<and> task_outcome e None r)" for oc code m kind
  have go: "orch_justified e (or_active_deadline s0) s0 s' t"
    if ok: "ok oc code m kind" and t: "or_child_goals s' = or_child_goals ?s"
        "or_cancel_accepted ?s \<longrightarrow> or_cancel_accepted s'"
      and d: "t = terminal_of kind oc code m \<and>
          (kind = kSucceed \<longrightarrow> \<not> or_cancel_accepted s' \<and> (\<exists>n. oe_now e n < or_active_deadline s0)) \<or>
        (\<exists>c m'. t = terminal_of kAbort SAFE_STOP c m')" for oc code m kind s' t
    using d
  proof
    assume "\<exists>c m'. t = terminal_of kAbort SAFE_STOP c m'"
    then show ?thesis by (auto simp: orch_justified_def terminal_of_def Let_def)
  next
    assume "t = terminal_of kind oc code m \<and>
        (kind = kSucceed \<longrightarrow> \<not> or_cancel_accepted s' \<and> (\<exists>n. oe_now e n < or_active_deadline s0))"
    then show ?thesis using ok t acc goals
      by (cases kind) (auto simp: orch_justified_def terminal_of_def Let_def ok_def)
  qed
  have ex: "\<exists>oc' code' m' kind'. snd (orch_terminal e oc code m kind ?s) =
      snd (orch_terminal e oc' code' m' kind' ?s) \<and> ok oc' code' m' kind'"
    if "ok oc code m kind" for oc code m kind
    using that by blast
  have "\<exists>oc code m kind. orch_finish e s = snd (orch_terminal e oc code m kind ?s) \<and> ok oc code m kind"
  proof (cases "or_canceling s \<and> ws_cancel_timed_out ?w")
    case True
    then show ?thesis unfolding orch_finish_def Let_def by (auto intro!: ex simp: ok_def Let_def)
  next
    case timely: False
    show ?thesis
    proof (cases "\<exists>r res. ws_child_result ?w = Some r \<and> wr_result r = Some res")
      case False
      then have "(case ws_child_result ?w of None \<Rightarrow> None
          | Some r \<Rightarrow> map_option (\<lambda>res. (wr_code r, res)) (wr_result r)) = None"
        by (auto split: option.split)
      with timely show ?thesis
        unfolding orch_finish_def Let_def by (auto intro!: ex simp: ok_def Let_def)
    next
      case True
      then obtain r res where r: "ws_child_result ?w = Some r" "wr_result r = Some res" by blast
      let ?c = "res_error_code res" and ?m = "res_message res"
      note h = heard [OF r]
      have k: "\<And>c m. ok SAFE_STOP c m kAbort"
        "wr_code r = RC_SUCCEEDED \<Longrightarrow> res_outcome res = COMPLETED \<Longrightarrow> ok COMPLETED ?c ?m kSucceed"
        "or_canceling s \<Longrightarrow> res_outcome res = CANCELED \<Longrightarrow> ok CANCELED ?c ?m kCanceled"
        "\<And>oc. res_outcome res = oc \<Longrightarrow> oc \<noteq> CANCELED \<Longrightarrow> ok oc ?c ?m kAbort"
        using h by (cases res; auto simp: ok_def Let_def)+
      define G where "G x \<longleftrightarrow>
        (\<exists>oc code m kind. x = snd (orch_terminal e oc code m kind ?s) \<and> ok oc code m kind)" for x
      have ex': "G (snd (orch_terminal e oc code m kind ?s))" if "ok oc code m kind" for oc code m kind
        unfolding G_def using that by blast
      from timely r have eq: "orch_finish e s = (if or_canceling s then
          (if res_outcome res = CANCELED then snd (orch_terminal e CANCELED ?c ?m kCanceled ?s)
           else if res_outcome res = SAFE_STOP \<or> res_outcome res = DEVICE_FAULT
           then snd (orch_terminal e (res_outcome res) ?c ?m kAbort ?s)
           else snd (orch_terminal e SAFE_STOP kErrorInternal
                  ''parent cancel raced with non-canceled child result'' kAbort ?s))
        else if res_outcome res = COMPLETED \<and> wr_code r = RC_SUCCEEDED
        then snd (orch_terminal e COMPLETED ?c ?m kSucceed ?s)
        else if res_outcome res = CANCELED
        then snd (orch_terminal e SAFE_STOP kErrorInternal
               ''child canceled without parent cancellation'' kAbort ?s)
        else snd (orch_terminal e (res_outcome res) ?c ?m kAbort ?s))"
        unfolding orch_finish_def Let_def by auto
      have ifG: "G (if b then x else y)" if "b \<Longrightarrow> G x" "\<not> b \<Longrightarrow> G y" for b x y
        using that by simp
      have "G (orch_finish e s)"
        unfolding eq by (intro ifG ex') (rule k; simp)+
      then show ?thesis by (simp add: G_def)
    qed
  qed
  then obtain oc code m kind where fin: "orch_finish e s = snd (orch_terminal e oc code m kind ?s)"
    and k: "ok oc code m kind" by blast
  obtain b where "orch_terminal e oc code m kind ?s = (b, orch_finish e s)"
    using fin by (metis prod.collapse)
  from orch_terminal_effect [OF o assms(2) this] obtain t where
    t: "oclosed e g s0 t (orch_finish e s)" and j: "or_child_goals (orch_finish e s) = or_child_goals ?s"
      "or_cancel_accepted ?s \<longrightarrow> or_cancel_accepted (orch_finish e s)"
      "t = terminal_of kind oc code m \<and> (kind = kSucceed \<longrightarrow>
          \<not> or_cancel_accepted (orch_finish e s) \<and> (\<exists>n. oe_now e n < or_active_deadline s0)) \<or>
        (\<exists>c m'. t = terminal_of kAbort SAFE_STOP c m')"
    by (elim exE conjE) (rule that)
  from t go [OF k j] show ?thesis by (intro exI conjI)
qed

section \<open>The worker\<close>

text \<open>An end with evidence.\<close>

definition orch_done :: "orch_env \<Rightarrow> workflow_goal \<Rightarrow> orchestrator \<Rightarrow> orchestrator \<Rightarrow> bool" where
  "orch_done e g s0 s' \<longleftrightarrow>
     (\<exists>t. oclosed e g s0 t s' \<and> orch_justified e (or_active_deadline s0) s0 s' t)"

definition orch_ended ::
  "orch_env \<Rightarrow> workflow_goal \<Rightarrow> orchestrator \<Rightarrow> string option \<times> orchestrator \<Rightarrow> bool" where
  "orch_ended e g s0 x \<longleftrightarrow>
     (case fst x of None \<Rightarrow> orch_done e g s0 (snd x) | Some err \<Rightarrow> oopen e g s0 (snd x))"

lemma orch_abort_done:
  assumes "oopen e g s0 s" and "orch_fresh s0"
  shows "orch_done e g s0 (snd (orch_terminal e SAFE_STOP code m kAbort s))"
proof -
  obtain ok s' where x: "orch_terminal e SAFE_STOP code m kAbort s = (ok, s')" by fastforce
  from orch_terminal_effect [OF assms x] obtain t where "oclosed e g s0 t s'"
    and "t = terminal_of kAbort SAFE_STOP code m \<or> (\<exists>c m'. t = terminal_of kAbort SAFE_STOP c m')"
    by (elim exE conjE) blast
  moreover from this(2) have "orch_justified e (or_active_deadline s0) s0 s' t"
    by (auto simp: orch_justified_def terminal_of_def Let_def)
  ultimately show ?thesis unfolding orch_done_def x snd_conv by (intro exI conjI)
qed

lemma orch_finish_done:
  "oopen e g s0 s \<Longrightarrow> orch_fresh s0 \<Longrightarrow> orch_done e g s0 (orch_finish e s)"
  unfolding orch_done_def by (rule orch_finish_effect)

lemma halt_then_ended:
  assumes "halt_then cfg e k s = Some x" and "oopen e g s0 s"
    and "\<And>s'. oopen e g s0 s' \<Longrightarrow> orch_done e g s0 (k s')"
  shows "orch_ended e g s0 x"
proof -
  from assms(1) obtain r s1 where l: "run_leaves cfg e (oe_halt_tree e (or_tick s)) s = Some (r, s1)"
    and x: "x = (r, if r = None then k s1 else s1)"
    by (auto simp: halt_then_def split: option.splits)
  from run_leaves_Some [OF l, of g s0] assms(2) have "oopen e g s0 s1" by simp
  with assms(3) [OF this] show ?thesis by (cases r) (simp_all add: orch_ended_def x)
qed

lemma or_publish_feedback_effect:
  assumes "or_publish_feedback e s = (r, s')" and "oopen e g s0 s"
  shows "oopen e g s0 s' \<and> or_tick s' = Suc (or_tick s)"
proof -
  have "oopen e g s0 (or_observe e s)" using assms(2) ..
  with assms(1) show ?thesis
    by (auto simp: or_publish_feedback_def Let_def split: option.splits)
qed

lemma orch_loop_ended:
  "orch_loop cfg e s = Some x \<Longrightarrow> oopen e g s0 s \<Longrightarrow> orch_fresh s0 \<Longrightarrow> orch_ended e g s0 x"
proof (induction rule: orch_loop.raw_induct [rotated 1, consumes 1, case_names step])
  case (step ol cfg e s x)
  let ?t = "or_tick s" and ?s = "or_observe e s"
  have o: "oopen e g s0 ?s" using step.prems(1) ..
  note abort = orch_abort_done [OF _ step.prems(2)] and fin = orch_finish_done [OF _ step.prems(2)]
  have deadline: "oopen e g s0 s' \<Longrightarrow> orch_done e g s0 (deadline_terminal e s')" for s'
    unfolding deadline_terminal_def by (rule abort)
  note halt = halt_then_ended [OF _ o]
  show ?case
  proof (cases "\<not> oe_running e ?t \<or> \<not> oe_ok e ?t")
    case True
    with step.hyps have "halt_then cfg e (\<lambda>s. snd (orch_terminal e SAFE_STOP orch_kErrorShutdown
      ''orchestrator shutdown'' kAbort s)) ?s = Some x" by (simp add: Let_def)
    then show ?thesis by (rule halt) (rule abort)
  next
    case running: False
    show ?thesis
    proof (cases "or_canceling ?s")
      case True
      with step.hyps running have "halt_then cfg e (orch_finish e) ?s = Some x" by (simp add: Let_def)
      then show ?thesis by (rule halt) (rule fin)
    next
      case wanted: False
      show ?thesis
      proof (cases "ws_deadline (or_workflow ?s) \<le> oe_now e ?t")
        case True
        with step.hyps running wanted have "halt_then cfg e (deadline_terminal e) ?s = Some x"
          by (simp add: Let_def)
        then show ?thesis by (rule halt) (rule deadline)
      next
        case timely: False
        obtain leaves status where tree: "oe_tick_tree e (or_tick ?s) = (leaves, status)" by fastforce
        show ?thesis
        proof (cases "run_leaves cfg e leaves ?s")
          case None
          with step.hyps running wanted timely tree show ?thesis by (simp add: Let_def)
        next
          case (Some y)
          obtain r s1 where y: "y = (r, s1)" by fastforce
          from run_leaves_Some [OF Some, of g s0] o y have o1: "oopen e g s0 s1" by simp
          show ?thesis
          proof (cases r)
            case (Some err)
            with step.hyps running wanted timely tree \<open>run_leaves _ _ _ _ = _\<close> y have "x = (Some err, s1)"
              by (simp add: Let_def)
            then show ?thesis using o1 by (simp add: orch_ended_def)
          next
            case r: None
            obtain f s2 where fb: "or_publish_feedback e s1 = (f, s2)" by fastforce
            from or_publish_feedback_effect [OF fb o1] have o2: "oopen e g s0 s2" by simp
            show ?thesis
            proof (cases f)
              case (Some err)
              with step.hyps running wanted timely tree \<open>run_leaves _ _ _ _ = _\<close> y r fb
              have "x = (Some err, s2)" by (simp add: Let_def)
              then show ?thesis using o2 by (simp add: orch_ended_def)
            next
              case None
              with step.hyps running wanted timely tree \<open>run_leaves _ _ _ _ = _\<close> y r fb
              have rest: "(if ws_deadline (or_workflow s2) \<le> oe_now e (or_tick s2)
                  then halt_then cfg e (deadline_terminal e) s2
                  else if status \<noteq> BT_RUNNING then Some (None, orch_finish e s2)
                  else ol cfg e (or_observe e s2)) = Some x" by (simp add: Let_def)
              consider "halt_then cfg e (deadline_terminal e) s2 = Some x"
                | "x = (None, orch_finish e s2)" | "ol cfg e (or_observe e s2) = Some x"
                using rest by (metis option.inject)
              then show ?thesis
              proof cases
                case 1
                then show ?thesis by (rule halt_then_ended [OF _ o2]) (rule deadline)
              next
                case 2
                then show ?thesis using fin [OF o2] by (simp add: orch_ended_def)
              next
                case 3
                from step.IH [OF this _ step.prems(2)] o2 show ?thesis by blast
              qed
            qed
          qed
        qed
      qed
    qed
  qed
qed

lemma run_worker_done:
  assumes "run_worker cfg e generation g s = Some s'" and "orch_fresh s"
    and "oopen e g s (s\<lparr>or_workflow := workflow_state_new g (or_active_deadline s)\<rparr>)"
  shows "\<exists>s1. orch_done e g s s1 \<and> s' = finish_worker generation s1"
proof -
  let ?s = "s\<lparr>or_workflow := workflow_state_new g (or_active_deadline s)\<rparr>"
  from assms(1) obtain r s1 where x: "orch_execute cfg e g s = Some (r, s1)"
    by (auto simp: run_worker_def split: option.splits)
  have "orch_ended e g s (r, s1)"
  proof (cases "oe_create_tree e")
    case None
    with x have "orch_loop cfg e ?s = Some (r, s1)" by (simp add: orch_execute_def)
    then show ?thesis using assms(3,2) by (rule orch_loop_ended)
  next
    case (Some err)
    with x have "r = Some err" "s1 = ?s" by (simp_all add: orch_execute_def)
    with assms(3) show ?thesis by (simp add: orch_ended_def)
  qed
  show ?thesis
  proof (cases r)
    case None
    with assms(1) x \<open>orch_ended e g s (r, s1)\<close> show ?thesis
      by (auto simp: run_worker_def orch_ended_def)
  next
    case (Some err)
    with \<open>orch_ended e g s (r, s1)\<close> have o: "oopen e g s s1" by (simp add: orch_ended_def)
    from assms(1) x Some obtain r2 s2 where
      l: "run_leaves cfg e (oe_halt_tree e (or_tick s1)) s1 = Some (r2, s2)"
      and s': "s' = finish_worker generation (snd (orch_terminal e SAFE_STOP kErrorInternal
                 ''workflow worker internal error'' kAbort s2))"
      by (auto simp: run_worker_def split: option.splits)
    from run_leaves_Some [OF l, of g s] o have "oopen e g s s2" by simp
    from orch_abort_done [OF this assms(2)] s' show ?thesis by blast
  qed
qed

section \<open>Termination\<close>

definition orch_clock_passes :: "orch_env \<Rightarrow> bool" where
  "orch_clock_passes e \<longleftrightarrow> (\<forall>d. \<exists>T. \<forall>t \<ge> T. d \<le> oe_now e t)"

lemma halt_cancel_loop_flight:
  assumes "ws_cancel_in_flight (or_workflow s)"
    and "\<not> ws_cancel_in_flight (or_workflow (or_observe e s)) \<Longrightarrow>
      \<exists>x. halt_cancel_loop e d (or_observe e s) = Some x"
  shows "\<exists>x. halt_cancel_loop e d s = Some x"
proof -
  have over: "\<exists>x. halt_cancel_loop e d s' = Some x" if "ws_child_result (or_workflow s') \<noteq> None" for s'
    using that by (subst halt_cancel_loop.simps) (auto simp: Let_def)
  have step: "halt_cancel_loop e d s =
      (if ws_child_result (or_workflow s) \<noteq> None \<or> ws_cancel_dispatched (or_workflow s) then Some (True, s)
       else if ws_child_result (or_workflow (or_observe e s)) \<noteq> None \<or>
         \<not> ws_cancel_in_flight (or_workflow (or_observe e s))
       then halt_cancel_loop e d (or_observe e s)
       else Some (False, or_set_workflow (\<lambda>w. w\<lparr>ws_cancel_timed_out := True\<rparr>) (or_observe e s)))"
    using assms(1) by (subst halt_cancel_loop.simps) (simp add: Let_def)
  show ?thesis
    unfolding step using over [of "or_observe e s"] assms(2) by auto
qed

lemma halt_cancel_loop_returns:
  assumes "\<And>t. T \<le> t \<Longrightarrow> d \<le> oe_now e t"
  shows "\<exists>x. halt_cancel_loop e d s = Some x"
proof -
  have idle: "\<exists>x. halt_cancel_loop e d s = Some x" if "\<not> ws_cancel_in_flight (or_workflow s)" for s
    using that
  proof (induction "T - or_tick s" arbitrary: s rule: less_induct)
    case less
    show ?case
    proof (cases "ws_child_result (or_workflow s) \<noteq> None \<or> ws_cancel_dispatched (or_workflow s) \<or>
        d \<le> oe_now e (or_tick s)")
      case True
      with less.prems show ?thesis by (subst halt_cancel_loop.simps) (auto simp: Let_def)
    next
      case False
      let ?s2 = "or_set_workflow (\<lambda>w. w\<lparr>ws_cancel_in_flight := True\<rparr>) s"
      obtain ok s3 where dc: "or_dispatch_cancel e ?s2 = (ok, s3)" by fastforce
      define s4 where "s4 = (if \<not> ok \<and> ws_child_result (or_workflow s3) = None
        then or_observe e s3 else s3)"
      have "or_tick s < or_tick s3" using or_dispatch_cancel_tick [of ?s2 e] dc by simp
      then have t: "or_tick s < or_tick s4" by (simp add: s4_def)
      have before: "or_tick s < T" using False assms by (meson not_le)
      have step: "halt_cancel_loop e d s = halt_cancel_loop e d s4"
        using False less.prems dc
        by (subst halt_cancel_loop.simps) (auto simp: Let_def s4_def)
      show ?thesis
      proof (cases "ws_cancel_in_flight (or_workflow s4)")
        case False
        then show ?thesis unfolding step by (intro less.hyps) (use t before in auto)
      next
        case True
        then show ?thesis
          unfolding step by (rule halt_cancel_loop_flight) (rule less.hyps; use t before in simp)
      qed
    qed
  qed
  show ?thesis
  proof (cases "ws_cancel_in_flight (or_workflow s)")
    case True
    then show ?thesis by (rule halt_cancel_loop_flight) (rule idle)
  qed (rule idle)
qed

lemma run_leaf_returns:
  assumes "orch_clock_passes e"
  shows "\<exists>x. run_leaf cfg e l s = Some x"
proof -
  have "\<exists>x. halt_cancel_loop e d s' = Some x" for d s'
    using assms halt_cancel_loop_returns unfolding orch_clock_passes_def by metis
  then have loop: "\<exists>b s2. halt_cancel_loop e d s' = Some (b, s2)" for d s' by (metis surj_pair)
  have "\<exists>s'. execute_task_halted cfg e s = Some s'"
  proof -
    define s2 where "s2 = mark_timeout e (\<lambda>w. ws_child_result w \<noteq> None \<or> ws_goal_response_received w)
      (or_set_workflow (\<lambda>w. w\<lparr>ws_halt_requested := True\<rparr>) (or_observe e s))"
    obtain b s3 where "halt_cancel_loop e
        (oe_now e (or_tick s) + oc_cancel_timeout_ms cfg * 1000000) s2 = Some (b, s3)"
      using loop by blast
    then show ?thesis
      unfolding execute_task_halted_def Let_def s2_def [symmetric] by (cases b) simp_all
  qed
  then show ?thesis by (cases l) auto
qed

lemma run_leaves_returns:
  assumes "orch_clock_passes e"
  shows "\<exists>r s'. run_leaves cfg e ls s = Some (r, s')"
proof (induction ls arbitrary: s)
  case (Cons l ls)
  obtain r s1 where "run_leaf cfg e l s = Some (r, s1)"
    using run_leaf_returns [OF assms, of cfg l s] by auto
  then show ?case using Cons.IH [of s1] by (cases r) auto
qed simp

lemma halt_then_returns:
  assumes "orch_clock_passes e"
  shows "\<exists>x. halt_then cfg e k s = Some x"
proof -
  obtain r s1 where "run_leaves cfg e (oe_halt_tree e (or_tick s)) s = Some (r, s1)"
    using run_leaves_returns [OF assms] by blast
  then show ?thesis by (cases r) (simp_all add: halt_then_def)
qed

lemma orch_loop_returns:
  assumes "orch_clock_passes e"
  shows "oopen e g s0 s \<Longrightarrow> \<exists>x. orch_loop cfg e s = Some x"
proof -
  from assms obtain T where T: "\<And>t. T \<le> t \<Longrightarrow> or_active_deadline s0 \<le> oe_now e t"
    unfolding orch_clock_passes_def by blast
  show "oopen e g s0 s \<Longrightarrow> \<exists>x. orch_loop cfg e s = Some x"
  proof (induction "T - or_tick s" arbitrary: s rule: less_induct)
    case less
    let ?s = "or_observe e s"
    have o: "oopen e g s0 ?s" using less.prems ..
    then have d: "ws_deadline (or_workflow s) = or_active_deadline s0" by (simp add: oopen_def)
    obtain leaves status where tree: "oe_tick_tree e (or_tick ?s) = (leaves, status)" by fastforce
    obtain r s1 where l: "run_leaves cfg e leaves ?s = Some (r, s1)"
      using run_leaves_returns [OF assms] by blast
    from run_leaves_Some [OF l, of g s0] o have o1: "oopen e g s0 s1" and t1: "or_tick ?s \<le> or_tick s1"
      by simp_all
    obtain f s2 where fb: "or_publish_feedback e s1 = (f, s2)" by fastforce
    from or_publish_feedback_effect [OF fb o1] have o2: "oopen e g s0 s2"
      and t2: "or_tick s2 = Suc (or_tick s1)" by simp_all
    have rec: "\<exists>x. orch_loop cfg e (or_observe e s2) = Some x" if "\<not> T \<le> or_tick s"
      by (rule less.hyps) (use that t1 t2 o2 in auto)
    show ?case
    proof (cases "or_active_deadline s0 \<le> oe_now e (or_tick s)")
      case True
      then show ?thesis
        using halt_then_returns [OF assms] d
        by (subst orch_loop.simps) (simp add: Let_def)
    next
      case False
      then have "\<not> T \<le> or_tick s" using T by blast
      from rec [OF this] show ?thesis
        using halt_then_returns [OF assms]
        by (subst orch_loop.simps, cases r; cases f)
          (simp_all add: Let_def tree [simplified] l fb)
    qed
  qed
qed

lemma run_worker_returns:
  assumes "orch_clock_passes e"
    and "oopen e g s (s\<lparr>or_workflow := workflow_state_new g (or_active_deadline s)\<rparr>)"
  shows "\<exists>s'. run_worker cfg e generation g s = Some s'"
proof -
  obtain r s1 where x: "orch_execute cfg e g s = Some (r, s1)"
    using orch_loop_returns [OF assms, of cfg]
    by (cases "oe_create_tree e") (auto simp: orch_execute_def)
  obtain r2 s2 where "run_leaves cfg e (oe_halt_tree e (or_tick s1)) s1 = Some (r2, s2)"
    using run_leaves_returns [OF assms(1)] by blast
  with x show ?thesis by (cases r) (simp_all add: run_worker_def)
qed

section \<open>A workflow from acceptance to its end\<close>

lemma orch_handle_goal_accepts:
  assumes "orch_handle_goal acc still now g s = (ACCEPT_AND_EXECUTE, s1)"
  shows "or_active s1 \<and> \<not> or_terminal_started s1 \<and> \<not> or_terminal_reserved s1 \<and>
    \<not> or_fallback_attempted s1 \<and> \<not> or_transition_failed s1 \<and> \<not> or_active s \<and>
    or_results s1 = or_results s \<and> or_child_goals s1 = or_child_goals s \<and>
    or_child_cancels s1 = or_child_cancels s"
  using assms by (auto simp: orch_handle_goal_def Let_def split: if_splits)

definition started :: "orchestrator \<Rightarrow> orchestrator" where
  "started s = s\<lparr>or_goal_open := True, or_canceling := False\<rparr>"

lemma started_fresh:
  assumes "orch_handle_goal acc still now g s = (ACCEPT_AND_EXECUTE, s1)"
  shows "orch_fresh (started s1)"
    and "oopen e g (started s1) ((started s1)\<lparr>or_workflow :=
           workflow_state_new g (or_active_deadline (started s1))\<rparr>)"
  using orch_handle_goal_accepts [OF assms]
  by (auto simp: orch_fresh_def started_def oopen_def oinv_def child_inv_w_def cancel_inv_def
      workflow_state_new_def child_goal_of_def octl_def)

lemma orch_run_summary:
  assumes "orch_handle_goal acc still now g s = (ACCEPT_AND_EXECUTE, s1)"
    and "orch_handle_accepted cfg e g s1 = Some s'"
  shows "\<exists>s2. orch_done e g (started s1) s2 \<and> s' = finish_worker (or_active_generation s1) s2"
  using run_worker_done [OF _ started_fresh [OF assms(1)]] assms(2)
  unfolding orch_handle_accepted_def started_def [symmetric] by blast

lemma finish_worker_simps [simp]:
  "or_results (finish_worker n s) = or_results s"
  "or_child_goals (finish_worker n s) = or_child_goals s"
  "or_child_cancels (finish_worker n s) = or_child_cancels s"
  "or_cancel_accepted (finish_worker n s) = or_cancel_accepted s"
  "or_terminal_reserved (finish_worker n s) = or_terminal_reserved s"
  by (simp_all add: finish_worker_def release_active_for_generation_def)

lemma orch_justified_cong:
  assumes "or_child_goals s1 = or_child_goals s2" and "or_child_goals s1' = or_child_goals s2'"
    and "or_cancel_accepted s1' = or_cancel_accepted s2'"
  shows "orch_justified e d s1 s1' t = orch_justified e d s2 s2' t"
  using assms by (cases t) (simp_all add: orch_justified_def)

section \<open>A sample workflow\<close>

definition sample_orchestrator :: orchestrator where
  "sample_orchestrator =
     \<lparr>or_tick = 0, or_active = False, or_generation_counter = 0, or_active_generation = 0,
      or_terminal_started = False, or_fallback_attempted = False, or_transition_failed = False,
      or_cancel_accepted = False, or_terminal_reserved = False, or_active_deadline = 0,
      or_ready = \<lparr>rs_received_at = None, rs_ready = False\<rparr>, or_goal_open = False,
      or_canceling = False,
      or_workflow = workflow_state_new \<lparr>wg_request_id = [], wg_workflow_id = [], wg_task_id = [],
        wg_target_id = [], wg_allowed_duration = \<lparr>dur_sec = 0, dur_nanosec = 0\<rparr>\<rparr> 0,
      or_retry = \<lparr>rn_delay_ms = 0, rn_next_check = 0, rn_attempts = 0, rn_used = 0\<rparr>,
      or_child_goals = [], or_child_cancels = 0, or_feedback = [], or_cancel_replies = [],
      or_results = []\<rparr>"

definition sample_workflow :: workflow_goal where
  "sample_workflow = \<lparr>wg_request_id = ''r1'', wg_workflow_id = ''single_task'', wg_task_id = ''t1'',
     wg_target_id = ''dock_a'', wg_allowed_duration = \<lparr>dur_sec = 5, dur_nanosec = 0\<rparr>\<rparr>"

text \<open>A tree that starts the task at once and then asks it; the task succeeds.\<close>

definition sample_orch_env :: orch_env where
  "sample_orch_env =
     \<lparr>oe_running = (\<lambda>_. True), oe_ok = (\<lambda>_. True), oe_now = (\<lambda>t. int t * 10000000),
      oe_events = (\<lambda>t. if t = 3 then [TaskResponse True]
                       else if t = 4 then [TaskResult \<lparr>wr_code = RC_SUCCEEDED,
                              wr_result = Some \<lparr>res_outcome = COMPLETED, res_error_code = 0,
                                                res_message = ''ok''\<rparr>\<rparr>] else []),
      oe_fault = (\<lambda>_ _. None), oe_send_goal = (\<lambda>_. None), oe_cancel_goal = (\<lambda>_. None),
      oe_feedback = (\<lambda>_. None), oe_create_tree = None,
      oe_tick_tree = (\<lambda>t. if t = 1 then ([ExecuteTaskStart], BT_RUNNING)
                         else ([ExecuteTaskRunning], BT_SUCCESS)),
      oe_halt_tree = (\<lambda>_. [ExecuteTaskHalted]), oe_transition = (\<lambda>_. None)\<rparr>"

definition sample_orch_config :: orch_config where
  "sample_orch_config = \<lparr>oc_ready_stale_ms = 2000, oc_cancel_timeout_ms = 1000\<rparr>"

definition sample_started :: orchestrator where
  "sample_started = snd (orch_handle_goal True True 0 sample_workflow sample_orchestrator)"

lemma sample_workflow_accepted:
  "orch_handle_goal True True 0 sample_workflow sample_orchestrator = (ACCEPT_AND_EXECUTE, sample_started)"
  by (simp add: sample_started_def orch_handle_goal_def sample_workflow_def sample_orchestrator_def
      to_steady_duration_def steady_max_def)

lemma sample_orch_clock: "orch_clock_passes sample_orch_env"
proof -
  have "d \<le> int t * 10000000" if "nat d \<le> t" for d :: int and t using that by linarith
  then show ?thesis unfolding orch_clock_passes_def sample_orch_env_def by auto
qed

lemma sample_orch_transitions: "orch_transitions_ok sample_orch_env"
  by (simp add: orch_transitions_ok_def sample_orch_env_def)

lemma sample_orch_run:
  "\<exists>s'. orch_handle_accepted sample_orch_config sample_orch_env sample_workflow sample_started = Some s'"
  using run_worker_returns [OF sample_orch_clock started_fresh(2) [OF sample_workflow_accepted]]
  unfolding orch_handle_accepted_def started_def [symmetric] .

text \<open>The model runs: the sample workflow sends one child task and succeeds with its result.\<close>

lemma sample_workflow_succeeds:
  "map_option (\<lambda>s. (or_results s, or_child_goals s))
     (orch_handle_accepted sample_orch_config sample_orch_env sample_workflow sample_started) =
   Some ([GSucceeded \<lparr>res_outcome = COMPLETED, res_error_code = 0, res_message = ''ok''\<rparr>],
         [\<lparr>tg_task_id = ''t1'', tg_target_id = ''dock_a'', tg_request_id = ''r1'',
           tg_workflow_id = ''single_task'',
           tg_allowed_duration = \<lparr>dur_sec = 4, dur_nanosec = 990000000\<rparr>\<rparr>])"
  by code_simp

section \<open>Properties\<close>



text \<open>C17. No workflow hangs. When the steady clock passes every instant and the action server's
  transitions do not throw, every accepted workflow ends with exactly one result and frees the
  orchestrator, whatever leaves the behaviour-tree library calls and whether or not the child
  task ever answers a goal, a cancel or anything else.
\<close>

theorem workflow_always_ends:
  assumes "orch_handle_goal acc still now g s = (ACCEPT_AND_EXECUTE, s1)"
    and "orch_clock_passes e" and "orch_transitions_ok e"
  shows "\<exists>s' t. orch_handle_accepted cfg e g s1 = Some s' \<and> or_results s' = or_results s @ [t] \<and>
    \<not> or_active s'"
proof -
  obtain s' where s': "orch_handle_accepted cfg e g s1 = Some s'"
    using run_worker_returns [OF assms(2) started_fresh(2) [OF assms(1)]]
    unfolding orch_handle_accepted_def started_def [symmetric] by blast
  from orch_run_summary [OF assms(1) this] obtain s2 t where
    c: "oclosed e g (started s1) t s2" and e: "s' = finish_worker (or_active_generation s1) s2"
    unfolding orch_done_def by blast
  with assms(3) orch_handle_goal_accepts [OF assms(1)] s' show ?thesis
    by (auto simp: oclosed_def started_def finish_worker_def release_active_for_generation_def)
qed

theorem workflow_always_ends_witness:
  "\<exists>s' t. orch_handle_accepted sample_orch_config sample_orch_env sample_workflow sample_started = Some s' \<and>
     or_results s' = [t] \<and> \<not> or_active s'"
  using workflow_always_ends [OF sample_workflow_accepted sample_orch_clock sample_orch_transitions,
    of sample_orch_config]
  by (simp add: sample_orchestrator_def)

lemma workflow_child_goals:
  assumes "orch_handle_goal acc still now g s = (ACCEPT_AND_EXECUTE, s1)"
    and "orch_handle_accepted cfg e g s1 = Some s'"
    and "has_non_whitespace (wg_task_id g)" and "is_known (ec_targets xcfg) (wg_target_id g)"
    and "\<not> ex_active_goal x"
  shows "or_child_cancels s' \<le> Suc (or_child_cancels s) \<and>
    (\<exists>gs. or_child_goals s' = or_child_goals s @ gs \<and>
       (\<forall>c \<in> set gs.
          tg_task_id c = wg_task_id g \<and> tg_target_id c = wg_target_id g \<and>
          tg_request_id c = wg_request_id g \<and> tg_workflow_id c = wg_workflow_id g \<and>
          (\<exists>t. to_steady_duration (tg_allowed_duration c) = or_active_deadline s1 - oe_now e t) \<and>
          fst (executor_handle_goal xcfg True True uuid c x) = ACCEPT_AND_EXECUTE))"
proof -
  from orch_run_summary [OF assms(1,2)] obtain s2 t where
    "oclosed e g (started s1) t s2" and e: "s' = finish_worker (or_active_generation s1) s2"
    unfolding orch_done_def by blast
  then have i: "child_inv_w e g (started s1) s2" "cancel_inv (started s1) s2"
    by (simp_all add: oclosed_def oinv_def)
  from i(1) obtain gs where gs: "or_child_goals s2 = or_child_goals s1 @ gs"
    "\<forall>c \<in> set gs. child_goal_of g c \<and> child_duration_ok e (started s1) c"
    by (auto simp: child_inv_w_def started_def)
  note h = orch_handle_goal_accepts [OF assms(1)]
  have "tg_task_id c = wg_task_id g \<and> tg_target_id c = wg_target_id g \<and>
      tg_request_id c = wg_request_id g \<and> tg_workflow_id c = wg_workflow_id g \<and>
      (\<exists>t. to_steady_duration (tg_allowed_duration c) = or_active_deadline s1 - oe_now e t) \<and>
      fst (executor_handle_goal xcfg True True uuid c x) = ACCEPT_AND_EXECUTE" if "c \<in> set gs" for c
    using gs(2) that assms(3,4,5)
    by (auto simp: child_goal_of_def child_duration_ok_def executor_handle_goal_def is_known_def
        started_def)
  with gs(1) h i(2) show ?thesis by (auto simp: e cancel_inv_def started_def)
qed

text \<open>C18. Every child goal a workflow sends is one the executor accepts, and it cannot outlive the
  workflow: it carries the workflow's four identities, its duration is what was left until the
  workflow's deadline at some instant, and an idle executor that runs, knows the target and sees
  the bridge answers ACCEPT. At most one cancel request reaches the child.
\<close>

theorem workflow_child_accepted_by_executor:
  assumes "orch_handle_goal acc still now g s = (ACCEPT_AND_EXECUTE, s1)"
    and "orch_handle_accepted cfg e g s1 = Some s'"
    and "has_non_whitespace (wg_task_id g)" and "is_known (ec_targets xcfg) (wg_target_id g)"
    and "\<not> ex_active_goal x"
  shows "or_child_cancels s' \<le> Suc (or_child_cancels s) \<and>
    (\<exists>gs. or_child_goals s' = or_child_goals s @ gs \<and>
       (\<forall>c \<in> set gs.
          tg_task_id c = wg_task_id g \<and> tg_target_id c = wg_target_id g \<and>
          tg_request_id c = wg_request_id g \<and> tg_workflow_id c = wg_workflow_id g \<and>
          (\<exists>t. to_steady_duration (tg_allowed_duration c) = or_active_deadline s1 - oe_now e t) \<and>
          fst (executor_handle_goal xcfg True True uuid c x) = ACCEPT_AND_EXECUTE))"
  using assms by (rule workflow_child_goals)

theorem workflow_child_accepted_by_executor_witness:
  "\<exists>s'. orch_handle_accepted sample_orch_config sample_orch_env sample_workflow sample_started = Some s' \<and>
     or_child_cancels s' \<le> 1 \<and>
     (\<forall>c \<in> set (or_child_goals s').
        fst (executor_handle_goal sample_exec_config True True ''g'' c (executor_init 1)) = ACCEPT_AND_EXECUTE)"
proof -
  from sample_orch_run obtain s' where s': "orch_handle_accepted sample_orch_config sample_orch_env
      sample_workflow sample_started = Some s'" ..
  have "has_non_whitespace (wg_task_id sample_workflow)"
    "is_known (ec_targets sample_exec_config) (wg_target_id sample_workflow)"
    "\<not> ex_active_goal (executor_init 1)"
    by (simp_all add: sample_workflow_def sample_exec_config_def is_known_def has_non_whitespace_def
        isspace_def executor_init_def)
  from workflow_child_accepted_by_executor [OF sample_workflow_accepted s' this, of "''g''"] s'
  show ?thesis by (auto simp: sample_orchestrator_def)
qed

end
