(* ===== verification/Process_Exit.thy ===== *)
theory Process_Exit
  imports Orchestrator_Runs
begin

text \<open>
  The processes of the executor and the orchestrator: \<open>run_task_executor_node\<close>,
  \<open>run_task_orchestrator_node\<close> and their \<open>main\<close> functions. A process runs its node until it is
  stopped or the spinning thread ends, drains the node, and recovers with a second executor when the
  first one failed. What the threads and signals do is the environment, indexed by a tick that
  every observation advances; the steps the process takes are its log.
\<close>

section \<open>Data\<close>

text \<open>Whether the process was asked to stop, the primary and the recovery thread have ended and the
  node is drained, at each observation; the context's state and the errors the threads left.\<close>

record process_env =
  pr_stop :: "nat \<Rightarrow> bool"
  pr_spin_finished :: "nat \<Rightarrow> bool"
  pr_drained :: "nat \<Rightarrow> bool"
  pr_recovery_finished :: "nat \<Rightarrow> bool"
  pr_ok :: bool
  pr_spin_error :: "string option"
  pr_recovery_error :: bool

datatype process_step =
    StopNode | DrainSeen | CancelSpin | JoinSpin | RemoveNode | StartRecovery | CancelRecovery
  | JoinRecovery

section \<open>The loops\<close>

partial_function (option) await_stop :: "process_env \<Rightarrow> nat \<Rightarrow> nat option" where
  "await_stop e n =
     (if pr_stop e n \<or> pr_spin_finished e (Suc n) then Some (n + 2) else await_stop e (n + 2))"

declare await_stop.simps [code]

text \<open>Wait for the drain, until a thread has ended: \<open>True\<close> when drained.\<close>

partial_function (option) drain_or_finish ::
  "process_env \<Rightarrow> (nat \<Rightarrow> bool) \<Rightarrow> nat \<Rightarrow> (bool \<times> nat) option" where
  "drain_or_finish e finished n =
     (if pr_drained e n then Some (True, n + 1)
      else if finished (Suc n) then Some (False, n + 2)
      else drain_or_finish e finished (n + 2))"

declare drain_or_finish.simps [code]

text \<open>The orchestrator's first loop looks at the thread before it waits.\<close>

partial_function (option) finish_or_drain ::
  "process_env \<Rightarrow> nat \<Rightarrow> (bool \<times> nat) option" where
  "finish_or_drain e n =
     (if pr_spin_finished e n then Some (False, n + 1)
      else if pr_drained e (Suc n) then Some (True, n + 2)
      else finish_or_drain e (n + 2))"

declare finish_or_drain.simps [code]

section \<open>The executor's process\<close>

definition executor_recovery :: "process_env \<Rightarrow> nat \<Rightarrow> process_step list \<Rightarrow> (int \<times> process_step list) option" where
  "executor_recovery e n log =
     (case drain_or_finish e (pr_recovery_finished e) n of
        None \<Rightarrow> None
      | Some (drained, n1) \<Rightarrow>
          if \<not> drained then Some (3, log @ [StartRecovery, StopNode, JoinRecovery, RemoveNode])
          else Some (if pr_recovery_finished e n1 \<or> pr_recovery_error e then 3 else 1,
                     log @ [StartRecovery, StopNode, DrainSeen, CancelRecovery, JoinRecovery, RemoveNode]))"

definition executor_after_spin :: "process_env \<Rightarrow> nat \<Rightarrow> process_step list \<Rightarrow> (int \<times> process_step list) option" where
  "executor_after_spin e n log =
     (let log1 = log @ [JoinSpin, RemoveNode] in
      if \<not> pr_ok e then Some (2, log1) else executor_recovery e n log1)"

definition run_task_executor_node :: "process_env \<Rightarrow> (int \<times> process_step list) option" where
  "run_task_executor_node e =
     (case await_stop e 0 of
        None \<Rightarrow> None
      | Some n \<Rightarrow>
          if \<not> pr_stop e n then executor_after_spin e (Suc n) []
          else (case drain_or_finish e (pr_spin_finished e) (Suc n) of
                  None \<Rightarrow> None
                | Some (drained, n1) \<Rightarrow>
                    let log = StopNode # (if drained then [DrainSeen] else []) in
                    if \<not> pr_spin_finished e n1
                    then Some (0, log @ [CancelSpin, JoinSpin, RemoveNode])
                    else executor_after_spin e (Suc n1) log))"

section \<open>The orchestrator's process\<close>

text \<open>\<open>Inl\<close> is the exception rethrown after a successful recovery.\<close>

definition orchestrator_after_spin ::
  "process_env \<Rightarrow> nat \<Rightarrow> process_step list \<Rightarrow> ((string + int) \<times> process_step list) option" where
  "orchestrator_after_spin e n log =
     (let log1 = log @ [JoinSpin, RemoveNode];
          err = (case pr_spin_error e of None \<Rightarrow> ''executor stopped unexpectedly'' | Some msg \<Rightarrow> msg)
      in if \<not> pr_ok e then Some (Inr 2, log1)
         else case drain_or_finish e (pr_recovery_finished e) n of
                None \<Rightarrow> None
              | Some (True, _) \<Rightarrow>
                  Some (Inl err, log1 @ [StopNode, StartRecovery, DrainSeen, CancelRecovery, JoinRecovery, RemoveNode])
              | Some (False, _) \<Rightarrow>
                  Some (Inr 2, log1 @ [StopNode, StartRecovery, JoinRecovery, RemoveNode]))"

definition run_task_orchestrator_node :: "process_env \<Rightarrow> ((string + int) \<times> process_step list) option" where
  "run_task_orchestrator_node e =
     (case await_stop e 0 of
        None \<Rightarrow> None
      | Some n \<Rightarrow>
          if \<not> pr_stop e n then orchestrator_after_spin e (Suc n) []
          else (case finish_or_drain e (Suc n) of
                  None \<Rightarrow> None
                | Some (True, _) \<Rightarrow> Some (Inr 0, [StopNode, DrainSeen, CancelSpin, JoinSpin, RemoveNode])
                | Some (False, n1) \<Rightarrow> orchestrator_after_spin e n1 [StopNode]))"

section \<open>The main functions\<close>

text \<open>A process returns from \<open>main\<close>, which destroys the node, or leaves with \<open>std::_Exit\<close>.\<close>

datatype process_end = ReturnMain int | QuickExit int

definition executor_main :: "process_env \<Rightarrow> (process_end \<times> process_step list) option" where
  "executor_main e =
     map_option (\<lambda>(code, log). (if code = 2 \<or> code = 3 then QuickExit code else ReturnMain code, log))
       (run_task_executor_node e)"

definition orchestrator_main :: "process_env \<Rightarrow> (process_end \<times> process_step list) option" where
  "orchestrator_main e =
     map_option (\<lambda>(result, log). (case result of
          Inr code \<Rightarrow> if code = 2 then QuickExit code else ReturnMain code
        | Inl err \<Rightarrow> ReturnMain 1, log))
       (run_task_orchestrator_node e)"

section \<open>Flags only rise\<close>

definition process_flags_rise :: "process_env \<Rightarrow> bool" where
  "process_flags_rise e \<longleftrightarrow> mono (pr_stop e) \<and> mono (pr_spin_finished e) \<and> mono (pr_recovery_finished e)"

lemma flag_rises: "mono f \<Longrightarrow> f m \<Longrightarrow> m \<le> n \<Longrightarrow> f n" for f :: "nat \<Rightarrow> bool"
  by (metis le_boolD monoD)

lemma await_stop_cause:
  "await_stop e n = Some m \<Longrightarrow> process_flags_rise e \<longrightarrow> pr_stop e m \<or> pr_spin_finished e m"
proof (induction rule: await_stop.raw_induct [rotated 1, consumes 1, case_names step])
  case (step loop e n m)
  then show ?case
    using flag_rises [of "pr_stop e" n "n + 2"] flag_rises [of "pr_spin_finished e" "Suc n" "n + 2"]
    by (auto simp: process_flags_rise_def split: if_splits)
qed

lemma drain_or_finish_cause:
  "drain_or_finish e finished n = Some x \<Longrightarrow>
     (fst x \<longrightarrow> (\<exists>k. n \<le> k \<and> k < snd x \<and> pr_drained e k)) \<and>
     (\<not> fst x \<longrightarrow> (\<exists>k. n < k \<and> k < snd x \<and> finished k)) \<and> n < snd x"
proof (induction rule: drain_or_finish.raw_induct [rotated 1, consumes 1, case_names step])
  case (step loop e finished n x)
  show ?case
  proof (cases "pr_drained e n \<or> finished (Suc n)")
    case True
    with step.hyps show ?thesis by (auto split: if_splits)
  next
    case False
    with step.hyps have "loop e finished (n + 2) = Some x" by simp
    from step.IH [OF this] show ?thesis by (metis le_add1 le_trans add_lessD1)
  qed
qed

lemma finish_or_drain_cause:
  "finish_or_drain e n = Some x \<Longrightarrow> fst x \<longrightarrow> (\<exists>k. n < k \<and> k < snd x \<and> pr_drained e k)"
proof (induction rule: finish_or_drain.raw_induct [rotated 1, consumes 1, case_names step])
  case (step loop e n x)
  show ?case
  proof (cases "pr_spin_finished e n \<or> pr_drained e (Suc n)")
    case True
    with step.hyps show ?thesis by (auto split: if_splits)
  next
    case False
    with step.hyps have "loop e (n + 2) = Some x" by simp
    from step.IH [OF this] show ?thesis by (metis add_lessD1)
  qed
qed


section \<open>The loops end\<close>

lemma await_stop_returns:
  assumes "\<forall>m \<ge> N. pr_stop e m \<or> pr_spin_finished e (Suc m)"
  shows "\<exists>m. await_stop e n = Some m"
proof (induction "N - n" arbitrary: n rule: less_induct)
  case less
  show ?case
  proof (cases "pr_stop e n \<or> pr_spin_finished e (Suc n)")
    case False
    then have "n < N" using assms by (meson not_le_imp_less)
    with less [of "n + 2"] False show ?thesis by (simp add: await_stop.simps [of e n])
  qed (simp add: await_stop.simps [of e n])
qed

lemma drain_or_finish_returns:
  assumes "\<forall>m \<ge> N. pr_drained e m \<or> finished (Suc m)"
  shows "\<exists>x. drain_or_finish e finished n = Some x"
proof (induction "N - n" arbitrary: n rule: less_induct)
  case less
  show ?case
  proof (cases "pr_drained e n \<or> finished (Suc n)")
    case False
    then have "n < N" using assms by (meson not_le_imp_less)
    with less [of "n + 2"] False show ?thesis by (simp add: drain_or_finish.simps [of e finished n])
  qed (auto simp: drain_or_finish.simps [of e finished n])
qed

lemma finish_or_drain_returns:
  assumes "\<forall>m \<ge> N. pr_spin_finished e m \<or> pr_drained e (Suc m)"
  shows "\<exists>x. finish_or_drain e n = Some x"
proof (induction "N - n" arbitrary: n rule: less_induct)
  case less
  show ?case
  proof (cases "pr_spin_finished e n \<or> pr_drained e (Suc n)")
    case False
    then have "n < N" using assms by (meson not_le_imp_less)
    with less [of "n + 2"] False show ?thesis by (simp add: finish_or_drain.simps [of e n])
  qed (auto simp: finish_or_drain.simps [of e n])
qed

text \<open>The process is stopped or its spinning thread ends, and in the end the node is drained.\<close>

definition process_ends :: "process_env \<Rightarrow> bool" where
  "process_ends e \<longleftrightarrow>
     process_flags_rise e \<and> (\<exists>N. pr_stop e N \<or> pr_spin_finished e N) \<and> (\<exists>N. \<forall>m \<ge> N. pr_drained e m)"

lemma process_loops_return:
  assumes "process_ends e"
  shows "\<exists>m. await_stop e n = Some m" and "\<exists>x. drain_or_finish e finished n = Some x"
    and "\<exists>x. finish_or_drain e n = Some x"
proof -
  from assms obtain N where N: "pr_stop e N \<or> pr_spin_finished e N" and rise: "process_flags_rise e"
    by (auto simp: process_ends_def)
  have "\<forall>m \<ge> N. pr_stop e m \<or> pr_spin_finished e (Suc m)"
    using N rise flag_rises [of "pr_stop e" N] flag_rises [of "pr_spin_finished e" N]
    by (auto simp: process_flags_rise_def)
  then show "\<exists>m. await_stop e n = Some m" by (rule await_stop_returns)
  from assms obtain M where M: "\<forall>m \<ge> M. pr_drained e m" by (auto simp: process_ends_def)
  then show "\<exists>x. drain_or_finish e finished n = Some x" "\<exists>x. finish_or_drain e n = Some x"
    using drain_or_finish_returns [of M e finished n] finish_or_drain_returns [of M e n] by simp_all
qed

section \<open>What an exit says\<close>

text \<open>The node stopped accepting, was then seen drained, and was only then taken down.\<close>

definition drained_before_removal :: "process_step list \<Rightarrow> bool" where
  "drained_before_removal log \<longleftrightarrow>
     (\<exists>l1 l2 l3. log = l1 @ [StopNode] @ l2 @ [DrainSeen] @ l3 @ [RemoveNode])"

lemma drained_before_removalI: "drained_before_removal (l1 @ StopNode # l2 @ DrainSeen # l3 @ [RemoveNode])"
  unfolding drained_before_removal_def by (intro exI [of _ l1] exI [of _ l2] exI [of _ l3]) simp

lemmas drained_before_removal_shapes =
  drained_before_removalI [of "[]" "[]" "[CancelSpin, JoinSpin]", simplified]
  drained_before_removalI [of "log @ [StartRecovery]" "[]" "[CancelRecovery, JoinRecovery]" for log, simplified]
  drained_before_removalI [of log "[StartRecovery]" "[CancelRecovery, JoinRecovery]" for log, simplified]

lemma executor_after_spin_codes:
  assumes "executor_after_spin e n log = Some (code, log')"
  shows "code \<in> {1, 2, 3} \<and> (code = 1 \<longrightarrow> drained_before_removal log')"
  using assms drained_before_removal_shapes(2) [of "log @ [JoinSpin, RemoveNode]"]
  by (auto simp: executor_after_spin_def executor_recovery_def Let_def split: if_splits option.splits)

lemma orchestrator_after_spin_codes:
  assumes "orchestrator_after_spin e n log = Some (result, log')"
  shows "result = Inr 2 \<or> (\<exists>err. result = Inl err \<and> drained_before_removal log')"
  using assms drained_before_removal_shapes(3) [of "log @ [JoinSpin, RemoveNode]"]
  by (auto simp: orchestrator_after_spin_def Let_def split: if_splits option.splits bool.splits)

text \<open>C21. The executor's and the orchestrator's processes always come to an end once they are stopped or
  their spinning thread ends and the node drains. A process that returns from \<open>main\<close>, and so
  destroys its node, has first stopped it and then seen it drained, with code 0 only when it was
  asked to stop; every other ending leaves with \<open>std::_Exit\<close> and code 2 or 3, without running
  destructors over live workers.
\<close>

theorem process_returns_only_after_drain:
  assumes "process_ends e"
  shows "(\<exists>out log. executor_main e = Some (out, log) \<and>
      (case out of
         ReturnMain c \<Rightarrow> c \<in> {0, 1} \<and> drained_before_removal log \<and> (c = 0 \<longrightarrow> (\<exists>n. pr_stop e n))
       | QuickExit c \<Rightarrow> c \<in> {2, 3})) \<and>
    (\<exists>out log. orchestrator_main e = Some (out, log) \<and>
      (case out of
         ReturnMain c \<Rightarrow> c \<in> {0, 1} \<and> drained_before_removal log \<and> (c = 0 \<longrightarrow> (\<exists>n. pr_stop e n))
       | QuickExit c \<Rightarrow> c = 2))"
proof (intro conjI)
  from assms have rise: "process_flags_rise e" by (simp add: process_ends_def)
  obtain n where n: "await_stop e 0 = Some n" using process_loops_return(1) [OF assms] by blast
  obtain d n1 where d: "drain_or_finish e (pr_spin_finished e) (Suc n) = Some (d, n1)"
    using process_loops_return(2) [OF assms] by (metis surj_pair)
  obtain f n2 where f: "finish_or_drain e (Suc n) = Some (f, n2)"
    using process_loops_return(3) [OF assms] by (metis surj_pair)
  have "\<exists>out. executor_after_spin e k log = Some out" for k log
    using process_loops_return(2) [OF assms, of "pr_recovery_finished e" k]
    by (auto simp: executor_after_spin_def executor_recovery_def Let_def)
  note ex = this
  have "\<exists>out. orchestrator_after_spin e k log = Some out" for k log
    using process_loops_return(2) [OF assms, of "pr_recovery_finished e" k]
    by (auto simp: orchestrator_after_spin_def Let_def split: bool.split)
  note orc = this
  have "\<not> pr_spin_finished e n1 \<Longrightarrow> d"
    using drain_or_finish_cause [OF d] rise flag_rises [of "pr_spin_finished e" _ n1]
    by (auto simp: process_flags_rise_def dest: less_imp_le)
  then have "\<exists>code log. run_task_executor_node e = Some (code, log) \<and>
      (code \<in> {1, 2, 3} \<and> (code = 1 \<longrightarrow> drained_before_removal log) \<or>
       code = 0 \<and> drained_before_removal log \<and> pr_stop e n)"
    using n d ex [of "Suc n" "[]"] ex [of "Suc n1" "StopNode # (if d then [DrainSeen] else [])"]
      executor_after_spin_codes drained_before_removal_shapes(1)
    by (cases "pr_stop e n"; cases "pr_spin_finished e n1")
      (fastforce simp: run_task_executor_node_def Let_def)+
  then show "\<exists>out log. executor_main e = Some (out, log) \<and>
      (case out of
         ReturnMain c \<Rightarrow> c \<in> {0, 1} \<and> drained_before_removal log \<and> (c = 0 \<longrightarrow> (\<exists>n. pr_stop e n))
       | QuickExit c \<Rightarrow> c \<in> {2, 3})"
    by (elim exE conjE) (auto simp: executor_main_def)
  have "\<exists>result log. run_task_orchestrator_node e = Some (result, log) \<and>
      (result = Inr 2 \<or> (\<exists>err. result = Inl err \<and> drained_before_removal log) \<or>
       result = Inr 0 \<and> drained_before_removal log \<and> pr_stop e n)"
    using n f orc [of "Suc n" "[]"] orc [of n2 "[StopNode]"]
      orchestrator_after_spin_codes drained_before_removal_shapes(1)
    by (cases "pr_stop e n"; cases f) (fastforce simp: run_task_orchestrator_node_def)+
  then show "\<exists>out log. orchestrator_main e = Some (out, log) \<and>
      (case out of
         ReturnMain c \<Rightarrow> c \<in> {0, 1} \<and> drained_before_removal log \<and> (c = 0 \<longrightarrow> (\<exists>n. pr_stop e n))
       | QuickExit c \<Rightarrow> c = 2)"
    by (elim exE conjE) (auto simp: orchestrator_main_def)
qed


definition sample_process_env :: process_env where
  "sample_process_env =
     \<lparr>pr_stop = (\<lambda>n. 4 \<le> n), pr_spin_finished = (\<lambda>n. False), pr_drained = (\<lambda>n. 10 \<le> n),
      pr_recovery_finished = (\<lambda>n. False), pr_ok = True, pr_spin_error = None, pr_recovery_error = False\<rparr>"

lemma sample_process_ends: "process_ends sample_process_env"
  unfolding process_ends_def process_flags_rise_def sample_process_env_def by (auto intro!: monoI)

theorem process_returns_only_after_drain_witness:
  "(\<exists>out log. executor_main sample_process_env = Some (out, log) \<and>
     (out = ReturnMain 0 \<or> out = ReturnMain 1 \<or> out = QuickExit 2 \<or> out = QuickExit 3)) \<and>
   (\<exists>out log. orchestrator_main sample_process_env = Some (out, log) \<and>
     (out = ReturnMain 0 \<or> out = ReturnMain 1 \<or> out = QuickExit 2))"
  using process_returns_only_after_drain [OF sample_process_ends]
  by (elim conjE exE, intro conjI exI) (auto split: process_end.splits)

text \<open>
  The executor reads its running flag once, before it claims the goal: a goal that passed that
  check just before a shutdown is still accepted after the node was seen drained. The
  orchestrator reads its flag again after the claim and refuses.
\<close>

lemma late_goal_after_drain:
  assumes "executor_drained x" and "has_non_whitespace (tg_task_id g)"
    and "duration_is_valid (tg_allowed_duration g)" and "is_known (ec_targets cfg) (tg_target_id g)"
  shows "fst (executor_handle_goal cfg True True gid g x) = ACCEPT_AND_EXECUTE \<and>
    \<not> executor_drained (snd (executor_handle_goal cfg True True gid g x))"
  using assms by (auto simp: executor_handle_goal_def executor_drained_def is_known_def)

lemma late_workflow_refused:
  "fst (orch_handle_goal accepting False now g s) \<noteq> ACCEPT_AND_EXECUTE \<and>
   (\<not> or_active s \<longrightarrow> \<not> or_active (snd (orch_handle_goal accepting False now g s)))"
  by (simp add: orch_handle_goal_def Let_def)

end
