(* ===== verification/Executor_Threads.thy ===== *)
theory Executor_Threads
  imports Worker_Slot Process_Exit
begin

text \<open>
  The executor node between its threads: the goal callback (\<open>handle_goal\<close>, \<open>handle_accepted\<close>),
  the worker's guards, and the main thread that asks for the shutdown, waits for the drain and
  destroys the node. Every read or write of a shared flag, and every critical section of
  \<open>workers_mutex_\<close>, is one step, so that the runs of \<open>executor_thread_step\<close> are all
  interleavings. Goal callbacks belong to one mutually exclusive callback group, so there is one
  at a time. What a worker does between its start and its guards is \<open>Task_Executor\<close>.
\<close>

section \<open>State\<close>

record executor_threads =
  et_running :: bool
  et_active :: bool
  et_workers_active :: nat
  et_slot :: worker_slot
  et_goal :: goal_pc
  et_main :: main_pc

definition executor_threads_init :: executor_threads where
  "executor_threads_init =
     \<lparr>et_running = True, et_active = False, et_workers_active = 0, et_slot = no_workers,
      et_goal = GIdle, et_main = MRun\<rparr>"

section \<open>Operations\<close>

definition et_request_shutdown :: "executor_threads \<Rightarrow> executor_threads" where
  "et_request_shutdown s = s\<lparr>et_running := False, et_main := MStopping\<rparr>"

text \<open>The condition both waits use, and what they do under the lock once it holds.\<close>

definition et_drained :: "executor_threads \<Rightarrow> bool" where
  "et_drained s \<longleftrightarrow> et_workers_active s = 0 \<and> \<not> et_active s"

definition et_wait_for_shutdown :: "executor_threads \<Rightarrow> executor_threads" where
  "et_wait_for_shutdown s =
     (let (worker, t) = slot_take (et_slot s) in s\<lparr>et_slot := t, et_main := MTaken worker\<rparr>)"

text \<open>With a timeout: \<open>False\<close>, and nothing done, when the time passes first.\<close>

definition et_wait_for_shutdown_for :: "bool \<Rightarrow> executor_threads \<Rightarrow> bool \<times> executor_threads" where
  "et_wait_for_shutdown_for timed_out s =
     (if timed_out \<or> \<not> et_drained s then (False, s) else (True, et_wait_for_shutdown s))"

definition et_join_completed_worker :: "executor_threads \<Rightarrow> executor_threads" where
  "et_join_completed_worker s =
     (let (worker, t) = slot_take (et_slot s) in s\<lparr>et_slot := t, et_goal := GTaken worker\<rparr>)"

definition et_start_worker :: "executor_threads \<Rightarrow> executor_threads" where
  "et_start_worker s =
     s\<lparr>et_workers_active := Suc (et_workers_active s), et_slot := slot_start (et_slot s),
       et_goal := GIdle\<rparr>"

text \<open>\<open>ActiveGuard\<close> and \<open>WorkerGuard\<close> of \<open>execute\<close>; the argument says whether the goal is terminal.\<close>

definition et_release_active :: "bool \<Rightarrow> nat \<Rightarrow> executor_threads \<Rightarrow> executor_threads" where
  "et_release_active terminal w s =
     s\<lparr>et_active := (if terminal then False else et_active s),
       et_slot := worker_moves w ActiveReleased (et_slot s)\<rparr>"

definition et_release_count :: "nat \<Rightarrow> executor_threads \<Rightarrow> executor_threads" where
  "et_release_count w s =
     s\<lparr>et_workers_active := et_workers_active s - 1,
       et_slot := worker_moves w CountReleased (et_slot s)\<rparr>"

definition et_destroy :: "executor_threads \<Rightarrow> executor_threads" where
  "et_destroy s =
     (if et_workers_active s \<noteq> 0 then s\<lparr>et_slot := terminate_now (et_slot s), et_main := MDestroyed\<rparr>
      else let (worker, t) = slot_take (et_slot s) in s\<lparr>et_slot := t, et_main := MDestroying worker\<rparr>)"

lemmas et_defs = et_request_shutdown_def et_drained_def et_wait_for_shutdown_def
  et_wait_for_shutdown_for_def et_join_completed_worker_def et_start_worker_def
  et_release_active_def et_release_count_def et_destroy_def

section \<open>Interleavings\<close>

text \<open>Callbacks run as long as some executor spins the node.\<close>

definition et_spinning :: "executor_threads \<Rightarrow> bool" where
  "et_spinning s \<longleftrightarrow> (case et_main s of MSpinJoined \<Rightarrow> False | MDestroying _ \<Rightarrow> False | MDestroyed \<Rightarrow> False
     | _ \<Rightarrow> True)"

inductive executor_step :: "executor_threads \<Rightarrow> executor_threads \<Rightarrow> bool" where
  xs_check: "et_spinning s \<Longrightarrow> et_goal s = GIdle \<Longrightarrow> et_running s \<Longrightarrow>
    executor_step s (s\<lparr>et_goal := GChecked\<rparr>)"
| xs_reject: "et_goal s = GChecked \<Longrightarrow> executor_step s (s\<lparr>et_goal := GIdle\<rparr>)"
| xs_claim: "et_goal s = GChecked \<Longrightarrow> \<not> et_active s \<Longrightarrow>
    executor_step s (s\<lparr>et_active := True, et_goal := GClaimed\<rparr>)"
| xs_take: "et_goal s = GClaimed \<Longrightarrow> executor_step s (et_join_completed_worker s)"
| xs_join: "et_goal s = GTaken h \<Longrightarrow> join_returns h (et_slot s) \<Longrightarrow>
    executor_step s (s\<lparr>et_goal := GJoined\<rparr>)"
| xs_start: "et_goal s = GJoined \<Longrightarrow> executor_step s (et_start_worker s)"
| xs_active: "wk_pc (et_slot s) w = Executing \<Longrightarrow> executor_step s (et_release_active terminal w s)"
| xs_count: "wk_pc (et_slot s) w = ActiveReleased \<Longrightarrow> executor_step s (et_release_count w s)"
| xs_exit: "wk_pc (et_slot s) w = CountReleased \<Longrightarrow>
    executor_step s (s\<lparr>et_slot := worker_moves w Exited (et_slot s)\<rparr>)"
| xs_stop: "et_main s = MRun \<Longrightarrow> executor_step s (et_request_shutdown s)"
| xs_wait: "et_main s = MStopping \<Longrightarrow> executor_step s (snd (et_wait_for_shutdown_for timed_out s))"
| xs_waited: "et_main s = MTaken h \<Longrightarrow> join_returns h (et_slot s) \<Longrightarrow>
    executor_step s (s\<lparr>et_main := MDrained\<rparr>)"
| xs_unspin: "et_main s = MDrained \<Longrightarrow> et_goal s = GIdle \<Longrightarrow>
    executor_step s (s\<lparr>et_main := MSpinJoined\<rparr>)"
| xs_destroy: "et_main s = MSpinJoined \<Longrightarrow> executor_step s (et_destroy s)"
| xs_destroyed: "et_main s = MDestroying h \<Longrightarrow> join_returns h (et_slot s) \<Longrightarrow>
    executor_step s (s\<lparr>et_main := MDestroyed\<rparr>)"

inductive_cases executor_stepE: "executor_step s s'"

section \<open>Ownership\<close>

definition et_owned :: "executor_threads \<Rightarrow> nat \<Rightarrow> bool" where
  "et_owned s w \<longleftrightarrow> wk_slot (et_slot s) = Some w \<or> et_goal s = GTaken (Some w) \<or>
     et_main s = MTaken (Some w) \<or> et_main s = MDestroying (Some w)"

text \<open>A worker that still has to release its guards, and the handle it is found in.\<close>

definition counted :: "executor_threads \<Rightarrow> nat \<Rightarrow> bool" where
  "counted s w \<longleftrightarrow> wk_pc (et_slot s) w \<in> {Executing, ActiveReleased}"

definition in_use :: "executor_threads \<Rightarrow> nat \<Rightarrow> bool" where
  "in_use s w \<longleftrightarrow> wk_slot (et_slot s) = Some w \<or> et_goal s = GTaken (Some w)"

text \<open>The handles are used in the order of the code, and the count is that of the busy workers.\<close>

definition handles_ok :: "executor_threads \<Rightarrow> bool" where
  "handles_ok s \<longleftrightarrow>
     slot_ok (et_slot s) \<and>
     (et_goal s \<in> {GJoined} \<union> range GTaken \<longrightarrow> wk_slot (et_slot s) = None) \<and>
     (wk_terminated (et_slot s) \<longrightarrow> et_main s = MDestroyed) \<and>
     (\<not> et_spinning s \<longrightarrow> et_goal s = GIdle) \<and>
     (et_main s \<in> {MDestroyed} \<union> range MDestroying \<longrightarrow>
        wk_slot (et_slot s) = None \<or> wk_terminated (et_slot s))"

definition count_ok :: "executor_threads \<Rightarrow> bool" where
  "count_ok s \<longleftrightarrow>
     (\<forall>w. counted s w \<longrightarrow> in_use s w) \<and> et_workers_active s = (if Ex (counted s) then 1 else 0)"

lemma handles_ok_init: "handles_ok executor_threads_init"
  using slot_ok_init
  by (auto simp: handles_ok_def executor_threads_init_def no_workers_def et_spinning_def)

lemma handles_ok_step: "executor_step s s' \<Longrightarrow> handles_ok s \<Longrightarrow> handles_ok s'"
  by (cases rule: executor_step.cases, assumption)
    (auto simp: handles_ok_def et_defs slot_defs et_spinning_def slot_ok_def split: if_splits main_pc.splits)

lemma count_ok_init: "count_ok executor_threads_init"
  by (simp add: count_ok_def counted_def executor_threads_init_def no_workers_def)

lemma one_in_use: "handles_ok s \<Longrightarrow> in_use s v \<Longrightarrow> in_use s w \<Longrightarrow> v = w"
  by (auto simp: handles_ok_def in_use_def)

lemma count_ok_frame:
  assumes "count_ok s" and "\<And>w. counted s' w = counted s w" and "et_workers_active s' = et_workers_active s"
    and "\<And>w. counted s w \<Longrightarrow> in_use s w \<Longrightarrow> in_use s' w"
  shows "count_ok s'"
  using assms by (simp add: count_ok_def)

lemma count_ok_step:
  assumes "executor_step s s'" and "handles_ok s" and "count_ok s"
  shows "count_ok s'"
  using assms(1)
proof cases
  case (xs_active w terminal)
  then show ?thesis
    by (intro count_ok_frame [OF assms(3)])
      (auto simp: counted_def in_use_def et_release_active_def worker_moves_def)
next
  case (xs_count w)
  then have w: "counted s w" by (simp add: counted_def)
  have "counted s' v \<longleftrightarrow> counted s v \<and> v \<noteq> w" for v
    using xs_count(1) by (auto simp: counted_def et_release_count_def worker_moves_def)
  then have "\<not> counted s' v" for v
    using w one_in_use [OF assms(2)] assms(3) unfolding count_ok_def by blast
  moreover have "et_workers_active s' = 0"
    using xs_count(1) w assms(3) by (auto simp: et_release_count_def count_ok_def)
  ultimately show ?thesis by (simp add: count_ok_def)
next
  case xs_start
  have none: "\<not> counted s w" for w
    using assms(2,3) xs_start(2) by (auto simp: count_ok_def in_use_def handles_ok_def)
  moreover have "counted s' w \<longleftrightarrow> counted s w \<or> w = wk_next (et_slot s)" for w
    using xs_start assms(2)
    by (auto simp: counted_def et_start_worker_def slot_start_def handles_ok_def)
  moreover have "et_workers_active s' = Suc (et_workers_active s)"
    "in_use s' (wk_next (et_slot s))"
    using xs_start assms(2) by (auto simp: et_start_worker_def in_use_def slot_start_def handles_ok_def)
  ultimately show ?thesis using assms(3) by (simp add: count_ok_def)
next
  case (xs_wait timed_out)
  have "\<not> counted s w" if "et_drained s" for w
    using that assms(3) by (auto simp: et_drained_def count_ok_def split: if_splits)
  with xs_wait show ?thesis
    by (intro count_ok_frame [OF assms(3)])
      (auto simp: counted_def in_use_def et_wait_for_shutdown_for_def et_wait_for_shutdown_def slot_take_def)
next
  case xs_destroy
  have "\<not> counted s w" if "et_workers_active s = 0" for w
    using that assms(3) by (auto simp: count_ok_def split: if_splits)
  with xs_destroy show ?thesis
    by (intro count_ok_frame [OF assms(3)])
      (auto simp: counted_def in_use_def et_destroy_def slot_take_def terminate_now_def)
qed (intro count_ok_frame [OF assms(3)];
  auto simp: counted_def in_use_def et_request_shutdown_def et_join_completed_worker_def slot_take_def
    worker_moves_def join_returns_def)+

section \<open>Every run\<close>

interpretation et: thread_owner "\<lambda>s. s = executor_threads_init" executor_step "live \<circ> et_slot" et_owned
proof unfold_locales
  fix s s' :: executor_threads and w
  show "s = executor_threads_init \<Longrightarrow> \<not> (live \<circ> et_slot) s w"
    by (simp add: executor_threads_init_def no_workers_def live_def)
  show "executor_step s s' \<Longrightarrow> \<not> (live \<circ> et_slot) s w \<Longrightarrow> (live \<circ> et_slot) s' w \<Longrightarrow> et_owned s' w"
    by (erule executor_step.cases)
      (auto simp: live_def et_owned_def et_defs slot_defs split: if_splits)
  show "executor_step s s' \<Longrightarrow> (live \<circ> et_slot) s w \<Longrightarrow> et_owned s w \<Longrightarrow> (live \<circ> et_slot) s' w \<Longrightarrow>
      et_owned s' w"
    by (erule executor_step.cases)
      (auto simp: live_def et_owned_def et_defs slot_defs split: if_splits)
qed

lemma executor_run_inv:
  "executor_step\<^sup>*\<^sup>* executor_threads_init s \<Longrightarrow> handles_ok s \<and> count_ok s"
  by (induction rule: rtranclp_induct)
    (auto intro: handles_ok_init count_ok_init handles_ok_step count_ok_step)

text \<open>Stopped, drained and no goal callback under way: this stays so, and the destructor is harmless.\<close>

definition et_quiet :: "executor_threads \<Rightarrow> bool" where
  "et_quiet s \<longleftrightarrow> \<not> et_running s \<and> et_goal s = GIdle \<and> et_drained s"

lemma et_quiet_step:
  "executor_step s s' \<Longrightarrow> et_quiet s \<Longrightarrow> \<not> wk_terminated (et_slot s) \<Longrightarrow>
     et_quiet s' \<and> \<not> wk_terminated (et_slot s')"
  by (erule executor_step.cases) (auto simp: et_quiet_def et_defs slot_defs split: if_splits)

lemma et_quiet_run:
  "executor_step\<^sup>*\<^sup>* s s' \<Longrightarrow> et_quiet s \<Longrightarrow> \<not> wk_terminated (et_slot s) \<Longrightarrow>
     et_quiet s' \<and> \<not> wk_terminated (et_slot s')"
  by (induction rule: rtranclp_induct) (auto dest: et_quiet_step)

text \<open>A goal that passed the checks before the shutdown: claimed after the drain, it terminates the program.\<close>

definition late_goal_run :: "executor_threads list" where
  "late_goal_run =
     (let s1 = executor_threads_init\<lparr>et_goal := GChecked\<rparr>;
          s2 = et_request_shutdown s1;
          s3 = snd (et_wait_for_shutdown_for False s2);
          s4 = s3\<lparr>et_main := MDrained\<rparr>;
          s5 = s4\<lparr>et_active := True, et_goal := GClaimed\<rparr>;
          s6 = et_join_completed_worker s5;
          s7 = s6\<lparr>et_goal := GJoined\<rparr>;
          s8 = et_start_worker s7;
          s9 = s8\<lparr>et_main := MSpinJoined\<rparr>
      in [executor_threads_init, s1, s2, s3, s4, s5, s6, s7, s8, s9, et_destroy s9])"

lemmas late_goal_defs = executor_threads_init_def no_workers_def et_spinning_def et_defs slot_defs

lemma late_goal_terminates_executor:
  "executor_step\<^sup>*\<^sup>* executor_threads_init (last late_goal_run) \<and>
   wk_terminated (et_slot (last late_goal_run))"
proof -
  have "is_run executor_step late_goal_run"
    unfolding late_goal_run_def Let_def is_run.simps
    by (intro conjI TrueI, (rule xs_check; simp add: late_goal_defs), (rule xs_stop; simp add: late_goal_defs),
        (rule xs_wait; simp add: late_goal_defs), (rule xs_waited [where h = None]; simp add: late_goal_defs),
        (rule xs_claim; simp add: late_goal_defs), (rule xs_take; simp add: late_goal_defs),
        (rule xs_join [where h = None]; simp add: late_goal_defs), (rule xs_start; simp add: late_goal_defs),
        (rule xs_unspin; simp add: late_goal_defs), (rule xs_destroy; simp add: late_goal_defs))
  then show ?thesis
    using is_run_rtranclp [of executor_step executor_threads_init "tl late_goal_run"]
    by (simp add: late_goal_run_def Let_def late_goal_defs)
qed

section \<open>The sequential model is one of the interleavings\<close>

text \<open>The thread state of an executor between goals, with what \<open>Task_Executor\<close> keeps of it.\<close>

definition executor_view :: "executor \<Rightarrow> worker_slot \<Rightarrow> executor_threads" where
  "executor_view x t =
     \<lparr>et_running = True, et_active = ex_active_goal x, et_workers_active = ex_workers_active x,
      et_slot = t, et_goal = GIdle, et_main = MRun\<rparr>"

lemma accepted_run_flags:
  assumes "executor_handle_accepted cfg e g x = Some x'"
  shows "\<exists>terminal. ex_active_goal x' = (if terminal then False else ex_active_goal x) \<and>
    ex_workers_active x' = Suc (ex_workers_active x) - 1"
proof -
  let ?a = "(accepted_state cfg e g x)\<lparr>ex_child := child_init\<rparr>"
  from executor_run_summary [OF assms] obtain r sx where
    ok: "worker_ok cfg e g ?a (r, sx)" and x': "x' = release_guards sx" by blast
  have "ex_active_goal ?a = ex_active_goal x"
    by (simp add: accepted_state_def ex_update_diag_def ex_emit_stage_def ex_observe_ctl)
  moreover have "ex_active_goal sx = ex_active_goal ?a \<and> ex_workers_active sx = ex_workers_active ?a"
    using ok open_from_ctl [of e ?a sx] by (auto simp: worker_ok_def ended_def closed_with_def dest: ctl_eqD)
  ultimately show ?thesis
    using x' by (auto simp: release_guards_def accepted_state_simps)
qed

text \<open>An accepted goal, executed without interference, is a run of the machine from one view to the next.\<close>

lemma sequential_goal_is_a_run:
  assumes "executor_handle_goal cfg True ready gid g x0 = (ACCEPT_AND_EXECUTE, x1)"
    and "executor_handle_accepted cfg e g x1 = Some x2" and "join_returns (wk_slot t) t"
  shows "\<exists>t'. executor_step\<^sup>*\<^sup>* (executor_view x0 t) (executor_view x2 t') \<and> join_returns (wk_slot t') t'"
proof -
  let ?s0 = "executor_view x0 t"
  let ?s1 = "?s0\<lparr>et_goal := GChecked\<rparr>" let ?s2 = "?s1\<lparr>et_active := True, et_goal := GClaimed\<rparr>"
  let ?s3 = "et_join_completed_worker ?s2" let ?s4 = "?s3\<lparr>et_goal := GJoined\<rparr>"
  let ?s5 = "et_start_worker ?s4" let ?w = "wk_next t"
  from assms(1) have x1: "\<not> ex_active_goal x0" "ex_active_goal x1" "ex_workers_active x1 = ex_workers_active x0"
    by (auto simp: executor_handle_goal_def split: if_splits)
  from accepted_run_flags [OF assms(2)] obtain terminal where
    x2: "ex_active_goal x2 = (if terminal then False else ex_active_goal x1)"
      "ex_workers_active x2 = Suc (ex_workers_active x1) - 1" by blast
  let ?s6 = "et_release_active terminal ?w ?s5" let ?s7 = "et_release_count ?w ?s6"
  let ?s8 = "?s7\<lparr>et_slot := worker_moves ?w Exited (et_slot ?s7)\<rparr>"
  note defs = executor_view_def et_spinning_def et_defs slot_defs
  have "is_run executor_step [?s0, ?s1, ?s2, ?s3, ?s4, ?s5, ?s6, ?s7, ?s8]"
    unfolding is_run.simps
    by (intro conjI TrueI, (rule xs_check; simp add: defs), (rule xs_claim; simp add: defs x1),
        (rule xs_take; simp add: defs),
        (rule xs_join [where h = "wk_slot t"]; use assms(3) in \<open>simp add: defs split: option.splits\<close>),
        (rule xs_start; simp add: defs), (rule xs_active; simp add: defs), (rule xs_count; simp add: defs),
        (rule xs_exit; simp add: defs))
  from is_run_rtranclp [OF this] have "executor_step\<^sup>*\<^sup>* ?s0 ?s8" by simp
  moreover have "?s8 = executor_view x2 (et_slot ?s8)"
    using x1 x2 by (simp add: defs)
  moreover have "join_returns (wk_slot (et_slot ?s8)) (et_slot ?s8)" by (simp add: defs)
  ultimately show ?thesis by metis
qed

section \<open>Property\<close>

text \<open>C19. In every interleaving of goal callbacks, workers and the shutdown, at most one worker of the
  executor has still to release its guards, and \<open>workers_active_\<close> is the number of them; assigning a new
  worker never meets a joinable handle, so that the program is never terminated before the node
  is destroyed; a node that was destroyed in order leaves no thread running; and a drain seen when the
  shutdown was requested and no goal callback was under way is final: nothing starts afterwards,
  and destroying the node does not terminate the program.
\<close>

theorem executor_threads_are_joined:
  assumes "executor_step\<^sup>*\<^sup>* executor_threads_init s"
  shows "(\<forall>v w. counted s v \<and> counted s w \<longrightarrow> v = w) \<and>
    et_workers_active s = (if \<exists>w. counted s w then 1 else 0) \<and>
    (wk_terminated (et_slot s) \<longrightarrow> et_main s = MDestroyed) \<and>
    (et_main s = MDestroyed \<and> \<not> wk_terminated (et_slot s) \<longrightarrow> (\<forall>w. \<not> live (et_slot s) w)) \<and>
    (\<not> et_running s \<and> et_goal s = GIdle \<and> et_drained s \<and> \<not> wk_terminated (et_slot s) \<longrightarrow>
       (\<forall>s'. executor_step\<^sup>*\<^sup>* s s' \<longrightarrow> et_drained s' \<and> \<not> wk_terminated (et_slot s')))"
proof -
  from executor_run_inv [OF assms] have inv: "handles_ok s" "count_ok s" by simp_all
  have "\<not> live (et_slot s) w" if "et_main s = MDestroyed" "\<not> wk_terminated (et_slot s)" for w
  proof -
    have "\<not> et_owned s w" for w
      using that inv(1) by (auto simp: handles_ok_def et_owned_def et_spinning_def)
    from et.nothing_runs_unowned [OF assms refl this] show ?thesis by simp
  qed
  moreover have "v = w" if "counted s v" "counted s w" for v w
    using that one_in_use [OF inv(1)] inv(2) by (auto simp: count_ok_def)
  moreover have "et_drained s' \<and> \<not> wk_terminated (et_slot s')"
    if "et_quiet s" "\<not> wk_terminated (et_slot s)" "executor_step\<^sup>*\<^sup>* s s'" for s'
    using et_quiet_run [OF that(3,1,2)] by (simp add: et_quiet_def)
  moreover have "wk_terminated (et_slot s) \<longrightarrow> et_main s = MDestroyed"
    using inv(1) by (simp add: handles_ok_def)
  ultimately show ?thesis
    using inv(2) by (auto simp: count_ok_def et_quiet_def)
qed

text \<open>A whole life: a task accepted, executed and finished, the shutdown, the drain and the destruction.\<close>

definition life_state ::
  "bool \<Rightarrow> bool \<Rightarrow> nat \<Rightarrow> worker_slot \<Rightarrow> goal_pc \<Rightarrow> main_pc \<Rightarrow> executor_threads" where
  "life_state running active n t g m =
     \<lparr>et_running = running, et_active = active, et_workers_active = n, et_slot = t, et_goal = g, et_main = m\<rparr>"

definition executor_life :: "executor_threads list" where
  "executor_life =
     [life_state True False 0 no_workers GIdle MRun,
      life_state True False 0 no_workers GChecked MRun,
      life_state True True 0 no_workers GClaimed MRun,
      life_state True True 0 no_workers (GTaken None) MRun,
      life_state True True 0 no_workers GJoined MRun,
      life_state True True 1 (life_slot (Some 0) Executing) GIdle MRun,
      life_state False True 1 (life_slot (Some 0) Executing) GIdle MStopping,
      life_state False False 1 (life_slot (Some 0) ActiveReleased) GIdle MStopping,
      life_state False False 0 (life_slot (Some 0) CountReleased) GIdle MStopping,
      life_state False False 0 (life_slot None CountReleased) GIdle (MTaken (Some 0)),
      life_state False False 0 (life_slot None Exited) GIdle (MTaken (Some 0)),
      life_state False False 0 (life_slot None Exited) GIdle MDrained,
      life_state False False 0 (life_slot None Exited) GIdle MSpinJoined,
      life_state False False 0 (life_slot None Exited) GIdle (MDestroying None),
      life_state False False 0 (life_slot None Exited) GIdle MDestroyed]"

lemma executor_stepI: "executor_step s t \<Longrightarrow> t = t' \<Longrightarrow> executor_step s t'"
  by simp

lemmas life_defs = life_state_def life_slot_def no_workers_def et_spinning_def et_defs slot_defs

lemma executor_life_run: "executor_step\<^sup>*\<^sup>* executor_threads_init (last executor_life)"
proof -
  have "is_run executor_step executor_life"
    unfolding executor_life_def is_run.simps
    by (intro conjI TrueI, (rule executor_stepI [OF xs_check]; simp add: life_defs),
        (rule executor_stepI [OF xs_claim]; simp add: life_defs), (rule executor_stepI [OF xs_take]; simp add: life_defs),
        (rule executor_stepI [OF xs_join [where h = None]]; simp add: life_defs),
        (rule executor_stepI [OF xs_start]; simp add: life_defs), (rule executor_stepI [OF xs_stop]; simp add: life_defs),
        (rule executor_stepI [OF xs_active [where w = 0 and terminal = True]]; simp add: life_defs),
        (rule executor_stepI [OF xs_count [where w = 0]]; simp add: life_defs),
        (rule executor_stepI [OF xs_wait [where timed_out = False]]; simp add: life_defs),
        (rule executor_stepI [OF xs_exit [where w = 0]]; simp add: life_defs),
        (rule executor_stepI [OF xs_waited [where h = "Some 0"]]; simp add: life_defs),
        (rule executor_stepI [OF xs_unspin]; simp add: life_defs),
        (rule executor_stepI [OF xs_destroy]; simp add: life_defs),
        (rule executor_stepI [OF xs_destroyed [where h = None]]; simp add: life_defs))
  moreover have "hd executor_life = executor_threads_init"
    by (simp add: executor_life_def life_state_def executor_threads_init_def)
  ultimately show ?thesis
    using is_run_rtranclp [of executor_step executor_threads_init "tl executor_life"]
    by (simp add: executor_life_def)
qed

theorem executor_threads_are_joined_witness:
  "et_main (last executor_life) = MDestroyed \<and> wk_next (et_slot (last executor_life)) = 1 \<and>
   et_workers_active (last executor_life) = 0 \<and> (\<forall>w. \<not> live (et_slot (last executor_life)) w)"
proof -
  have "et_main (last executor_life) = MDestroyed" "wk_next (et_slot (last executor_life)) = 1"
    "\<not> wk_terminated (et_slot (last executor_life))" "et_workers_active (last executor_life) = 0"
    by (simp_all add: executor_life_def life_defs)
  then show ?thesis using executor_threads_are_joined [OF executor_life_run] by blast
qed

end
