(* ===== verification/Orchestrator_Threads.thy ===== *)
theory Orchestrator_Threads
  imports Worker_Slot Task_Orchestrator
begin

text \<open>
  The orchestrator node between its threads: the goal callback with its two readings of
  \<open>accepting_\<close>, the worker with the generation-guarded releases of \<open>active_\<close>, the main thread that
  stops and drains, and the destructor. One step per read or write of a shared flag and per
  critical section of \<open>worker_mutex_\<close>, which the goal callback also holds while it joins the
  previous worker. What a worker does is \<open>Orchestrator_Runs\<close>.
\<close>

section \<open>State\<close>

text \<open>The goal callback: outside, past its first checks, after its claim, after it took its
  generation, accepted (after the second reading), and in \<open>handle_accepted\<close> with the loaded
  generation, before and after it has the mutex.\<close>

datatype orch_goal_pc = OIdle | OChecked | OClaimed | ONumbered | OAccepted | OLoaded u64 | OJoining u64

record orchestrator_threads =
  ot_accepting :: bool
  ot_running :: bool
  ot_active :: bool
  ot_counter :: u64
  ot_generation :: u64
  ot_slot :: worker_slot
  ot_worker_generation :: "nat \<Rightarrow> u64"
  ot_goal :: orch_goal_pc
  ot_main :: main_pc

definition orchestrator_threads_init :: orchestrator_threads where
  "orchestrator_threads_init =
     \<lparr>ot_accepting = True, ot_running = True, ot_active = False, ot_counter = 0, ot_generation = 0,
      ot_slot = no_workers, ot_worker_generation = (\<lambda>_. 0), ot_goal = OIdle, ot_main = MRun\<rparr>"

section \<open>Operations\<close>

definition ot_request_stop :: "orchestrator_threads \<Rightarrow> orchestrator_threads" where
  "ot_request_stop s = s\<lparr>ot_accepting := False, ot_running := False\<rparr>"

text \<open>Whether the goal callback holds \<open>worker_mutex_\<close>.\<close>

definition ot_locked :: "orchestrator_threads \<Rightarrow> bool" where
  "ot_locked s \<longleftrightarrow> (\<exists>g. ot_goal s = OJoining g)"

text \<open>The part of \<open>wait_drained_for\<close> under the lock: \<open>None\<close> when the time passed, else the handle.\<close>

definition ot_wait_drained_for :: "bool \<Rightarrow> orchestrator_threads \<Rightarrow> nat option option \<times> orchestrator_threads" where
  "ot_wait_drained_for timed_out s =
     (if timed_out \<or> ot_active s then (None, s)
      else let (worker, t) = slot_take (ot_slot s) in (Some worker, s\<lparr>ot_slot := t\<rparr>))"

definition ot_drain :: "bool \<Rightarrow> (nat option \<Rightarrow> main_pc) \<Rightarrow> orchestrator_threads \<Rightarrow> orchestrator_threads" where
  "ot_drain timed_out joining s =
     (case ot_wait_drained_for timed_out s of
        (None, s1) \<Rightarrow> s1
      | (Some worker, s1) \<Rightarrow> s1\<lparr>ot_main := joining worker\<rparr>)"

text \<open>The claim, the generation, and the second reading with its withdrawal.\<close>

definition ot_claim :: "orchestrator_threads \<Rightarrow> orchestrator_threads" where
  "ot_claim s = (if ot_active s then s\<lparr>ot_goal := OIdle\<rparr> else s\<lparr>ot_active := True, ot_goal := OClaimed\<rparr>)"

definition ot_number :: "orchestrator_threads \<Rightarrow> orchestrator_threads" where
  "ot_number s =
     s\<lparr>ot_counter := ot_counter s + 1, ot_generation := ot_counter s + 1, ot_goal := ONumbered\<rparr>"

definition ot_recheck :: "orchestrator_threads \<Rightarrow> orchestrator_threads" where
  "ot_recheck s =
     (if \<not> ot_accepting s then s\<lparr>ot_active := False, ot_goal := OIdle\<rparr> else s\<lparr>ot_goal := OAccepted\<rparr>)"

text \<open>After \<open>worker_.join()\<close> the member is not joinable any more.\<close>

definition ot_start_worker :: "u64 \<Rightarrow> orchestrator_threads \<Rightarrow> orchestrator_threads" where
  "ot_start_worker g s =
     s\<lparr>ot_slot := slot_start ((ot_slot s)\<lparr>wk_slot := None\<rparr>),
       ot_worker_generation := (ot_worker_generation s)(wk_next (ot_slot s) := g), ot_goal := OIdle\<rparr>"

text \<open>The two releases. Each reads the generation and, in a later step, clears the flag.\<close>

definition ot_release :: "worker_pc \<Rightarrow> nat \<Rightarrow> orchestrator_threads \<Rightarrow> orchestrator_threads" where
  "ot_release pc w s = s\<lparr>ot_active := False, ot_slot := worker_moves w pc (ot_slot s)\<rparr>"

definition ot_worker_to :: "worker_pc \<Rightarrow> nat \<Rightarrow> orchestrator_threads \<Rightarrow> orchestrator_threads" where
  "ot_worker_to pc w s = s\<lparr>ot_slot := worker_moves w pc (ot_slot s)\<rparr>"

lemmas ot_defs = ot_request_stop_def ot_wait_drained_for_def ot_drain_def ot_claim_def ot_number_def
  ot_recheck_def ot_start_worker_def ot_release_def ot_worker_to_def

section \<open>Interleavings\<close>

definition ot_spinning :: "orchestrator_threads \<Rightarrow> bool" where
  "ot_spinning s \<longleftrightarrow> ot_main s \<in> {MRun, MStopping, MDrained} \<union> range MTaken"

text \<open>
  \<open>terminal\<close> releases when it made the transition (\<open>os_terminal\<close>, \<open>os_cleared\<close>) and not when the
  goal was no longer active (\<open>os_inactive\<close>); the guard releases when the transition did not fail
  and the generation is still the worker's (\<open>os_finish\<close>, \<open>os_finished\<close>), else it does nothing
  (\<open>os_leave\<close>).
\<close>

inductive orchestrator_step :: "orchestrator_threads \<Rightarrow> orchestrator_threads \<Rightarrow> bool" where
  os_check: "ot_spinning s \<Longrightarrow> ot_goal s = OIdle \<Longrightarrow> ot_accepting s \<Longrightarrow>
    orchestrator_step s (s\<lparr>ot_goal := OChecked\<rparr>)"
| os_claim: "ot_goal s = OChecked \<Longrightarrow> orchestrator_step s (ot_claim s)"
| os_number: "ot_goal s = OClaimed \<Longrightarrow> orchestrator_step s (ot_number s)"
| os_recheck: "ot_goal s = ONumbered \<Longrightarrow> orchestrator_step s (ot_recheck s)"
| os_load: "ot_goal s = OAccepted \<Longrightarrow> orchestrator_step s (s\<lparr>ot_goal := OLoaded (ot_generation s)\<rparr>)"
| os_lock: "ot_goal s = OLoaded g \<Longrightarrow> orchestrator_step s (s\<lparr>ot_goal := OJoining g\<rparr>)"
| os_start: "ot_goal s = OJoining g \<Longrightarrow> join_returns (wk_slot (ot_slot s)) (ot_slot s) \<Longrightarrow>
    orchestrator_step s (ot_start_worker g s)"
| os_terminal: "wk_pc (ot_slot s) w = Executing \<Longrightarrow> orchestrator_step s (ot_worker_to ReleaseChecked w s)"
| os_cleared: "wk_pc (ot_slot s) w = ReleaseChecked \<Longrightarrow> orchestrator_step s (ot_release ActiveReleased w s)"
| os_inactive: "wk_pc (ot_slot s) w = Executing \<Longrightarrow> orchestrator_step s (ot_worker_to ActiveReleased w s)"
| os_finish: "wk_pc (ot_slot s) w = ActiveReleased \<Longrightarrow> ot_generation s = ot_worker_generation s w \<Longrightarrow>
    orchestrator_step s (ot_worker_to FinishChecked w s)"
| os_finished: "wk_pc (ot_slot s) w = FinishChecked \<Longrightarrow> orchestrator_step s (ot_release Exited w s)"
| os_leave: "wk_pc (ot_slot s) w \<in> {Executing, ActiveReleased} \<Longrightarrow> orchestrator_step s (ot_worker_to Exited w s)"
| os_stop: "ot_main s = MRun \<Longrightarrow> orchestrator_step s ((ot_request_stop s)\<lparr>ot_main := MStopping\<rparr>)"
| os_wait: "ot_main s = MStopping \<Longrightarrow> \<not> ot_locked s \<Longrightarrow> orchestrator_step s (ot_drain timed_out MTaken s)"
| os_waited: "ot_main s = MTaken h \<Longrightarrow> join_returns h (ot_slot s) \<Longrightarrow>
    orchestrator_step s (s\<lparr>ot_main := MDrained\<rparr>)"
| os_unspin: "ot_main s = MDrained \<Longrightarrow> ot_goal s = OIdle \<Longrightarrow>
    orchestrator_step s (s\<lparr>ot_main := MSpinJoined\<rparr>)"
| os_destroy: "ot_main s = MSpinJoined \<Longrightarrow>
    orchestrator_step s (ot_drain timed_out MDestroying (ot_request_stop s))"
| os_destroyed: "ot_main s = MDestroying h \<Longrightarrow> join_returns h (ot_slot s) \<Longrightarrow>
    orchestrator_step s (s\<lparr>ot_main := MDestroyed\<rparr>)"

section \<open>Ownership\<close>

definition ot_owned :: "orchestrator_threads \<Rightarrow> nat \<Rightarrow> bool" where
  "ot_owned s w \<longleftrightarrow>
     wk_slot (ot_slot s) = Some w \<or> ot_main s = MTaken (Some w) \<or> ot_main s = MDestroying (Some w)"

definition ot_ok :: "orchestrator_threads \<Rightarrow> bool" where
  "ot_ok s \<longleftrightarrow>
     slot_ok (ot_slot s) \<and> \<not> wk_terminated (ot_slot s) \<and>
     (\<not> ot_spinning s \<longrightarrow> ot_goal s = OIdle) \<and>
     (ot_main s \<noteq> MRun \<longrightarrow> \<not> ot_accepting s) \<and>
     (ot_main s \<in> {MDestroyed} \<union> range MDestroying \<longrightarrow> wk_slot (ot_slot s) = None)"

lemma ot_ok_init: "ot_ok orchestrator_threads_init"
  using slot_ok_init by (auto simp: ot_ok_def orchestrator_threads_init_def no_workers_def ot_spinning_def)

lemma ot_ok_step: "orchestrator_step s s' \<Longrightarrow> ot_ok s \<Longrightarrow> ot_ok s'"
  by (cases rule: orchestrator_step.cases, assumption)
    (auto simp: ot_ok_def ot_defs slot_defs ot_spinning_def slot_ok_def split: if_splits)

interpretation ot: thread_owner "\<lambda>s. s = orchestrator_threads_init" orchestrator_step "live \<circ> ot_slot" ot_owned
proof unfold_locales
  fix s s' :: orchestrator_threads and w
  show "s = orchestrator_threads_init \<Longrightarrow> \<not> (live \<circ> ot_slot) s w"
    by (simp add: orchestrator_threads_init_def no_workers_def live_def)
  show "orchestrator_step s s' \<Longrightarrow> \<not> (live \<circ> ot_slot) s w \<Longrightarrow> (live \<circ> ot_slot) s' w \<Longrightarrow> ot_owned s' w"
    by (erule orchestrator_step.cases) (auto simp: live_def ot_owned_def ot_defs slot_defs split: if_splits)
  show "orchestrator_step s s' \<Longrightarrow> (live \<circ> ot_slot) s w \<Longrightarrow> ot_owned s w \<Longrightarrow> (live \<circ> ot_slot) s' w \<Longrightarrow>
      ot_owned s' w"
    by (erule orchestrator_step.cases)
      (auto simp: live_def ot_owned_def ot_defs slot_defs split: if_splits option.splits)
qed

lemma orchestrator_run_inv: "orchestrator_step\<^sup>*\<^sup>* orchestrator_threads_init s \<Longrightarrow> ot_ok s"
  by (induction rule: rtranclp_induct) (auto intro: ot_ok_init ot_ok_step)

section \<open>A refused goal starts nothing\<close>

text \<open>Stopped, and no goal callback past the second reading of \<open>accepting_\<close>.\<close>

definition ot_closed :: "orchestrator_threads \<Rightarrow> bool" where
  "ot_closed s \<longleftrightarrow> \<not> ot_accepting s \<and> ot_goal s \<in> {OIdle, OChecked, OClaimed, ONumbered}"

lemma ot_closed_step:
  "orchestrator_step s s' \<Longrightarrow> ot_closed s \<Longrightarrow> ot_closed s' \<and> wk_next (ot_slot s') = wk_next (ot_slot s)"
  by (erule orchestrator_step.cases)
    (auto simp: ot_closed_def ot_defs slot_defs split: if_splits option.splits)

lemma ot_closed_run:
  "orchestrator_step\<^sup>*\<^sup>* s s' \<Longrightarrow> ot_closed s \<Longrightarrow> ot_closed s' \<and> wk_next (ot_slot s') = wk_next (ot_slot s)"
  by (induction rule: rtranclp_induct) (auto dest: ot_closed_step)

section \<open>Property\<close>

text \<open>C20. In every interleaving of goal callbacks, workers, the shutdown and the destructor of the
  orchestrator, no joinable handle is overwritten, so that the program is never terminated; until
  the shutdown at most one worker thread runs; once it stopped accepting, and no callback is past its
  second reading of the flag, no worker is ever started again; and when the node was destroyed, no
  thread of it runs.
\<close>

theorem orchestrator_threads_are_joined:
  assumes "orchestrator_step\<^sup>*\<^sup>* orchestrator_threads_init s"
  shows "\<not> wk_terminated (ot_slot s) \<and>
    (ot_main s = MRun \<longrightarrow> (\<forall>v w. live (ot_slot s) v \<and> live (ot_slot s) w \<longrightarrow> v = w)) \<and>
    (\<not> ot_accepting s \<and> ot_goal s \<in> {OIdle, OChecked, OClaimed, ONumbered} \<longrightarrow>
       (\<forall>s'. orchestrator_step\<^sup>*\<^sup>* s s' \<longrightarrow> wk_next (ot_slot s') = wk_next (ot_slot s))) \<and>
    (ot_main s = MDestroyed \<longrightarrow> (\<forall>w. \<not> live (ot_slot s) w))"
proof -
  from orchestrator_run_inv [OF assms] have ok: "ot_ok s" .
  have "v = w" if "ot_main s = MRun" "live (ot_slot s) v" "live (ot_slot s) w" for v w
    using that ot.running_is_owned [OF assms refl, of v] ot.running_is_owned [OF assms refl, of w]
    by (simp add: ot_owned_def)
  moreover have "\<not> live (ot_slot s) w" if "ot_main s = MDestroyed" for w
  proof -
    have "\<not> ot_owned s w" for w using that ok by (auto simp: ot_ok_def ot_owned_def)
    from ot.nothing_runs_unowned [OF assms refl this] show ?thesis by simp
  qed
  moreover have "wk_next (ot_slot s') = wk_next (ot_slot s)" if "ot_closed s" "orchestrator_step\<^sup>*\<^sup>* s s'" for s'
    using ot_closed_run [OF that(2,1)] by simp
  ultimately show ?thesis using ok unfolding ot_ok_def ot_closed_def by blast
qed

text \<open>Sample states: flags, counter (which is then also the generation), the slot and who uses it.\<close>

definition orch_life_state ::
  "bool \<Rightarrow> bool \<Rightarrow> u64 \<Rightarrow> worker_slot \<Rightarrow> (nat \<Rightarrow> u64) \<Rightarrow> orch_goal_pc \<Rightarrow> main_pc \<Rightarrow> orchestrator_threads" where
  "orch_life_state accepting active n t gen g m =
     \<lparr>ot_accepting = accepting, ot_running = accepting, ot_active = active, ot_counter = n,
      ot_generation = n, ot_slot = t, ot_worker_generation = gen, ot_goal = g, ot_main = m\<rparr>"

definition first_generation :: "nat \<Rightarrow> u64" where
  "first_generation = (\<lambda>_. 0)(0 := 1)"

definition first_workflow :: "orchestrator_threads list" where
  "first_workflow =
     [orch_life_state True False 0 no_workers (\<lambda>_. 0) OIdle MRun,
      orch_life_state True False 0 no_workers (\<lambda>_. 0) OChecked MRun,
      orch_life_state True True 0 no_workers (\<lambda>_. 0) OClaimed MRun,
      orch_life_state True True 1 no_workers (\<lambda>_. 0) ONumbered MRun,
      orch_life_state True True 1 no_workers (\<lambda>_. 0) OAccepted MRun,
      orch_life_state True True 1 no_workers (\<lambda>_. 0) (OLoaded 1) MRun,
      orch_life_state True True 1 no_workers (\<lambda>_. 0) (OJoining 1) MRun,
      orch_life_state True True 1 (life_slot (Some 0) Executing) first_generation OIdle MRun]"

lemma orchestrator_stepI: "orchestrator_step s t \<Longrightarrow> t = t' \<Longrightarrow> orchestrator_step s t'"
  by simp

lemmas orch_life_defs = orch_life_state_def life_slot_def no_workers_def first_generation_def
  ot_spinning_def ot_locked_def ot_defs slot_defs

lemma first_workflow_run: "orchestrator_step\<^sup>*\<^sup>* orchestrator_threads_init (last first_workflow)"
proof -
  have "is_run orchestrator_step first_workflow"
    unfolding first_workflow_def is_run.simps
    by (intro conjI TrueI, (rule orchestrator_stepI [OF os_check]; simp add: orch_life_defs),
        (rule orchestrator_stepI [OF os_claim]; simp add: orch_life_defs),
        (rule orchestrator_stepI [OF os_number]; simp add: orch_life_defs),
        (rule orchestrator_stepI [OF os_recheck]; simp add: orch_life_defs),
        (rule orchestrator_stepI [OF os_load]; simp add: orch_life_defs),
        (rule orchestrator_stepI [OF os_lock]; simp add: orch_life_defs),
        (rule orchestrator_stepI [OF os_start [where g = 1]]; simp add: orch_life_defs))
  moreover have "hd first_workflow = orchestrator_threads_init"
    by (simp add: first_workflow_def orch_life_state_def orchestrator_threads_init_def)
  ultimately show ?thesis
    using is_run_rtranclp [of orchestrator_step orchestrator_threads_init "tl first_workflow"]
    by (simp add: first_workflow_def)
qed

definition orchestrator_life :: "orchestrator_threads list" where
  "orchestrator_life =
     [last first_workflow,
      orch_life_state True True 1 (life_slot (Some 0) ReleaseChecked) first_generation OIdle MRun,
      orch_life_state False True 1 (life_slot (Some 0) ReleaseChecked) first_generation OIdle MStopping,
      orch_life_state False False 1 (life_slot (Some 0) ActiveReleased) first_generation OIdle MStopping,
      orch_life_state False False 1 (life_slot None ActiveReleased) first_generation OIdle (MTaken (Some 0)),
      orch_life_state False False 1 (life_slot None FinishChecked) first_generation OIdle (MTaken (Some 0)),
      orch_life_state False False 1 (life_slot None Exited) first_generation OIdle (MTaken (Some 0)),
      orch_life_state False False 1 (life_slot None Exited) first_generation OIdle MDrained,
      orch_life_state False False 1 (life_slot None Exited) first_generation OIdle MSpinJoined,
      orch_life_state False False 1 (life_slot None Exited) first_generation OIdle (MDestroying None),
      orch_life_state False False 1 (life_slot None Exited) first_generation OIdle MDestroyed]"

lemma orchestrator_life_run: "orchestrator_step\<^sup>*\<^sup>* orchestrator_threads_init (last orchestrator_life)"
proof -
  have last: "last first_workflow =
      orch_life_state True True 1 (life_slot (Some 0) Executing) first_generation OIdle MRun"
    by (simp add: first_workflow_def)
  have "is_run orchestrator_step orchestrator_life"
    unfolding orchestrator_life_def is_run.simps last
    by (intro conjI TrueI, (rule orchestrator_stepI [OF os_terminal [where w = 0]]; simp add: orch_life_defs),
        (rule orchestrator_stepI [OF os_stop]; simp add: orch_life_defs),
        (rule orchestrator_stepI [OF os_cleared [where w = 0]]; simp add: orch_life_defs),
        (rule orchestrator_stepI [OF os_wait [where timed_out = False]]; simp add: orch_life_defs),
        (rule orchestrator_stepI [OF os_finish [where w = 0]]; simp add: orch_life_defs),
        (rule orchestrator_stepI [OF os_finished [where w = 0]]; simp add: orch_life_defs),
        (rule orchestrator_stepI [OF os_waited [where h = "Some 0"]]; simp add: orch_life_defs),
        (rule orchestrator_stepI [OF os_unspin]; simp add: orch_life_defs),
        (rule orchestrator_stepI [OF os_destroy [where timed_out = False]]; simp add: orch_life_defs),
        (rule orchestrator_stepI [OF os_destroyed [where h = None]]; simp add: orch_life_defs))
  from is_run_rtranclp [OF this [unfolded orchestrator_life_def]] first_workflow_run show ?thesis
    unfolding orchestrator_life_def by (rule rtranclp_trans [rotated])
qed

theorem orchestrator_threads_are_joined_witness:
  "ot_main (last orchestrator_life) = MDestroyed \<and> wk_next (ot_slot (last orchestrator_life)) = 1 \<and>
   (\<forall>w. \<not> live (ot_slot (last orchestrator_life)) w)"
proof -
  have "ot_main (last orchestrator_life) = MDestroyed" "wk_next (ot_slot (last orchestrator_life)) = 1"
    by (simp_all add: orchestrator_life_def orch_life_defs)
  then show ?thesis using orchestrator_threads_are_joined [OF orchestrator_life_run] by blast
qed

section \<open>A release that comes too late\<close>

text \<open>
  The generation check and the store of \<open>release_active_for_generation\<close> are two steps. A worker
  that passed the check of its guard can be overtaken by the next goal's claim; its store then
  clears the flag of that goal, which runs on without it.
\<close>

definition two_workers :: "nat option \<Rightarrow> worker_pc \<Rightarrow> worker_slot" where
  "two_workers handle pc =
     \<lparr>wk_slot = handle, wk_pc = (\<lambda>_. Exited)(0 := Exited, 1 := pc), wk_next = 2, wk_terminated = False\<rparr>"

definition second_generation :: "nat \<Rightarrow> u64" where
  "second_generation = first_generation(1 := 2)"

definition stale_release :: "orchestrator_threads list" where
  "stale_release =
     [last first_workflow,
      orch_life_state True True 1 (life_slot (Some 0) ReleaseChecked) first_generation OIdle MRun,
      orch_life_state True False 1 (life_slot (Some 0) ActiveReleased) first_generation OIdle MRun,
      orch_life_state True False 1 (life_slot (Some 0) FinishChecked) first_generation OIdle MRun,
      orch_life_state True False 1 (life_slot (Some 0) FinishChecked) first_generation OChecked MRun,
      orch_life_state True True 1 (life_slot (Some 0) FinishChecked) first_generation OClaimed MRun,
      orch_life_state True True 2 (life_slot (Some 0) FinishChecked) first_generation ONumbered MRun,
      orch_life_state True True 2 (life_slot (Some 0) FinishChecked) first_generation OAccepted MRun,
      orch_life_state True False 2 (life_slot (Some 0) Exited) first_generation OAccepted MRun,
      orch_life_state True False 2 (life_slot (Some 0) Exited) first_generation (OLoaded 2) MRun,
      orch_life_state True False 2 (life_slot (Some 0) Exited) first_generation (OJoining 2) MRun,
      orch_life_state True False 2 (two_workers (Some 1) Executing) second_generation OIdle MRun]"

lemma stale_release_frees_running_workflow:
  "orchestrator_step\<^sup>*\<^sup>* orchestrator_threads_init (last stale_release) \<and>
   wk_pc (ot_slot (last stale_release)) 1 = Executing \<and> \<not> ot_active (last stale_release)"
proof -
  have last: "last first_workflow =
      orch_life_state True True 1 (life_slot (Some 0) Executing) first_generation OIdle MRun"
    by (simp add: first_workflow_def)
  have "is_run orchestrator_step stale_release"
    unfolding stale_release_def is_run.simps last
    by (intro conjI TrueI, (rule orchestrator_stepI [OF os_terminal [where w = 0]]; simp add: orch_life_defs),
        (rule orchestrator_stepI [OF os_cleared [where w = 0]]; simp add: orch_life_defs),
        (rule orchestrator_stepI [OF os_finish [where w = 0]]; simp add: orch_life_defs),
        (rule orchestrator_stepI [OF os_check]; simp add: orch_life_defs),
        (rule orchestrator_stepI [OF os_claim]; simp add: orch_life_defs),
        (rule orchestrator_stepI [OF os_number]; simp add: orch_life_defs),
        (rule orchestrator_stepI [OF os_recheck]; simp add: orch_life_defs),
        (rule orchestrator_stepI [OF os_finished [where w = 0]]; simp add: orch_life_defs),
        (rule orchestrator_stepI [OF os_load]; simp add: orch_life_defs),
        (rule orchestrator_stepI [OF os_lock]; simp add: orch_life_defs),
        (rule orchestrator_stepI [OF os_start [where g = 2]];
          simp add: orch_life_defs second_generation_def two_workers_def))
  from is_run_rtranclp [OF this [unfolded stale_release_def]] first_workflow_run
  have "orchestrator_step\<^sup>*\<^sup>* orchestrator_threads_init (last stale_release)"
    unfolding stale_release_def by (rule rtranclp_trans [rotated])
  then show ?thesis
    by (simp add: stale_release_def orch_life_state_def two_workers_def)
qed

end
