(* ===== verification/Bridge_Threads.thy ===== *)
theory Bridge_Threads
  imports Worker_Slot Device_Bridge
begin

text \<open>
  The bridge node between its threads: goal callback, worker and destructor, one step per read or
  write of a shared flag and per critical section of \<open>workers_mutex_\<close>. The single-threaded
  executor that spins the node runs one callback at a time and has stopped when the node is
  destroyed. What a worker does is \<open>Device_Bridge\<close>.
\<close>

section \<open>State and operations\<close>

record bridge_threads =
  bt_running :: bool
  bt_active :: bool
  bt_slot :: worker_slot
  bt_goal :: goal_pc
  bt_main :: main_pc

definition bridge_threads_init :: bridge_threads where
  "bridge_threads_init =
     \<lparr>bt_running = True, bt_active = False, bt_slot = no_workers, bt_goal = GIdle, bt_main = MRun\<rparr>"

text \<open>\<open>compare_exchange_strong\<close> on the active flag.\<close>

definition bt_claim :: "bridge_threads \<Rightarrow> bool \<times> bridge_threads" where
  "bt_claim s =
     (if bt_active s then (False, s\<lparr>bt_goal := GIdle\<rparr>)
      else (True, s\<lparr>bt_active := True, bt_goal := GClaimed\<rparr>))"

definition bt_join_completed_worker :: "bridge_threads \<Rightarrow> bridge_threads" where
  "bt_join_completed_worker s =
     (let (worker, t) = slot_take (bt_slot s) in s\<lparr>bt_slot := t, bt_goal := GTaken worker\<rparr>)"

definition bt_start_worker :: "bridge_threads \<Rightarrow> bridge_threads" where
  "bt_start_worker s = s\<lparr>bt_slot := slot_start (bt_slot s), bt_goal := GIdle\<rparr>"

text \<open>\<open>ActiveGuard\<close>, on every way out of \<open>execute\<close>.\<close>

definition bt_release_active :: "nat \<Rightarrow> bridge_threads \<Rightarrow> bridge_threads" where
  "bt_release_active w s = s\<lparr>bt_active := False, bt_slot := worker_moves w ActiveReleased (bt_slot s)\<rparr>"

definition bt_destroy :: "bridge_threads \<Rightarrow> bridge_threads" where
  "bt_destroy s =
     (let (worker, t) = slot_take (bt_slot s)
      in s\<lparr>bt_running := False, bt_slot := t, bt_main := MDestroying worker\<rparr>)"

lemmas bt_defs = bt_claim_def bt_join_completed_worker_def bt_start_worker_def bt_release_active_def
  bt_destroy_def

inductive bridge_step :: "bridge_threads \<Rightarrow> bridge_threads \<Rightarrow> bool" where
  bs_check: "bt_main s = MRun \<Longrightarrow> bt_goal s = GIdle \<Longrightarrow> bridge_step s (s\<lparr>bt_goal := GChecked\<rparr>)"
| bs_claim: "bt_goal s = GChecked \<Longrightarrow> bridge_step s (snd (bt_claim s))"
| bs_take: "bt_goal s = GClaimed \<Longrightarrow> bridge_step s (bt_join_completed_worker s)"
| bs_join: "bt_goal s = GTaken h \<Longrightarrow> join_returns h (bt_slot s) \<Longrightarrow> bridge_step s (s\<lparr>bt_goal := GJoined\<rparr>)"
| bs_start: "bt_goal s = GJoined \<Longrightarrow> bridge_step s (bt_start_worker s)"
| bs_active: "wk_pc (bt_slot s) w = Executing \<Longrightarrow> bridge_step s (bt_release_active w s)"
| bs_exit: "wk_pc (bt_slot s) w = ActiveReleased \<Longrightarrow>
    bridge_step s (s\<lparr>bt_slot := worker_moves w Exited (bt_slot s)\<rparr>)"
| bs_destroy: "bt_main s = MRun \<Longrightarrow> bt_goal s = GIdle \<Longrightarrow> bridge_step s (bt_destroy s)"
| bs_destroyed: "bt_main s = MDestroying h \<Longrightarrow> join_returns h (bt_slot s) \<Longrightarrow>
    bridge_step s (s\<lparr>bt_main := MDestroyed\<rparr>)"

section \<open>Ownership and mutual exclusion\<close>

definition bt_owned :: "bridge_threads \<Rightarrow> nat \<Rightarrow> bool" where
  "bt_owned s w \<longleftrightarrow> wk_slot (bt_slot s) = Some w \<or> bt_goal s = GTaken (Some w) \<or>
     bt_main s = MDestroying (Some w)"

definition bt_executing :: "bridge_threads \<Rightarrow> nat \<Rightarrow> bool" where
  "bt_executing s w \<longleftrightarrow> wk_pc (bt_slot s) w = Executing"

definition bt_handles_ok :: "bridge_threads \<Rightarrow> bool" where
  "bt_handles_ok s \<longleftrightarrow>
     slot_ok (bt_slot s) \<and> \<not> wk_terminated (bt_slot s) \<and>
     (bt_goal s \<in> {GJoined} \<union> range GTaken \<longrightarrow> wk_slot (bt_slot s) = None) \<and>
     (bt_main s \<noteq> MRun \<longrightarrow> bt_goal s = GIdle \<and> wk_slot (bt_slot s) = None)"

text \<open>The flag is set exactly between a claim and the guard of the worker it leads to.\<close>

definition bt_claimed :: "bridge_threads \<Rightarrow> bool" where
  "bt_claimed s \<longleftrightarrow> bt_goal s \<in> {GClaimed, GJoined} \<union> range GTaken"

definition bt_active_ok :: "bridge_threads \<Rightarrow> bool" where
  "bt_active_ok s \<longleftrightarrow>
     (if bt_claimed s then bt_active s \<and> (\<forall>w. \<not> bt_executing s w)
      else (bt_active s \<longleftrightarrow> (\<exists>w. bt_executing s w)) \<and>
           (\<forall>v w. bt_executing s v \<longrightarrow> bt_executing s w \<longrightarrow> v = w))"

lemma bt_handles_ok_init: "bt_handles_ok bridge_threads_init"
  using slot_ok_init by (auto simp: bt_handles_ok_def bridge_threads_init_def no_workers_def)

lemma bt_handles_ok_step: "bridge_step s s' \<Longrightarrow> bt_handles_ok s \<Longrightarrow> bt_handles_ok s'"
  by (cases rule: bridge_step.cases, assumption)
    (auto simp: bt_handles_ok_def bt_defs slot_defs slot_ok_def split: if_splits)

lemma bt_active_ok_init: "bt_active_ok bridge_threads_init"
  by (auto simp: bt_active_ok_def bt_claimed_def bt_executing_def bridge_threads_init_def no_workers_def)

lemma bt_active_ok_step:
  assumes "bridge_step s s'" and "bt_handles_ok s" and "bt_active_ok s"
  shows "bt_active_ok s'"
  using assms(1)
proof cases
  case bs_start
  moreover have "bt_executing s' w \<longleftrightarrow> bt_executing s w \<or> w = wk_next (bt_slot s)" for w
    using bs_start assms(2)
    by (auto simp: bt_executing_def bt_start_worker_def slot_start_def bt_handles_ok_def)
  ultimately show ?thesis
    using assms(3) by (auto simp: bt_active_ok_def bt_claimed_def bt_start_worker_def)
next
  case (bs_active w)
  then have "bt_executing s w" by (simp add: bt_executing_def)
  moreover have "bt_executing s' v \<longleftrightarrow> bt_executing s v \<and> v \<noteq> w" for v
    using bs_active by (auto simp: bt_executing_def bt_release_active_def worker_moves_def)
  ultimately show ?thesis
    using assms(3) bs_active(1)
    by (auto simp: bt_active_ok_def bt_claimed_def bt_release_active_def split: if_splits)
next
  case bs_claim
  then have "bt_executing s' = bt_executing s" by (auto simp: bt_executing_def bt_claim_def fun_eq_iff)
  with bs_claim assms(3) show ?thesis
    by (auto simp: bt_active_ok_def bt_claimed_def bt_claim_def split: if_splits)
next
  case (bs_exit w)
  then have "bt_executing s' = bt_executing s" by (auto simp: bt_executing_def worker_moves_def fun_eq_iff)
  with bs_exit assms(3) show ?thesis by (auto simp: bt_active_ok_def bt_claimed_def split: if_splits)
qed (use assms(3) in \<open>auto simp: bt_active_ok_def bt_claimed_def bt_executing_def bt_join_completed_worker_def
    bt_destroy_def slot_take_def split: if_splits\<close>)

interpretation bt: thread_owner "\<lambda>s. s = bridge_threads_init" bridge_step "live \<circ> bt_slot" bt_owned
proof unfold_locales
  fix s s' :: bridge_threads and w
  show "s = bridge_threads_init \<Longrightarrow> \<not> (live \<circ> bt_slot) s w"
    by (simp add: bridge_threads_init_def no_workers_def live_def)
  show "bridge_step s s' \<Longrightarrow> \<not> (live \<circ> bt_slot) s w \<Longrightarrow> (live \<circ> bt_slot) s' w \<Longrightarrow> bt_owned s' w"
    by (erule bridge_step.cases) (auto simp: live_def bt_owned_def bt_defs slot_defs split: if_splits)
  show "bridge_step s s' \<Longrightarrow> (live \<circ> bt_slot) s w \<Longrightarrow> bt_owned s w \<Longrightarrow> (live \<circ> bt_slot) s' w \<Longrightarrow>
      bt_owned s' w"
    by (erule bridge_step.cases) (auto simp: live_def bt_owned_def bt_defs slot_defs split: if_splits)
qed

lemma bridge_run_inv: "bridge_step\<^sup>*\<^sup>* bridge_threads_init s \<Longrightarrow> bt_handles_ok s \<and> bt_active_ok s"
  by (induction rule: rtranclp_induct)
    (auto intro: bt_handles_ok_init bt_active_ok_init bt_handles_ok_step bt_active_ok_step)

section \<open>Property\<close>

text \<open>C12. In every interleaving of goal callbacks, workers and the destructor, the bridge has at most
  one wire transaction: \<open>active_goal_\<close> is set exactly while a claimed goal is being handed over or
  its worker executes, never more than one worker executes, and none does while a newly claimed
  goal waits for the previous worker; the program is never terminated by a handle that is still
  joinable; and when the node was destroyed, no thread of it runs.
\<close>

theorem bridge_serves_one_goal_at_a_time:
  assumes "bridge_step\<^sup>*\<^sup>* bridge_threads_init s"
  shows "(bt_active s \<longleftrightarrow> bt_claimed s \<or> (\<exists>w. bt_executing s w)) \<and>
    (\<forall>v w. bt_executing s v \<and> bt_executing s w \<longrightarrow> v = w) \<and>
    \<not> (bt_claimed s \<and> (\<exists>w. bt_executing s w)) \<and> \<not> wk_terminated (bt_slot s) \<and>
    (bt_main s = MDestroyed \<longrightarrow> (\<forall>w. \<not> live (bt_slot s) w))"
proof -
  from bridge_run_inv [OF assms] have inv: "bt_handles_ok s" "bt_active_ok s" by simp_all
  have "\<not> live (bt_slot s) w" if "bt_main s = MDestroyed" for w
  proof -
    have "\<not> bt_owned s w" for w using that inv(1) by (auto simp: bt_handles_ok_def bt_owned_def)
    from bt.nothing_runs_unowned [OF assms refl this] show ?thesis by simp
  qed
  then show ?thesis
    using inv by (auto simp: bt_active_ok_def bt_handles_ok_def split: if_splits)
qed

definition bridge_life_state ::
  "bool \<Rightarrow> bool \<Rightarrow> worker_slot \<Rightarrow> goal_pc \<Rightarrow> main_pc \<Rightarrow> bridge_threads" where
  "bridge_life_state running active t g m =
     \<lparr>bt_running = running, bt_active = active, bt_slot = t, bt_goal = g, bt_main = m\<rparr>"

definition bridge_life :: "bridge_threads list" where
  "bridge_life =
     [bridge_life_state True False no_workers GIdle MRun,
      bridge_life_state True False no_workers GChecked MRun,
      bridge_life_state True True no_workers GClaimed MRun,
      bridge_life_state True True no_workers (GTaken None) MRun,
      bridge_life_state True True no_workers GJoined MRun,
      bridge_life_state True True (life_slot (Some 0) Executing) GIdle MRun,
      bridge_life_state False True (life_slot None Executing) GIdle (MDestroying (Some 0)),
      bridge_life_state False False (life_slot None ActiveReleased) GIdle (MDestroying (Some 0)),
      bridge_life_state False False (life_slot None Exited) GIdle (MDestroying (Some 0)),
      bridge_life_state False False (life_slot None Exited) GIdle MDestroyed]"

lemma bridge_stepI: "bridge_step s t \<Longrightarrow> t = t' \<Longrightarrow> bridge_step s t'"
  by simp

lemmas bridge_life_defs = bridge_life_state_def life_slot_def no_workers_def bt_defs slot_defs

lemma bridge_life_run: "bridge_step\<^sup>*\<^sup>* bridge_threads_init (last bridge_life)"
proof -
  have "is_run bridge_step bridge_life"
    unfolding bridge_life_def is_run.simps
    by (intro conjI TrueI, (rule bridge_stepI [OF bs_check]; simp add: bridge_life_defs),
        (rule bridge_stepI [OF bs_claim]; simp add: bridge_life_defs),
        (rule bridge_stepI [OF bs_take]; simp add: bridge_life_defs),
        (rule bridge_stepI [OF bs_join [where h = None]]; simp add: bridge_life_defs),
        (rule bridge_stepI [OF bs_start]; simp add: bridge_life_defs),
        (rule bridge_stepI [OF bs_destroy]; simp add: bridge_life_defs),
        (rule bridge_stepI [OF bs_active [where w = 0]]; simp add: bridge_life_defs),
        (rule bridge_stepI [OF bs_exit [where w = 0]]; simp add: bridge_life_defs),
        (rule bridge_stepI [OF bs_destroyed [where h = "Some 0"]]; simp add: bridge_life_defs))
  moreover have "hd bridge_life = bridge_threads_init"
    by (simp add: bridge_life_def bridge_life_state_def bridge_threads_init_def)
  ultimately show ?thesis
    using is_run_rtranclp [of bridge_step bridge_threads_init "tl bridge_life"]
    by (simp add: bridge_life_def)
qed

theorem bridge_serves_one_goal_at_a_time_witness:
  "bt_main (last bridge_life) = MDestroyed \<and> wk_next (bt_slot (last bridge_life)) = 1 \<and>
   \<not> bt_active (last bridge_life) \<and> (\<forall>w. \<not> live (bt_slot (last bridge_life)) w)"
proof -
  have "bt_main (last bridge_life) = MDestroyed" "wk_next (bt_slot (last bridge_life)) = 1"
    "\<not> bt_active (last bridge_life)"
    by (simp_all add: bridge_life_def bridge_life_defs)
  then show ?thesis using bridge_serves_one_goal_at_a_time [OF bridge_life_run] by blast
qed

end
