(* ===== verification/Health_Monitor.thy ===== *)
theory Health_Monitor
  imports Runtime_Prelude
begin

text \<open>
  \<open>runtime_monitor\<close>: the health aggregator (\<open>health_aggregator.hpp/.cpp\<close>) and the monitor
  node around it (\<open>runtime_monitor_node.cpp\<close>), which publishes the system status and the
  \<open>/runtime/ready\<close> flag. Clock readings are arguments.
\<close>

section \<open>Severities\<close>

text \<open>
  The abstract view of a diagnostic level: the four severities in increasing order, with
  the linear order that makes "the worse of the two" the library's \<open>max\<close>.
\<close>

datatype severity = SevOk | SevWarn | SevError | SevStale

fun severity_rank :: "severity \<Rightarrow> nat" where
  "severity_rank SevOk = 0"
| "severity_rank SevWarn = 1"
| "severity_rank SevError = 2"
| "severity_rank SevStale = 3"

lemma severity_rank_inject: "severity_rank a = severity_rank b \<longleftrightarrow> a = b"
  by (cases a; cases b) simp_all

instantiation severity :: linorder
begin

definition less_eq_severity :: "severity \<Rightarrow> severity \<Rightarrow> bool" where
  "a \<le> b \<longleftrightarrow> severity_rank a \<le> severity_rank b"

definition less_severity :: "severity \<Rightarrow> severity \<Rightarrow> bool" where
  "a < b \<longleftrightarrow> severity_rank a < severity_rank b"

instance
  by standard (auto simp: less_eq_severity_def less_severity_def severity_rank_inject)

end

definition severity_of :: "u8 \<Rightarrow> severity" where
  "severity_of l =
     (if l = DIAG_OK then SevOk else if l = DIAG_WARN then SevWarn
      else if l = DIAG_ERROR then SevError else SevStale)"

section \<open>The aggregator\<close>

definition kDeviceBridgeName :: string where "kDeviceBridgeName = ''runtime/device_bridge''"
definition kTaskExecutorName :: string where "kTaskExecutorName = ''runtime/task_executor''"
definition kSystemName :: string where "kSystemName = ''runtime/system''"

record component_health =
  ch_seen :: bool
  ch_level :: u8
  ch_message :: string
  ch_age_ms :: int

record system_health =
  sh_ready :: bool
  sh_level :: u8
  sh_message :: string
  sh_device_bridge :: component_health
  sh_task_executor :: component_health

record stored_status =
  ss_seen :: bool
  ss_level :: u8
  ss_message :: string
  ss_received_at :: int

record aggregator =
  ha_stale_timeout :: int
  ha_device_bridge :: stored_status
  ha_task_executor :: stored_status

definition stored_default :: stored_status where
  "stored_default =
     \<lparr>ss_seen = False, ss_level = DIAG_STALE, ss_message = ''not received'', ss_received_at = 0\<rparr>"

definition component_default :: component_health where
  "component_default =
     \<lparr>ch_seen = False, ch_level = DIAG_STALE, ch_message = ''not received'', ch_age_ms = -1\<rparr>"

definition aggregator_new :: "int \<Rightarrow> string + aggregator" where
  "aggregator_new stale_ms =
     (if stale_ms \<le> 0 then Inl ''stale_timeout must be positive''
      else Inr \<lparr>ha_stale_timeout = stale_ms, ha_device_bridge = stored_default,
                ha_task_executor = stored_default\<rparr>)"

definition store_status :: "diag_status \<Rightarrow> int \<Rightarrow> stored_status" where
  "store_status st received_at =
     \<lparr>ss_seen = True,
      ss_level = (if ds_level st \<le> DIAG_STALE then ds_level st else DIAG_ERROR),
      ss_message = ds_message st, ss_received_at = received_at\<rparr>"

definition aggregator_update :: "diag_status \<Rightarrow> int \<Rightarrow> aggregator \<Rightarrow> bool \<times> aggregator" where
  "aggregator_update st received_at a =
     (if ds_name st = kDeviceBridgeName
      then (True, a\<lparr>ha_device_bridge := store_status st received_at\<rparr>)
      else if ds_name st = kTaskExecutorName
      then (True, a\<lparr>ha_task_executor := store_status st received_at\<rparr>)
      else (False, a))"

definition evaluate_component :: "int \<Rightarrow> stored_status \<Rightarrow> int \<Rightarrow> component_health" where
  "evaluate_component stale_timeout st now =
     (if \<not> ss_seen st then component_default
      else
        let age = max (ns_to_ms (now - ss_received_at st)) 0 in
        if stale_timeout < age
        then \<lparr>ch_seen = True, ch_level = DIAG_STALE, ch_message = ''diagnostics stale'',
              ch_age_ms = age\<rparr>
        else \<lparr>ch_seen = True, ch_level = ss_level st, ch_message = ss_message st,
              ch_age_ms = age\<rparr>)"

definition aggregator_evaluate :: "aggregator \<Rightarrow> int \<Rightarrow> system_health" where
  "aggregator_evaluate a now =
     (let db = evaluate_component (ha_stale_timeout a) (ha_device_bridge a) now;
          te = evaluate_component (ha_stale_timeout a) (ha_task_executor a) now;
          verdict = (\<lambda>ready level message.
            \<lparr>sh_ready = ready, sh_level = level, sh_message = message,
             sh_device_bridge = db, sh_task_executor = te\<rparr>)
      in
        if \<not> ch_seen db \<or> \<not> ch_seen te \<or> ch_level db = DIAG_STALE \<or> ch_level te = DIAG_STALE
        then verdict False DIAG_STALE ''core diagnostics missing or stale''
        else if ch_level db = DIAG_ERROR \<or> ch_level te = DIAG_ERROR
        then verdict False DIAG_ERROR ''core component error''
        else if ch_level db = DIAG_WARN \<or> ch_level te = DIAG_WARN
        then verdict True DIAG_WARN ''runtime degraded''
        else verdict True DIAG_OK ''runtime ready'')"

section \<open>The monitor node\<close>

record monitor_out =
  mo_status :: diag_status
  mo_ready :: bool

definition declare_positive_ms :: "string \<Rightarrow> int \<Rightarrow> string + int" where
  "declare_positive_ms name value =
     (if value \<le> 0 \<or> 60000 < value then Inl (name @ '' must be in [1, 60000] ms'')
      else Inr value)"

definition publish_health :: "aggregator \<Rightarrow> int \<Rightarrow> monitor_out" where
  "publish_health a now =
     (let h = aggregator_evaluate a now in
      \<lparr>mo_status =
         \<lparr>ds_level = sh_level h, ds_name = kSystemName, ds_message = sh_message h,
          ds_hardware_id = ''robot_runtime'',
          ds_values =
            [(''ready'', bool_to_string (sh_ready h)),
             (''device_bridge_level'', nat_to_string (unat (ch_level (sh_device_bridge h)))),
             (''device_bridge_age_ms'', int_to_string (ch_age_ms (sh_device_bridge h))),
             (''task_executor_level'', nat_to_string (unat (ch_level (sh_task_executor h)))),
             (''task_executor_age_ms'', int_to_string (ch_age_ms (sh_task_executor h)))]\<rparr>,
       mo_ready = sh_ready h\<rparr>)"

text \<open>
  The subscription callback: every status of the array is offered to the aggregator with
  one receive time; health is published, at a later clock reading, if any was a source.
\<close>

fun update_all :: "diag_status list \<Rightarrow> int \<Rightarrow> bool \<Rightarrow> aggregator \<Rightarrow> bool \<times> aggregator" where
  "update_all [] t updated a = (updated, a)"
| "update_all (st # sts) t updated a =
     (let (u, a') = aggregator_update st t a in update_all sts t (u \<or> updated) a')"

definition on_diagnostics ::
  "diag_status list \<Rightarrow> int \<Rightarrow> int \<Rightarrow> aggregator \<Rightarrow> monitor_out option \<times> aggregator" where
  "on_diagnostics sts received_at now a =
     (let (updated, a') = update_all sts received_at False a in
      (if updated then Some (publish_health a' now) else None, a'))"

text \<open>A sequence of received arrays, each with its receive time and evaluation time.\<close>

fun monitor_run :: "(diag_status list \<times> int \<times> int) list \<Rightarrow> aggregator \<Rightarrow> aggregator" where
  "monitor_run [] a = a"
| "monitor_run ((sts, received_at, now) # ms) a =
     monitor_run ms (snd (on_diagnostics sts received_at now a))"

section \<open>Lemmas\<close>

definition stored_wf :: "stored_status \<Rightarrow> bool" where
  "stored_wf st \<longleftrightarrow> ss_level st \<le> DIAG_STALE"

definition aggregator_wf :: "aggregator \<Rightarrow> bool" where
  "aggregator_wf a \<longleftrightarrow>
     0 < ha_stale_timeout a \<and> stored_wf (ha_device_bridge a) \<and> stored_wf (ha_task_executor a)"

lemma stored_wf_store [simp]: "stored_wf (store_status st t)"
  by (auto simp: stored_wf_def store_status_def)

lemma aggregator_wf_new: "aggregator_new ms = Inr a \<Longrightarrow> aggregator_wf a"
  by (auto simp: aggregator_new_def aggregator_wf_def stored_wf_def stored_default_def split: if_splits)

lemma aggregator_wf_update [laws]:
  "aggregator_wf a \<Longrightarrow> aggregator_wf (snd (aggregator_update st t a))"
  by (simp add: aggregator_wf_def aggregator_update_def)

lemma aggregator_wf_update_all:
  "aggregator_wf a \<Longrightarrow> aggregator_wf (snd (update_all sts t u a))"
proof (induction sts arbitrary: u a)
  case Nil
  then show ?case by simp
next
  case (Cons st sts)
  then show ?case
    using aggregator_wf_update [of a st t] by (simp add: split_beta Let_def)
qed

lemma aggregator_wf_run: "aggregator_wf a \<Longrightarrow> aggregator_wf (monitor_run ms a)"
proof (induction ms a rule: monitor_run.induct)
  case (2 sts received_at now ms a)
  then show ?case
    using aggregator_wf_update_all [of a sts received_at False]
    by (simp add: on_diagnostics_def split_beta Let_def)
qed simp

lemma level_cases:
  "(l :: u8) \<le> DIAG_STALE \<Longrightarrow> l = DIAG_OK \<or> l = DIAG_WARN \<or> l = DIAG_ERROR \<or> l = DIAG_STALE"
proof -
  assume "l \<le> DIAG_STALE"
  then have "unat l \<le> 3" by (simp add: word_le_nat_alt)
  then have "unat l = 0 \<or> unat l = 1 \<or> unat l = 2 \<or> unat l = 3" by linarith
  then show ?thesis
    by (elim disjE; simp add: word_unat_eq_iff)
qed

lemma evaluate_component_level:
  "stored_wf st \<Longrightarrow> ch_level (evaluate_component t st now) \<le> DIAG_STALE"
  by (simp add: evaluate_component_def component_default_def stored_wf_def Let_def)

lemma evaluate_component_unseen:
  "\<not> ch_seen (evaluate_component t st now) \<Longrightarrow>
     ch_level (evaluate_component t st now) = DIAG_STALE"
  by (simp add: evaluate_component_def component_default_def Let_def split: if_splits)

lemma max_severity_table:
  "max SevOk s = s" "max s SevOk = s" "max SevStale s = SevStale" "max s SevStale = SevStale"
  "max SevWarn SevWarn = SevWarn" "max SevWarn SevError = SevError"
  "max SevError SevWarn = SevError" "max SevError SevError = SevError"
  by (cases s; simp add: max_def less_eq_severity_def)+

lemma aggregate_is_max:
  fixes now :: int
  assumes "aggregator_wf a" and h_def: "h = aggregator_evaluate a now"
  shows "severity_of (sh_level h) =
      max (severity_of (ch_level (sh_device_bridge h))) (severity_of (ch_level (sh_task_executor h)))"
    and "sh_ready h \<longleftrightarrow> severity_of (sh_level h) \<le> SevWarn"
proof -
  define db where "db = evaluate_component (ha_stale_timeout a) (ha_device_bridge a) now"
  define te where "te = evaluate_component (ha_stale_timeout a) (ha_task_executor a) now"
  have l: "ch_level db \<le> DIAG_STALE" "ch_level te \<le> DIAG_STALE"
    using assms(1) by (simp_all add: db_def te_def evaluate_component_level aggregator_wf_def)
  have u: "\<not> ch_seen db \<Longrightarrow> ch_level db = DIAG_STALE" "\<not> ch_seen te \<Longrightarrow> ch_level te = DIAG_STALE"
    unfolding db_def te_def by (rule evaluate_component_unseen, assumption)+
  have h: "sh_device_bridge h = db" "sh_task_executor h = te"
    by (simp_all add: h_def aggregator_evaluate_def db_def te_def Let_def)
  have stale: "(\<not> ch_seen db \<or> \<not> ch_seen te \<or> ch_level db = DIAG_STALE \<or> ch_level te = DIAG_STALE) \<longleftrightarrow>
      ch_level db = DIAG_STALE \<or> ch_level te = DIAG_STALE"
    using u by blast
  have lv: "sh_level h =
      (if ch_level db = DIAG_STALE \<or> ch_level te = DIAG_STALE then DIAG_STALE
       else if ch_level db = DIAG_ERROR \<or> ch_level te = DIAG_ERROR then DIAG_ERROR
       else if ch_level db = DIAG_WARN \<or> ch_level te = DIAG_WARN then DIAG_WARN else DIAG_OK)"
    and rd: "sh_ready h \<longleftrightarrow> sh_level h = DIAG_WARN \<or> sh_level h = DIAG_OK"
    unfolding h_def aggregator_evaluate_def Let_def db_def [symmetric] te_def [symmetric] stale
    by simp_all
  have "severity_of (sh_level h) = max (severity_of (ch_level db)) (severity_of (ch_level te)) \<and>
      (sh_ready h \<longleftrightarrow> severity_of (sh_level h) \<le> SevWarn)"
    using level_cases [OF l(1)] level_cases [OF l(2)]
    by (elim disjE; simp add: lv rd severity_of_def max_severity_table less_eq_severity_def)
  then show "severity_of (sh_level h) =
      max (severity_of (ch_level (sh_device_bridge h))) (severity_of (ch_level (sh_task_executor h)))"
    and "sh_ready h \<longleftrightarrow> severity_of (sh_level h) \<le> SevWarn"
    by (simp_all add: h)
qed

lemma ready_components_fresh:
  assumes "sh_ready (aggregator_evaluate a now)"
  shows "ss_seen (ha_device_bridge a)" "ss_seen (ha_task_executor a)"
    and "ns_to_ms (now - ss_received_at (ha_device_bridge a)) \<le> ha_stale_timeout a"
    and "ns_to_ms (now - ss_received_at (ha_task_executor a)) \<le> ha_stale_timeout a"
  using assms
  by (auto simp: aggregator_evaluate_def evaluate_component_def component_default_def Let_def
      split: if_splits)

text \<open>The published system level is the worse of the two component levels, for every
  sequence of diagnostic messages the monitor may have received, and the ready flag is up
  exactly when that level is OK or WARN, which needs both components to have reported
  within the staleness timeout.
\<close>

theorem system_health_is_worst_component:
  assumes "aggregator_new stale_ms = Inr a0"
    and "a = monitor_run ms a0"
    and "h = aggregator_evaluate a now"
  shows "severity_of (sh_level h) =
      max (severity_of (ch_level (sh_device_bridge h))) (severity_of (ch_level (sh_task_executor h)))
    \<and> (mo_ready (publish_health a now) \<longleftrightarrow> severity_of (sh_level h) \<le> SevWarn)
    \<and> (sh_ready h \<longrightarrow>
        ns_to_ms (now - ss_received_at (ha_device_bridge a)) \<le> ha_stale_timeout a \<and>
        ns_to_ms (now - ss_received_at (ha_task_executor a)) \<le> ha_stale_timeout a)"
proof -
  have "aggregator_wf a"
    unfolding assms(2) by (intro aggregator_wf_run aggregator_wf_new [OF assms(1)])
  from aggregate_is_max [OF this refl, of now] ready_components_fresh [of a now]
  show ?thesis by (simp add: assms(3) publish_health_def Let_def)
qed

definition example_status :: "u8 \<Rightarrow> string \<Rightarrow> diag_status" where
  "example_status level name =
     \<lparr>ds_level = level, ds_name = name, ds_message = [], ds_hardware_id = [], ds_values = []\<rparr>"

definition example_aggregator :: aggregator where
  "example_aggregator =
     \<lparr>ha_stale_timeout = 2000, ha_device_bridge = stored_default, ha_task_executor = stored_default\<rparr>"

theorem system_health_is_worst_component_witness:
  "severity_of (sh_level (aggregator_evaluate (monitor_run
     [([example_status 1 kDeviceBridgeName, example_status 9 kTaskExecutorName], 0, 0)]
     example_aggregator) 1000000)) = SevError"
proof -
  have new: "aggregator_new 2000 = Inr example_aggregator"
    by (simp add: aggregator_new_def example_aggregator_def)
  show ?thesis
    using system_health_is_worst_component [OF new refl refl, of
        "[([example_status 1 kDeviceBridgeName, example_status 9 kTaskExecutorName], 0, 0)]" 1000000]
    by (simp add: example_status_def example_aggregator_def on_diagnostics_def aggregator_update_def
        store_status_def aggregator_evaluate_def evaluate_component_def kDeviceBridgeName_def
        kTaskExecutorName_def ns_to_ms_def Let_def severity_of_def max_severity_table)
qed

end
