(* ===== verification/Readiness_Chain.thy ===== *)
theory Readiness_Chain
  imports Health_Monitor Orchestrator_Runs
begin

text \<open>
  From the diagnostics of bridge and executor to the workflow's readiness check: the statuses the
  two nodes publish (\<open>dd_snapshot\<close>, \<open>td_snapshot\<close>), the monitor node that hears them and
  publishes \<open>/runtime/ready\<close> (\<open>on_diagnostics\<close>, its timer), and the orchestrator's \<open>ReadyState\<close>,
  which the first leaf of a workflow reads. Messages may be lost or delayed between the nodes.
\<close>

section \<open>The monitor node\<close>

text \<open>A callback of the node, with the clock readings it makes.\<close>

datatype monitor_event = DiagnosticsMessage "diag_status list" int int | HealthTimer int

text \<open>What it publishes, with the time of the evaluation.\<close>

fun monitor_callback :: "monitor_event \<Rightarrow> aggregator \<Rightarrow> (int \<times> monitor_out) option \<times> aggregator" where
  "monitor_callback (DiagnosticsMessage sts received_at now) a =
     (let (out, a') = on_diagnostics sts received_at now a in (map_option (Pair now) out, a'))"
| "monitor_callback (HealthTimer now) a = (Some (now, publish_health a now), a)"

definition monitor_state :: "monitor_event list \<Rightarrow> aggregator \<Rightarrow> aggregator" where
  "monitor_state evs a = fold (\<lambda>ev a. snd (monitor_callback ev a)) evs a"

definition monitor_published :: "monitor_event list \<Rightarrow> aggregator \<Rightarrow> nat \<Rightarrow> (int \<times> monitor_out) option" where
  "monitor_published evs a k =
     (if k < length evs then fst (monitor_callback (evs ! k) (monitor_state (take k evs) a)) else None)"

section \<open>What the aggregator holds\<close>

fun statuses_of :: "monitor_event \<Rightarrow> (diag_status \<times> int) list" where
  "statuses_of (DiagnosticsMessage sts received_at now) = map (\<lambda>st. (st, received_at)) sts"
| "statuses_of (HealthTimer now) = []"

text \<open>The last status of a name among those heard, with its receive time.\<close>

definition latest :: "string \<Rightarrow> (diag_status \<times> int) list \<Rightarrow> (diag_status \<times> int) option" where
  "latest name xs = List.find (\<lambda>x. ds_name (fst x) = name) (rev xs)"

definition stored_of :: "(diag_status \<times> int) option \<Rightarrow> stored_status" where
  "stored_of x = (case x of None \<Rightarrow> stored_default | Some (st, t) \<Rightarrow> store_status st t)"

lemma latest_snoc: "latest name (xs @ [x]) = (if ds_name (fst x) = name then Some x else latest name xs)"
  by (simp add: latest_def)

definition holds_latest :: "(diag_status \<times> int) list \<Rightarrow> aggregator \<Rightarrow> bool" where
  "holds_latest xs a \<longleftrightarrow>
     ha_device_bridge a = stored_of (latest kDeviceBridgeName xs) \<and>
     ha_task_executor a = stored_of (latest kTaskExecutorName xs)"

lemma names_differ: "kDeviceBridgeName \<noteq> kTaskExecutorName"
  by (simp add: kDeviceBridgeName_def kTaskExecutorName_def)

lemma holds_latest_update:
  "holds_latest xs a \<Longrightarrow> holds_latest (xs @ [(st, t)]) (snd (aggregator_update st t a)) \<and>
     ha_stale_timeout (snd (aggregator_update st t a)) = ha_stale_timeout a"
  using names_differ by (auto simp: holds_latest_def aggregator_update_def latest_snoc stored_of_def)

lemma holds_latest_update_all:
  "holds_latest xs a \<Longrightarrow> holds_latest (xs @ map (\<lambda>st. (st, t)) sts) (snd (update_all sts t u a)) \<and>
     ha_stale_timeout (snd (update_all sts t u a)) = ha_stale_timeout a"
proof (induction sts arbitrary: u a xs)
  case (Cons st sts)
  obtain u' a' where up: "aggregator_update st t a = (u', a')" by fastforce
  from holds_latest_update [OF Cons.prems, of st t] Cons.IH [of "xs @ [(st, t)]" a' "u' \<or> u"] show ?case
    by (simp add: up)
qed simp

lemma holds_latest_callback:
  "holds_latest xs a \<Longrightarrow> holds_latest (xs @ statuses_of ev) (snd (monitor_callback ev a)) \<and>
     ha_stale_timeout (snd (monitor_callback ev a)) = ha_stale_timeout a"
proof (cases ev)
  case (DiagnosticsMessage sts received_at now)
  then show "holds_latest xs a \<Longrightarrow> ?thesis"
    using holds_latest_update_all [of xs a received_at sts False]
    by (simp add: on_diagnostics_def split_beta)
qed simp

lemma holds_latest_state:
  assumes "aggregator_new stale_ms = Inr a"
  shows "holds_latest (concat (map statuses_of evs)) (monitor_state evs a) \<and>
    ha_stale_timeout (monitor_state evs a) = stale_ms"
proof (induction evs rule: rev_induct)
  case Nil
  show ?case
    using assms
    by (auto simp: monitor_state_def aggregator_new_def holds_latest_def latest_def stored_of_def split: if_splits)
next
  case (snoc ev evs)
  then show ?case
    using holds_latest_callback [of "concat (map statuses_of evs)" "monitor_state evs a" ev]
    by (simp add: monitor_state_def)
qed

text \<open>Whatever is published is the evaluation of the state the callback leaves.\<close>

lemma published_is_evaluation:
  assumes "monitor_published evs a k = Some (now, out)"
  shows "out = publish_health (monitor_state (take (Suc k) evs) a) now \<and> k < length evs"
proof -
  from assms have k: "k < length evs"
    and cb: "fst (monitor_callback (evs ! k) (monitor_state (take k evs) a)) = Some (now, out)"
    by (auto simp: monitor_published_def split: if_splits)
  have "monitor_state (take (Suc k) evs) a = snd (monitor_callback (evs ! k) (monitor_state (take k evs) a))"
    using k by (simp add: monitor_state_def take_Suc_conv_app_nth)
  then show ?thesis
    using cb k by (cases "evs ! k") (auto simp: on_diagnostics_def split_beta split: if_splits)
qed

section \<open>What a ready flag says\<close>

lemma ready_component:
  assumes "ch_seen (evaluate_component stale (stored_of b) now)"
    and "ch_level (evaluate_component stale (stored_of b) now) \<notin> {DIAG_ERROR, DIAG_STALE}"
  shows "\<exists>st t. b = Some (st, t) \<and> ds_level st \<in> {DIAG_OK, DIAG_WARN} \<and> now - t < (stale + 1) * 1000000"
proof -
  from assms obtain st t where b: "b = Some (st, t)"
    by (cases b) (auto simp: stored_of_def stored_default_def evaluate_component_def component_default_def)
  with assms have age: "max (ns_to_ms (now - t)) 0 \<le> stale"
    and level: "ss_level (store_status st t) \<notin> {DIAG_ERROR, DIAG_STALE}"
    by (auto simp: stored_of_def evaluate_component_def store_status_def Let_def split: if_splits)
  have "ss_level (store_status st t) \<le> DIAG_STALE"
    using stored_wf_store [of st t] by (simp add: stored_wf_def)
  from level_cases [OF this] level have "ds_level st \<in> {DIAG_OK, DIAG_WARN}"
    by (auto simp: store_status_def split: if_splits)
  moreover have "now - t < (stale + 1) * 1000000"
    using age by (auto simp: ns_to_ms_def max_def split: if_splits)
  ultimately show ?thesis using b by blast
qed

lemma ready_components:
  assumes "sh_ready (aggregator_evaluate a now)"
  shows "ch_seen (evaluate_component (ha_stale_timeout a) (ha_device_bridge a) now)"
    "ch_level (evaluate_component (ha_stale_timeout a) (ha_device_bridge a) now) \<notin> {DIAG_ERROR, DIAG_STALE}"
    "ch_seen (evaluate_component (ha_stale_timeout a) (ha_task_executor a) now)"
    "ch_level (evaluate_component (ha_stale_timeout a) (ha_task_executor a) now) \<notin> {DIAG_ERROR, DIAG_STALE}"
  using assms by (auto simp: aggregator_evaluate_def Let_def split: if_splits)

text \<open>The two publishers: a status that is no error tells of a node that can work.\<close>

lemma bridge_status_usable:
  "ds_level (dd_snapshot socket_ready d) \<in> {DIAG_OK, DIAG_WARN} \<Longrightarrow> socket_ready \<and> \<not> dd_error_latched d"
  by (auto simp: dd_snapshot_def Let_def split: if_splits)

lemma executor_status_usable:
  "ds_level (td_snapshot d) \<in> {DIAG_OK, DIAG_WARN} \<Longrightarrow> td_bridge_ready d \<and> \<not> td_failure_latched d"
  by (auto simp: td_snapshot_def Let_def split: if_splits)

text \<open>The orchestrator's state after the ready messages it received, with their receive times.\<close>

definition ready_initial :: ready_state where
  "ready_initial = \<lparr>rs_received_at = None, rs_ready = False\<rparr>"

definition ready_after :: "(bool \<times> int) list \<Rightarrow> ready_state" where
  "ready_after msgs = fold (\<lambda>(ready, at). ready_update ready at) msgs ready_initial"

lemma ready_after_usable:
  assumes "ready_usable now stale_ms (ready_after msgs)"
  shows "\<exists>at. (True, at) \<in> set msgs \<and> now - at \<le> stale_ms * 1000000"
  using assms
proof (cases msgs rule: rev_cases)
  case (snoc ms m)
  with assms show ?thesis
    by (cases m) (auto simp: ready_after_def ready_usable_def ready_update_def)
qed (simp add: ready_after_def ready_initial_def ready_usable_def)

section \<open>Property\<close>


definition sample_monitor_event :: monitor_event where
  "sample_monitor_event =
     DiagnosticsMessage [dd_snapshot True device_diag_init, td_snapshot (td_set_bridge_ready True task_diag_init)] 0 1"

definition sample_ready_env :: orch_env where
  "sample_ready_env = sample_orch_env\<lparr>oe_events := (\<lambda>_. [ReadyMessage True 5]), oe_now := (\<lambda>_. 9)\<rparr>"

definition sample_ready_aggregator :: aggregator where
  "sample_ready_aggregator =
     \<lparr>ha_stale_timeout = 2, ha_device_bridge = stored_default, ha_task_executor = stored_default\<rparr>"

lemmas sample_monitor_defs = sample_monitor_event_def on_diagnostics_def
  aggregator_update_def aggregator_evaluate_def evaluate_component_def store_status_def
  publish_health_def dd_snapshot_def td_snapshot_def device_diag_init_def task_diag_init_def
  td_set_bridge_ready_def kDeviceBridgeName_def kTaskExecutorName_def sample_ready_aggregator_def
  stored_default_def ns_to_ms_def Let_def

lemma sample_monitor_published:
  "\<exists>out. monitor_published [sample_monitor_event] sample_ready_aggregator 0 = Some (1, out) \<and> mo_ready out"
  by (simp add: monitor_published_def monitor_state_def sample_monitor_defs)

lemma sample_ready_leaf:
  "runtime_ready_tick sample_orch_config sample_ready_env sample_orchestrator =
     (BT_SUCCESS, or_observe sample_ready_env sample_orchestrator)"
  "or_ready (or_observe sample_ready_env sample_orchestrator) = ready_after [(True, 5)]"
  by (simp_all add: runtime_ready_tick_def or_observe_def sample_ready_env_def ready_update_def ready_usable_def
      sample_orch_config_def sample_orchestrator_def ready_after_def ready_initial_def)


end
