(* ===== verification/Store_Open.thy ===== *)
theory Store_Open
  imports History_Store "HOL-Library.Sublist"
begin

text \<open>
  Opening the database: the constructor of \<open>Store\<close> in \<open>runtime_history/store.cpp\<close>, with the
  schema it creates and the columns it adds to a file an older version wrote. A file is its
  tables and indexes; what SQLite documents for the statements of the source is \<open>sql_apply\<close>, and
  any call may fail instead, leaving the file as it was. The properties: a successful open leaves
  the complete schema and loses nothing, and an open that failed anywhere is repaired by the next.
\<close>

section \<open>Database files\<close>

datatype sql_value = SqlText string | SqlInt int

type_synonym sql_row = "(string \<times> sql_value) list"

record sql_table =
  tb_columns :: "string list"
  tb_rows :: "sql_row list"

record sql_file =
  sf_tables :: "(string \<times> sql_table) list"
  sf_indexes :: "(string \<times> string \<times> string) list"

text \<open>The statements of the source; every one names what it creates.\<close>

datatype sql_statement =
  CreateTable string "string list"
| AddTextColumn string string
| CreateIndex string string string

definition find_table :: "string \<Rightarrow> sql_file \<Rightarrow> sql_table option" where
  "find_table t f = map_of (sf_tables f) t"

definition has_column :: "string \<Rightarrow> string \<Rightarrow> sql_file \<Rightarrow> bool" where
  "has_column t c f \<longleftrightarrow> (case find_table t f of None \<Rightarrow> False | Some tb \<Rightarrow> c \<in> set (tb_columns tb))"

definition has_index :: "string \<Rightarrow> sql_file \<Rightarrow> bool" where
  "has_index i f \<longleftrightarrow> i \<in> fst ` set (sf_indexes f)"

definition add_column :: "string \<Rightarrow> sql_table \<Rightarrow> sql_table" where
  "add_column c tb = tb\<lparr>tb_columns := tb_columns tb @ [c],
     tb_rows := map (\<lambda>row. row @ [(c, SqlText [])]) (tb_rows tb)\<rparr>"

definition kDuplicateColumn :: string where
  "kDuplicateColumn = ''duplicate column name''"

text \<open>
  \<open>CREATE TABLE IF NOT EXISTS\<close>, \<open>ALTER TABLE .. ADD COLUMN .. TEXT NOT NULL DEFAULT ''\<close> and
  \<open>CREATE INDEX IF NOT EXISTS\<close>: an error text, or the new file.
\<close>

fun sql_apply :: "sql_statement \<Rightarrow> sql_file \<Rightarrow> string + sql_file" where
  "sql_apply (CreateTable t cs) f =
     Inr (if find_table t f \<noteq> None then f
          else f\<lparr>sf_tables := sf_tables f @ [(t, \<lparr>tb_columns = cs, tb_rows = []\<rparr>)]\<rparr>)"
| "sql_apply (AddTextColumn t c) f =
     (if find_table t f = None then Inl (''no such table: '' @ t)
      else if has_column t c f then Inl (kDuplicateColumn @ '': '' @ c)
      else Inr (f\<lparr>sf_tables :=
             map (\<lambda>(n, tb). (n, if n = t then add_column c tb else tb)) (sf_tables f)\<rparr>))"
| "sql_apply (CreateIndex i t c) f =
     (if has_index i f then Inr f
      else if \<not> has_column t c f then Inl (''no such column: '' @ c)
      else Inr (f\<lparr>sf_indexes := sf_indexes f @ [(i, t, c)]\<rparr>))"

section \<open>The constructor\<close>

definition kSchema :: sql_statement where
  "kSchema = CreateTable ''task_runs''
     [''task_id'', ''request_id'', ''workflow_id'', ''goal_id'', ''target_id'', ''action_status'',
      ''outcome'', ''error_code'', ''duration_ms'', ''message'', ''completed_at_ns'']"

definition kIdempotencySchema :: sql_statement where
  "kIdempotencySchema = CreateTable ''request_idempotency''
     [''request_id'', ''fingerprint'', ''state'', ''outcome'', ''error_code'', ''message'',
      ''updated_at_ns'']"

definition kIndexes :: "sql_statement list" where
  "kIndexes =
     [CreateIndex ''task_runs_duration_ms'' ''task_runs'' ''duration_ms'',
      CreateIndex ''task_runs_outcome'' ''task_runs'' ''outcome'',
      CreateIndex ''request_idempotency_updated_at_ns'' ''request_idempotency'' ''updated_at_ns'']"

definition kAddedColumns :: "sql_statement list" where
  "kAddedColumns = map (AddTextColumn ''task_runs'') [''request_id'', ''workflow_id'', ''goal_id'']"

text \<open>
  What the calls of one constructor run meet: the failure of \<open>sqlite3_open_v2\<close> and of the
  two pragmas, the row the second answers with (its column may be null), the failure of each
  statement, and the text of \<open>sqlite3_errmsg\<close>. A failure has the text \<open>sqlite3_exec\<close> reports, empty when it reports none.
\<close>

record open_env =
  op_open :: "string option"
  op_busy_timeout :: "string option"
  op_wal_prepares :: bool
  op_wal_row :: "string option option"
  op_fault :: "sql_statement \<Rightarrow> string option"
  op_errmsg :: string

definition enable_wal :: "open_env \<Rightarrow> string + string" where
  "enable_wal e =
     (if \<not> op_wal_prepares e then Inl (op_errmsg e)
      else case op_wal_row e of
             None \<Rightarrow> Inl (op_errmsg e)
           | Some None \<Rightarrow> Inr []
           | Some (Some mode) \<Rightarrow> Inr (column_text mode))"

definition exec_sql :: "open_env \<Rightarrow> sql_statement \<Rightarrow> sql_file \<Rightarrow> string option \<times> sql_file" where
  "exec_sql e st f =
     (case op_fault e st of
        Some m \<Rightarrow> (Some m, f)
      | None \<Rightarrow> (case sql_apply st f of Inl m \<Rightarrow> (Some m, f) | Inr f' \<Rightarrow> (None, f')))"

text \<open>
  \<open>execute\<close> over a list of statements stops at the first error; the loop over the added columns
  goes on after a duplicate column.
\<close>

fun exec_script ::
  "(string \<Rightarrow> bool) \<Rightarrow> open_env \<Rightarrow> sql_statement list \<Rightarrow> sql_file \<Rightarrow> string option \<times> sql_file" where
  "exec_script tolerated e [] f = (None, f)"
| "exec_script tolerated e (st # sts) f =
     (case exec_sql e st f of
        (None, f') \<Rightarrow> exec_script tolerated e sts f'
      | (Some m, f') \<Rightarrow>
          if tolerated m then exec_script tolerated e sts f'
          else (Some (if m = [] then op_errmsg e else m), f'))"

abbreviation execute :: "open_env \<Rightarrow> sql_statement list \<Rightarrow> sql_file \<Rightarrow> string option \<times> sql_file" where
  "execute \<equiv> exec_script (\<lambda>_. False)"

definition add_columns :: "open_env \<Rightarrow> sql_file \<Rightarrow> string option \<times> sql_file" where
  "add_columns e = exec_script (sublist kDuplicateColumn) e kAddedColumns"

definition then_do ::
  "string option \<times> sql_file \<Rightarrow> (sql_file \<Rightarrow> string option \<times> sql_file) \<Rightarrow> string option \<times> sql_file" where
  "then_do r k = (case r of (None, f) \<Rightarrow> k f | (Some m, f) \<Rightarrow> (Some m, f))"

definition store_migrate :: "open_env \<Rightarrow> sql_file \<Rightarrow> string option \<times> sql_file" where
  "store_migrate e f =
     then_do (execute e [kSchema] f) (\<lambda>f.
     then_do (add_columns e f) (\<lambda>f.
     then_do (execute e [kIdempotencySchema] f) (execute e kIndexes)))"

text \<open>The result: whether the handle stays open, the exception's text, and the file.\<close>

definition store_open :: "open_env \<Rightarrow> sql_file \<Rightarrow> bool \<times> string option \<times> sql_file" where
  "store_open e f =
     (case op_open e of
        Some m \<Rightarrow> (False, Some m, f)
      | None \<Rightarrow>
          (case op_busy_timeout e of
             Some m \<Rightarrow> (False, Some (if m = [] then op_errmsg e else m), f)
           | None \<Rightarrow>
               (case enable_wal e of
                  Inl m \<Rightarrow> (False, Some m, f)
                | Inr mode \<Rightarrow>
                    if mode \<noteq> ''wal''
                    then (False, Some ''SQLite database does not support WAL mode'', f)
                    else case store_migrate e f of
                           (None, f') \<Rightarrow> (True, None, f')
                         | (Some m, f') \<Rightarrow> (False, Some m, f'))))"

section \<open>Statements that are already done\<close>

text \<open>What a statement does to a file when its errors are passed over, and when it has nothing to do.\<close>

definition sql_effect :: "sql_statement \<Rightarrow> sql_file \<Rightarrow> sql_file" where
  "sql_effect st f = (case sql_apply st f of Inl m \<Rightarrow> f | Inr f' \<Rightarrow> f')"

fun sql_done :: "sql_statement \<Rightarrow> sql_file \<Rightarrow> bool" where
  "sql_done (CreateTable t cs) f \<longleftrightarrow> find_table t f \<noteq> None"
| "sql_done (AddTextColumn t c) f \<longleftrightarrow> has_column t c f"
| "sql_done (CreateIndex i t c) f \<longleftrightarrow> has_index i f"

text \<open>Every statement either succeeds or fails because it is done.\<close>

fun script_ok :: "sql_statement list \<Rightarrow> sql_file \<Rightarrow> bool" where
  "script_ok [] f \<longleftrightarrow> True"
| "script_ok (st # sts) f \<longleftrightarrow>
     (sql_done st f \<or> sql_done st (sql_effect st f)) \<and> script_ok sts (sql_effect st f)"

lemma map_of_map_snd: "map_of (map (\<lambda>(n, x). (n, g n x)) xs) k = map_option (g k) (map_of xs k)"
  by (induction xs) auto

lemma find_table_effect [simp]:
  "find_table t (sql_effect (CreateTable t' cs) f) =
     (if find_table t' f = None \<and> t = t' then Some \<lparr>tb_columns = cs, tb_rows = []\<rparr>
      else find_table t f)"
  "find_table t (sql_effect (AddTextColumn t' c) f) =
     (if t = t' \<and> \<not> has_column t c f then map_option (add_column c) (find_table t f)
      else find_table t f)"
  "find_table t (sql_effect (CreateIndex i t' c) f) = find_table t f"
proof -
  show "find_table t (sql_effect (CreateTable t' cs) f) =
     (if find_table t' f = None \<and> t = t' then Some \<lparr>tb_columns = cs, tb_rows = []\<rparr>
      else find_table t f)"
    by (auto simp: sql_effect_def find_table_def map_add_def split: option.splits)
  show "find_table t (sql_effect (AddTextColumn t' c) f) =
     (if t = t' \<and> \<not> has_column t c f then map_option (add_column c) (find_table t f)
      else find_table t f)"
    using map_of_map_snd [of "\<lambda>n tb. if n = t' then add_column c tb else tb" "sf_tables f" t]
    by (auto simp: sql_effect_def find_table_def has_column_def option.map_ident split: option.splits)
  show "find_table t (sql_effect (CreateIndex i t' c) f) = find_table t f"
    by (simp add: sql_effect_def find_table_def)
qed

lemma has_column_effect:
  "has_column t c f \<Longrightarrow> has_column t c (sql_effect st f)"
  by (cases st) (auto simp: has_column_def add_column_def split: option.splits)

lemma has_index_effect: "has_index i f \<Longrightarrow> has_index i (sql_effect st f)"
  by (cases st) (auto simp: has_index_def sql_effect_def)

lemma sql_done_kept: "sql_done st f \<Longrightarrow> sql_done st (sql_effect st' f)"
  by (cases st; cases st') (auto simp: has_column_effect has_index_effect)

lemma sql_done_effect: "sql_done st f \<Longrightarrow> sql_effect st f = f"
  by (cases st) (auto simp: sql_effect_def)

lemma script_done:
  "script_ok sts f \<Longrightarrow> st \<in> set sts \<or> sql_done st f \<Longrightarrow> sql_done st (fold sql_effect sts f)"
proof (induction sts arbitrary: f)
  case (Cons x xs)
  then have "sql_done x (sql_effect x f)" using sql_done_kept [of x f x] by auto
  with Cons.prems have "st \<in> set xs \<or> sql_done st (sql_effect x f)"
    by (auto intro: sql_done_kept)
  with Cons show ?case by simp
qed simp

lemma script_ok_take: "script_ok sts f \<Longrightarrow> script_ok (take k sts) f"
  by (induction sts arbitrary: f k) (auto simp: take_Cons')

lemma fold_done: "\<forall>st \<in> set sts. sql_done st f \<Longrightarrow> fold sql_effect sts f = f"
  by (induction sts) (auto simp: sql_done_effect)

text \<open>Whatever prefix of a script was run, running the whole script afterwards has one result.\<close>

lemma script_resumed:
  assumes "script_ok sts f"
  shows "fold sql_effect sts (fold sql_effect (take k sts) f) = fold sql_effect sts f"
proof -
  let ?f = "fold sql_effect (take k sts) f"
  have "fold sql_effect (take k sts) ?f = ?f"
    using script_done [OF script_ok_take [OF assms]] by (auto intro!: fold_done)
  then have "fold sql_effect (take k sts @ drop k sts) ?f = fold sql_effect (take k sts @ drop k sts) f"
    unfolding fold_append by simp
  then show ?thesis by simp
qed

section \<open>Runs of the constructor\<close>

definition ran :: "sql_statement list \<Rightarrow> sql_file \<Rightarrow> string option \<times> sql_file \<Rightarrow> bool" where
  "ran sts f r \<longleftrightarrow> (\<exists>k \<le> length sts. snd r = fold sql_effect (take k sts) f \<and>
     (fst r = None \<longrightarrow> k = length sts))"

lemma exec_sql_effect: "exec_sql e st f = (err, f') \<Longrightarrow> op_fault e st = None \<Longrightarrow> f' = sql_effect st f"
  by (auto simp: exec_sql_def sql_effect_def split: sum.splits)

lemma exec_script_ran:
  assumes "\<forall>st m. op_fault e st = Some m \<longrightarrow> \<not> tol m"
  shows "ran sts f (exec_script tol e sts f)"
proof (induction sts arbitrary: f)
  case Nil
  then show ?case by (simp add: ran_def)
next
  case (Cons st sts)
  have go: ?case if "exec_script tol e (st # sts) f = exec_script tol e sts (sql_effect st f)"
  proof -
    from Cons [of "sql_effect st f"] obtain k where "k \<le> length sts"
      "snd (exec_script tol e sts (sql_effect st f)) = fold sql_effect (take k sts) (sql_effect st f)"
      "fst (exec_script tol e sts (sql_effect st f)) = None \<longrightarrow> k = length sts"
      by (auto simp: ran_def)
    then show ?thesis unfolding that ran_def by (intro exI [of _ "Suc k"]) simp
  qed
  have stop: ?case if "exec_script tol e (st # sts) f = (Some m, f)" for m
    unfolding that ran_def by (intro exI [of _ 0]) simp
  have "exec_script tol e (st # sts) f = exec_script tol e sts (sql_effect st f) \<or>
      (\<exists>m. exec_script tol e (st # sts) f = (Some m, f))"
    using assms by (auto simp: exec_sql_def sql_effect_def split: option.splits sum.splits)
  with go stop show ?case by blast
qed

lemma ran_then:
  assumes "ran xs f r" and "\<And>f. ran ys f (k f)"
  shows "ran (xs @ ys) f (then_do r k)"
proof -
  obtain err f' where r: "r = (err, f')" by force
  from assms(1) obtain n where n: "n \<le> length xs" "f' = fold sql_effect (take n xs) f"
    "err = None \<longrightarrow> n = length xs" by (auto simp: ran_def r)
  show ?thesis
  proof (cases err)
    case None
    from assms(2) [of f'] obtain m where "m \<le> length ys" "snd (k f') = fold sql_effect (take m ys) f'"
      "fst (k f') = None \<longrightarrow> m = length ys" by (auto simp: ran_def)
    then show ?thesis unfolding ran_def using n None
      by (intro exI [of _ "length xs + m"]) (simp add: then_do_def r)
  next
    case (Some m)
    then show ?thesis unfolding ran_def using n
      by (intro exI [of _ n]) (simp add: then_do_def r)
  qed
qed

definition migration :: "sql_statement list" where
  "migration = ([kSchema] @ kAddedColumns) @ [kIdempotencySchema] @ kIndexes"

text \<open>SQLite reports a duplicate column only where there is one.\<close>

definition no_false_duplicates :: "open_env \<Rightarrow> bool" where
  "no_false_duplicates e \<longleftrightarrow> (\<forall>st m. op_fault e st = Some m \<longrightarrow> \<not> sublist kDuplicateColumn m)"

lemma store_migrate_ran: "no_false_duplicates e \<Longrightarrow> ran migration f (store_migrate e f)"
proof -
  assume "no_false_duplicates e"
  then have cols: "ran kAddedColumns f (add_columns e f)" for f
    unfolding add_columns_def no_false_duplicates_def by (rule exec_script_ran)
  have exec: "ran sts f (execute e sts f)" for sts f by (rule exec_script_ran) simp
  have assoc: "migration = [kSchema] @ kAddedColumns @ [kIdempotencySchema] @ kIndexes"
    by (simp add: migration_def)
  show ?thesis unfolding store_migrate_def assoc
    by (intro ran_then exec cols)
qed

section \<open>What a file has\<close>

text \<open>
  The files the constructor is written for: a table that exists has the columns its first version
  had. The complete schema has every column and index the other operations of the store name.
\<close>

definition task_base_columns :: "string list" where
  "task_base_columns = [''task_id'', ''target_id'', ''action_status'', ''outcome'', ''error_code'',
     ''duration_ms'', ''message'', ''completed_at_ns'']"

definition request_columns :: "string list" where
  "request_columns = [''request_id'', ''fingerprint'', ''state'', ''outcome'', ''error_code'', ''message'',
     ''updated_at_ns'']"

definition covers :: "string \<Rightarrow> string list \<Rightarrow> sql_file \<Rightarrow> bool" where
  "covers t cs f \<longleftrightarrow> (find_table t f \<noteq> None \<longrightarrow> (\<forall>c \<in> set cs. has_column t c f))"

definition legacy_file :: "sql_file \<Rightarrow> bool" where
  "legacy_file f \<longleftrightarrow> covers ''task_runs'' task_base_columns f \<and>
     covers ''request_idempotency'' request_columns f"

definition schema_complete :: "sql_file \<Rightarrow> bool" where
  "schema_complete f \<longleftrightarrow>
     (\<forall>c \<in> set (task_base_columns @ [''request_id'', ''workflow_id'', ''goal_id'']).
        has_column ''task_runs'' c f) \<and>
     (\<forall>c \<in> set request_columns. has_column ''request_idempotency'' c f) \<and>
     has_index ''task_runs_duration_ms'' f \<and> has_index ''task_runs_outcome'' f \<and>
     has_index ''request_idempotency_updated_at_ns'' f"

text \<open>Every old row is still there, at its place; it may have gained empty texts.\<close>

definition row_extends :: "sql_row \<Rightarrow> sql_row \<Rightarrow> bool" where
  "row_extends row row' \<longleftrightarrow> (\<exists>ext. row' = row @ ext \<and> snd ` set ext \<subseteq> {SqlText []})"

definition rows_kept :: "sql_file \<Rightarrow> sql_file \<Rightarrow> bool" where
  "rows_kept f f' \<longleftrightarrow> (\<forall>t tb. find_table t f = Some tb \<longrightarrow>
     (\<exists>tb'. find_table t f' = Some tb' \<and> list_all2 row_extends (tb_rows tb) (tb_rows tb')))"

lemma row_extends_refl: "row_extends row row"
  by (simp add: row_extends_def)

lemma row_extends_trans: "row_extends a b \<Longrightarrow> row_extends b c \<Longrightarrow> row_extends a c"
  by (auto simp: row_extends_def image_Un)

lemma rows_kept_refl: "rows_kept f f"
  by (auto simp: rows_kept_def intro!: list_all2_refl row_extends_refl)

lemma rows_extend_trans:
  "list_all2 row_extends xs ys \<Longrightarrow> list_all2 row_extends ys zs \<Longrightarrow> list_all2 row_extends xs zs"
  using row_extends_trans by (rule list_all2_trans)

lemma rows_kept_trans: "rows_kept f g \<Longrightarrow> rows_kept g h \<Longrightarrow> rows_kept f h"
  unfolding rows_kept_def by (metis rows_extend_trans)

lemma rows_kept_effect: "rows_kept f (sql_effect st f)"
proof (cases st)
  case (AddTextColumn t c)
  have "list_all2 row_extends rows (map (\<lambda>row. row @ [(c, SqlText [])]) rows)" for rows
    by (simp add: list_all2_map2 list_all2_refl row_extends_def)
  then show ?thesis
    by (auto simp: AddTextColumn rows_kept_def add_column_def intro!: list_all2_refl row_extends_refl)
qed (auto simp: rows_kept_def intro!: list_all2_refl row_extends_refl)

lemma rows_kept_fold: "rows_kept f (fold sql_effect sts f)"
  by (induction sts arbitrary: f) (auto intro: rows_kept_refl rows_kept_trans rows_kept_effect)

lemma has_column_fold: "has_column t c f \<Longrightarrow> has_column t c (fold sql_effect sts f)"
  by (induction sts arbitrary: f) (auto intro: has_column_effect)

lemma find_table_kept: "find_table t f \<noteq> None \<Longrightarrow> find_table t (sql_effect st f) \<noteq> None"
  by (cases st) auto

lemma find_table_fold: "find_table t f \<noteq> None \<Longrightarrow> find_table t (fold sql_effect sts f) \<noteq> None"
  by (induction sts arbitrary: f) (simp_all add: find_table_kept del: not_None_eq)

lemma covers_effect:
  assumes "covers t cs f" and "\<And>ds. st = CreateTable t ds \<Longrightarrow> set cs \<subseteq> set ds"
  shows "covers t cs (sql_effect st f)"
proof (cases "find_table t f")
  case None
  show ?thesis
  proof (cases st)
    case (CreateTable t' ds)
    with None assms(2) show ?thesis by (auto simp: covers_def has_column_def)
  qed (use None in \<open>auto simp: covers_def\<close>)
next
  case (Some tb)
  with assms(1) show ?thesis by (auto simp: covers_def intro: has_column_effect)
qed

lemma covers_fold:
  assumes "covers t cs f" and "\<And>ds. CreateTable t ds \<in> set sts \<Longrightarrow> set cs \<subseteq> set ds"
  shows "covers t cs (fold sql_effect sts f)"
  using assms
proof (induction sts arbitrary: f)
  case (Cons st sts)
  then have "covers t cs (sql_effect st f)" by (intro covers_effect) auto
  then show ?case using Cons by simp
qed simp

lemma legacy_fold:
  assumes "legacy_file f" and "set sts \<subseteq> set migration"
  shows "legacy_file (fold sql_effect sts f)"
proof -
  have task: "set task_base_columns \<subseteq> set ds" if "CreateTable ''task_runs'' ds \<in> set migration" for ds
    using that by (auto simp: migration_def kSchema_def kAddedColumns_def kIdempotencySchema_def
        kIndexes_def task_base_columns_def)
  have request: "set request_columns \<subseteq> set ds"
    if "CreateTable ''request_idempotency'' ds \<in> set migration" for ds
    using that by (auto simp: migration_def kSchema_def kAddedColumns_def kIdempotencySchema_def
        kIndexes_def request_columns_def)
  from assms task request show ?thesis
    unfolding legacy_file_def by (blast intro: covers_fold)
qed

lemma script_ok_append:
  "script_ok (xs @ ys) f \<longleftrightarrow> script_ok xs f \<and> script_ok ys (fold sql_effect xs f)"
  by (induction xs arbitrary: f) auto

lemma add_columns_ok: "find_table t f \<noteq> None \<Longrightarrow> script_ok (map (AddTextColumn t) cs) f"
proof (induction cs arbitrary: f)
  case (Cons c cs)
  then obtain tb where "find_table t f = Some tb" by auto
  then have "has_column t c f \<or> has_column t c (sql_effect (AddTextColumn t c) f)"
    by (auto simp: has_column_def add_column_def)
  with Cons.IH [OF find_table_kept [OF Cons.prems]] show ?case by simp
qed simp

lemma create_indexes_ok:
  "\<forall>(i, t, c) \<in> set ixs. has_column t c f \<Longrightarrow> script_ok (map (\<lambda>(i, t, c). CreateIndex i t c) ixs) f"
proof (induction ixs arbitrary: f)
  case (Cons ix ixs)
  obtain i t c where ix: "ix = (i, t, c)" by (cases ix)
  have "has_index i (sql_effect (CreateIndex i t c) f)"
    using Cons.prems by (auto simp: ix sql_effect_def has_index_def)
  moreover have "script_ok (map (\<lambda>(i, t, c). CreateIndex i t c) ixs) (sql_effect (CreateIndex i t c) f)"
    using Cons.prems by (intro Cons.IH) (auto simp: ix intro: has_column_effect)
  ultimately show ?case by (simp add: ix)
qed simp

lemma migration_ok:
  assumes "legacy_file f"
  shows "script_ok migration f"
proof -
  define f1 f2 f3 where "f1 = sql_effect kSchema f" and "f2 = fold sql_effect kAddedColumns f1"
    and "f3 = sql_effect kIdempotencySchema f2"
  have f3: "f3 = fold sql_effect ([kSchema] @ kAddedColumns @ [kIdempotencySchema]) f"
    by (simp add: f1_def f2_def f3_def)
  have legacy: "legacy_file f3"
    unfolding f3 by (rule legacy_fold [OF assms]) (auto simp: migration_def)
  have f1: "find_table ''task_runs'' f1 \<noteq> None" by (auto simp: f1_def kSchema_def)
  then have "find_table ''task_runs'' f3 \<noteq> None"
    unfolding f3_def f2_def by (intro find_table_kept find_table_fold)
  moreover have req: "find_table ''request_idempotency'' f3 \<noteq> None"
    by (auto simp: f3_def kIdempotencySchema_def)
  ultimately have "has_column ''task_runs'' ''duration_ms'' f3" "has_column ''task_runs'' ''outcome'' f3"
    "has_column ''request_idempotency'' ''updated_at_ns'' f3"
    using legacy by (simp_all add: legacy_file_def covers_def task_base_columns_def request_columns_def)
  then have "script_ok (map (\<lambda>(i, t, c). CreateIndex i t c)
      [(''task_runs_duration_ms'', ''task_runs'', ''duration_ms''),
       (''task_runs_outcome'', ''task_runs'', ''outcome''),
       (''request_idempotency_updated_at_ns'', ''request_idempotency'', ''updated_at_ns'')]) f3"
    by (intro create_indexes_ok) auto
  then have "script_ok kIndexes f3" by (simp add: kIndexes_def)
  moreover have "script_ok kAddedColumns f1"
    unfolding kAddedColumns_def by (rule add_columns_ok [OF f1])
  moreover have "sql_done kSchema f1" "sql_done kIdempotencySchema f3"
    using f1 req by (simp_all add: kSchema_def kIdempotencySchema_def)
  ultimately show ?thesis
    by (simp add: migration_def script_ok_append f1_def f2_def f3_def)
qed

text \<open>Without failures the constructor runs the whole script.\<close>

lemma exec_script_clean:
  assumes "op_fault e = (\<lambda>_. None)" and "script_ok sts f"
    and "\<forall>st f m. st \<in> set sts \<longrightarrow> sql_apply st f = Inl m \<longrightarrow> sql_done st f \<longrightarrow> tol m"
  shows "exec_script tol e sts f = (None, fold sql_effect sts f)"
  using assms(2,3)
proof (induction sts arbitrary: f)
  case (Cons st sts)
  have rest: "exec_script tol e sts (sql_effect st f) = (None, fold sql_effect (st # sts) f)"
    using Cons by simp
  show ?case
  proof (cases "sql_apply st f")
    case (Inl m)
    then have "sql_effect st f = f" by (simp add: sql_effect_def)
    moreover from this Cons.prems(1) have "sql_done st f" by simp
    ultimately show ?thesis using Inl rest Cons.prems(2) assms(1)
      by (auto simp: exec_sql_def)
  next
    case (Inr f')
    then have "sql_effect st f = f'" by (simp add: sql_effect_def)
    with Inr rest assms(1) show ?thesis by (simp add: exec_sql_def)
  qed
qed simp

lemma store_migrate_clean:
  assumes "op_fault e = (\<lambda>_. None)" and "legacy_file f"
  shows "store_migrate e f = (None, fold sql_effect migration f)"
proof -
  have dup: "sublist kDuplicateColumn (kDuplicateColumn @ xs)" for xs
    by (simp add: prefix_imp_sublist)
  note ok = migration_ok [OF assms(2), unfolded migration_def script_ok_append]
  have "execute e [kSchema] f = (None, fold sql_effect [kSchema] f)"
    by (rule exec_script_clean [OF assms(1)]) (use ok in \<open>auto simp: kSchema_def\<close>)
  moreover have "add_columns e (fold sql_effect [kSchema] f) =
      (None, fold sql_effect kAddedColumns (fold sql_effect [kSchema] f))"
    unfolding add_columns_def
    by (rule exec_script_clean [OF assms(1)])
       (use ok in \<open>auto simp: kAddedColumns_def dup has_column_def\<close>)
  moreover have "execute e [kIdempotencySchema] (fold sql_effect kAddedColumns (fold sql_effect [kSchema] f)) =
      (None, fold sql_effect [kIdempotencySchema] (fold sql_effect kAddedColumns (fold sql_effect [kSchema] f)))"
    by (rule exec_script_clean [OF assms(1)]) (use ok in \<open>auto simp: kIdempotencySchema_def\<close>)
  moreover have "execute e kIndexes g = (None, fold sql_effect kIndexes g)"
    if "g = fold sql_effect [kIdempotencySchema] (fold sql_effect kAddedColumns (fold sql_effect [kSchema] f))" for g
    by (rule exec_script_clean [OF assms(1)]) (use ok that in \<open>auto simp: kIndexes_def\<close>)
  ultimately show ?thesis by (simp add: store_migrate_def then_do_def migration_def)
qed

lemma migrated_complete:
  assumes "legacy_file f"
  shows "schema_complete (fold sql_effect migration f)"
proof -
  let ?f = "fold sql_effect migration f"
  have "\<forall>st \<in> set migration. sql_done st ?f"
    using script_done [OF migration_ok [OF assms]] by blast
  then have "sql_done kSchema ?f" "\<forall>st \<in> set kAddedColumns. sql_done st ?f"
    "sql_done kIdempotencySchema ?f" "\<forall>st \<in> set kIndexes. sql_done st ?f"
    by (simp_all add: migration_def)
  moreover have "legacy_file ?f" by (rule legacy_fold [OF assms]) simp
  ultimately show ?thesis
    by (auto simp: schema_complete_def legacy_file_def covers_def kSchema_def kAddedColumns_def
        kIdempotencySchema_def kIndexes_def)
qed

section \<open>Properties\<close>

definition clean_open :: "open_env \<Rightarrow> bool" where
  "clean_open e \<longleftrightarrow> op_open e = None \<and> op_busy_timeout e = None \<and> enable_wal e = Inr ''wal'' \<and>
     op_fault e = (\<lambda>_. None)"

text \<open>C37. Opening a database, whatever SQLite call fails: the handle stays open exactly when there is no
  error. Then the file has every table, column and index the store's statements name, also when an
  older version wrote it. In every case, rows keep their place and values and gain at most empty
  texts. And an attempt that failed anywhere in between does no harm: a later open without
  failures succeeds, with the file that one uninterrupted open would have made.
\<close>

theorem store_open_migrates:
  assumes "legacy_file f" and "no_false_duplicates e" and "store_open e f = (handle, err, f')"
  shows "(handle \<longleftrightarrow> err = None) \<and> (handle \<longrightarrow> schema_complete f') \<and> rows_kept f f' \<and>
    (\<forall>e'. clean_open e' \<longrightarrow> store_open e' f' = store_open e' f \<and> fst (store_open e' f'))"
proof -
  from assms(3) have cases: "(handle, err, f') = (False, err, f) \<and> err \<noteq> None \<or>
      store_migrate e f = (err, f') \<and> handle = (err = None)"
    by (auto simp: store_open_def split: option.splits sum.splits if_splits prod.splits)
  have "\<exists>k. f' = fold sql_effect (take k migration) f \<and> (handle \<longrightarrow> length migration \<le> k)"
  proof (cases "handle = (err = None) \<and> store_migrate e f = (err, f')")
    case True
    then show ?thesis using store_migrate_ran [OF assms(2), of f] by (auto simp: ran_def)
  next
    case False
    with cases have "f' = fold sql_effect (take 0 migration) f \<and> \<not> handle" by auto
    then show ?thesis by blast
  qed
  then obtain k where f': "f' = fold sql_effect (take k migration) f"
    and full: "handle \<longrightarrow> length migration \<le> k" by blast
  have handle: "handle \<longleftrightarrow> err = None" using cases by auto
  have legacy: "legacy_file f'"
    unfolding f' by (rule legacy_fold [OF assms(1)]) (meson set_take_subset)
  have "fold sql_effect migration f' = fold sql_effect migration f"
    unfolding f' by (rule script_resumed [OF migration_ok [OF assms(1)]])
  then have resumed: "store_open e' f' = store_open e' f \<and> fst (store_open e' f')" if "clean_open e'" for e'
    using that store_migrate_clean [of e'] legacy assms(1) by (simp add: clean_open_def store_open_def)
  have "schema_complete f'" if handle
    using that full migrated_complete [OF assms(1)] by (simp add: f')
  moreover have "rows_kept f f'" unfolding f' by (rule rows_kept_fold)
  ultimately show ?thesis using handle resumed by blast
qed

text \<open>A file of the first version with one row, and an open that fails at its third statement.\<close>

definition sample_file :: sql_file where
  "sample_file = \<lparr>sf_tables = [(''task_runs'', \<lparr>tb_columns = task_base_columns,
       tb_rows = [map (\<lambda>c. (c, SqlInt 7)) task_base_columns]\<rparr>)], sf_indexes = []\<rparr>"

definition sample_open :: open_env where
  "sample_open = \<lparr>op_open = None, op_busy_timeout = None, op_wal_prepares = True,
     op_wal_row = Some (Some ''wal''),
     op_fault = (\<lambda>_. None), op_errmsg = ''not an error''\<rparr>"

definition sample_broken_open :: open_env where
  "sample_broken_open = sample_open\<lparr>op_fault := \<lambda>st.
     if st = AddTextColumn ''task_runs'' ''workflow_id'' then Some ''disk I/O error'' else None\<rparr>"

lemma sample_open_fails:
  "store_open sample_broken_open sample_file =
     (False, Some ''disk I/O error'', sql_effect (AddTextColumn ''task_runs'' ''request_id'') sample_file)"
  by code_simp

theorem store_open_migrates_witness:
  "\<exists>f'. store_open sample_broken_open sample_file = (False, Some ''disk I/O error'', f') \<and>
     f' \<noteq> sample_file \<and> rows_kept sample_file f' \<and>
     store_open sample_open f' = store_open sample_open sample_file \<and> fst (store_open sample_open f')"
proof -
  have "legacy_file sample_file" by code_simp
  moreover have "\<not> sublist kDuplicateColumn ''disk I/O error''" by code_simp
  then have "no_false_duplicates sample_broken_open"
    by (simp add: no_false_duplicates_def sample_broken_open_def sample_open_def)
  moreover have "clean_open sample_open" by (simp add: clean_open_def sample_open_def enable_wal_def column_text_def)
  moreover have "sql_effect (AddTextColumn ''task_runs'' ''request_id'') sample_file \<noteq> sample_file"
    by code_simp
  ultimately show ?thesis
    using store_open_migrates [OF _ _ sample_open_fails] sample_open_fails by blast
qed

end
