(* ===== verification/History_Process.thy ===== *)
theory History_Process
  imports History_Recorder "HOL-Library.Sublist"
begin

text \<open>
  The history process from end to end: the node of \<open>runtime_history_node.cpp\<close> with its recorder
  thread and the database the recorder writes to. Events arrive while the node is spun; then the
  members are destroyed in the reverse order of their declaration, the recorder (whose destructor
  stops and joins the writer) before the store. Another process may change the other table of
  the same file.
\<close>

section \<open>State and steps\<close>

datatype history_phase = Serving | Stopping | StoreClosed

text \<open>\<open>hp_events\<close> logs the events delivered to the subscription.\<close>

record history_process =
  hp_node :: history_node
  hp_db :: database
  hp_phase :: history_phase
  hp_events :: "task_event list"

definition history_node_new :: history_node where
  "history_node_new = \<lparr>hn_recorder = recorder_init 256, hn_queue_rejections = 0, hn_diagnostics = []\<rparr>"

definition history_start :: "database \<Rightarrow> history_process" where
  "history_start db = \<lparr>hp_node = history_node_new, hp_db = db, hp_phase = Serving, hp_events = []\<rparr>"

abbreviation hp_recorder :: "history_process \<Rightarrow> recorder" where
  "hp_recorder p \<equiv> hn_recorder (hp_node p)"

definition hp_with :: "recorder \<Rightarrow> history_process \<Rightarrow> history_process" where
  "hp_with rec p = p\<lparr>hp_node := (hp_node p)\<lparr>hn_recorder := rec\<rparr>\<rparr>"

definition hp_receive :: "task_event \<Rightarrow> history_process \<Rightarrow> history_process" where
  "hp_receive e p = p\<lparr>hp_node := history_on_event e (hp_node p), hp_events := hp_events p @ [e]\<rparr>"

definition hp_timer :: "history_process \<Rightarrow> history_process" where
  "hp_timer p = p\<lparr>hp_node := history_publish_diagnostics (hp_node p)\<rparr>"

text \<open>The writer's \<open>write_(record)\<close> is \<open>store_.insert(record)\<close>.\<close>

definition hp_write :: "(sql_call \<Rightarrow> bool) \<Rightarrow> task_record \<Rightarrow> history_process \<Rightarrow> history_process" where
  "hp_write faults r p =
     (let (written, db) = store_insert faults r (hp_db p)
      in (hp_with (rc_worker_done r written (hp_recorder p)) p)\<lparr>hp_db := db\<rparr>)"

inductive history_step :: "history_process \<Rightarrow> history_process \<Rightarrow> bool" where
  hs_event: "hp_phase p = Serving \<Longrightarrow> history_step p (hp_receive e p)"
| hs_timer: "hp_phase p = Serving \<Longrightarrow> history_step p (hp_timer p)"
| hs_take: "rc_worker_wakes (hp_recorder p) \<Longrightarrow>
    history_step p (hp_with (rc_worker_take (hp_recorder p)) p)"
| hs_write: "rc_worker (hp_recorder p) = WorkerWriting r \<Longrightarrow> history_step p (hp_write faults r p)"
| hs_ledger: "db_task_runs db = db_task_runs (hp_db p) \<Longrightarrow> history_step p (p\<lparr>hp_db := db\<rparr>)"
| hs_stop: "hp_phase p = Serving \<Longrightarrow>
    history_step p ((hp_with (rc_request_stop (hp_recorder p)) p)\<lparr>hp_phase := Stopping\<rparr>)"
| hs_join: "hp_phase p = Stopping \<Longrightarrow> rc_join_state (hp_recorder p) = JoinIdle \<Longrightarrow>
    history_step p (hp_with ((hp_recorder p)\<lparr>rc_join_state := Joining\<rparr>) p)"
| hs_joined: "rc_join_state (hp_recorder p) = Joining \<Longrightarrow> rc_worker (hp_recorder p) = WorkerExited \<Longrightarrow>
    history_step p (hp_with ((hp_recorder p)\<lparr>rc_join_state := Joined\<rparr>) p)"
| hs_close: "hp_phase p = Stopping \<Longrightarrow> rc_join_state (hp_recorder p) = Joined \<Longrightarrow>
    history_step p (p\<lparr>hp_phase := StoreClosed\<rparr>)"

section \<open>The recorder inside the process\<close>

lemma history_on_event_recorder:
  "hn_recorder (history_on_event e n) = snd (rc_enqueue (event_record e) (hn_recorder n))"
  by (simp add: history_on_event_def history_publish_diagnostics_def rc_enqueue_def Let_def)

lemma history_on_event_rejections:
  "hn_queue_rejections (history_on_event e n) =
     hn_queue_rejections n + (if fst (rc_enqueue (event_record e) (hn_recorder n)) then 0 else 1)"
  by (simp add: history_on_event_def history_publish_diagnostics_def rc_enqueue_def Let_def)

lemmas hp_defs = hp_with_def hp_receive_def hp_timer_def hp_write_def history_publish_diagnostics_def

text \<open>Every step of the process is a step of the recorder, or leaves it alone.\<close>

definition hp_stopped_ok :: "history_process \<Rightarrow> bool" where
  "hp_stopped_ok p \<longleftrightarrow> (hp_phase p \<noteq> Serving \<longrightarrow> rc_stopping (hp_recorder p)) \<and>
     (hp_phase p = StoreClosed \<longrightarrow> rc_join_state (hp_recorder p) = Joined)"

lemma history_step_recorder:
  assumes "history_step p p'" and "hp_stopped_ok p"
  shows "recorder_step\<^sup>=\<^sup>= (hp_recorder p) (hp_recorder p')"
  using assms(1)
proof cases
  case (hs_event e)
  then show ?thesis using step_enqueue [of "hp_recorder p"] by (simp add: hp_defs history_on_event_recorder)
next
  case hs_take
  then show ?thesis using step_take [of "hp_recorder p"] by (simp add: hp_defs)
next
  case (hs_write r faults)
  then show ?thesis using step_done [of "hp_recorder p" r] by (simp add: hp_defs split_beta)
next
  case hs_stop
  then show ?thesis using step_stop [of "hp_recorder p"] by (simp add: hp_defs)
next
  case hs_join
  then show ?thesis using step_join [of "hp_recorder p"] assms(2) by (simp add: hp_defs hp_stopped_ok_def)
next
  case hs_joined
  then show ?thesis using step_joined [of "hp_recorder p"] by (simp add: hp_defs)
qed (simp_all add: hp_defs)

lemma hp_stopped_ok_step: "history_step p p' \<Longrightarrow> hp_stopped_ok p \<Longrightarrow> hp_stopped_ok p'"
  by (erule history_step.cases)
    (auto simp: hp_stopped_ok_def hp_defs rc_worker_take_def rc_worker_done_def rc_request_stop_def
      rc_worker_wakes_def Let_def split: list.splits prod.splits)

lemma history_run_recorder:
  assumes "history_step\<^sup>*\<^sup>* (history_start db) p"
  shows "recorder_reachable 256 (hp_recorder p) \<and> hp_stopped_ok p"
  using assms
proof (induction rule: rtranclp_induct)
  case base
  show ?case by (simp add: history_start_def history_node_new_def hp_stopped_ok_def reach_init)
next
  case (step p p')
  with history_step_recorder [of p p'] hp_stopped_ok_step [of p p'] show ?case
    by (auto intro: reach_step)
qed

section \<open>What the database holds\<close>

text \<open>The row of a record, as an insert that reported success leaves it.\<close>

definition on_record :: "task_record \<Rightarrow> database \<Rightarrow> bool" where
  "on_record r db \<longleftrightarrow> (\<exists>row. find_task (tr_task_id r) db = Some row \<and> (row = r \<or> same_record (read_task row) r))"

lemma on_record_insert: "on_record r db \<Longrightarrow> on_record r (snd (store_insert faults q db))"
proof -
  obtain ok db' where ins: "store_insert faults q db = (ok, db')" by fastforce
  show "on_record r db \<Longrightarrow> on_record r (snd (store_insert faults q db))"
    by (auto simp: on_record_def ins find_task_insert [OF ins])
qed

lemma on_record_inserted: "store_insert faults r db = (True, db') \<Longrightarrow> on_record r db'"
  unfolding on_record_def by (rule store_insert_accepted)

text \<open>Accounting: every delivered event was queued in order or counted as rejected, a record counted as
  written is on record, and no other row appeared.\<close>

definition history_inv :: "database \<Rightarrow> history_process \<Rightarrow> bool" where
  "history_inv db0 p \<longleftrightarrow>
     subseq (rc_accepted (hp_recorder p)) (map event_record (hp_events p)) \<and>
     hn_queue_rejections (hp_node p) + of_nat (length (rc_accepted (hp_recorder p))) =
       of_nat (length (hp_events p)) \<and>
     (\<forall>r. (r, True) \<in> set (rc_written (hp_recorder p)) \<longrightarrow> on_record r (hp_db p)) \<and>
     (\<forall>row \<in> set (db_task_runs (hp_db p)).
        row \<in> set (db_task_runs db0) \<or> row \<in> event_record ` set (hp_events p))"

lemma history_inv_frame:
  assumes "history_inv db0 p" and "rc_accepted (hp_recorder p') = rc_accepted (hp_recorder p)"
    and "rc_written (hp_recorder p') = rc_written (hp_recorder p)" and "hp_events p' = hp_events p"
    and "hn_queue_rejections (hp_node p') = hn_queue_rejections (hp_node p)"
    and "db_task_runs (hp_db p') = db_task_runs (hp_db p)"
  shows "history_inv db0 p'"
  using assms by (simp add: history_inv_def on_record_def find_task_def)

lemma store_insert_rows:
  "db_task_runs (snd (store_insert faults r db)) \<in> {db_task_runs db, db_task_runs db @ [r]}"
  by (auto simp: store_insert_def split: option.splits)

lemma history_inv_step:
  assumes "history_step p p'" and "history_inv db0 p" and "recorder_inv 256 (hp_recorder p)"
  shows "history_inv db0 p'"
  using assms(1)
proof cases
  case (hs_event e)
  let ?r = "event_record e" let ?m = "map event_record (hp_events p)"
  have sub: "subseq (rc_accepted (hp_recorder p)) ?m" using assms(2) by (simp add: history_inv_def)
  then have "subseq (rc_accepted (hp_recorder p) @ [?r]) (?m @ [?r])" "subseq (rc_accepted (hp_recorder p)) (?m @ [?r])"
    by (simp_all add: list_emb_prefix)
  with assms(2) show ?thesis
    by (auto simp: hs_event history_inv_def hp_receive_def history_on_event_recorder
        history_on_event_rejections rc_enqueue_def algebra_simps)
next
  case (hs_write r faults)
  let ?ins = "store_insert faults r (hp_db p)"
  have r: "r \<in> event_record ` set (hp_events p)"
  proof -
    have "r \<in> set (rc_accepted (hp_recorder p))"
      using hs_write(2) assms(3) by (simp add: recorder_inv_def rc_in_flight_def)
    moreover have "set (rc_accepted (hp_recorder p)) \<subseteq> set (map event_record (hp_events p))"
      using assms(2) unfolding history_inv_def by (blast dest: list_emb_set)
    ultimately show ?thesis by auto
  qed
  have rows: "\<forall>row \<in> set (db_task_runs (snd ?ins)).
      row \<in> set (db_task_runs db0) \<or> row \<in> event_record ` set (hp_events p)"
    using store_insert_rows [of faults r "hp_db p"] assms(2) r by (auto simp: history_inv_def)
  have "on_record q (snd ?ins)" if "(q, True) \<in> set (rc_written (hp_recorder p) @ [(r, fst ?ins)])" for q
    using that assms(2) on_record_insert on_record_inserted [of faults r "hp_db p" "snd ?ins"]
    by (cases "fst ?ins") (auto simp: history_inv_def prod_eq_iff)
  with rows assms(2) show ?thesis
    by (simp add: hs_write(1) history_inv_def hp_defs split_beta rc_worker_done_def Let_def)
next
  case hs_timer
  then show ?thesis by (intro history_inv_frame [OF assms(2)]) (simp_all add: hp_defs)
next
  case hs_take
  then show ?thesis
    by (intro history_inv_frame [OF assms(2)]) (simp_all add: hp_defs rc_worker_take_def split: list.split)
next
  case hs_stop
  then show ?thesis by (intro history_inv_frame [OF assms(2)]) (simp_all add: hp_defs rc_request_stop_def)
qed (intro history_inv_frame [OF assms(2)]; simp add: hp_defs)+

lemma history_run_inv:
  assumes "history_step\<^sup>*\<^sup>* (history_start db) p"
  shows "history_inv db p"
  using assms
proof (induction rule: rtranclp_induct)
  case base
  show ?case
    by (simp add: history_inv_def history_start_def history_node_new_def recorder_init_def)
next
  case (step p p')
  with history_run_recorder [OF step.hyps(1)] show ?case
    by (blast intro: history_inv_step recorder_reachable_inv)
qed

section \<open>Property\<close>

lemma unat_of_nat_u64: "n < 2 ^ 64 \<Longrightarrow> unat (of_nat n :: u64) = n"
  by (simp add: unat_of_nat)

lemma filter_split_length: "length (filter P xs) + length (filter (Not \<circ> P) xs) = length xs"
  by (induction xs) simp_all

text \<open>Nothing rejected and nothing failed: every event was written.\<close>

lemma healthy_all_written:
  assumes inv: "history_inv db p" and rec: "recorder_inv 256 (hp_recorder p)"
    and closed: "rc_worker (hp_recorder p) = WorkerExited" and few: "length (hp_events p) < 2 ^ 64"
    and ok: "hn_queue_rejections (hp_node p) = 0" "rc_write_errors (hp_recorder p) = 0"
  shows "\<forall>e \<in> set (hp_events p). (event_record e, True) \<in> set (rc_written (hp_recorder p))"
proof
  let ?acc = "rc_accepted (hp_recorder p)" let ?w = "rc_written (hp_recorder p)"
  let ?m = "map event_record (hp_events p)"
  have acc: "?acc = map fst ?w"
    using rec closed by (simp add: recorder_inv_def rc_in_flight_def)
  have sub: "subseq ?acc ?m" using inv by (simp add: history_inv_def)
  have le: "length ?acc \<le> length (hp_events p)" using list_emb_length [OF sub] by simp
  have "(of_nat (length ?acc) :: u64) = of_nat (length (hp_events p))"
    using inv ok(1) by (simp add: history_inv_def)
  then have "length ?acc = length (hp_events p)"
    using unat_of_nat_u64 [of "length ?acc"] unat_of_nat_u64 [OF few] le few by simp
  with sub have same: "?acc = ?m" by (simp add: subseq_same_length)
  have "(of_nat (length (filter (Not \<circ> snd) ?w)) :: u64) = 0"
    using rec ok(2) by (simp add: recorder_inv_def)
  moreover have "length (filter (Not \<circ> snd) ?w) < 2 ^ 64"
    using filter_split_length [of snd ?w] le few acc by simp
  ultimately have "filter (Not \<circ> snd) ?w = []"
    using unat_of_nat_u64 [of "length (filter (Not \<circ> snd) ?w)"] by simp
  then have written: "snd x" if "x \<in> set ?w" for x
    using that by (auto simp: filter_empty_conv)
  fix e assume "e \<in> set (hp_events p)"
  then have "event_record e \<in> set (map fst ?w)" using same acc by auto
  then show "(event_record e, True) \<in> set ?w" using written by fastforce
qed

text \<open>C36. End to end, from the subscription to the database: when the history process has closed its
  store, every event that was delivered was written, was counted as a write error or was counted
  as a queue rejection; and if the status it then reports is OK, none was lost: each event's task
  has a row, which is that event's record or agrees with it in every compared field. No other
  rows appear, whatever calls of SQLite fail.
\<close>

theorem healthy_history_lost_nothing:
  assumes "history_step\<^sup>*\<^sup>* (history_start db) p" and "hp_phase p = StoreClosed"
    and "length (hp_events p) < 2 ^ 64"
  shows "hn_queue_rejections (hp_node p) + rc_write_errors (hp_recorder p) + rc_persisted (hp_recorder p) =
      of_nat (length (hp_events p)) \<and>
    (ds_level (history_diagnostics (hp_node p)) = DIAG_OK \<longrightarrow>
      (\<forall>e \<in> set (hp_events p). \<exists>row. find_task (te_task_id e) (hp_db p) = Some row \<and>
         (row = event_record e \<or> same_record (read_task row) (event_record e)))) \<and>
    (\<forall>row \<in> set (db_task_runs (hp_db p)).
       row \<in> set (db_task_runs db) \<or> row \<in> event_record ` set (hp_events p))"
proof -
  from history_run_recorder [OF assms(1)] have rr: "recorder_reachable 256 (hp_recorder p)"
    and stop: "hp_stopped_ok p" by simp_all
  note rec = recorder_reachable_inv [OF rr] and inv = history_run_inv [OF assms(1)]
  have ended: "rc_worker (hp_recorder p) = WorkerExited"
    using rec stop assms(2) by (simp add: recorder_inv_def hp_stopped_ok_def)
  have len: "length (rc_accepted (hp_recorder p)) = length (rc_written (hp_recorder p))"
    using rec ended by (simp add: recorder_inv_def rc_in_flight_def)
  have counts: "rc_write_errors (hp_recorder p) + rc_persisted (hp_recorder p) =
      of_nat (length (rc_accepted (hp_recorder p)))"
    using rec arg_cong [OF filter_split_length [of snd "rc_written (hp_recorder p)"], of "of_nat :: nat \<Rightarrow> u64"]
    unfolding len by (simp add: recorder_inv_def add.commute)
  have all: "\<exists>row. find_task (te_task_id e) (hp_db p) = Some row \<and>
      (row = event_record e \<or> same_record (read_task row) (event_record e))"
    if healthy: "ds_level (history_diagnostics (hp_node p)) = DIAG_OK" and e: "e \<in> set (hp_events p)" for e
  proof -
    have ok: "hn_queue_rejections (hp_node p) = 0" "rc_write_errors (hp_recorder p) = 0"
      using healthy by (auto simp: history_diagnostics_def Let_def split: if_splits)
    from healthy_all_written [OF inv rec ended assms(3) ok] e
    have "(event_record e, True) \<in> set (rc_written (hp_recorder p))" by blast
    with inv have "on_record (event_record e) (hp_db p)" by (simp add: history_inv_def)
    then show ?thesis by (simp add: on_record_def event_record_def)
  qed
  from inv counts have "hn_queue_rejections (hp_node p) + (rc_write_errors (hp_recorder p) + rc_persisted (hp_recorder p)) =
      of_nat (length (hp_events p))" by (simp add: history_inv_def)
  then show ?thesis using all inv by (auto simp: history_inv_def add.assoc)
qed

text \<open>One event, still being written when the destructor stops the recorder.\<close>

definition sample_event :: "u8 \<Rightarrow> task_event" where
  "sample_event oc =
     \<lparr>te_task_id = ''t1'', te_request_id = ''r1'', te_workflow_id = ''single_task'', te_goal_id = ''g'',
      te_target_id = ''a'', te_action_status = 4, te_outcome = oc, te_error_code = 0,
      te_duration_ms = 12, te_message = ''ok'', te_stamp_sec = 0, te_stamp_nanosec = 5\<rparr>"

definition history_life_state ::
  "recorder \<Rightarrow> database \<Rightarrow> history_phase \<Rightarrow> history_process" where
  "history_life_state rec db phase =
     \<lparr>hp_node = \<lparr>hn_recorder = rec, hn_queue_rejections = 0, hn_diagnostics = []\<rparr>, hp_db = db,
      hp_phase = phase, hp_events = [sample_event 0]\<rparr>"

definition life_recorder ::
  "bool \<Rightarrow> recorder_worker \<Rightarrow> join_state \<Rightarrow> task_record list \<Rightarrow> (task_record \<times> bool) list \<Rightarrow> recorder" where
  "life_recorder stopping worker join queue written =
     \<lparr>rc_capacity = 256, rc_queue = queue, rc_stopping = stopping,
      rc_persisted = of_nat (length written), rc_write_errors = 0, rc_worker = worker,
      rc_join_state = join, rc_accepted = [event_record (sample_event 0)], rc_written = written\<rparr>"

definition history_life :: "history_process list" where
  "history_life =
     (let r = event_record (sample_event 0); db = empty_database; db' = db\<lparr>db_task_runs := [r]\<rparr> in
      [history_start db,
       history_life_state (life_recorder False WorkerWaiting JoinIdle [r] []) db Serving,
       history_life_state (life_recorder False (WorkerWriting r) JoinIdle [] []) db Serving,
       history_life_state (life_recorder True (WorkerWriting r) JoinIdle [] []) db Stopping,
       history_life_state (life_recorder True WorkerWaiting JoinIdle [] [(r, True)]) db' Stopping,
       history_life_state (life_recorder True WorkerExited JoinIdle [] [(r, True)]) db' Stopping,
       history_life_state (life_recorder True WorkerExited Joining [] [(r, True)]) db' Stopping,
       history_life_state (life_recorder True WorkerExited Joined [] [(r, True)]) db' Stopping,
       history_life_state (life_recorder True WorkerExited Joined [] [(r, True)]) db' StoreClosed])"

lemma history_stepI: "history_step p q \<Longrightarrow> q = q' \<Longrightarrow> history_step p q'"
  by simp

lemmas history_life_defs = history_life_state_def life_recorder_def history_start_def history_node_new_def
  recorder_init_def hp_with_def hp_receive_def hp_write_def history_on_event_def rc_enqueue_def
  rc_worker_take_def rc_worker_done_def rc_worker_wakes_def rc_request_stop_def Let_def

lemma history_life_run: "history_step\<^sup>*\<^sup>* (history_start empty_database) (last history_life)"
proof -
  let ?r = "event_record (sample_event 0)"
  have ins: "store_insert no_fault ?r empty_database = (True, empty_database\<lparr>db_task_runs := [?r]\<rparr>)"
    by (simp add: store_insert_def event_record_def sample_event_def find_task_def empty_database_def)
  have "is_run history_step history_life"
    unfolding history_life_def Let_def is_run.simps
    by (intro conjI TrueI, (rule history_stepI [OF hs_event [where e = "sample_event 0"]]; simp add: history_life_defs),
        (rule history_stepI [OF hs_take]; simp add: history_life_defs),
        (rule history_stepI [OF hs_stop]; simp add: history_life_defs),
        (rule history_stepI [OF hs_write [where r = ?r and faults = no_fault]]; simp add: history_life_defs ins),
        (rule history_stepI [OF hs_take]; simp add: history_life_defs),
        (rule history_stepI [OF hs_join]; simp add: history_life_defs),
        (rule history_stepI [OF hs_joined]; simp add: history_life_defs),
        (rule history_stepI [OF hs_close]; simp add: history_life_defs))
  then show ?thesis
    using is_run_rtranclp [of history_step "history_start empty_database" "tl history_life"]
    by (simp add: history_life_def Let_def)
qed

theorem healthy_history_lost_nothing_witness:
  "hp_events (last history_life) = [sample_event 0] \<and>
   find_task ''t1'' (hp_db (last history_life)) = Some (event_record (sample_event 0))"
proof -
  have life: "hp_phase (last history_life) = StoreClosed" "hp_events (last history_life) = [sample_event 0]"
    "ds_level (history_diagnostics (hp_node (last history_life))) = DIAG_OK"
    "db_task_runs (hp_db (last history_life)) = [event_record (sample_event 0)]"
    by (simp_all add: history_life_def Let_def history_life_state_def life_recorder_def history_diagnostics_def)
  have "\<exists>row. find_task ''t1'' (hp_db (last history_life)) = Some row"
    using healthy_history_lost_nothing [OF history_life_run life(1)] life(2,3)
    by (auto simp: sample_event_def)
  then show ?thesis
    using life(2,4) by (auto simp: find_task_def sample_event_def event_record_def split: if_splits)
qed

end
