(* ===== verification/Node_Programs.thy ===== *)
theory Node_Programs
  imports Device_Bridge Virtual_Device Health_Monitor Store_Open History_Process
begin

text \<open>
  The remaining programs, from their constructors to their exit codes: the bridge and the virtual
  device, which open a CAN socket, the monitor, and the history node, which opens a database. Each
  \<open>main\<close> constructs its node, spins it until the context shuts down or an exception leaves the
  callbacks, destroys it, and returns; a constructor that throws ends the program with code 1.
  Whether \<open>rclcpp::spin\<close> threw is an argument.
\<close>

section \<open>Main\<close>

text \<open>\<open>Inl\<close> is the exception of a constructor; \<open>Some\<close> that of a callback.\<close>

definition exit_of :: "string option \<Rightarrow> int" where
  "exit_of spin_error = (if spin_error = None then 0 else 1)"

definition node_main :: "string + 'n \<Rightarrow> string option \<Rightarrow> int" where
  "node_main constructed spin_error = (case constructed of Inl _ \<Rightarrow> 1 | Inr _ \<Rightarrow> exit_of spin_error)"

section \<open>The CAN nodes\<close>

text \<open>The operating system's part: interface and bind, and the socket option of the filter.\<close>

record can_os =
  co_open :: os_open
  co_setsockopt :: "u32 \<Rightarrow> u32 \<Rightarrow> string + unit"

datatype can_program_step = FilterSet u32 | IoThreadStarted | NodeSpun | ThreadJoined | SocketDestroyed

definition open_filtered :: "string \<Rightarrow> u32 \<Rightarrow> can_os \<Rightarrow> string \<Rightarrow> socket_can \<Rightarrow> (string + unit) \<times> socket_can" where
  "open_filtered filter_error frame_id os interface s =
     (case sock_open (co_open os) interface s of
        (Inl err, s1) \<Rightarrow> (Inl (''failed to open '' @ interface @ '': '' @ err), s1)
      | (Inr _, s1) \<Rightarrow>
          (case set_filter (co_setsockopt os) frame_id of
             Inl err \<Rightarrow> (Inl (filter_error @ err), s1)
           | Inr _ \<Rightarrow> (Inr (), s1)))"

definition bridge_construct ::
  "int \<Rightarrow> int \<Rightarrow> int \<Rightarrow> int \<Rightarrow> bool \<Rightarrow> can_os \<Rightarrow> string \<Rightarrow> (string + bridge_config) \<times> socket_can" where
  "bridge_construct max_timeout poll stop_timeout period stage_log os interface =
     (case bridge_configure max_timeout poll stop_timeout period stage_log of
        Inl err \<Rightarrow> (Inl err, socket_init)
      | Inr cfg \<Rightarrow>
          (case open_filtered ''failed to set response filter: '' kResponseFrameId os interface socket_init of
             (Inl err, s) \<Rightarrow> (Inl err, s)
           | (Inr _, s) \<Rightarrow> (Inr cfg, s)))"

definition device_construct ::
  "string \<Rightarrow> string \<Rightarrow> int \<Rightarrow> int \<Rightarrow> can_os \<Rightarrow> string \<Rightarrow> (string + virtual_device) \<times> socket_can" where
  "device_construct device_id mode delay_ms capacity os interface =
     (case virtual_device_new device_id mode delay_ms capacity of
        Inl err \<Rightarrow> (Inl err, socket_init)
      | Inr d \<Rightarrow>
          (case open_filtered ''failed to set command filter: '' kCommandFrameId os interface socket_init of
             (Inl err, s) \<Rightarrow> (Inl err, s)
           | (Inr _, s) \<Rightarrow> (Inr d, s)))"

text \<open>
  The programs, with what happens to filter, threads and socket in order. The socket is a member:
  its destructor closes it after the body of the node's destructor joined the thread, and also
  when the constructor throws.
\<close>

definition device_bridge_main ::
  "(string + bridge_config) \<times> socket_can \<Rightarrow> string option \<Rightarrow> int \<times> can_program_step list \<times> socket_can" where
  "device_bridge_main constructed spin_error =
     (case constructed of (node, s) \<Rightarrow>
        (node_main node spin_error,
         (case node of Inl _ \<Rightarrow> [SocketDestroyed]
          | Inr _ \<Rightarrow> [FilterSet kResponseFrameId, NodeSpun, ThreadJoined, SocketDestroyed]),
         sock_close s))"

definition virtual_device_main ::
  "(string + virtual_device) \<times> socket_can \<Rightarrow> string option \<Rightarrow> int \<times> can_program_step list \<times> socket_can" where
  "virtual_device_main constructed spin_error =
     (case constructed of (node, s) \<Rightarrow>
        (node_main node spin_error,
         (case node of Inl _ \<Rightarrow> [SocketDestroyed]
          | Inr _ \<Rightarrow> [FilterSet kCommandFrameId, IoThreadStarted, NodeSpun, ThreadJoined, SocketDestroyed]),
         sock_close s))"

section \<open>Monitor and history\<close>

definition monitor_construct :: "int \<Rightarrow> int \<Rightarrow> string + int \<times> aggregator" where
  "monitor_construct aggregate_period_ms stale_timeout_ms =
     (case declare_positive_ms ''aggregate_period_ms'' aggregate_period_ms of
        Inl err \<Rightarrow> Inl err
      | Inr period \<Rightarrow>
          (case declare_positive_ms ''stale_timeout_ms'' stale_timeout_ms of
             Inl err \<Rightarrow> Inl err
           | Inr stale \<Rightarrow> map_sum id (Pair period) (aggregator_new stale)))"

definition monitor_main :: "int \<Rightarrow> int \<Rightarrow> string option \<Rightarrow> int" where
  "monitor_main aggregate_period_ms stale_timeout_ms spin_error =
     node_main (monitor_construct aggregate_period_ms stale_timeout_ms) spin_error"

text \<open>The store is opened before the recorder's thread starts; \<open>history_node_new\<close> is what follows.\<close>

definition history_construct :: "open_env \<Rightarrow> sql_file \<Rightarrow> (string + history_node) \<times> sql_file" where
  "history_construct e f =
     (case store_open e f of
        (_, Some err, f') \<Rightarrow> (Inl err, f')
      | (_, None, f') \<Rightarrow> (Inr history_node_new, f'))"

definition history_main :: "open_env \<Rightarrow> sql_file \<Rightarrow> string option \<Rightarrow> int \<times> sql_file" where
  "history_main e f spin_error =
     (case history_construct e f of (node, f') \<Rightarrow> (node_main node spin_error, f'))"

section \<open>What the programs leave behind\<close>

lemma node_main_codes:
  "node_main c x \<in> {0, 1}" "node_main c x = 0 \<longleftrightarrow> (\<exists>n. c = Inr n) \<and> x = None"
  by (cases c; simp add: node_main_def exit_of_def)+

lemma open_filtered_ok:
  assumes "open_filtered fe fid os interface socket_init = (r, s)"
  shows "fd_inv s \<and> (r = Inr () \<longrightarrow> is_open s \<and> co_setsockopt os fid CAN_SFF_MASK = Inr ())"
proof -
  obtain r1 s1 where o: "sock_open (co_open os) interface socket_init = (r1, s1)" by fastforce
  from sock_open_no_leak [OF fd_inv_init, of "co_open os" interface] o
  have "fd_inv s1" "is_open s1 \<longleftrightarrow> r1 = Inr ()" by simp_all
  with assms o show ?thesis
    by (auto simp: open_filtered_def set_filter_def split: sum.splits)
qed

text \<open>The descriptors still open, by the trace of \<open>socket\<close> and \<open>close\<close>.\<close>

definition descriptors :: "socket_can \<Rightarrow> int list" where
  "descriptors s = open_fds (rev (fd_trace s))"

lemma closed_leaves_none: "fd_inv s \<Longrightarrow> descriptors (sock_close s) = []"
  using fd_inv_close [of s] close_not_open [of s] by (simp add: fd_inv_def descriptors_def is_open_def)

lemma open_holds_one: "fd_inv s \<Longrightarrow> is_open s \<Longrightarrow> descriptors s = [socket_fd s]"
  by (simp add: fd_inv_def descriptors_def is_open_def)

lemma construct_socket:
  "bridge_construct mt p st dp log os interface = (node, s) \<Longrightarrow>
     fd_inv s \<and> (\<forall>cfg. node = Inr cfg \<longrightarrow> is_open s \<and> co_setsockopt os kResponseFrameId CAN_SFF_MASK = Inr ())"
  "device_construct i m d c os interface = (dev, s) \<Longrightarrow>
     fd_inv s \<and> (\<forall>v. dev = Inr v \<longrightarrow> is_open s \<and> co_setsockopt os kCommandFrameId CAN_SFF_MASK = Inr () \<and> device_inv v)"
  using fd_inv_init
  by (auto simp: bridge_construct_def device_construct_def device_inv_new
      split: sum.splits prod.splits dest!: open_filtered_ok)

lemma monitor_construct_iff:
  "(\<exists>a. monitor_construct p s = Inr (q, a)) \<longleftrightarrow> q = p \<and> 0 < p \<and> p \<le> 60000 \<and> 0 < s \<and> s \<le> 60000"
  by (auto simp: monitor_construct_def declare_positive_ms_def aggregator_new_def)

section \<open>Property\<close>

text \<open>C38. Whichever parameters, system calls and callbacks fail, the programs of bridge and virtual device
  end with code 0 or 1, with 0 exactly when the node was constructed and no callback threw, and
  leave no CAN descriptor open. A node that was spun held exactly one, bound and filtered to the
  frames it is to receive: responses for the bridge, commands for the device.
\<close>

theorem can_programs_leave_no_descriptor:
  assumes "bridge_construct max_timeout poll stop_timeout period stage_log os interface = (node, s)"
    and "device_bridge_main (node, s) bridge_error = (bridge_code, bridge_log, s')"
    and "device_construct device_id mode delay_ms capacity os' interface' = (dev, t)"
    and "virtual_device_main (dev, t) device_error = (device_code, device_log, t')"
  shows "descriptors s' = [] \<and> descriptors t' = [] \<and> {bridge_code, device_code} \<subseteq> {0, 1} \<and>
    (bridge_code = 0 \<longleftrightarrow> NodeSpun \<in> set bridge_log \<and> bridge_error = None) \<and>
    (device_code = 0 \<longleftrightarrow> NodeSpun \<in> set device_log \<and> device_error = None) \<and>
    (NodeSpun \<in> set bridge_log \<longrightarrow> descriptors s = [socket_fd s] \<and>
       co_setsockopt os kResponseFrameId CAN_SFF_MASK = Inr ()) \<and>
    (NodeSpun \<in> set device_log \<longrightarrow> descriptors t = [socket_fd t] \<and>
       co_setsockopt os' kCommandFrameId CAN_SFF_MASK = Inr ())"
proof -
  note s = construct_socket(1) [OF assms(1)] and t = construct_socket(2) [OF assms(3)]
  have "descriptors s' = [] \<and> bridge_code \<in> {0, 1} \<and>
      (bridge_code = 0 \<longleftrightarrow> NodeSpun \<in> set bridge_log \<and> bridge_error = None) \<and>
      (NodeSpun \<in> set bridge_log \<longrightarrow> (\<exists>cfg. node = Inr cfg))"
    using assms(2) s node_main_codes [of node bridge_error]
    by (cases node) (auto simp: device_bridge_main_def closed_leaves_none)
  moreover have "descriptors t' = [] \<and> device_code \<in> {0, 1} \<and>
      (device_code = 0 \<longleftrightarrow> NodeSpun \<in> set device_log \<and> device_error = None) \<and>
      (NodeSpun \<in> set device_log \<longrightarrow> (\<exists>v. dev = Inr v))"
    using assms(4) t node_main_codes [of dev device_error]
    by (cases dev) (auto simp: virtual_device_main_def closed_leaves_none)
  ultimately show ?thesis using s t open_holds_one by blast
qed

text \<open>A bridge whose filter is refused, and a device that runs.\<close>

definition sample_can_os :: "bool \<Rightarrow> can_os" where
  "sample_can_os filters =
     \<lparr>co_open = \<lparr>os_socket = 3, os_ifindex = (\<lambda>_. Some 1), os_bind = (\<lambda>_. True), os_strerror = ''EINVAL''\<rparr>,
      co_setsockopt = (\<lambda>_ _. if filters then Inr () else Inl ''EINVAL'')\<rparr>"

theorem can_programs_leave_no_descriptor_witness:
  "descriptors (snd (snd (device_bridge_main
     (bridge_construct 5000 25 500 1000 False (sample_can_os False) ''vcan0'') None))) = [] \<and>
   descriptors (snd (bridge_construct 5000 25 500 1000 False (sample_can_os False) ''vcan0'')) = [3] \<and>
   descriptors (snd (device_construct ''ecu'' ''normal'' 0 16 (sample_can_os True) ''vcan0'')) = [3]"
proof -
  let ?b = "bridge_construct 5000 25 500 1000 False (sample_can_os False) ''vcan0''"
  let ?d = "device_construct ''ecu'' ''normal'' 0 16 (sample_can_os True) ''vcan0''"
  obtain node s where b: "?b = (node, s)" by fastforce
  obtain bc bl s' where bm: "device_bridge_main (node, s) None = (bc, bl, s')" by (metis prod_cases3)
  obtain dev t where d: "?d = (dev, t)" by fastforce
  obtain dc dl t' where dm: "virtual_device_main (dev, t) None = (dc, dl, t')" by (metis prod_cases3)
  have "descriptors s = [3]"
    using b by (auto simp: bridge_construct_def bridge_configure_def open_filtered_def sock_open_def
        sample_can_os_def socket_init_def sock_close_def set_filter_def descriptors_def IFNAMSIZ_def Let_def)
  moreover have "NodeSpun \<in> set dl \<and> socket_fd t = 3"
    using d dm by (auto simp: device_construct_def virtual_device_new_def is_supported_mode_def open_filtered_def
        sock_open_def sample_can_os_def socket_init_def sock_close_def set_filter_def IFNAMSIZ_def
        virtual_device_main_def Let_def)
  ultimately show ?thesis
    using can_programs_leave_no_descriptor [OF b bm d dm] by (simp add: b bm d)
qed

end
