(* ===== verification/Gateway_Runs.thy ===== *)
theory Gateway_Runs
  imports Gateway_Service
begin

text \<open>
  The gateway as a transition system: any number of submissions in flight, each at a phase,
  interleaved with callbacks, cancellations, operator decisions, history writes into the same
  database, shutdown, and restarts of the process. The theorems hold for every interleaving and
  every pattern of SQLite failures.
\<close>

section \<open>Steps\<close>

datatype submit_phase = PhEntered | PhAdmitted | PhRegistered | PhSent

record gw_run =
  gr_gateway :: gateway
  gr_inflight :: "(submit_request \<times> submit_phase) list"

text \<open>A restart keeps the database (and the logs of what was sent), nothing else.\<close>

definition gateway_restart :: "gateway \<Rightarrow> gateway" where
  "gateway_restart s =
     (gateway_init (gw_store s))\<lparr>gw_dispatched := gw_dispatched s, gw_cancels_sent := gw_cancels_sent s\<rparr>"

definition env_within :: "int \<Rightarrow> int \<Rightarrow> gw_env \<Rightarrow> bool" where
  "env_within lo hi e \<longleftrightarrow> lo \<le> ge_now e \<and> ge_now e \<le> hi \<and> lo \<le> ge_later e \<and> ge_later e \<le> hi"

definition gateway_record_task :: "(sql_call \<Rightarrow> bool) \<Rightarrow> task_record \<Rightarrow> gateway \<Rightarrow> gateway" where
  "gateway_record_task faults t s = s\<lparr>gw_store := snd (store_insert faults t (gw_store s))\<rparr>"

text \<open>Everything but the submissions: callbacks, other RPCs, shutdown, the history writer.\<close>

inductive gateway_event :: "int \<Rightarrow> int \<Rightarrow> gateway \<Rightarrow> gateway \<Rightarrow> bool" for lo hi where
  ev_goal_response: "env_within lo hi e \<Longrightarrow> gateway_event lo hi s (goal_response_callback e rid h s)"
| ev_result: "env_within lo hi e \<Longrightarrow> gateway_event lo hi s (result_callback e rid w s)"
| ev_cancel_mark: "gateway_event lo hi s (snd (cancel_mark rid record s))"
| ev_cancel_finish: "gateway_event lo hi s (snd (cancel_finish e rid h s))"
| ev_dispatch_cancel: "gateway_event lo hi s (snd (dispatch_cancel e rid hdl s))"
| ev_resolve: "env_within lo hi e \<Longrightarrow>
    gateway_event lo hi s (snd (resolve_uncertain e rid state message s))"
| ev_stop: "gateway_event lo hi s (stop_accepting s)"
| ev_cancel_active: "gateway_event lo hi s (snd (cancel_active_mark s))"
| ev_clear: "gateway_event lo hi s (gateway_clear s)"
| ev_history: "gateway_event lo hi s (gateway_record_task faults t s)"

inductive gateway_work :: "int \<Rightarrow> int \<Rightarrow> gw_run \<Rightarrow> gw_run \<Rightarrow> bool" for lo hi where
  gs_event: "gateway_event lo hi s s' \<Longrightarrow>
    gateway_work lo hi \<lparr>gr_gateway = s, gr_inflight = fl\<rparr> \<lparr>gr_gateway = s', gr_inflight = fl\<rparr>"
| gs_enter: "submit_enter e r s = (out, s') \<Longrightarrow>
    gateway_work lo hi \<lparr>gr_gateway = s, gr_inflight = fl\<rparr>
      \<lparr>gr_gateway = s', gr_inflight = (if out = None then fl @ [(r, PhEntered)] else fl)\<rparr>"
| gs_admit: "env_within lo hi e \<Longrightarrow> submit_admit e r s = (out, s') \<Longrightarrow>
    gateway_work lo hi \<lparr>gr_gateway = s, gr_inflight = xs @ (r, PhEntered) # ys\<rparr>
      \<lparr>gr_gateway = s', gr_inflight = (if out = None then xs @ (r, PhAdmitted) # ys else xs @ ys)\<rparr>"
| gs_register: "env_within lo hi e \<Longrightarrow> submit_register e r s = (out, s') \<Longrightarrow>
    gateway_work lo hi \<lparr>gr_gateway = s, gr_inflight = xs @ (r, PhAdmitted) # ys\<rparr>
      \<lparr>gr_gateway = s', gr_inflight = (if out = None then xs @ (r, PhRegistered) # ys else xs @ ys)\<rparr>"
| gs_send: "env_within lo hi e \<Longrightarrow> submit_send e r s = (out, s') \<Longrightarrow>
    gateway_work lo hi \<lparr>gr_gateway = s, gr_inflight = xs @ (r, PhRegistered) # ys\<rparr>
      \<lparr>gr_gateway = s', gr_inflight = (if out = None then xs @ (r, PhSent) # ys else xs @ ys)\<rparr>"
| gs_timeout: "gateway_work lo hi \<lparr>gr_gateway = s, gr_inflight = xs @ (r, PhSent) # ys\<rparr>
      \<lparr>gr_gateway = snd (submit_timeout e r s), gr_inflight = xs @ ys\<rparr>"
| gs_finish: "gateway_work lo hi \<lparr>gr_gateway = s, gr_inflight = xs @ (r, PhSent) # ys\<rparr>
      \<lparr>gr_gateway = s, gr_inflight = xs @ ys\<rparr>"

text \<open>The process may stop at any instant and start again.\<close>

inductive gateway_step :: "int \<Rightarrow> int \<Rightarrow> gw_run \<Rightarrow> gw_run \<Rightarrow> bool" for lo hi where
  gs_work: "gateway_work lo hi s s' \<Longrightarrow> gateway_step lo hi s s'"
| gs_restart: "gateway_step lo hi \<lparr>gr_gateway = s, gr_inflight = fl\<rparr>
      \<lparr>gr_gateway = gateway_restart s, gr_inflight = []\<rparr>"

inductive gateway_reachable :: "int \<Rightarrow> int \<Rightarrow> database \<Rightarrow> gw_run \<Rightarrow> bool" for lo hi db where
  gr_init: "gateway_reachable lo hi db \<lparr>gr_gateway = gateway_init db, gr_inflight = []\<rparr>"
| gr_step: "gateway_reachable lo hi db s \<Longrightarrow> gateway_step lo hi s s' \<Longrightarrow> gateway_reachable lo hi db s'"

inductive_cases gateway_eventE: "gateway_event lo hi s s'"
inductive_cases gateway_workE: "gateway_work lo hi s s'"
inductive_cases gateway_stepE: "gateway_step lo hi s s'"

section \<open>Frame lemmas\<close>

lemma gw_frames [ops]:
  "gw_store (gw_update rid st oc c m s) = gw_store s"
  "gw_store (gw_erase_request rid s) = gw_store s"
  "gw_store (gw_set_goal rid f s) = gw_store s"
  "gw_store (gw_erase_goal rid s) = gw_store s"
  "gw_dispatched (gw_update rid st oc c m s) = gw_dispatched s"
  "gw_dispatched (gw_erase_request rid s) = gw_dispatched s"
  "gw_dispatched (gw_set_goal rid f s) = gw_dispatched s"
  "gw_dispatched (gw_erase_goal rid s) = gw_dispatched s"
  "gw_dispatched (gw_complete le r st oc c m now s) = gw_dispatched s"
  "gw_dispatched (gw_reject e r st c m s) = gw_dispatched s"
  by (simp_all add: gw_update_def gw_erase_request_def gw_set_goal_def gw_erase_goal_def
      gw_complete_def gw_reject_def)

lemma dispatch_cancel_frames [ops]:
  "gw_store (snd (dispatch_cancel e rid h s)) = gw_store s"
  "gw_dispatched (snd (dispatch_cancel e rid h s)) = gw_dispatched s"
  by (simp_all add: dispatch_cancel_def Let_def ops split: option.split)

lemma cancel_mark_frames [ops]:
  "gw_store (snd (cancel_mark rid record s)) = gw_store s"
  "gw_dispatched (snd (cancel_mark rid record s)) = gw_dispatched s"
  by (simp_all add: cancel_mark_def ops split: option.split)

lemma cancel_finish_state:
  "snd (cancel_finish e rid hdl s) =
     (case hdl of None \<Rightarrow> s | Some h \<Rightarrow> snd (dispatch_cancel e rid h s))"
  by (simp add: cancel_finish_def split: option.split prod.split bool.split)

lemma cancel_finish_frames [ops]:
  "gw_store (snd (cancel_finish e rid hdl s)) = gw_store s"
  "gw_dispatched (snd (cancel_finish e rid hdl s)) = gw_dispatched s"
  by (simp_all add: cancel_finish_state ops split: option.split)

lemma cancel_active_mark_frames [ops]:
  "gw_store (snd (cancel_active_mark s)) = gw_store s"
  "gw_dispatched (snd (cancel_active_mark s)) = gw_dispatched s"
proof -
  have "gw_store (fold (\<lambda>rid. gw_update rid a b c d) rids t) = gw_store t \<and>
    gw_dispatched (fold (\<lambda>rid. gw_update rid a b c d) rids t) = gw_dispatched t" for a b c d rids t
    by (induction rids arbitrary: t) (simp_all add: ops)
  then show "gw_store (snd (cancel_active_mark s)) = gw_store s"
    "gw_dispatched (snd (cancel_active_mark s)) = gw_dispatched s"
    by (simp_all add: cancel_active_mark_def Let_def)
qed

lemma submit_timeout_frames [ops]:
  "gw_store (snd (submit_timeout e r s)) = gw_store s"
  "gw_dispatched (snd (submit_timeout e r s)) = gw_dispatched s"
  by (simp_all add: submit_timeout_def Let_def ops split: option.split)

lemma submit_enter_frames:
  "submit_enter e r s = (out, s') \<Longrightarrow> gw_store s' = gw_store s \<and> gw_dispatched s' = gw_dispatched s"
  by (auto simp: submit_enter_def Let_def
      split: if_splits prod.splits insert_result.splits sum.splits option.splits)

section \<open>What the steps do to the ledger\<close>

text \<open>
  \<open>ledger_keeps lo\<close>: the primary keys stay intact and no row written since \<open>lo\<close> is lost.
\<close>

definition ledger_keeps :: "int \<Rightarrow> database \<Rightarrow> database \<Rightarrow> bool" where
  "ledger_keeps lo db db' \<longleftrightarrow> (db_inv db \<longrightarrow> db_inv db' \<and>
     (\<forall>rid q. find_request rid db = Some q \<and> lo \<le> ir_updated_at_ns q \<longrightarrow>
        (\<exists>q'. find_request rid db' = Some q' \<and> lo \<le> ir_updated_at_ns q')))"

lemma ledger_keeps_refl [simp]: "ledger_keeps lo db db"
  by (simp add: ledger_keeps_def)

lemma ledger_keeps_trans: "ledger_keeps lo a b \<Longrightarrow> ledger_keeps lo b c \<Longrightarrow> ledger_keeps lo a c"
  unfolding ledger_keeps_def by blast

lemma ledger_keeps_steps:
  "(sql_step lo hi)\<^sup>*\<^sup>* db db' \<Longrightarrow> hi \<le> lo + kRetryHorizonNs \<Longrightarrow> ledger_keeps lo db db'"
  unfolding ledger_keeps_def using sql_ledger.steps_keep_row sql_steps_inv by blast

lemma ledger_keeps_insert: "ledger_keeps lo db (snd (store_insert faults t db))"
proof -
  have "find_request rid (snd (store_insert faults t db)) = find_request rid db" for rid
    by (simp add: store_insert_def find_request_def split: option.split)
  then show ?thesis by (simp add: ledger_keeps_def store_insert_inv)
qed

lemma gw_complete_keeps:
  "lo \<le> now \<Longrightarrow> now \<le> hi \<Longrightarrow> hi \<le> lo + kRetryHorizonNs \<Longrightarrow>
     ledger_keeps lo (gw_store s) (gw_store (gw_complete le r st oc c m now s))"
  by (simp add: gw_complete_def ledger_keeps_steps [OF complete_step])

lemma gw_reject_keeps:
  assumes "env_within lo hi e" and "hi \<le> lo + kRetryHorizonNs"
  shows "ledger_keeps lo (gw_store s) (gw_store (gw_reject e r st c m s))"
  using gw_complete_keeps [of lo "ge_later e" hi "gw_update (rq_request_id r) st 0 c m s"] assms
  by (simp add: gw_reject_def env_within_def ops)

lemma gateway_event_keeps:
  assumes "gateway_event lo hi s s'" and "hi \<le> lo + kRetryHorizonNs"
  shows "ledger_keeps lo (gw_store s) (gw_store s') \<and> gw_dispatched s' = gw_dispatched s"
  using assms(1)
proof cases
  case (ev_goal_response e rid h)
  show ?thesis
  proof (cases h)
    case None
    have "ledger_keeps lo (gw_store s) (gw_store (gw_complete (ge_ledger e) p ''REJECTED'' 0 400
        ''goal rejected'' (ge_now e) (gw_erase_goal rid s)))" for p
      using gw_complete_keeps [of lo "ge_now e" hi "gw_erase_goal rid s"] ev_goal_response(2) assms(2)
      by (simp add: env_within_def ops)
    then show ?thesis
      by (simp add: ev_goal_response(1) goal_response_callback_def None Let_def ops split: option.split)
  next
    case (Some hdl)
    then show ?thesis
      by (simp add: ev_goal_response(1) goal_response_callback_def Let_def ops split: option.split)
  qed
next
  case (ev_result e rid w)
  have "ledger_keeps lo (gw_store s) (gw_store (gw_complete (ge_ledger e) p st oc c m (ge_now e)
      (gw_erase_goal rid (gw_update rid st oc c m s))))" for p st oc c m
    using gw_complete_keeps [of lo "ge_now e" hi "gw_erase_goal rid (gw_update rid st oc c m s)"]
      ev_result(2) assms(2) by (simp add: env_within_def ops)
  then show ?thesis
    by (simp add: ev_result(1) result_callback_def Let_def ops split: option.split prod.split)
next
  case (ev_resolve e rid state message)
  have "ledger_keeps lo (gw_store s) (snd (durable_resolve le rid fp st oc m (ge_now e) (gw_store s)))"
    for le fp st oc m
    using ev_resolve(2) assms(2)
    by (intro ledger_keeps_steps [OF resolve_step]) (auto simp: env_within_def)
  then have "ledger_keeps lo (gw_store s) (gw_store (snd (gw_resolve e rid state message s))) \<and>
      gw_dispatched (snd (gw_resolve e rid state message s)) = gw_dispatched s"
    by (simp add: gw_resolve_def Let_def ops split: sum.split option.split prod.split) (metis snd_conv)
  then show ?thesis
    by (simp add: ev_resolve(1) resolve_uncertain_def Let_def split: prod.split) auto
next
  case (ev_history faults t)
  then show ?thesis by (simp add: gateway_record_task_def ledger_keeps_insert)
qed (simp_all add: ops stop_accepting_def gateway_clear_def)

text \<open>Phase 2 goes on only with a fresh row of its own.\<close>

lemma submit_admit_effect:
  assumes "submit_admit e r s = (out, s')" and "env_within lo hi e" and "hi \<le> lo + kRetryHorizonNs"
  shows "ledger_keeps lo (gw_store s) (gw_store s') \<and> gw_dispatched s' = gw_dispatched s \<and>
    (out = None \<longrightarrow> find_request (sr_request_id r) (gw_store s) = None \<and>
       (\<exists>q. find_request (sr_request_id r) (gw_store s') = Some q \<and> lo \<le> ir_updated_at_ns q))"
proof -
  obtain a db where ad: "durable_admit (ge_ledger e) kLedgerCapacity (initial_record r) (ge_now e)
      (gw_store s) = (a, db)" by fastforce
  have rid: "rq_request_id (initial_record r) = sr_request_id r" by (simp add: initial_record_def)
  have keep: "ledger_keeps lo (gw_store s) db"
    using ledger_keeps_steps [OF admit_step [of lo "ge_now e" hi "gw_store s" "ge_ledger e"
        kLedgerCapacity "initial_record r"]] assms(2,3) ad
    by (simp add: env_within_def)
  have rej: "ledger_keeps lo (gw_store s) (gw_store (gw_reject e p st c m (s\<lparr>gw_store := db\<rparr>)))"
    for p st c m
    using ledger_keeps_trans [OF keep] gw_reject_keeps [OF assms(2,3), of "s\<lparr>gw_store := db\<rparr>"]
    by simp
  have fresh: "find_request (sr_request_id r) (gw_store s) = None \<and>
      (\<exists>q. find_request (sr_request_id r) db = Some q \<and> lo \<le> ir_updated_at_ns q)"
    if "io_decision a = PROCEED"
    using admit_proceed [OF ad that] assms(2) by (auto simp: rid env_within_def)
  show ?thesis
  proof (cases "store_get (ge_task_get e) (sr_task_id r) (gw_store s)")
    case (Inl err)
    then show ?thesis using assms(1) by (auto simp: submit_admit_def Let_def ops)
  next
    case (Inr stored)
    show ?thesis
    proof (cases stored)
      case (Some t)
      then show ?thesis using assms(1) Inr by (auto simp: submit_admit_def Let_def ops)
    next
      case None
      then show ?thesis
        using assms(1) Inr keep rej fresh
        by (cases "io_decision a")
          (auto simp: submit_admit_def Let_def ops ad split: if_splits)
    qed
  qed
qed

lemma submit_register_effect:
  assumes "submit_register e r s = (out, s')" and "env_within lo hi e" and "hi \<le> lo + kRetryHorizonNs"
  shows "ledger_keeps lo (gw_store s) (gw_store s') \<and> gw_dispatched s' = gw_dispatched s"
  using assms(1) gw_reject_keeps [OF assms(2,3)]
  by (auto simp: submit_register_def ops split: if_splits)

lemma submit_send_effect:
  assumes "submit_send e r s = (out, s')" and "env_within lo hi e" and "hi \<le> lo + kRetryHorizonNs"
  shows "ledger_keeps lo (gw_store s) (gw_store s') \<and> gw_dispatched s' =
    (if out = None then gw_dispatched s @ [(sr_request_id r, goal_of_request r)] else gw_dispatched s)"
  using assms gw_complete_keeps [of lo "ge_now e" hi
      "gw_update (sr_request_id r) ''REJECTED'' 0 503 _ (gw_erase_goal (sr_request_id r) s)"]
  by (auto simp: submit_send_def Let_def ops env_within_def split: option.splits)

section \<open>The invariant\<close>

text \<open>The requests that may still be, or already were, dispatched: each holds a ledger row.\<close>

fun holds_claim :: "submit_request \<times> submit_phase \<Rightarrow> bool" where
  "holds_claim (r, ph) \<longleftrightarrow> ph = PhAdmitted \<or> ph = PhRegistered"

definition claimed_ids :: "(submit_request \<times> submit_phase) list \<Rightarrow> string list" where
  "claimed_ids fl = map (sr_request_id \<circ> fst) (filter holds_claim fl)"

lemma claimed_ids_simps [simp]:
  "claimed_ids [] = []"
  "claimed_ids (x # fl) = (if holds_claim x then [sr_request_id (fst x)] else []) @ claimed_ids fl"
  "claimed_ids (xs @ ys) = claimed_ids xs @ claimed_ids ys"
  by (simp_all add: claimed_ids_def)

definition held_ids :: "gw_run \<Rightarrow> string list" where
  "held_ids s = claimed_ids (gr_inflight s) @ map fst (gw_dispatched (gr_gateway s))"

definition claim_inv :: "int \<Rightarrow> gw_run \<Rightarrow> bool" where
  "claim_inv lo s \<longleftrightarrow> db_inv (gw_store (gr_gateway s)) \<and> distinct (held_ids s) \<and>
     (\<forall>rid \<in> set (held_ids s). \<exists>q. find_request rid (gw_store (gr_gateway s)) = Some q \<and>
        lo \<le> ir_updated_at_ns q)"

text \<open>A step that keeps the ledger and holds no more than before keeps the invariant.\<close>

lemma claim_inv_keeps:
  assumes "claim_inv lo s" and "ledger_keeps lo (gw_store (gr_gateway s)) (gw_store (gr_gateway s'))"
    and "distinct (held_ids s')" and "set (held_ids s') \<subseteq> set (held_ids s)"
  shows "claim_inv lo s'"
  using assms unfolding claim_inv_def ledger_keeps_def by blast

lemma claim_inv_work:
  assumes "claim_inv lo s" and "gateway_work lo hi s s'" and hi: "hi \<le> lo + kRetryHorizonNs"
  shows "claim_inv lo s'"
  using assms(2)
proof cases
  case (gs_event s1 s2 fl)
  from gateway_event_keeps [OF this(3) hi] show ?thesis
    by (intro claim_inv_keeps [OF assms(1)]) (use assms(1) gs_event in \<open>auto simp: held_ids_def claim_inv_def\<close>)
next
  case (gs_enter e r s1 out s2 fl)
  from submit_enter_frames [OF this(3)] show ?thesis
    by (intro claim_inv_keeps [OF assms(1)]) (use assms(1) gs_enter in \<open>auto simp: held_ids_def claim_inv_def\<close>)
next
  case (gs_admit e r s1 out s2 xs ys)
  note eff = submit_admit_effect [OF gs_admit(4,3) hi]
  show ?thesis
  proof (cases out)
    case None
    then have new: "sr_request_id r \<notin> set (held_ids s)"
      using eff assms(1) gs_admit(1) by (fastforce simp: claim_inv_def)
    have held: "held_ids s' = claimed_ids xs @ sr_request_id r # claimed_ids ys @ map fst (gw_dispatched s1)"
      using gs_admit None eff by (simp add: held_ids_def)
    have old: "held_ids s = claimed_ids xs @ claimed_ids ys @ map fst (gw_dispatched s1)"
      using gs_admit by (simp add: held_ids_def)
    have "\<exists>q. find_request rid (gw_store s2) = Some q \<and> lo \<le> ir_updated_at_ns q"
      if "rid \<in> set (held_ids s')" for rid
      using that held old None eff assms(1) gs_admit(1) unfolding claim_inv_def ledger_keeps_def
      by (cases "rid = sr_request_id r") auto
    moreover have "distinct (held_ids s')" using assms(1) new held old by (auto simp: claim_inv_def)
    moreover have "db_inv (gw_store s2)"
      using assms(1) eff gs_admit(1) by (simp add: claim_inv_def ledger_keeps_def)
    ultimately show ?thesis using gs_admit(2) by (simp add: claim_inv_def)
  next
    case (Some reply)
    with eff show ?thesis
      by (intro claim_inv_keeps [OF assms(1)]) (use assms(1) gs_admit in \<open>auto simp: held_ids_def claim_inv_def\<close>)
  qed
next
  case (gs_register e r s1 out s2 xs ys)
  from submit_register_effect [OF gs_register(4,3) hi] show ?thesis
    by (intro claim_inv_keeps [OF assms(1)]) (use assms(1) gs_register in \<open>auto simp: held_ids_def claim_inv_def\<close>)
next
  case (gs_send e r s1 out s2 xs ys)
  from submit_send_effect [OF gs_send(4,3) hi] show ?thesis
    by (intro claim_inv_keeps [OF assms(1)]) (use assms(1) gs_send in \<open>auto simp: held_ids_def claim_inv_def\<close>)
next
  case (gs_timeout s1 xs r ys e)
  then show ?thesis
    by (intro claim_inv_keeps [OF assms(1)]) (use assms(1) in \<open>auto simp: held_ids_def claim_inv_def ops\<close>)
next
  case (gs_finish s1 xs r ys)
  then show ?thesis
    by (intro claim_inv_keeps [OF assms(1)]) (use assms(1) in \<open>auto simp: held_ids_def claim_inv_def\<close>)
qed

lemma claim_inv_step:
  assumes "claim_inv lo s" and "gateway_step lo hi s s'" and "hi \<le> lo + kRetryHorizonNs"
  shows "claim_inv lo s'"
  using assms(2)
proof cases
  case gs_work
  then show ?thesis using claim_inv_work assms by blast
next
  case (gs_restart s1 fl)
  then show ?thesis
    by (intro claim_inv_keeps [OF assms(1)])
      (use assms(1) in \<open>auto simp: held_ids_def claim_inv_def gateway_restart_def gateway_init_def\<close>)
qed

lemma claim_inv_reachable:
  "gateway_reachable lo hi db s \<Longrightarrow> db_inv db \<Longrightarrow> hi \<le> lo + kRetryHorizonNs \<Longrightarrow> claim_inv lo s"
proof (induction rule: gateway_reachable.induct)
  case gr_init
  then show ?case by (simp add: claim_inv_def held_ids_def gateway_init_def)
next
  case (gr_step s s')
  then show ?case by (blast intro: claim_inv_step)
qed

section \<open>Properties\<close>

definition example_submit :: submit_request where
  "example_submit = \<lparr>sr_request_id = ''r1'', sr_workflow_id = ''single_task'',
     sr_task_id = ''t1'', sr_target_id = ''a'', sr_timeout_ms = 1500\<rparr>"

definition example_gw_env :: gw_env where
  "example_gw_env = \<lparr>ge_ledger = sound_ledger, ge_ledger_later = sound_ledger,
     ge_task_get = None, ge_stats = None, ge_now = 5, ge_later = 6, ge_server_ready = True,
     ge_send = None, ge_cancel = None\<rparr>"

text \<open>The example submission, phase by phase, on a fresh gateway.\<close>

lemmas gateway_eval = submit_enter_def submit_admit_def submit_register_def submit_send_def
  valid_request_def allowed_workflow_def max_duration_ms_def registry_insert_def registry_add_def
  get_by_request_id_def store_get_def find_task_def durable_admit_def durable_claim_def
  store_get_idempotency_def store_prune_idempotency_def store_count_idempotency_def
  store_put_idempotency_def find_request_def kLedgerCapacity_def kRegistryCapacity_def
  gw_goal_def initial_record_def gateway_init_def empty_database_def sound_ledger_def

lemma example_submission:
  obtains s g where "gateway_reachable 0 10 empty_database s"
    and "map fst (gw_dispatched (gr_gateway s)) = [''r1'']"
    and "gw_goal ''r1'' (gr_gateway s) = Some g" "\<not> pg_cancel_dispatched g"
    and "gw_cancels_sent (gr_gateway s) = []"
proof -
  let ?e = example_gw_env and ?r = example_submit
  have env: "env_within 0 10 ?e" by (simp add: env_within_def example_gw_env_def)
  let ?s0 = "gateway_init empty_database"
  let ?s1 = "snd (submit_enter ?e ?r ?s0)" 
  let ?s2 = "snd (submit_admit ?e ?r ?s1)"
  let ?s3 = "snd (submit_register ?e ?r ?s2)"
  let ?s4 = "snd (submit_send ?e ?r ?s3)"
  note simps = gateway_eval example_gw_env_def example_submit_def Let_def
  have 1: "submit_enter ?e ?r ?s0 = (None, ?s1)" by (simp add: simps)
  have 2: "submit_admit ?e ?r ?s1 = (None, ?s2)" by (simp add: simps)
  have 3: "submit_register ?e ?r ?s2 = (None, ?s3)" by (simp add: simps)
  have 4: "submit_send ?e ?r ?s3 = (None, ?s4)" by (simp add: simps)
  have "gateway_reachable 0 10 empty_database \<lparr>gr_gateway = ?s1, gr_inflight = [(?r, PhEntered)]\<rparr>"
    using gr_step [OF gr_init gs_work [OF gs_enter [OF 1, of _ _ "[]"]]] by simp
  then have "gateway_reachable 0 10 empty_database \<lparr>gr_gateway = ?s2, gr_inflight = [(?r, PhAdmitted)]\<rparr>"
    using gr_step [OF _ gs_work [OF gs_admit [OF env 2, of "[]" "[]"]]] by simp
  then have "gateway_reachable 0 10 empty_database \<lparr>gr_gateway = ?s3, gr_inflight = [(?r, PhRegistered)]\<rparr>"
    using gr_step [OF _ gs_work [OF gs_register [OF env 3, of "[]" "[]"]]] by simp
  then have reach: "gateway_reachable 0 10 empty_database
      \<lparr>gr_gateway = ?s4, gr_inflight = [(?r, PhSent)]\<rparr>"
    using gr_step [OF _ gs_work [OF gs_send [OF env 4, of "[]" "[]"]]] by simp
  show thesis by (rule that [OF reach]) (simp_all add: simps)+
qed



text \<open>Every goal a submission sends carries the timeout it was submitted with, exactly: the
  duration's fields stand for \<open>timeout_ms\<close> milliseconds, the seconds are not negative and the
  nanoseconds below one second, for every timeout the gateway accepts.\<close>

theorem dispatched_duration_is_requested_timeout:
  assumes "valid_request r"
  shows "let d = wg_allowed_duration (goal_of_request r) in
    sint (dur_sec d) * 1000000000 + uint (dur_nanosec d) = uint (sr_timeout_ms r) * 1000000 \<and>
    0 \<le> sint (dur_sec d) \<and> uint (dur_nanosec d) < 1000000000"
proof -
  define t where "t = uint (sr_timeout_ms r)"
  have t: "0 \<le> t" "t \<le> 2147483647999"
    using assms by (simp_all add: t_def valid_request_def max_duration_ms_def word_le_def)
  then have q: "0 \<le> t div 1000" "t div 1000 \<le> 2147483647" by auto
  have m: "0 \<le> t mod 1000" "t mod 1000 < 1000" by simp_all
  have sec: "dur_sec (wg_allowed_duration (goal_of_request r)) = word_of_int (t div 1000)"
  proof -
    have "(ucast (sr_timeout_ms r div 1000) :: i32) = word_of_int (uint (sr_timeout_ms r div 1000))"
      by (rule ucast_eq)
    also have "uint (sr_timeout_ms r div 1000) = t div 1000" by (simp add: uint_div t_def)
    finally show ?thesis by (simp add: goal_of_request_def)
  qed
  have r: "uint (sr_timeout_ms r mod 1000) = t mod 1000"
    by (simp add: uint_mod t_def)
  have "uint (sr_timeout_ms r mod 1000 * 1000000) = (t mod 1000 * 1000000) mod 2 ^ 64"
    by (simp add: uint_word_ariths r)
  then have "uint (sr_timeout_ms r mod 1000 * 1000000) = t mod 1000 * 1000000"
    using m by simp
  then have nano: "dur_nanosec (wg_allowed_duration (goal_of_request r)) = word_of_int (t mod 1000 * 1000000)"
  proof -
    assume nano: "uint (sr_timeout_ms r mod 1000 * 1000000) = t mod 1000 * 1000000"
    have "(ucast (sr_timeout_ms r mod 1000 * 1000000) :: u32) =
        word_of_int (uint (sr_timeout_ms r mod 1000 * 1000000))"
      by (rule ucast_eq)
    with nano show ?thesis by (simp add: goal_of_request_def)
  qed
  have "t div 1000 * 1000000000 + t mod 1000 * 1000000 = t * 1000000"
    using div_mult_mod_eq [of t 1000] by linarith
  moreover have "sint (word_of_int (t div 1000) :: i32) = t div 1000" using q by simp
  moreover have "uint (word_of_int (t mod 1000 * 1000000) :: u32) = t mod 1000 * 1000000"
    by (rule uint_u32_of_int) (use m in simp_all)
  ultimately show ?thesis
    unfolding Let_def sec nano t_def [symmetric] using q(1) m by simp
qed

theorem dispatched_duration_is_requested_timeout_witness:
  "let d = wg_allowed_duration (goal_of_request example_submit) in
    sint (dur_sec d) * 1000000000 + uint (dur_nanosec d) = uint (sr_timeout_ms example_submit) * 1000000 \<and>
    0 \<le> sint (dur_sec d) \<and> uint (dur_nanosec d) < 1000000000"
  by (rule dispatched_duration_is_requested_timeout)
    (simp add: valid_request_def example_submit_def max_duration_ms_def)

text \<open>
  What a gateway after a restart answers to a retry: the state is fresh apart from the database
  and the reservation that phase 1 made.
\<close>

lemma gw_record_update:
  "gw_record k (gw_update rid st oc c m s) =
     (if k = rid then map_option (set_terminal st oc c m) (gw_record rid s) else gw_record k s)"
  by (simp add: gw_record_def gw_update_def ops)





definition example_goal_state :: gateway where
  "example_goal_state = (gateway_init empty_database)\<lparr>gw_goals := [(''r1'',
     \<lparr>pg_handle = Some 1, pg_payload = initial_record example_submit, pg_pending = False,
      pg_cancel_requested = False, pg_cancel_dispatched = False, pg_cancel_failed = False\<rparr>)]\<rparr>"

text \<open>The verdict of \<open>cancel_active\<close> has no error exactly when no goal is left.\<close>

lemma cancel_active_verdict_none:
  "cancel_active_verdict s = None \<longleftrightarrow> gw_goals s = []"
proof (cases "gw_goals s")
  case Nil
  then show ?thesis by (simp add: cancel_active_verdict_def goals_drained_def)
next
  case (Cons g gs)
  then show ?thesis by (cases g) (auto simp: cancel_active_verdict_def goals_drained_def)
qed

end
