(* ===== verification/Gateway_Server.thy ===== *)
theory Gateway_Server
  imports Gateway_Runs Store_Open
begin

text \<open>
  The gateway's process: \<open>loopback_server.cpp\<close>, which runs the gRPC server on a thread of its
  own, and \<open>runtime_gateway_node.cpp\<close>, which opens the database, starts the server, waits for a
  signal and shuts down. The gRPC library is the environment: whether the server could be built
  and on which port. What handlers and callbacks do meanwhile is any sequence of the
  steps of \<open>Gateway_Runs\<close>.
\<close>

section \<open>The loopback server\<close>

text \<open>
  \<open>sv_thread\<close>: the thread is joinable; \<open>sv_serving\<close>: \<open>server_\<close> holds a server, on
  which the thread waits until somebody shuts it down.
\<close>

record server =
  sv_port :: int
  sv_address :: string
  sv_thread :: bool
  sv_serving :: bool
  sv_ready :: bool
  sv_error :: string

definition loopback_new :: "int \<Rightarrow> string + server" where
  "loopback_new port =
     (if port < 0 \<or> 65535 < port then Inl ''port must be between 0 and 65535''
      else Inr \<lparr>sv_port = port, sv_address = [], sv_thread = False, sv_serving = False,
                sv_ready = False, sv_error = []\<rparr>)"

text \<open>The thread up to its wait; \<open>built\<close> is the selected port, if the server could be built.\<close>

definition server_thread :: "int option \<Rightarrow> server \<Rightarrow> server" where
  "server_thread built sv =
     (case built of
        None \<Rightarrow> sv\<lparr>sv_error := ''failed to start loopback gRPC server'', sv_ready := True\<rparr>
      | Some port \<Rightarrow>
          sv\<lparr>sv_address := ''127.0.0.1:'' @ int_to_string port, sv_serving := True, sv_ready := True\<rparr>)"

text \<open>
  The caller waits until \<open>ready_\<close>. On an object that was started before, \<open>ready_\<close> still holds,
  and the caller may look before the new thread has run (\<open>thread_first\<close> is false). The outer
  \<open>None\<close> is a caller that joins a thread which serves and so never ends; the inner option is the
  exception.
\<close>

definition server_start ::
  "int option \<Rightarrow> bool \<Rightarrow> server \<Rightarrow> (string option \<times> server) option" where
  "server_start built thread_first sv =
     (if sv_thread sv then Some (None, sv)
      else
        let sv1 = sv\<lparr>sv_thread := True\<rparr>;
            seen = (if \<not> sv_ready sv1 \<or> thread_first then server_thread built sv1 else sv1);
            sv2 = server_thread built sv1
        in if sv_error seen = [] then Some (None, sv2)
           else if sv_serving sv2 then None
           else Some (Some (sv_error seen), sv2\<lparr>sv_thread := False\<rparr>))"

definition on_gateway :: "(gateway \<Rightarrow> gateway) \<Rightarrow> gw_run \<Rightarrow> gw_run" where
  "on_gateway f r = r\<lparr>gr_gateway := f (gr_gateway r)\<rparr>"

text \<open>
  \<open>cancel_active\<close>: \<open>gap n\<close> is what handlers and callbacks do between the \<open>n\<close>-th two critical
  sections; the last gap before the verdict is the wait of at most five seconds.
\<close>

definition cancel_active_run ::
  "gw_env \<Rightarrow> (nat \<Rightarrow> gw_run \<Rightarrow> gw_run) \<Rightarrow> gw_run \<Rightarrow> string option \<times> gw_run" where
  "cancel_active_run e gap r =
     (let handles = fst (cancel_active_mark (gr_gateway r));
          r1 = gap 1 (on_gateway (\<lambda>s. snd (cancel_active_mark s)) r);
          r2 = fold (\<lambda>(n, rid, h) r. gap (n + 3) (on_gateway (\<lambda>s. snd (dispatch_cancel e rid h s)) r))
                 (enumerate 0 handles) r1;
          r3 = gap 2 r2
      in (cancel_active_verdict (gr_gateway r3), r3))"

text \<open>
  Shutting the gRPC server down ends the thread's wait, so the join returns; the error of
  \<open>cancel_active\<close> is rethrown after everything is released. The destructor does the same
  and drops the error.
\<close>

definition server_shutdown ::
  "gw_env \<Rightarrow> (nat \<Rightarrow> gw_run \<Rightarrow> gw_run) \<Rightarrow> server \<Rightarrow> gw_run \<Rightarrow> string option \<times> server \<times> gw_run" where
  "server_shutdown e gap sv r =
     (if \<not> sv_thread sv then (None, sv, r)
      else
        let (err, r1) = cancel_active_run e (\<lambda>n. gap (n + 2)) (gap 0 (on_gateway stop_accepting r));
            r2 = on_gateway gateway_clear (gap 1 r1)
        in (err, sv\<lparr>sv_thread := False, sv_serving := False\<rparr>, r2))"

section \<open>The process\<close>

text \<open>The parameters \<open>main\<close> accepts.\<close>

definition gateway_parameters_ok :: "int \<Rightarrow> string \<Rightarrow> bool" where
  "gateway_parameters_ok port database_path \<longleftrightarrow>
     \<not> (port < 1 \<or> 65535 < port \<or> database_path = [])"

text \<open>
  \<open>gm_node\<close>, \<open>gm_service\<close> and \<open>gm_executor\<close> are the exceptions of constructing the node, the service,
  and the executor with its thread; \<open>gm_rows\<close> is how the store reads the file.
\<close>

record gateway_main_env =
  gm_node :: "string option"
  gm_port :: int
  gm_database_path :: string
  gm_open :: open_env
  gm_rows :: "sql_file \<Rightarrow> database"
  gm_service :: "string option"
  gm_built :: "int option"
  gm_executor :: "string option"
  gm_stop :: "nat \<Rightarrow> bool"
  gm_serve :: "gw_run \<Rightarrow> gw_run"
  gm_env :: gw_env
  gm_gap :: "nat \<Rightarrow> gw_run \<Rightarrow> gw_run"

partial_function (option) await_signal :: "(nat \<Rightarrow> bool) \<Rightarrow> nat \<Rightarrow> nat option" where
  "await_signal stop n = (if stop n then Some n else await_signal stop (Suc n))"

declare await_signal.simps [code]

text \<open>The exit code, with the server and the gateway as they are left, once they exist.\<close>

definition gateway_main ::
  "gateway_main_env \<Rightarrow> sql_file \<Rightarrow> (int \<times> (server \<times> gw_run) option) option" where
  "gateway_main p file =
     (if gm_node p \<noteq> None \<or> \<not> gateway_parameters_ok (gm_port p) (gm_database_path p)
      then Some (1, None)
      else case store_open (gm_open p) file of
        (False, _, _) \<Rightarrow> Some (1, None)
      | (True, _, opened) \<Rightarrow>
          if gm_service p \<noteq> None then Some (1, None)
          else case loopback_new (gm_port p) of
            Inl _ \<Rightarrow> Some (1, None)
          | Inr sv0 \<Rightarrow>
              let r0 = \<lparr>gr_gateway = gateway_init (gm_rows p opened), gr_inflight = []\<rparr> in
              (case server_start (gm_built p) True sv0 of
                 None \<Rightarrow> None
               | Some (Some _, sv1) \<Rightarrow> Some (1, Some (sv1, r0))
               | Some (None, sv1) \<Rightarrow>
                   let stopped = (\<lambda>r. server_shutdown (gm_env p) (gm_gap p) sv1 r) in
                   if gm_executor p \<noteq> None
                   then Some (1, Some (snd (stopped (gm_serve p r0))))
                   else map_option
                     (\<lambda>_. let (err, left) = stopped (gm_serve p r0)
                          in (if err = None then 0 else 1, Some left))
                     (await_signal (gm_stop p) 0)))"

section \<open>What is left to a stopping gateway\<close>

text \<open>The requests with a pending goal, and those whose goal was or may still be sent.\<close>

definition goal_ids :: "gateway \<Rightarrow> string set" where
  "goal_ids s = fst ` set (gw_goals s)"

definition sendable_ids :: "gw_run \<Rightarrow> string set" where
  "sendable_ids r = fst ` set (gw_dispatched (gr_gateway r)) \<union>
     sr_request_id ` fst ` {x \<in> set (gr_inflight r). snd x = PhRegistered}"

text \<open>From \<open>s\<close> to \<open>s'\<close> the gateway does not leave its shutdown, gets no goal and sends none.\<close>

definition winds_down :: "gateway \<Rightarrow> gateway \<Rightarrow> bool" where
  "winds_down s s' \<longleftrightarrow> (gw_stopping s \<longrightarrow> gw_stopping s') \<and> goal_ids s' \<subseteq> goal_ids s \<and>
     gw_dispatched s' = gw_dispatched s"

lemma winds_down_refl [simp]: "winds_down s s"
  by (simp add: winds_down_def)

lemma winds_down_trans: "winds_down a b \<Longrightarrow> winds_down b c \<Longrightarrow> winds_down a c"
  by (auto simp: winds_down_def)

lemma goal_ids_ops [simp]:
  "goal_ids (gw_update rid st oc c m s) = goal_ids s"
  "goal_ids (gw_erase_request rid s) = goal_ids s"
  "goal_ids (gw_set_goal rid f s) = goal_ids s"
  "goal_ids (gw_complete le q st oc c m now s) = goal_ids s"
  "goal_ids (gw_reject e q st c m s) = goal_ids s"
  "goal_ids (s\<lparr>gw_store := db\<rparr>) = goal_ids s"
  "goal_ids (s\<lparr>gw_registry := reg\<rparr>) = goal_ids s"
  "goal_ids (s\<lparr>gw_dispatched := d\<rparr>) = goal_ids s"
  "goal_ids (s\<lparr>gw_cancel_dispatches := n\<rparr>) = goal_ids s"
  "goal_ids (s\<lparr>gw_cancels_sent := cs\<rparr>) = goal_ids s"
  "goal_ids (s\<lparr>gw_stopping := b\<rparr>) = goal_ids s"
  "goal_ids (gw_erase_goal rid s) \<subseteq> goal_ids s"
  by (auto simp: delete_eq_filter goal_ids_def gw_update_def gw_erase_request_def gw_set_goal_def gw_complete_def
      gw_reject_def gw_erase_goal_def image_image case_prod_beta)

lemma stopping_ops [simp]:
  "gw_stopping (gw_update rid st oc c m s) = gw_stopping s"
  "gw_stopping (gw_erase_request rid s) = gw_stopping s"
  "gw_stopping (gw_set_goal rid f s) = gw_stopping s"
  "gw_stopping (gw_complete le q st oc c m now s) = gw_stopping s"
  "gw_stopping (gw_reject e q st c m s) = gw_stopping s"
  "gw_stopping (gw_erase_goal rid s) = gw_stopping s"
  by (simp_all add: gw_update_def gw_erase_request_def gw_set_goal_def gw_complete_def
      gw_reject_def gw_erase_goal_def)

lemma dispatch_cancel_winds: "winds_down s (snd (dispatch_cancel e rid h s))"
  by (simp add: winds_down_def dispatch_cancel_def Let_def ops split: option.split)

lemma cancel_active_mark_winds:
  "winds_down s (snd (cancel_active_mark s))" "gw_stopping (snd (cancel_active_mark s))"
proof -
  have fold: "goal_ids (fold (\<lambda>rid. gw_update rid a b c d) rids t) = goal_ids t \<and>
      gw_stopping (fold (\<lambda>rid. gw_update rid a b c d) rids t) = gw_stopping t" for a b c d rids t
    by (induction rids arbitrary: t) simp_all
  have "goal_ids (s\<lparr>gw_stopping := True, gw_goals := map (\<lambda>(rid, g). (rid, f g)) (gw_goals s)\<rparr>) = goal_ids s" for f
    by (auto simp: goal_ids_def image_image case_prod_beta)
  with fold show "winds_down s (snd (cancel_active_mark s))" "gw_stopping (snd (cancel_active_mark s))"
    by (simp_all add: winds_down_def ops) (simp_all add: cancel_active_mark_def Let_def)
qed

lemma gateway_event_winds:
  assumes "gateway_event lo hi s s'"
  shows "winds_down s s'"
  using assms
proof cases
  case (ev_goal_response e rid h)
  have "goal_ids (gw_erase_goal rid s) \<subseteq> goal_ids s" by simp
  moreover have "winds_down s (snd (dispatch_cancel e rid hdl (gw_update rid st oc c m (gw_set_goal rid f s))))"
    for hdl st oc c m f
    by (rule winds_down_trans [OF _ dispatch_cancel_winds]) (simp add: winds_down_def ops)
  ultimately show ?thesis
    by (cases h; cases "gw_goal rid s")
      (simp_all add: ev_goal_response(1) goal_response_callback_def Let_def winds_down_def ops)
next
  case (ev_result e rid w)
  have "goal_ids (gw_erase_goal rid (gw_update rid st oc c m s)) \<subseteq> goal_ids s" for st oc c m
    by (rule order_trans [OF goal_ids_ops(12)]) simp
  then show ?thesis
    by (auto simp: ev_result(1) result_callback_def Let_def winds_down_def ops split: option.split prod.split)
next
  case (ev_cancel_mark rid r)
  then show ?thesis by (auto simp: cancel_mark_def winds_down_def ops split: option.split)
next
  case (ev_cancel_finish e rid h)
  then show ?thesis by (simp add: cancel_finish_state dispatch_cancel_winds split: option.split)
next
  case (ev_dispatch_cancel e rid h)
  then show ?thesis by (simp add: dispatch_cancel_winds)
next
  case (ev_resolve e rid state message)
  have "winds_down s (snd (gw_resolve e rid state message s))"
    by (simp add: gw_resolve_def Let_def winds_down_def ops split: sum.split option.split prod.split)
  then show ?thesis
    by (simp add: ev_resolve(1) resolve_uncertain_def Let_def split: prod.split) auto
next
  case ev_cancel_active
  then show ?thesis by (simp add: cancel_active_mark_winds)
qed (simp_all add: winds_down_def stop_accepting_def gateway_clear_def gateway_record_task_def)

text \<open>A stopping gateway refuses new submissions at once, and those under way at the registration.\<close>

lemma submit_enter_stopping:
  "gw_stopping s \<Longrightarrow> submit_enter e q s = (Some (refuse GRPC_UNAVAILABLE ''gateway is shutting down''), s)"
  by (simp add: submit_enter_def)

lemma submit_admit_winds:
  assumes "submit_admit e q s = (out, s')"
  shows "winds_down s s'"
proof -
  have "winds_down s (snd (submit_admit e q s))"
    by (simp add: submit_admit_def Let_def winds_down_def ops split: sum.split option.split prod.split
        idempotency_decision.split)
  then show ?thesis by (simp add: assms)
qed

lemma submit_register_winds:
  "submit_register e q s = (out, s') \<Longrightarrow> gw_stopping s \<Longrightarrow> out \<noteq> None \<and> winds_down s s'"
  by (auto simp: submit_register_def winds_down_def ops)

lemma submit_send_winds:
  assumes "submit_send e q s = (out, s')"
  shows "gw_stopping s' = gw_stopping s \<and> goal_ids s' \<subseteq> goal_ids s \<and>
    fst ` set (gw_dispatched s') \<subseteq> insert (sr_request_id q) (fst ` set (gw_dispatched s)) \<and>
    (out \<noteq> None \<longrightarrow> gw_dispatched s' = gw_dispatched s)"
  using assms
  by (auto simp: submit_send_def Let_def ops dest: subsetD [OF goal_ids_ops(12)] split: option.splits)

lemma sendable_ids_split:
  "sendable_ids \<lparr>gr_gateway = s, gr_inflight = xs @ (q, ph) # ys\<rparr> =
     (if ph = PhRegistered then {sr_request_id q} else {}) \<union>
     sendable_ids \<lparr>gr_gateway = s, gr_inflight = xs @ ys\<rparr>"
  by (force simp: sendable_ids_def)

lemma gateway_work_winds:
  assumes "gateway_work lo hi r r'" and "gw_stopping (gr_gateway r)"
  shows "gw_stopping (gr_gateway r') \<and> goal_ids (gr_gateway r') \<subseteq> goal_ids (gr_gateway r) \<and>
    sendable_ids r' \<subseteq> sendable_ids r"
  using assms(1)
proof cases
  case (gs_event s s' fl)
  with gateway_event_winds [OF this(3)] assms(2) show ?thesis
    by (auto simp: winds_down_def sendable_ids_def)
next
  case (gs_enter e q s out s' fl)
  with submit_enter_stopping [of s e q] assms(2) show ?thesis
    by (auto simp: sendable_ids_def)
next
  case (gs_admit e q s out s' xs ys)
  with submit_admit_winds [OF this(4)] assms(2) show ?thesis
    by (auto simp: winds_down_def sendable_ids_def split: if_splits)
next
  case (gs_register e q s out s' xs ys)
  with submit_register_winds [OF this(4)] assms(2) show ?thesis
    by (auto simp: winds_down_def sendable_ids_def)
next
  case (gs_send e q s out s' xs ys)
  have "sendable_ids \<lparr>gr_gateway = s', gr_inflight = zs\<rparr> \<subseteq>
      insert (sr_request_id q) (sendable_ids \<lparr>gr_gateway = s, gr_inflight = zs\<rparr>)" for zs
    using submit_send_winds [OF gs_send(4)] by (auto simp: sendable_ids_def)
  with submit_send_winds [OF gs_send(4)] gs_send(1,2) assms(2) show ?thesis
    by (auto simp: sendable_ids_split)
next
  case (gs_timeout s xs q ys e)
  have "winds_down s (snd (submit_timeout e q s))"
  proof -
    have "winds_down t (case h of None \<Rightarrow> t | Some h \<Rightarrow> snd (dispatch_cancel e q' h t))" for t h q'
      by (simp add: dispatch_cancel_winds split: option.split)
    moreover have "winds_down s (case gw_goal (sr_request_id q) s of None \<Rightarrow> s
        | Some g \<Rightarrow> let s' = gw_set_goal (sr_request_id q) (\<lambda>g. g\<lparr>pg_cancel_requested := True\<rparr>) s in
            if pg_cancel_requested g then s'
            else gw_update (sr_request_id q) ''TIMED_OUT'' 0 504 ''goal response exceeded 500ms'' s')"
      by (simp add: winds_down_def Let_def ops split: option.split)
    ultimately show ?thesis unfolding submit_timeout_def Let_def snd_conv
      by (blast intro: winds_down_trans)
  qed
  with gs_timeout assms(2) show ?thesis by (auto simp: winds_down_def sendable_ids_def)
next
  case (gs_finish s xs q ys)
  with assms(2) show ?thesis by (auto simp: sendable_ids_def)
qed

section \<open>The shutdown\<close>

definition run_winds :: "gw_run \<Rightarrow> gw_run \<Rightarrow> bool" where
  "run_winds r r' \<longleftrightarrow> (gw_stopping (gr_gateway r) \<longrightarrow> gw_stopping (gr_gateway r') \<and>
     goal_ids (gr_gateway r') \<subseteq> goal_ids (gr_gateway r) \<and> sendable_ids r' \<subseteq> sendable_ids r)"

text \<open>What goes on besides the shutdown is work of handlers and callbacks.\<close>

definition only_work :: "int \<Rightarrow> int \<Rightarrow> (nat \<Rightarrow> gw_run \<Rightarrow> gw_run) \<Rightarrow> bool" where
  "only_work lo hi gap \<longleftrightarrow> (\<forall>n r. (gateway_work lo hi)\<^sup>*\<^sup>* r (gap n r))"

lemma run_winds_refl [simp]: "run_winds r r"
  by (simp add: run_winds_def)

lemma run_winds_trans [trans]: "run_winds a b \<Longrightarrow> run_winds b c \<Longrightarrow> run_winds a c"
  by (auto simp: run_winds_def)

lemma gap_winds:
  assumes "only_work lo hi gap"
  shows "run_winds r (gap n r)"
proof -
  have "(gateway_work lo hi)\<^sup>*\<^sup>* r (gap n r)" using assms by (simp add: only_work_def)
  then show ?thesis
  proof induction
    case (step b c)
    with gateway_work_winds [of lo hi b c] have "run_winds b c" by (auto simp: run_winds_def)
    with step show ?case by (blast intro: run_winds_trans)
  qed simp
qed

lemma on_gateway_winds: "winds_down (gr_gateway r) (f (gr_gateway r)) \<Longrightarrow> run_winds r (on_gateway f r)"
  by (auto simp: run_winds_def winds_down_def on_gateway_def sendable_ids_def)

lemma cancel_active_run_winds:
  assumes "only_work lo hi gap"
  shows "run_winds r (snd (cancel_active_run e gap r))"
proof -
  note gap = gap_winds [OF assms]
  have "run_winds t (fold (\<lambda>(n, rid, h) r. gap (n + 3) (on_gateway (\<lambda>s. snd (dispatch_cancel e rid h s)) r)) hs t)"
    for hs t
  proof (induction hs arbitrary: t)
    case (Cons x hs)
    obtain n rid h where x: "x = (n, rid, h)" by (cases x)
    have "run_winds t (gap (n + 3) (on_gateway (\<lambda>s. snd (dispatch_cancel e rid h s)) t))"
      by (rule run_winds_trans [OF on_gateway_winds gap]) (rule dispatch_cancel_winds)
    from run_winds_trans [OF this Cons.IH] show ?case by (simp add: x)
  qed simp
  moreover have "run_winds r (gap 1 (on_gateway (\<lambda>s. snd (cancel_active_mark s)) r))"
    by (rule run_winds_trans [OF on_gateway_winds gap]) (rule cancel_active_mark_winds)
  ultimately show ?thesis
    unfolding cancel_active_run_def Let_def snd_conv by (blast intro: run_winds_trans gap)
qed

lemma server_shutdown_left:
  assumes "only_work lo hi gap" and "sv_thread sv" and "server_shutdown e gap sv r = (err, sv', r')"
  shows "\<not> sv_thread sv' \<and> \<not> sv_serving sv' \<and> gw_stopping (gr_gateway r') \<and>
    active_request_count (gr_gateway r') = 0 \<and>
    goal_ids (gr_gateway r') \<subseteq> goal_ids (gr_gateway r) \<and> sendable_ids r' \<subseteq> sendable_ids r \<and>
    (err = None \<longrightarrow> gw_goals (gr_gateway r') = []) \<and>
    (gw_goals (gr_gateway r) = [] \<longrightarrow> err = None)"
proof -
  note gap = gap_winds [OF assms(1)]
  define r1 r2 where "r1 = on_gateway stop_accepting r"
    and "r2 = snd (cancel_active_run e (\<lambda>n. gap (n + 2)) (gap 0 r1))"
  have r1: "gw_stopping (gr_gateway r1)" "goal_ids (gr_gateway r1) = goal_ids (gr_gateway r)"
    "sendable_ids r1 = sendable_ids r"
    by (simp_all add: r1_def on_gateway_def stop_accepting_def sendable_ids_def)
  have "only_work lo hi (\<lambda>n. gap (n + 2))" using assms(1) by (simp add: only_work_def)
  from cancel_active_run_winds [OF this] have r2: "run_winds r1 r2"
    unfolding r2_def by (blast intro: run_winds_trans gap)
  have res: "err = cancel_active_verdict (gr_gateway r2)" "sv' = sv\<lparr>sv_thread := False, sv_serving := False\<rparr>"
    "r' = on_gateway gateway_clear (gap 1 r2)"
    using assms(2,3) by (simp_all add: server_shutdown_def cancel_active_run_def Let_def r1_def r2_def)
  have r': "run_winds r2 r'"
    unfolding res(3) by (rule run_winds_trans [OF gap on_gateway_winds])
      (simp add: winds_down_def gateway_clear_def)
  have nil: "gw_goals s = [] \<longleftrightarrow> goal_ids s = {}" for s by (simp add: goal_ids_def)
  have "active_request_count (gr_gateway r') = 0"
    by (simp add: res(3) on_gateway_def gateway_clear_def active_request_count_def registry_size_def
        registry_clear_def)
  then show ?thesis
    using r1 r2 r' res(1,2) cancel_active_verdict_none [of "gr_gateway r2", unfolded nil]
    unfolding nil by (auto simp: run_winds_def)
qed

lemma await_signal_returns: "stop n \<Longrightarrow> m \<le> n \<Longrightarrow> await_signal stop m \<noteq> None"
proof (induction "n - m" arbitrary: m)
  case 0
  then show ?case by (simp add: await_signal.simps)
next
  case (Suc k)
  then show ?case by (subst await_signal.simps) (simp del: not_None_eq)
qed

text \<open>
  \<open>start\<close> does not reset \<open>error_\<close> and \<open>ready_\<close>: called again after a failure, it
  joins a thread that serves, and never returns.
\<close>

lemma restart_after_failure_hangs:
  assumes "server_start None first sv = Some (Some err, sv')" and "\<not> sv_serving sv"
  shows "server_start (Some port) again sv' = None"
  using assms by (auto simp: server_start_def server_thread_def Let_def split: if_splits)

lemma server_start_fresh:
  "loopback_new port = Inr sv0 \<Longrightarrow> \<exists>sv1. server_start built True sv0 =
     Some (if built = None then Some ''failed to start loopback gRPC server'' else None, sv1) \<and>
     (sv_thread sv1 \<longleftrightarrow> built \<noteq> None)"
  by (cases built) (auto simp: loopback_new_def server_start_def server_thread_def Let_def split: if_splits)

lemma gateway_main_served:
  assumes "gateway_main p file = Some (code, Some (sv, r))" and "gm_built p \<noteq> None"
  obtains db sv1 err where "sv_thread sv1"
    and "server_shutdown (gm_env p) (gm_gap p) sv1
      (gm_serve p \<lparr>gr_gateway = gateway_init db, gr_inflight = []\<rparr>) = (err, sv, r)"
    and "code = (if gm_executor p = None \<and> err = None then 0 else 1)"
proof -
  obtain handle err f' where opened: "store_open (gm_open p) file = (handle, err, f')"
    by (cases "store_open (gm_open p) file")
  from assms(1) opened obtain sv0 where new: "loopback_new (gm_port p) = Inr sv0"
    and go: "gm_node p = None" "gateway_parameters_ok (gm_port p) (gm_database_path p)" handle
      "gm_service p = None"
    by (auto simp: gateway_main_def split: if_splits sum.splits bool.splits)
  from server_start_fresh [OF new, of "gm_built p"] assms(2) obtain sv1 where
    sv1: "server_start (gm_built p) True sv0 = Some (None, sv1)" "sv_thread sv1" by auto
  let ?r = "gm_serve p \<lparr>gr_gateway = gateway_init (gm_rows p f'), gr_inflight = []\<rparr>"
  obtain err' sv' r' where down: "server_shutdown (gm_env p) (gm_gap p) sv1 ?r = (err', sv', r')"
    by (cases "server_shutdown (gm_env p) (gm_gap p) sv1 ?r")
  have "sv' = sv \<and> r' = r \<and> code = (if gm_executor p = None \<and> err' = None then 0 else 1)"
    using assms(1) opened new go sv1(1) down by (auto simp: gateway_main_def Let_def split: if_splits)
  with sv1(2) down show ?thesis by (intro that) auto
qed

section \<open>Properties\<close>

text \<open>C31. The gateway's process, whatever its handlers and callbacks do. Once a signal comes, it ends, provided
  it got as far as serving. When it has served, then at its end the server's thread has been joined, the gateway
  refuses every submission, its registry is empty; the goals that are left were there when the
  shutdown began, and the requests sent to the orchestrator had been sent or registered by then.
  The exit code is 0 only when no goal is left, and it is 0 when there was none at the stop.
\<close>

theorem gateway_process_winds_down:
  assumes "only_work lo hi (gm_gap p)"
  shows "((\<exists>n. gm_stop p n) \<longrightarrow> gateway_main p file \<noteq> None) \<and>
    (gateway_main p file = Some (code, Some (sv, r)) \<and> gm_built p \<noteq> None \<longrightarrow>
       (\<exists>db. let at_stop = gm_serve p \<lparr>gr_gateway = gateway_init db, gr_inflight = []\<rparr> in
          \<not> sv_thread sv \<and> \<not> sv_serving sv \<and> active_request_count (gr_gateway r) = 0 \<and>
          (\<forall>e q. submit_enter e q (gr_gateway r) =
             (Some (refuse GRPC_UNAVAILABLE ''gateway is shutting down''), gr_gateway r)) \<and>
          goal_ids (gr_gateway r) \<subseteq> goal_ids (gr_gateway at_stop) \<and>
          sendable_ids r \<subseteq> sendable_ids at_stop \<and>
          (code = 0 \<longrightarrow> gw_goals (gr_gateway r) = []) \<and>
          (gm_executor p = None \<and> gw_goals (gr_gateway at_stop) = [] \<longrightarrow> code = 0)))"
proof (intro conjI impI)
  show "gateway_main p file \<noteq> None" if "\<exists>n. gm_stop p n"
  proof -
    from that await_signal_returns [of "gm_stop p" _ 0] have "await_signal (gm_stop p) 0 \<noteq> None" by auto
    moreover have "server_start (gm_built p) True sv0 \<noteq> None" if "loopback_new (gm_port p) = Inr sv0" for sv0
      using server_start_fresh [OF that, of "gm_built p"] by auto
    ultimately show ?thesis
      by (auto simp: gateway_main_def Let_def split: option.split sum.split prod.split bool.split)
  qed
  assume "gateway_main p file = Some (code, Some (sv, r)) \<and> gm_built p \<noteq> None"
  then obtain db sv1 err where "sv_thread sv1"
    and run: "server_shutdown (gm_env p) (gm_gap p) sv1
      (gm_serve p \<lparr>gr_gateway = gateway_init db, gr_inflight = []\<rparr>) = (err, sv, r)"
    and code: "code = (if gm_executor p = None \<and> err = None then 0 else 1)"
    using gateway_main_served by blast
  from server_shutdown_left [OF assms this(1) run] code
  show "\<exists>db. let at_stop = gm_serve p \<lparr>gr_gateway = gateway_init db, gr_inflight = []\<rparr> in
          \<not> sv_thread sv \<and> \<not> sv_serving sv \<and> active_request_count (gr_gateway r) = 0 \<and>
          (\<forall>e q. submit_enter e q (gr_gateway r) =
             (Some (refuse GRPC_UNAVAILABLE ''gateway is shutting down''), gr_gateway r)) \<and>
          goal_ids (gr_gateway r) \<subseteq> goal_ids (gr_gateway at_stop) \<and>
          sendable_ids r \<subseteq> sendable_ids at_stop \<and>
          (code = 0 \<longrightarrow> gw_goals (gr_gateway r) = []) \<and>
          (gm_executor p = None \<and> gw_goals (gr_gateway at_stop) = [] \<longrightarrow> code = 0)"
    by (intro exI [of _ db]) (auto simp: Let_def submit_enter_stopping split: if_splits)
qed

text \<open>A process stopped with a goal under way, whose result arrives while the shutdown waits.\<close>

definition sample_gateway_main :: gateway_main_env where
  "sample_gateway_main = \<lparr>gm_node = None, gm_port = 80, gm_database_path = ''runtime.db'',
     gm_open = sample_open, gm_rows = (\<lambda>_. empty_database), gm_service = None, gm_built = Some 80,
     gm_executor = None, gm_stop = (\<lambda>n. 3 \<le> n),
     gm_serve = on_gateway (\<lambda>_. example_goal_state), gm_env = example_gw_env,
     gm_gap = (\<lambda>n. if n = 4 then on_gateway (\<lambda>s. result_callback example_gw_env ''r1''
         \<lparr>wr_code = RC_CANCELED, wr_result = Some \<lparr>res_outcome = CANCELED, res_error_code = 0,
          res_message = ''canceled''\<rparr>\<rparr> s) else (\<lambda>r. r))\<rparr>"

lemma sample_gateway_exit:
  "map_option (\<lambda>(code, left). (code, map_option (\<lambda>(sv, r).
       (sv_address sv, gw_goals (gr_gateway r), gw_cancels_sent (gr_gateway r))) left))
     (gateway_main sample_gateway_main sample_file) =
     Some (0, Some (''127.0.0.1:80'', [], [(''r1'', 1)]))"
  by code_simp

lemma sample_gateway_work: "only_work 0 10 (gm_gap sample_gateway_main)"
proof -
  have "gateway_work 0 10 r (on_gateway (\<lambda>s. result_callback example_gw_env rid w s) r)" for r rid w
    by (cases r) (auto simp: on_gateway_def example_gw_env_def env_within_def
        intro!: gs_event ev_result)
  then show ?thesis by (auto simp: only_work_def sample_gateway_main_def)
qed

theorem gateway_process_winds_down_witness:
  "\<exists>sv r. gateway_main sample_gateway_main sample_file = Some (0, Some (sv, r)) \<and>
     \<not> sv_serving sv \<and> active_request_count (gr_gateway r) = 0 \<and> gw_goals (gr_gateway r) = []"
proof -
  from sample_gateway_exit obtain sv r where
    run: "gateway_main sample_gateway_main sample_file = Some (0, Some (sv, r))" by auto
  moreover have "gm_built sample_gateway_main \<noteq> None" by (simp add: sample_gateway_main_def)
  ultimately show ?thesis
    using gateway_process_winds_down [OF sample_gateway_work, of sample_file 0 sv r]
    by (auto simp: Let_def)
qed

end
