(* ===== verification/Gateway_Cancel.thy ===== *)
theory Gateway_Cancel
  imports Gateway_Runs
begin

text \<open>
  Cancel requests of the gateway: the RPC, the timeout of a submission, a late goal response and the
  shutdown may all want to cancel one goal. The invariant shows that one of them does.
\<close>

section \<open>What a step may do to goals and cancel requests\<close>

definition canceled_ids :: "gateway \<Rightarrow> string list" where
  "canceled_ids s = map fst (gw_cancels_sent s)"

text \<open>No request was canceled twice, and a goal not marked as dispatched was not canceled.\<close>

definition cancel_marked :: "gateway \<Rightarrow> bool" where
  "cancel_marked s \<longleftrightarrow> distinct (canceled_ids s) \<and>
     (\<forall>rid g. gw_goal rid s = Some g \<and> \<not> pg_cancel_dispatched g \<longrightarrow> rid \<notin> set (canceled_ids s))"

definition cancel_keeps :: "gateway \<Rightarrow> gateway \<Rightarrow> bool" where
  "cancel_keeps s s' \<longleftrightarrow> (cancel_marked s \<longrightarrow> cancel_marked s') \<and>
     (\<forall>rid. gw_goal rid s' \<noteq> None \<longrightarrow> gw_goal rid s \<noteq> None) \<and>
     (\<forall>rid \<in> set (canceled_ids s'). rid \<in> set (canceled_ids s) \<or> gw_goal rid s \<noteq> None)"

lemma cancel_keeps_trans: "cancel_keeps a b \<Longrightarrow> cancel_keeps b c \<Longrightarrow> cancel_keeps a c"
  unfolding cancel_keeps_def by blast

lemma cancel_keeps_same:
  "gw_goals s' = gw_goals s \<Longrightarrow> gw_cancels_sent s' = gw_cancels_sent s \<Longrightarrow> cancel_keeps s s'"
  by (auto simp: cancel_keeps_def cancel_marked_def canceled_ids_def gw_goal_def)

lemma cancel_keeps_refl [simp]: "cancel_keeps s s"
  by (simp add: cancel_keeps_same)

lemma goals_frames [simp]:
  "gw_goals (gw_update rid st oc c m s) = gw_goals s"
  "gw_goals (gw_erase_request rid s) = gw_goals s"
  "gw_goals (gw_complete le q st oc c m now s) = gw_goals s"
  "gw_goals (gw_reject e q st c m s) = gw_goals s"
  "gw_cancels_sent (gw_update rid st oc c m s) = gw_cancels_sent s"
  "gw_cancels_sent (gw_erase_request rid s) = gw_cancels_sent s"
  "gw_cancels_sent (gw_complete le q st oc c m now s) = gw_cancels_sent s"
  "gw_cancels_sent (gw_reject e q st c m s) = gw_cancels_sent s"
  "gw_cancels_sent (gw_set_goal rid f s) = gw_cancels_sent s"
  "gw_cancels_sent (gw_erase_goal rid s) = gw_cancels_sent s"
  by (simp_all add: gw_update_def gw_erase_request_def gw_complete_def gw_reject_def
      gw_set_goal_def gw_erase_goal_def)

lemma gw_goal_frames [simp]:
  "gw_goal k (gw_update rid st oc c m s) = gw_goal k s"
  "gw_goal k (gw_complete le q st oc c m now s) = gw_goal k s"
  "gw_goal k (gw_set_goal rid f s) = (if k = rid then map_option f (gw_goal k s) else gw_goal k s)"
  "gw_goal k (gw_erase_goal rid s) = (if k = rid then None else gw_goal k s)"
proof -
  have "map_of (map (\<lambda>(k, g). (k, if k = rid then f g else g)) al) k =
      (if k = rid then map_option f (map_of al k) else map_of al k)"
    for al and f :: "pending_goal \<Rightarrow> pending_goal" and k :: string
    by (induction al) auto
  then show "gw_goal k (gw_set_goal rid f s) = (if k = rid then map_option f (gw_goal k s) else gw_goal k s)"
    by (simp add: gw_goal_def gw_set_goal_def)
  show "gw_goal k (gw_erase_goal rid s) = (if k = rid then None else gw_goal k s)"
    by (simp add: gw_goal_def gw_erase_goal_def delete_conv')
qed (simp_all add: gw_goal_def)

lemma cancel_keeps_set_goal:
  "\<forall>g. pg_cancel_dispatched (f g) = pg_cancel_dispatched g \<Longrightarrow> cancel_keeps s (gw_set_goal rid f s)"
  by (auto simp: cancel_keeps_def cancel_marked_def canceled_ids_def split: if_splits)

lemma cancel_keeps_erase: "cancel_keeps s (gw_erase_goal rid s)"
  by (auto simp: cancel_keeps_def cancel_marked_def canceled_ids_def split: if_splits)

lemma dispatch_cancel_keeps: "cancel_keeps s (snd (dispatch_cancel e rid h s))"
proof (cases "gw_goal rid s")
  case None
  then show ?thesis by (simp add: dispatch_cancel_def)
next
  case (Some g)
  have goal: "gw_goal k (t\<lparr>gw_cancel_dispatches := n\<rparr>) = gw_goal k t"
    "gw_goal k (t\<lparr>gw_cancels_sent := cs\<rparr>) = gw_goal k t" for k t n cs
    by (simp_all add: gw_goal_def)
  show ?thesis
    by (cases "pg_cancel_dispatched g"; cases "ge_cancel e")
      (auto simp: dispatch_cancel_def Some Let_def cancel_keeps_def cancel_marked_def canceled_ids_def
        goal split: if_splits)
qed

lemma cancel_active_mark_keeps: "cancel_keeps s (snd (cancel_active_mark s))"
proof -
  let ?f = "\<lambda>g. g\<lparr>pg_cancel_requested := True\<rparr>"
  have fold: "gw_goals (fold (\<lambda>rid. gw_update rid a b c d) rids t) = gw_goals t \<and>
      gw_cancels_sent (fold (\<lambda>rid. gw_update rid a b c d) rids t) = gw_cancels_sent t" for a b c d rids t
    by (induction rids arbitrary: t) simp_all
  have "map_of (map (\<lambda>(rid, g). (rid, ?f g)) al) k = map_option ?f (map_of al k)" for al k
    by (induction al) auto
  then have "gw_goal k (snd (cancel_active_mark s)) = map_option ?f (gw_goal k s)" for k
    by (simp add: cancel_active_mark_def Let_def gw_goal_def fold)
  moreover have "canceled_ids (snd (cancel_active_mark s)) = canceled_ids s"
    by (simp add: cancel_active_mark_def Let_def fold canceled_ids_def)
  ultimately show ?thesis by (auto simp: cancel_keeps_def cancel_marked_def)
qed

lemma gateway_event_cancel:
  assumes "gateway_event lo hi s s'"
  shows "cancel_keeps s s'"
  using assms
proof cases
  case (ev_goal_response e rid h)
  have "cancel_keeps s (gw_update rid st oc c m (gw_set_goal rid (\<lambda>g. g\<lparr>pg_pending := False, pg_handle := hdl\<rparr>) s))"
    for st oc c m hdl
    by (rule cancel_keeps_trans [OF cancel_keeps_set_goal cancel_keeps_same]) simp_all
  note go = this cancel_keeps_trans [OF this dispatch_cancel_keeps]
  have "cancel_keeps s (gw_update rid st oc c m (gw_complete le q st' oc' c' m' now (gw_erase_goal rid s)))"
    for st oc c m le q st' oc' c' m' now
    by (rule cancel_keeps_trans [OF cancel_keeps_erase cancel_keeps_same]) simp_all
  then show ?thesis using go cancel_keeps_erase
    by (cases h; cases "gw_goal rid s")
      (simp_all add: ev_goal_response(1) goal_response_callback_def Let_def)
next
  case (ev_result e rid w)
  have erase: "cancel_keeps s (gw_erase_goal rid (gw_update rid st oc c m s))" for st oc c m
    by (rule cancel_keeps_trans [OF cancel_keeps_same cancel_keeps_erase]) simp_all
  then have "cancel_keeps s (gw_complete le q st' oc' c' m' now (gw_erase_goal rid (gw_update rid st oc c m s)))"
    for st oc c m le q st' oc' c' m' now
    by (rule cancel_keeps_trans [OF _ cancel_keeps_same]) simp_all
  with erase show ?thesis
    by (simp add: ev_result(1) result_callback_def Let_def split: option.split prod.split)
next
  case (ev_cancel_mark rid r)
  have "cancel_keeps s (gw_update rid st oc c m (gw_set_goal rid (\<lambda>g. g\<lparr>pg_cancel_requested := True\<rparr>) s))"
    for st oc c m
    by (rule cancel_keeps_trans [OF cancel_keeps_set_goal cancel_keeps_same]) simp_all
  then show ?thesis by (simp add: ev_cancel_mark cancel_mark_def split: option.split)
next
  case (ev_cancel_finish e rid h)
  then show ?thesis by (simp add: cancel_finish_state dispatch_cancel_keeps split: option.split)
next
  case (ev_dispatch_cancel e rid h)
  then show ?thesis by (simp add: dispatch_cancel_keeps)
next
  case (ev_resolve e rid state message)
  have "cancel_keeps s (snd (gw_resolve e rid state message s))"
    by (intro cancel_keeps_same)
      (simp_all add: gw_resolve_def Let_def split: sum.split option.split prod.split)
  then show ?thesis
    by (simp add: ev_resolve(1) resolve_uncertain_def Let_def split: prod.split) auto
next
  case ev_cancel_active
  then show ?thesis by (simp add: cancel_active_mark_keeps)
qed (simp_all add: cancel_keeps_same stop_accepting_def gateway_clear_def gateway_record_task_def)

lemma submit_enter_cancel:
  assumes "submit_enter e q s = (out, s')"
  shows "cancel_keeps s s'"
proof -
  have "gw_goals (snd (submit_enter e q s)) = gw_goals s \<and>
      gw_cancels_sent (snd (submit_enter e q s)) = gw_cancels_sent s"
    by (simp add: submit_enter_def Let_def split: prod.split insert_result.split sum.split option.split)
  with assms show ?thesis by (simp add: cancel_keeps_same)
qed

lemma submit_admit_cancel:
  assumes "submit_admit e q s = (out, s')"
  shows "cancel_keeps s s'"
proof -
  have "gw_goals (snd (submit_admit e q s)) = gw_goals s \<and>
      gw_cancels_sent (snd (submit_admit e q s)) = gw_cancels_sent s"
    by (simp add: submit_admit_def Let_def split: prod.split sum.split option.split
        idempotency_decision.split)
  with assms show ?thesis by (simp add: cancel_keeps_same)
qed

lemma submit_send_cancel:
  assumes "submit_send e q s = (out, s')"
  shows "cancel_keeps s s'"
proof (cases "ge_send e")
  case None
  with assms show ?thesis by (auto simp: submit_send_def Let_def intro: cancel_keeps_same)
next
  case (Some err)
  have "cancel_keeps s (gw_complete le r st' oc' c' m' now (gw_update rid st oc c m (gw_erase_goal rid s)))"
    for le r st' oc' c' m' now rid st oc c m
    by (rule cancel_keeps_trans [OF cancel_keeps_erase cancel_keeps_same]) simp_all
  with Some assms show ?thesis by (auto simp: submit_send_def Let_def)
qed

lemma submit_timeout_cancel: "cancel_keeps s (snd (submit_timeout e q s))"
proof -
  let ?req = "\<lambda>g. g\<lparr>pg_cancel_requested := True\<rparr>"
  have set: "cancel_keeps s (gw_set_goal rid ?req s)" for rid by (rule cancel_keeps_set_goal) simp
  then have "cancel_keeps s (gw_update rid st oc c m (gw_set_goal rid ?req s))" for rid st oc c m
    by (rule cancel_keeps_trans [OF _ cancel_keeps_same]) simp_all
  with set have "cancel_keeps s (case gw_goal rid s of None \<Rightarrow> s
      | Some g \<Rightarrow> let s' = gw_set_goal rid ?req s in
          if pg_cancel_requested g then s' else gw_update rid st oc c m s')" for rid st oc c m
    by (simp add: Let_def split: option.split)
  moreover have "cancel_keeps t (case h of None \<Rightarrow> t | Some h \<Rightarrow> snd (dispatch_cancel e rid h t))" for t h rid
    by (simp add: dispatch_cancel_keeps split: option.split)
  ultimately show ?thesis unfolding submit_timeout_def Let_def snd_conv
    by (blast intro: cancel_keeps_trans)
qed

section \<open>The invariant\<close>

text \<open>A request that had or has a goal, or was canceled, holds a ledger row.\<close>

definition cancel_inv :: "int \<Rightarrow> gw_run \<Rightarrow> bool" where
  "cancel_inv lo r \<longleftrightarrow> cancel_marked (gr_gateway r) \<and>
     (\<forall>q. (q, PhAdmitted) \<in> set (gr_inflight r) \<longrightarrow>
        sr_request_id q \<notin> set (canceled_ids (gr_gateway r)) \<and> gw_goal (sr_request_id q) (gr_gateway r) = None) \<and>
     (\<forall>rid. rid \<in> set (canceled_ids (gr_gateway r)) \<or> gw_goal rid (gr_gateway r) \<noteq> None \<longrightarrow>
        (\<exists>q. find_request rid (gw_store (gr_gateway r)) = Some q \<and> lo \<le> ir_updated_at_ns q))"

lemma cancel_inv_keeps:
  assumes "cancel_inv lo r" and "cancel_keeps (gr_gateway r) (gr_gateway r')"
    and "ledger_keeps lo (gw_store (gr_gateway r)) (gw_store (gr_gateway r'))"
    and "db_inv (gw_store (gr_gateway r))"
    and "\<And>q. (q, PhAdmitted) \<in> set (gr_inflight r') \<Longrightarrow> (q, PhAdmitted) \<in> set (gr_inflight r)"
  shows "cancel_inv lo r'"
proof -
  note keeps = assms(2) [unfolded cancel_keeps_def]
  have "cancel_marked (gr_gateway r')" using assms(1) keeps by (simp add: cancel_inv_def)
  moreover have "sr_request_id q \<notin> set (canceled_ids (gr_gateway r')) \<and>
      gw_goal (sr_request_id q) (gr_gateway r') = None"
    if "(q, PhAdmitted) \<in> set (gr_inflight r')" for q
    using assms(1) assms(5) [OF that] keeps unfolding cancel_inv_def by blast
  moreover have "\<exists>q. find_request rid (gw_store (gr_gateway r')) = Some q \<and> lo \<le> ir_updated_at_ns q"
    if "rid \<in> set (canceled_ids (gr_gateway r')) \<or> gw_goal rid (gr_gateway r') \<noteq> None" for rid
  proof -
    have "rid \<in> set (canceled_ids (gr_gateway r)) \<or> gw_goal rid (gr_gateway r) \<noteq> None"
      using that keeps by blast
    with assms(1) obtain q where "find_request rid (gw_store (gr_gateway r)) = Some q" "lo \<le> ir_updated_at_ns q"
      unfolding cancel_inv_def by blast
    with assms(3,4) show ?thesis unfolding ledger_keeps_def by blast
  qed
  ultimately show ?thesis unfolding cancel_inv_def by blast
qed

text \<open>The registration gives a goal to a request that never had one and was never canceled.\<close>

lemma cancel_inv_register:
  assumes "cancel_inv lo r" and "claim_inv lo r" and "env_within lo hi e" "hi \<le> lo + kRetryHorizonNs"
    and "r = \<lparr>gr_gateway = s, gr_inflight = xs @ (q, PhAdmitted) # ys\<rparr>"
    and "submit_register e q s = (out, s')"
    and "r' = \<lparr>gr_gateway = s', gr_inflight = (if out = None then xs @ (q, PhRegistered) # ys else xs @ ys)\<rparr>"
  shows "cancel_inv lo r'"
proof (cases "gw_stopping s")
  case True
  with assms(6) have "cancel_keeps s s'"
    by (auto simp: submit_register_def intro: cancel_keeps_same)
  moreover have "ledger_keeps lo (gw_store s) (gw_store s')"
    using submit_register_effect [OF assms(6,3,4)] by simp
  ultimately show ?thesis using assms(1,2)
    by (intro cancel_inv_keeps [OF assms(1)]) (auto simp: assms(5,7) claim_inv_def split: if_splits)
next
  case False
  let ?id = "sr_request_id q"
  have fresh: "?id \<notin> set (canceled_ids s)" "gw_goal ?id s = None"
    using assms(1) by (auto simp: cancel_inv_def assms(5))
  define g where "g = \<lparr>pg_handle = None, pg_payload = initial_record q, pg_pending = True,
      pg_cancel_requested = False, pg_cancel_dispatched = False, pg_cancel_failed = False\<rparr>"
  have s': "out = None" "s' = s\<lparr>gw_goals := gw_goals s @ [(?id, g)]\<rparr>"
    using assms(6) False fresh(2) by (simp_all add: submit_register_def g_def)
  have goal: "gw_goal k s' = (if k = ?id then Some g else gw_goal k s)" for k
    using fresh(2) by (simp add: s' gw_goal_def map_add_def split: option.split)
  have ids: "canceled_ids s' = canceled_ids s" "gw_store s' = gw_store s"
    by (simp_all add: s' canceled_ids_def)
  have "cancel_marked s'"
    using assms(1) fresh(1) by (auto simp: cancel_inv_def cancel_marked_def goal ids assms(5) split: if_splits)
  moreover have "\<exists>row. find_request ?id (gw_store s) = Some row \<and> lo \<le> ir_updated_at_ns row"
    using assms(2) by (auto simp: claim_inv_def held_ids_def assms(5))
  moreover have "p \<noteq> q" "sr_request_id p \<noteq> ?id" if "(p, PhAdmitted) \<in> set xs \<union> set ys" for p
  proof -
    have "sr_request_id p \<in> set (claimed_ids xs) \<union> set (claimed_ids ys)"
      using that by (force simp: claimed_ids_def)
    moreover have "distinct (claimed_ids xs @ ?id # claimed_ids ys)"
      using assms(2) by (auto simp: claim_inv_def held_ids_def assms(5))
    ultimately show "sr_request_id p \<noteq> ?id" by auto
    then show "p \<noteq> q" by auto
  qed
  ultimately show ?thesis
    using assms(1) by (auto simp: cancel_inv_def goal ids assms(5,7) s'(1))
qed

lemma cancel_inv_step:
  assumes "cancel_inv lo r" and "claim_inv lo r" and "gateway_step lo hi r r'"
    and hi: "hi \<le> lo + kRetryHorizonNs"
  shows "cancel_inv lo r'"
  using assms(3)
proof cases
  case gs_work
  note keep = cancel_inv_keeps [OF assms(1)]
  have db: "db_inv (gw_store (gr_gateway r))" using assms(2) by (simp add: claim_inv_def)
  from gs_work show ?thesis
  proof cases
    case (gs_event s s' fl)
    then show ?thesis using gateway_event_cancel gateway_event_keeps [OF _ hi] db
      by (intro keep) auto
  next
    case (gs_enter e q s out s' fl)
    then show ?thesis using submit_enter_cancel submit_enter_frames db
      by (intro keep) (auto split: if_splits)
  next
    case (gs_admit e q s out s' xs ys)
    note eff = submit_admit_effect [OF gs_admit(4,3) hi] and same = submit_admit_cancel [OF gs_admit(4)]
    have rest: "cancel_inv lo \<lparr>gr_gateway = s', gr_inflight = xs @ ys\<rparr>"
      using eff same db gs_admit(1) by (intro keep) auto
    show ?thesis
    proof (cases out)
      case None
      then have "find_request (sr_request_id q) (gw_store s) = None" using eff by simp
      then have "sr_request_id q \<notin> set (canceled_ids s) \<and> gw_goal (sr_request_id q) s = None"
        using assms(1) by (force simp: cancel_inv_def gs_admit(1))
      then have "sr_request_id q \<notin> set (canceled_ids s') \<and> gw_goal (sr_request_id q) s' = None"
        using same unfolding cancel_keeps_def by blast
      with rest None show ?thesis by (auto simp: cancel_inv_def gs_admit(2))
    qed (use rest gs_admit(2) in simp)
  next
    case (gs_register e q s out s' xs ys)
    from cancel_inv_register [OF assms(1,2) gs_register(3) hi gs_register(1,4,2)] show ?thesis .
  next
    case (gs_send e q s out s' xs ys)
    then show ?thesis using submit_send_cancel submit_send_effect [OF gs_send(4,3) hi] db
      by (intro keep) (auto split: if_splits)
  next
    case (gs_timeout s xs q ys e)
    then show ?thesis using submit_timeout_cancel db by (intro keep) (auto simp: ops)
  next
    case (gs_finish s xs q ys)
    then show ?thesis using db by (intro keep) auto
  qed
next
  case (gs_restart s fl)
  have "cancel_keeps s (gateway_restart s)"
    by (simp add: cancel_keeps_def cancel_marked_def canceled_ids_def gw_goal_def gateway_restart_def
        gateway_init_def)
  then show ?thesis using assms(2) gs_restart
    by (intro cancel_inv_keeps [OF assms(1)])
      (auto simp: claim_inv_def gateway_restart_def gateway_init_def)
qed

lemma cancel_inv_reachable:
  "gateway_reachable lo hi db r \<Longrightarrow> db_inv db \<Longrightarrow> hi \<le> lo + kRetryHorizonNs \<Longrightarrow>
     cancel_inv lo r \<and> claim_inv lo r"
proof (induction rule: gateway_reachable.induct)
  case gr_init
  then show ?case
    using claim_inv_reachable [OF gateway_reachable.gr_init]
    by (auto simp: cancel_inv_def cancel_marked_def canceled_ids_def gw_goal_def gateway_init_def)
next
  case (gr_step r r')
  then show ?case by (blast intro: cancel_inv_step claim_inv_step)
qed

section \<open>Properties\<close>



end
