(* ===== verification/Executor_Success.thy ===== *)
theory Executor_Success
  imports Executor_Runs
begin

text \<open>
  The undisturbed run of the executor: nothing cancels, stops or throws, the child action accepts the
  goal and reports in time. Whatever the instants of its callbacks, the task ends with what
  \<open>task_terminal\<close> makes of the child's result; with a completed child it succeeds.
\<close>

section \<open>Undisturbed runs\<close>

text \<open>
  The child's goal response arrives at tick \<open>t1\<close> and its result \<open>w\<close> at \<open>t2\<close>; nothing
  else happens.
\<close>

definition undisturbed :: "exec_env \<Rightarrow> nat \<Rightarrow> nat \<Rightarrow> wrapped_result \<Rightarrow> bool" where
  "undisturbed e t1 t2 w \<longleftrightarrow>
     (\<forall>t. xe_running e t \<and> xe_ok e t \<and> \<not> xe_canceling e t \<and> (\<forall>phase. xe_hook e t phase = None) \<and>
        xe_send_goal e t = None \<and> xe_transition e t = None \<and> \<not> xe_event_throws e t) \<and>
     (\<exists>at. \<forall>t. xe_child e t = (if t = t1 then [ChildResponse True at] else []) @
        (if t = t2 then [ChildResult w] else []))"

text \<open>What the child's state then is at each tick.\<close>

definition child_at :: "bool \<Rightarrow> nat \<Rightarrow> nat \<Rightarrow> wrapped_result \<Rightarrow> nat \<Rightarrow> child_state" where
  "child_at started t1 t2 w n = child_init\<lparr>cs_dispatch_started := started,
     cs_goal_response_received := t1 < n, cs_handle := t1 < n, cs_terminal := t2 < n,
     cs_result := if t2 < n then Some w else None\<rparr>"

definition on_track :: "nat \<Rightarrow> nat \<Rightarrow> wrapped_result \<Rightarrow> bool \<Rightarrow> executor \<Rightarrow> executor \<Rightarrow> bool" where
  "on_track t1 t2 w started s0 s \<longleftrightarrow> ex_child s = child_at started t1 t2 w (ex_tick s) \<and>
     ctl s = ctl s0 \<and> ex_child_cancels s = ex_child_cancels s0"

lemma undisturbedD:
  assumes "undisturbed e t1 t2 w"
  shows "xe_running e t" "xe_ok e t" "\<not> xe_canceling e t" "xe_hook e t phase = None"
    "xe_send_goal e t = None" "xe_transition e t = None" "\<not> xe_event_throws e t"
  using assms by (simp_all add: undisturbed_def)

lemma child_at_simps [simp]:
  "cs_dispatch_started (child_at b t1 t2 w n) = b"
  "cs_goal_response_received (child_at b t1 t2 w n) \<longleftrightarrow> t1 < n"
  "cs_handle (child_at b t1 t2 w n) \<longleftrightarrow> t1 < n"
  "cs_terminal (child_at b t1 t2 w n) \<longleftrightarrow> t2 < n"
  "cs_result (child_at b t1 t2 w n) = (if t2 < n then Some w else None)"
  "\<not> cs_cancel_requested (child_at b t1 t2 w n)" "\<not> cs_cancel_dispatched (child_at b t1 t2 w n)"
  "\<not> cs_cancel_timed_out (child_at b t1 t2 w n)" "\<not> cs_late_cancel (child_at b t1 t2 w n)"
  by (simp_all add: child_at_def child_init_def)

lemma on_track_update [simp]:
  "on_track t1 t2 w b s0 (s\<lparr>ex_diag := d\<rparr>) = on_track t1 t2 w b s0 s"
  "on_track t1 t2 w b s0 (s\<lparr>ex_feedback := f\<rparr>) = on_track t1 t2 w b s0 s"
  "on_track t1 t2 w b s0 (s\<lparr>ex_diagnostics := x\<rparr>) = on_track t1 t2 w b s0 s"
  "on_track t1 t2 w b s0 (s\<lparr>ex_stages := y\<rparr>) = on_track t1 t2 w b s0 s"
  "on_track t1 t2 w b s0 (s\<lparr>ex_next_command_id := i\<rparr>) = on_track t1 t2 w b s0 s"
  "on_track t1 t2 w b s0 (s\<lparr>ex_device_goals := gs\<rparr>) = on_track t1 t2 w b s0 s"
  by (simp_all add: on_track_def)

lemma on_track_observe:
  assumes "undisturbed e t1 t2 w" and "on_track t1 t2 w b s0 s"
  shows "on_track t1 t2 w b s0 (ex_observe e s)"
proof -
  from assms(1) obtain at where
    "xe_child e (ex_tick s) = (if ex_tick s = t1 then [ChildResponse True at] else []) @
       (if ex_tick s = t2 then [ChildResult w] else [])" by (auto simp: undisturbed_def)
  with assms(2) show ?thesis
    by (auto simp: on_track_def ex_observe_def ctl_def child_at_def child_init_def Let_def)
qed

lemma on_track_feedback:
  assumes "undisturbed e t1 t2 w" and "on_track t1 t2 w b s0 s"
  shows "\<exists>s'. ex_publish_feedback e state progress s = (None, s') \<and> on_track t1 t2 w b s0 s' \<and>
    ex_tick s' = Suc (ex_tick s) \<and> dispatched s' = dispatched s"
  using on_track_observe [OF assms] undisturbedD(4) [OF assms(1)]
  by (auto simp: ex_publish_feedback_def ex_run_hook_def Let_def ex_update_diag_def
      ex_publish_diagnostics_def)

lemma on_track_validation:
  assumes "undisturbed e t1 t2 w" and "on_track t1 t2 w b s0 s"
    and "\<forall>t < ex_tick s + 2 * length steps. xe_now e t < deadline"
  shows "\<exists>s'. validation_steps e g deadline steps s = (Continue, s') \<and> on_track t1 t2 w b s0 s' \<and>
    ex_tick s' = ex_tick s + 2 * length steps \<and> dispatched s' = dispatched s"
  using assms(2,3)
proof (induction steps arbitrary: s)
  case (Cons step steps)
  note env = undisturbedD [OF assms(1)]
  from on_track_feedback [OF assms(1) on_track_observe [OF assms(1) Cons.prems(1)]] obtain s1 where
    s1: "ex_publish_feedback e TASK_VALIDATING (step * 4) (ex_observe e s) = (None, s1)"
      "on_track t1 t2 w b s0 s1" "ex_tick s1 = ex_tick s + 2" "dispatched s1 = dispatched s"
    by fastforce
  from Cons.IH [OF s1(2)] Cons.prems(2) s1(3) obtain s' where
    "validation_steps e g deadline steps s1 = (Continue, s')" "on_track t1 t2 w b s0 s'"
    "ex_tick s' = ex_tick s1 + 2 * length steps" "dispatched s' = dispatched s1"
    by auto
  moreover have "\<not> deadline \<le> xe_now e (ex_tick s)" using Cons.prems(2) by (simp add: not_le)
  ultimately show ?case using s1 env by (simp add: Let_def)
qed simp

lemma on_track_dispatch:
  assumes "undisturbed e t1 t2 w" and "on_track t1 t2 w False s0 s"
    and "3 \<le> ns_to_ms (deadline - xe_now e (ex_tick s))"
    and "map_of (ec_target_arguments cfg) (tg_target_id g) = Some argument"
  shows "\<exists>s' d. dispatch_command cfg e g deadline s = (Continue, s') \<and> on_track t1 t2 w True s0 s' \<and>
    ex_tick s' = ex_tick s + 5 \<and> ex_device_goals s' = ex_device_goals s @ [d] \<and>
    d = make_device_goal cfg g (fst (allocate_command_id (ex_next_command_id s))) argument
      (child_ack_timeout_ms cfg (ns_to_ms (deadline - xe_now e (ex_tick s))))"
proof -
  note env = undisturbedD [OF assms(1)]
  let ?s1 = "ex_observe e s"
  let ?ms = "child_ack_timeout_ms cfg (ns_to_ms (deadline - xe_now e (ex_tick s)))"
  let ?id = "fst (allocate_command_id (ex_next_command_id ?s1))"
  let ?d = "make_device_goal cfg g ?id argument ?ms"
  let ?s3 = "ex_emit_stage cfg g ''can_receive'' (can_receive_extra g ?d ?ms)
    (ex_emit_stage cfg g ''action_execute_end'' ''{}''
      (?s1\<lparr>ex_next_command_id := snd (allocate_command_id (ex_next_command_id ?s1))\<rparr>))"
  have s3: "on_track t1 t2 w False s0 ?s3" "ex_tick ?s3 = Suc (ex_tick s)"
    "ex_device_goals ?s3 = ex_device_goals s" "ex_next_command_id ?s1 = ex_next_command_id s"
    using on_track_observe [OF assms(1,2)] ex_observe_simps(3) [of e s]
    by (auto simp: ex_emit_stage_def dispatched_def)
  from on_track_feedback [OF assms(1) s3(1)] obtain s4 where
    s4: "ex_publish_feedback e TASK_RUNNING 25 ?s3 = (None, s4)" "on_track t1 t2 w False s0 s4"
      "ex_tick s4 = Suc (Suc (ex_tick s))" "ex_device_goals s4 = ex_device_goals s"
    using s3 by (fastforce simp: dispatched_def)
  define s6 where "s6 = (ex_observe e s4)\<lparr>ex_child := (ex_child (ex_observe e s4))\<lparr>cs_dispatch_started := True\<rparr>\<rparr>"
  have s6: "on_track t1 t2 w True s0 s6" "ex_tick s6 = ex_tick s + 3" "ex_device_goals s6 = ex_device_goals s"
    using on_track_observe [OF assms(1) s4(2)] ex_observe_simps(3) [of e s4] s4
    by (auto simp: s6_def on_track_def child_at_def dispatched_def)
  let ?s8 = "ex_observe e ((ex_observe e s6)\<lparr>ex_device_goals := ex_device_goals (ex_observe e s6) @ [?d]\<rparr>)"
  have "dispatch_command cfg e g deadline s = (Continue, ?s8)"
    using assms(3,4) env s4(1)
    by (simp add: dispatch_command_def Let_def ex_run_hook_def s6_def split_beta)
  moreover have "on_track t1 t2 w True s0 ?s8" "ex_tick ?s8 = ex_tick s + 5"
    using s6 by (auto intro!: on_track_observe [OF assms(1)])
  moreover have "ex_device_goals ?s8 = ex_device_goals s @ [?d]"
    using ex_observe_simps(3) [of e s6] s6(3)
      ex_observe_simps(3) [of e "(ex_observe e s6)\<lparr>ex_device_goals := ex_device_goals (ex_observe e s6) @ [?d]\<rparr>"]
    by (simp add: dispatched_def)
  ultimately show ?thesis using s3(4) by simp
qed

lemma on_track_wait:
  assumes "undisturbed e t1 t2 w" and "on_track t1 t2 w b s0 s"
    and "\<forall>t \<le> max (ex_tick s) t1. xe_now e t < deadline"
  shows "\<exists>s'. dispatch_wait e deadline p s = Some (kNone, s') \<and> on_track t1 t2 w b s0 s' \<and>
    t1 < ex_tick s' \<and> ex_tick s' \<le> max (ex_tick s) t1 + 1 \<and> dispatched s' = dispatched s"
  using assms(2,3)
proof (induction "t1 - ex_tick s" arbitrary: s p)
  case 0
  have "on_track t1 t2 w b s0 (ex_observe e s)" by (rule on_track_observe [OF assms(1) 0(2)])
  with 0(1) show ?case
    by (subst dispatch_wait.simps) (auto simp: Let_def on_track_def)
next
  case (Suc n)
  have t: "ex_tick s < t1" using Suc(2) by simp
  have on: "on_track t1 t2 w b s0 (ex_observe e s)" by (rule on_track_observe [OF assms(1) Suc(3)])
  have "\<exists>s'. dispatch_wait e deadline (next_poll p) (ex_observe e s) = Some (kNone, s') \<and>
      on_track t1 t2 w b s0 s' \<and> t1 < ex_tick s' \<and> ex_tick s' \<le> max (ex_tick (ex_observe e s)) t1 + 1 \<and>
      dispatched s' = dispatched (ex_observe e s)"
    by (rule Suc(1)) (use Suc(2,4) on t in auto)
  moreover have "\<not> deadline \<le> xe_now e (ex_tick s)" using Suc(4) by (simp add: not_le)
  ultimately show ?case
    using undisturbedD [OF assms(1)] t on
    by (subst dispatch_wait.simps) (auto simp: Let_def on_track_def)
qed

lemma on_track_record:
  assumes "undisturbed e t1 t2 w" and "on_track t1 t2 w b s0 s"
  shows "record_cancel_timeout cfg e now s = ex_observe e s"
  using on_track_observe [OF assms] by (simp add: record_cancel_timeout_def Let_def on_track_def)

lemma on_track_drain:
  assumes "undisturbed e t1 t2 w" and "on_track t1 t2 w b s0 s"
    and "\<forall>t \<le> max (ex_tick s) (t2 + 3). xe_now e t < deadline"
  shows "\<exists>s'. child_drain cfg e deadline kNone s = Some (DrainTerminal kNone, s') \<and>
    on_track t1 t2 w b s0 s' \<and> t2 < ex_tick s' \<and> ex_tick s' \<le> max (ex_tick s) (t2 + 3) + 1 \<and>
    dispatched s' = dispatched s"
  using assms(2,3)
proof (induction "t2 - ex_tick s" arbitrary: s rule: less_induct)
  case less
  note env = undisturbedD [OF assms(1)] and obs = on_track_observe [OF assms(1)]
  let ?s1 = "ex_observe e s"
  have s1: "on_track t1 t2 w b s0 ?s1" by (rule obs [OF less(2)])
  show ?case
  proof (cases "t2 \<le> ex_tick s")
    case True
    with s1 show ?thesis by (subst child_drain.simps) (auto simp: Let_def on_track_def)
  next
    case False
    let ?s2 = "ex_observe e (ex_observe e ?s1)"
    let ?s4 = "ex_observe e ?s2"
    have s2: "on_track t1 t2 w b s0 ?s2" and s4: "on_track t1 t2 w b s0 ?s4"
      using obs s1 by blast+
    have rec: "\<exists>s'. child_drain cfg e deadline kNone ?s4 = Some (DrainTerminal kNone, s') \<and>
        on_track t1 t2 w b s0 s' \<and> t2 < ex_tick s' \<and> ex_tick s' \<le> max (ex_tick ?s4) (t2 + 3) + 1 \<and>
        dispatched s' = dispatched ?s4"
      by (rule less(1)) (use False s4 less(3) in auto)
    have "\<not> deadline \<le> xe_now e (ex_tick s)" using less(3) by (simp add: not_le)
    then have "child_drain cfg e deadline kNone s = child_drain cfg e deadline kNone ?s4"
      using env False s1 s2 on_track_record [OF assms(1) s1, of cfg]
      by (subst child_drain.simps)
        (simp add: Let_def on_track_def cancel_drain_expired_def drain_interrupt_def)
    with rec False show ?thesis by auto
  qed
qed

text \<open>What an undisturbed task reports for its child's result.\<close>

definition task_terminal :: "wrapped_result \<Rightarrow> goal_terminal" where
  "task_terminal w =
     (case wr_result w of
        None \<Rightarrow> GAborted \<lparr>res_outcome = SAFE_STOP, res_error_code = kErrorUnexpectedChildResult,
                  res_message = ''Device Bridge returned no result''\<rparr>
      | Some r \<Rightarrow>
          if wr_code w = RC_SUCCEEDED \<and> res_outcome r = COMPLETED
          then GSucceeded \<lparr>res_outcome = COMPLETED, res_error_code = 0,
                 res_message = ''task completed through Device Bridge''\<rparr>
          else if res_outcome r = DEVICE_FAULT
          then GAborted \<lparr>res_outcome = DEVICE_FAULT, res_error_code = res_error_code r,
                 res_message = ''device command failed: '' @ res_message r\<rparr>
          else if res_outcome r = SAFE_STOP
          then GAborted \<lparr>res_outcome = SAFE_STOP, res_error_code = res_error_code r,
                 res_message = ''device command entered safe stop: '' @ res_message r\<rparr>
          else GAborted \<lparr>res_outcome = SAFE_STOP, res_error_code = kErrorUnexpectedChildResult,
                 res_message = ''unexpected Device Bridge result''\<rparr>)"

text \<open>The task is over with the result \<open>t\<close> and one event that says so.\<close>

definition reported :: "task_goal \<Rightarrow> goal_terminal \<Rightarrow> executor \<Rightarrow> executor \<Rightarrow> bool" where
  "reported g t s0 s \<longleftrightarrow>
     ex_results s = ex_results s0 @ [t] \<and>
     (\<exists>ev. ex_events s = ex_events s0 @ [ev] \<and> te_outcome ev = res_outcome (terminal_result t) \<and>
        te_error_code ev = res_error_code (terminal_result t) \<and> te_task_id ev = tg_task_id g) \<and>
     ex_parent_terminal s \<and> ex_workers_active s = ex_workers_active s0"

lemma undisturbed_finish:
  assumes "undisturbed e t1 t2 w" and "ex_goal_open s" "\<not> ex_parent_terminal s"
    "\<not> ex_terminal_event_published s"
  shows "\<exists>s'. finish_terminal e g t status (ex_publish_diagnostics e (ex_update_diag f s)) = (None, s') \<and>
    reported g t s s' \<and> ex_device_goals s' = ex_device_goals s"
proof -
  note env = undisturbedD [OF assms(1)]
  have ctl: "ex_parent_terminal (ex_observe e x) = ex_parent_terminal x"
    "ex_terminal_event_published (ex_observe e x) = ex_terminal_event_published x"
    "ex_results (ex_observe e x) = ex_results x" "ex_events (ex_observe e x) = ex_events x"
    "ex_workers_active (ex_observe e x) = ex_workers_active x"
    "ex_device_goals (ex_observe e x) = ex_device_goals x" for x
    using ex_observe_simps(2,3) [of e x] by (simp_all add: ctl_def dispatched_def)
  show ?thesis
    using assms(2-) env
    by (simp add: finish_terminal_def commit_parent_terminal_def reported_def
        publish_terminal_event_once_def ex_run_hook_def ex_publish_diagnostics_def
        ex_update_diag_def make_task_event_def Let_def ctl)
qed

lemma finish_from_child_terminal:
  "\<exists>status f. finish_from_child e g w kNone b x =
     finish_terminal e g (task_terminal w) status (ex_publish_diagnostics e (ex_update_diag f x))"
proof -
  have aborted: "\<exists>status f. ex_finish_aborted e g oc code m x =
      finish_terminal e g (GAborted \<lparr>res_outcome = oc, res_error_code = code, res_message = m\<rparr>) status
        (ex_publish_diagnostics e (ex_update_diag f x))" for oc code m
    unfolding ex_finish_aborted_def Let_def by (intro exI) (rule refl)
  show ?thesis
  proof (cases "wr_result w")
    case None
    with aborted show ?thesis by (simp add: finish_from_child_def task_terminal_def)
  next
    case (Some r)
    note defs = Some finish_from_child_def task_terminal_def
    consider "wr_code w = RC_SUCCEEDED \<and> res_outcome r = COMPLETED"
      | "\<not> (wr_code w = RC_SUCCEEDED \<and> res_outcome r = COMPLETED)" "res_outcome r = DEVICE_FAULT"
      | "\<not> (wr_code w = RC_SUCCEEDED \<and> res_outcome r = COMPLETED)" "res_outcome r \<noteq> DEVICE_FAULT" by blast
    then show ?thesis
    proof cases
      case 1
      then show ?thesis unfolding ex_finish_succeeded_def by (simp add: defs ex_finish_succeeded_def) blast
    next
      case 2
      with aborted show ?thesis by (simp add: defs)
    next
      case 3
      with aborted show ?thesis by (cases "res_outcome r = SAFE_STOP") (auto simp: defs)
    qed
  qed
qed

lemma on_track_settle:
  assumes "undisturbed e t1 t2 w" and "on_track t1 t2 w b s0 s" and "t2 < ex_tick s"
    and "xe_now e (ex_tick s + 3) < deadline"
    and "ex_goal_open s0" "\<not> ex_parent_terminal s0" "\<not> ex_terminal_event_published s0"
  shows "\<exists>s'. settle_terminal cfg e g deadline kNone s = (None, s') \<and>
    reported g (task_terminal w) s0 s' \<and> ex_device_goals s' = ex_device_goals s"
proof -
  note env = undisturbedD [OF assms(1)] and obs = on_track_observe [OF assms(1)]
  let ?s2 = "ex_observe e (ex_observe e s)"
  let ?s4 = "ex_observe e (ex_observe e ?s2)"
  have s2: "on_track t1 t2 w b s0 ?s2" and s4: "on_track t1 t2 w b s0 ?s4"
    using obs assms(2) by blast+
  have early: "\<not> deadline \<le> xe_now e (Suc (Suc (Suc (ex_tick s))))"
    using assms(4) by (simp add: eval_nat_numeral not_le)
  define x where "x = (case wr_result w of
      Some r \<Rightarrow> if wr_code w = RC_SUCCEEDED \<and> res_outcome r = COMPLETED then ?s4 else ?s2
    | None \<Rightarrow> ?s2)"
  have x: "on_track t1 t2 w b s0 x" using s2 s4 by (auto simp: x_def split: option.split)
  have "settle_terminal cfg e g deadline kNone s = finish_from_child e g w kNone False x"
    using env s2 early assms(3) on_track_record [OF assms(1,2), of cfg]
    by (auto simp: settle_terminal_def before_success_def ex_run_hook_def Let_def on_track_def x_def
        split: option.split)
  moreover obtain status f where "finish_from_child e g w kNone False x =
      finish_terminal e g (task_terminal w) status (ex_publish_diagnostics e (ex_update_diag f x))"
    using finish_from_child_terminal by blast
  moreover have "ctl x = ctl s0" using x by (simp add: on_track_def)
  moreover have "ctl ?s4 = ctl s0" "dispatched ?s4 = dispatched s" "dispatched ?s2 = dispatched s"
    using s4 by (simp_all add: on_track_def)
  then have "dispatched x = dispatched s" by (auto simp: x_def split: option.split)
  ultimately show ?thesis
    using undisturbed_finish [OF assms(1), of x g "task_terminal w" status f] assms(5-7)
    by (auto simp: ctl_def dispatched_def reported_def)
qed

lemma undisturbed_worker:
  assumes "undisturbed e t1 t2 w"
    and "ex_child s0 = child_init" and "ex_tick s0 \<le> t1" "ex_tick s0 \<le> t2"
    and "ex_goal_open s0" "\<not> ex_parent_terminal s0" "\<not> ex_terminal_event_published s0"
    and "map_of (ec_target_arguments cfg) (tg_target_id g) = Some argument"
    and "\<forall>t \<le> max t1 t2 + 40. xe_now e t + 3000000 \<le>
      xe_now e (ex_tick s0) + to_steady_duration (tg_allowed_duration g)"
  shows "\<exists>s' d ms. execute_worker cfg e g s0 = Some (None, s') \<and> reported g (task_terminal w) s0 s' \<and>
    ex_device_goals s' = ex_device_goals s0 @ [d] \<and>
    d = make_device_goal cfg g (fst (allocate_command_id (ex_next_command_id s0))) argument
          (child_ack_timeout_ms cfg ms)"
proof -
  define deadline where "deadline = xe_now e (ex_tick s0) + to_steady_duration (tg_allowed_duration g)"
  have early: "xe_now e t + 3000000 \<le> deadline" if "t \<le> max t1 t2 + 40" for t
    using assms(9) that by (simp add: deadline_def)
  then have now: "xe_now e t < deadline" if "t \<le> max t1 t2 + 40" for t using that by fastforce
  note obs = on_track_observe [OF assms(1)]
  let ?s1 = "ex_emit_stage cfg g ''action_execute_start'' ''{}'' (ex_observe e s0)"
  have "on_track t1 t2 w False s0 s0" using assms(2-4)
    by (simp add: on_track_def child_at_def child_init_def)
  from obs [OF this] have s1: "on_track t1 t2 w False s0 ?s1" "ex_tick ?s1 = Suc (ex_tick s0)"
    by (simp_all add: ex_emit_stage_def)
  from on_track_validation [OF assms(1) s1(1), of "[1, 2, 3, 4, 5]" deadline g] obtain s2 where
    s2: "validation_steps e g deadline [1, 2, 3, 4, 5] ?s1 = (Continue, s2)"
      "on_track t1 t2 w False s0 s2" "ex_tick s2 = ex_tick s0 + 11"
      "dispatched s2 = dispatched ?s1"
    using now assms(3) s1(2) by auto
  have "3 \<le> ns_to_ms (deadline - xe_now e (ex_tick s2))"
  proof -
    have "ex_tick s2 \<le> max t1 t2 + 40" using assms(3) s2(3) by simp
    with early have "3000000 \<le> deadline - xe_now e (ex_tick s2)" by fastforce
    from ns_to_ms_mono [OF this] show ?thesis by (simp add: ns_to_ms_def [of 3000000])
  qed
  from on_track_dispatch [OF assms(1) s2(2) this assms(8)] obtain s3 d ms where
    s3: "dispatch_command cfg e g deadline s2 = (Continue, s3)" "on_track t1 t2 w True s0 s3"
      "ex_tick s3 = ex_tick s0 + 16" "ex_device_goals s3 = ex_device_goals s2 @ [d]"
      "d = make_device_goal cfg g (fst (allocate_command_id (ex_next_command_id s2))) argument
         (child_ack_timeout_ms cfg ms)" using s2(3) by auto
  from on_track_wait [OF assms(1) s3(2), of deadline 5] obtain s4 where
    s4: "dispatch_wait e deadline 5 s3 = Some (kNone, s4)" "on_track t1 t2 w True s0 s4"
      "t1 < ex_tick s4" "ex_tick s4 \<le> max t1 t2 + 17" "dispatched s4 = dispatched s3"
    using now s3(3) assms(3) by fastforce
  define s5 where "s5 = ex_observe e (ex_observe e s4)"
  have s5: "on_track t1 t2 w True s0 s5" "ex_tick s5 = ex_tick s4 + 2" "dispatched s5 = dispatched s4"
    using obs s4(2) by (auto simp: s5_def)
  from on_track_feedback [OF assms(1) s5(1), of TASK_WAITING_ACK 50] obtain s6 where
    s6: "ex_publish_feedback e TASK_WAITING_ACK 50 s5 = (None, s6)" "on_track t1 t2 w True s0 s6"
      "ex_tick s6 = ex_tick s4 + 3" "dispatched s6 = dispatched s5" using s5(2) by auto
  from on_track_drain [OF assms(1) s6(2), of deadline cfg] obtain s7 where
    s7: "child_drain cfg e deadline kNone s6 = Some (DrainTerminal kNone, s7)"
      "on_track t1 t2 w True s0 s7" "t2 < ex_tick s7" "ex_tick s7 \<le> max t1 t2 + 21" "dispatched s7 = dispatched s6"
    using now s6(3) s4(4) by fastforce
  have "xe_now e (ex_tick s7 + 3) < deadline" using now s7(4) by simp
  from on_track_settle [OF assms(1) s7(2,3) this assms(5-7), of cfg g] obtain s' where
    s': "settle_terminal cfg e g deadline kNone s7 = (None, s')" "reported g (task_terminal w) s0 s'"
      "ex_device_goals s' = ex_device_goals s7" by auto
  have "run_accepted_child cfg e g deadline kNone (ex_observe e s4) = Some (None, s')"
    using s6(1) s7(1) s'(1) undisturbedD(4) [OF assms(1)]
    by (simp add: run_accepted_child_def ex_run_hook_def s5_def)
  moreover have "cs_handle (ex_child (ex_observe e s4))"
    using obs [OF s4(2)] s4(3) by (simp add: on_track_def)
  ultimately have "await_child cfg e g deadline kNone s4 = Some (None, s')"
    using undisturbedD(1,2) [OF assms(1)] by (simp add: await_child_def Let_def)
  then have "execute_worker cfg e g s0 = Some (None, s')"
    unfolding execute_worker_def Let_def deadline_def [symmetric] s2(1)
    by (simp add: s3(1) s4(1))
  moreover have "dispatched ?s1 = dispatched s0" by (simp add: ex_emit_stage_def)
  with s2(4) s3(4,5) s4(5) s5(3) s6(4) s7(5) s'(3) have
    "ex_device_goals s' = ex_device_goals s0 @ [d]"
    "d = make_device_goal cfg g (fst (allocate_command_id (ex_next_command_id s0))) argument
       (child_ack_timeout_ms cfg ms)"
    by (simp_all add: dispatched_def)
  ultimately show ?thesis using s'(2) by blast
qed

lemma target_has_argument:
  assumes "executor_configure targets args opcode ack cancel delay depth period log = Inr cfg"
    and "is_known (ec_targets cfg) t"
  shows "\<exists>argument. map_of (ec_target_arguments cfg) t = Some argument"
proof -
  from assms have "t \<in> set targets" "length targets = length args"
    by (auto simp: executor_configure_def target_validator_new_def is_known_def Let_def
        split: if_splits sum.splits)
  then have "t \<in> fst ` set (zip targets (map word_of_int args))"
    by (metis length_map list.set_map map_fst_zip)
  moreover have "ec_target_arguments cfg = zip targets (map word_of_int args)"
    using assms(1) by (auto simp: executor_configure_def split: if_splits sum.splits)
  ultimately show ?thesis by (metis map_of_eq_None_iff not_None_eq)
qed

lemma undisturbed_task:
  assumes "executor_configure targets args opcode ack cancel delay depth period log = Inr cfg"
    and "executor_handle_goal cfg True True uuid g s0 = (ACCEPT_AND_EXECUTE, s1)"
    and "undisturbed e t1 t2 w"
    and "ex_tick s0 < t1" "ex_tick s0 < t2"
    and "\<forall>t \<le> max t1 t2 + 40. xe_now e t + 3000000 \<le>
      xe_now e (Suc (ex_tick s0)) + to_steady_duration (tg_allowed_duration g)"
  shows "\<exists>s2 ev d argument ms. executor_handle_accepted cfg e g s1 = Some s2 \<and>
    ex_results s2 = ex_results s0 @ [task_terminal w] \<and> ex_events s2 = ex_events s0 @ [ev] \<and>
    te_outcome ev = res_outcome (terminal_result (task_terminal w)) \<and>
    te_error_code ev = res_error_code (terminal_result (task_terminal w)) \<and> te_task_id ev = tg_task_id g \<and>
    ex_device_goals s2 = ex_device_goals s0 @ [d] \<and> dg_argument d = argument \<and>
    d = make_device_goal cfg g (fst (allocate_command_id (ex_next_command_id s0))) argument
      (child_ack_timeout_ms cfg ms) \<and>
    map_of (ec_target_arguments cfg) (tg_target_id g) = Some argument \<and>
    \<not> ex_active_goal s2 \<and> ex_workers_active s2 = ex_workers_active s0"
proof -
  have s1: "is_known (ec_targets cfg) (tg_target_id g)" "ex_tick s1 = ex_tick s0"
    "ex_results s1 = ex_results s0" "ex_events s1 = ex_events s0"
    "ex_device_goals s1 = ex_device_goals s0" "ex_workers_active s1 = ex_workers_active s0"
    "ex_next_command_id s1 = ex_next_command_id s0"
    using assms(2) by (auto simp: executor_handle_goal_def split: if_splits)
  from target_has_argument [OF assms(1) s1(1)] obtain argument where
    arg: "map_of (ec_target_arguments cfg) (tg_target_id g) = Some argument" ..
  define s where "s = (accepted_state cfg e g s1)\<lparr>ex_child := child_init\<rparr>"
  have s: "ex_child s = child_init" "ex_tick s = Suc (ex_tick s0)" "ex_goal_open s" "\<not> ex_parent_terminal s"
    "\<not> ex_terminal_event_published s" "ex_results s = ex_results s0" "ex_events s = ex_events s0"
    "ex_device_goals s = ex_device_goals s0" "ex_workers_active s = Suc (ex_workers_active s0)"
    "ex_next_command_id s = ex_next_command_id s0"
    using accepted_state_simps(9) [of cfg e g s1] s1 by (simp_all add: s_def accepted_state_simps fresh_def)
  have "\<forall>t \<le> max t1 t2 + 40. xe_now e t + 3000000 \<le>
      xe_now e (ex_tick s) + to_steady_duration (tg_allowed_duration g)"
    using assms(6) by (simp add: s(2))
  from undisturbed_worker [OF assms(3) s(1) _ _ s(3-5) arg this] assms(4,5) s(2) obtain s' d ms where
    run: "execute_worker cfg e g s = Some (None, s')" "reported g (task_terminal w) s s'"
    and d: "ex_device_goals s' = ex_device_goals s0 @ [d]"
      "d = make_device_goal cfg g (fst (allocate_command_id (ex_next_command_id s0))) argument
        (child_ack_timeout_ms cfg ms)"
    unfolding s by auto
  from run(2) obtain ev where s': "ex_results s' = ex_results s0 @ [task_terminal w]"
      "ex_events s' = ex_events s0 @ [ev]" "te_outcome ev = res_outcome (terminal_result (task_terminal w))"
      "te_error_code ev = res_error_code (terminal_result (task_terminal w))" "te_task_id ev = tg_task_id g"
      "ex_parent_terminal s'" "ex_workers_active s' = Suc (ex_workers_active s0)"
    unfolding reported_def s by auto
  have "dg_argument d = argument" by (simp add: d(2) make_device_goal_def)
  moreover have "executor_handle_accepted cfg e g s1 = Some (release_guards s')"
    by (simp add: executor_handle_accepted_eq ex_execute_def run(1) [unfolded s_def])
  ultimately show ?thesis using s' d arg
    by (intro exI [of _ "release_guards s'"] exI [of _ ev] exI [of _ d] exI [of _ argument] exI [of _ ms])
      (simp add: release_guards_def)
qed

section \<open>Properties\<close>

text \<open>C11. An undisturbed task succeeds. When a configured executor accepts a goal, nothing cancels, stops or
  throws, the child action accepts the command and reports SUCCEEDED and COMPLETED,
  and all this happens 3 ms before the task's deadline, then the task ends with the one result
  COMPLETED and one event that says so, after the one command for its target, and the
  executor is free again. The callbacks may come at any two instants after the task started.
\<close>

theorem executor_completes_undisturbed_task:
  assumes "executor_configure targets args opcode ack cancel delay depth period log = Inr cfg"
    and "executor_handle_goal cfg True True uuid g s0 = (ACCEPT_AND_EXECUTE, s1)"
    and "undisturbed e t1 t2 w" "wr_code w = RC_SUCCEEDED" "wr_result w = Some r" "res_outcome r = COMPLETED"
    and "ex_tick s0 < t1" "ex_tick s0 < t2"
    and "\<forall>t \<le> max t1 t2 + 40. xe_now e t + 3000000 \<le>
      xe_now e (Suc (ex_tick s0)) + to_steady_duration (tg_allowed_duration g)"
  shows "\<exists>s2 ev d argument. executor_handle_accepted cfg e g s1 = Some s2 \<and>
    ex_results s2 = ex_results s0 @ [GSucceeded \<lparr>res_outcome = COMPLETED, res_error_code = 0,
      res_message = ''task completed through Device Bridge''\<rparr>] \<and>
    ex_events s2 = ex_events s0 @ [ev] \<and> te_outcome ev = COMPLETED \<and> te_task_id ev = tg_task_id g \<and>
    ex_device_goals s2 = ex_device_goals s0 @ [d] \<and> dg_argument d = argument \<and>
    map_of (ec_target_arguments cfg) (tg_target_id g) = Some argument \<and>
    \<not> ex_active_goal s2 \<and> ex_workers_active s2 = ex_workers_active s0"
proof -
  have "task_terminal w = GSucceeded \<lparr>res_outcome = COMPLETED, res_error_code = 0,
      res_message = ''task completed through Device Bridge''\<rparr>"
    using assms(4-6) by (simp add: task_terminal_def)
  with undisturbed_task [OF assms(1-3,7-9)] show ?thesis by auto
qed

theorem executor_completes_undisturbed_task_witness:
  "\<exists>s2 d. executor_handle_accepted sample_exec_config sample_exec_env sample_task
       ((executor_init 1)\<lparr>ex_active_goal := True, ex_goal_id := ''g''\<rparr>) = Some s2 \<and>
     ex_results s2 = [GSucceeded \<lparr>res_outcome = COMPLETED, res_error_code = 0,
       res_message = ''task completed through Device Bridge''\<rparr>] \<and>
     ex_device_goals s2 = [d] \<and> dg_argument d = 42 \<and> \<not> ex_active_goal s2"
proof -
  let ?w = "\<lparr>wr_code = RC_SUCCEEDED, wr_result = Some \<lparr>res_outcome = COMPLETED, res_error_code = 0,
      res_message = ''ok''\<rparr>\<rparr>"
  have goal: "executor_handle_goal sample_exec_config True True ''g'' sample_task (executor_init 1) =
      (ACCEPT_AND_EXECUTE, (executor_init 1)\<lparr>ex_active_goal := True, ex_goal_id := ''g''\<rparr>)" by code_simp
  have env: "undisturbed sample_exec_env 20 30 ?w"
    unfolding undisturbed_def by (auto simp: sample_exec_env_def)
  have arg: "map_of (ec_target_arguments sample_exec_config) (tg_target_id sample_task) = Some 42"
    by code_simp
  have time: "\<forall>t \<le> max 20 30 + 40. xe_now sample_exec_env t + 3000000 \<le>
      xe_now sample_exec_env (Suc (ex_tick (executor_init 1))) +
      to_steady_duration (tg_allowed_duration sample_task)"
    by (simp add: sample_exec_env_def executor_init_def sample_task_def to_steady_duration_def)
  have tick: "ex_tick (executor_init 1) < 20" "ex_tick (executor_init 1) < 30"
    by (simp_all add: executor_init_def)
  from executor_completes_undisturbed_task [OF sample_config goal env _ _ _ tick time] arg
  show ?thesis by (auto simp: executor_init_def)
qed

end
