(* ===== verification/Workflow_Trees.thy ===== *)
theory Workflow_Trees
  imports Orchestrator_Runs
begin

text \<open>
  \<open>config/workflows.xml\<close>: the two behaviour trees the orchestrator runs, and what it does with
  them. Both are a \<open>Sequence\<close> of a readiness check and the task. The tree library stays a
  parameter of the environment; here it is bound by what its manual says of a \<open>Sequence\<close>: a tick
  goes on from the child that was running, runs the next child as long as they succeed, and
  returns the first other status; halting calls \<open>onHalted\<close> on a running leaf and starts nothing.
  Two things follow: no task is sent before the runtime was seen ready, and an undisturbed
  workflow sends one task and succeeds with its result.
\<close>

section \<open>The trees\<close>

datatype tree_node = RuntimeReady | RetryReady u32 u32 | ExecuteTask

definition workflow_tree :: "string \<Rightarrow> tree_node list" where
  "workflow_tree workflow_id =
     (if workflow_id = ''single_task'' then [RuntimeReady, ExecuteTask]
      else if workflow_id = ''ready_then_task'' then [RetryReady 2 100, ExecuteTask]
      else [])"

text \<open>The call that starts a leaf and the one that continues a running leaf. A \<open>ConditionNode\<close>
  never runs.\<close>

primrec start_call :: "tree_node \<Rightarrow> leaf_call" where
  "start_call RuntimeReady = RuntimeReadyTick"
| "start_call (RetryReady attempts delay_ms) = RetryReadyStart attempts delay_ms"
| "start_call ExecuteTask = ExecuteTaskStart"

fun resume_call :: "leaf_call \<Rightarrow> leaf_call" where
  "resume_call (RetryReadyStart attempts delay_ms) = RetryReadyRunning"
| "resume_call ExecuteTaskStart = ExecuteTaskRunning"
| "resume_call l = l"

section \<open>The library's Sequence\<close>

text \<open>
  One tick over the calls that are due: the leaves called and the status returned. When a leaf
  throws, the tick does too and nobody reads the status.
\<close>

primrec sequence_tick ::
  "orch_config \<Rightarrow> orch_env \<Rightarrow> leaf_call list \<Rightarrow> orchestrator \<Rightarrow> leaf_call list \<times> node_status" where
  "sequence_tick cfg e [] s = ([], BT_SUCCESS)"
| "sequence_tick cfg e (l # due) s =
     (case run_leaf cfg e l s of
        Some (Inr BT_SUCCESS, s1) \<Rightarrow> apfst ((#) l) (sequence_tick cfg e due s1)
      | Some (Inr status, _) \<Rightarrow> ([l], status)
      | _ \<Rightarrow> ([l], BT_FAILURE))"

text \<open>What is due after a tick that called \<open>ls\<close> and is still running.\<close>

definition sequence_resume :: "leaf_call list \<Rightarrow> leaf_call list \<Rightarrow> leaf_call list" where
  "sequence_resume due ls = resume_call (last ls) # drop (length ls) due"

text \<open>The ticks of a run of \<open>orch_loop\<close> from \<open>s0\<close>: what is due and the state the tree is ticked in.\<close>

inductive tree_ticked ::
  "orch_config \<Rightarrow> orch_env \<Rightarrow> tree_node list \<Rightarrow> orchestrator \<Rightarrow> leaf_call list \<Rightarrow> orchestrator \<Rightarrow> bool"
  for cfg e tree s0
where
  first_tick: "tree_ticked cfg e tree s0 (map start_call tree) (or_observe e s0)"
| next_tick:
    "tree_ticked cfg e tree s0 due s \<Longrightarrow> sequence_tick cfg e due s = (ls, BT_RUNNING) \<Longrightarrow>
     run_leaves cfg e ls s = Some (None, s1) \<Longrightarrow> or_publish_feedback e s1 = (None, s2) \<Longrightarrow>
     oe_now e (or_tick s2) < ws_deadline (or_workflow s2) \<Longrightarrow>
     tree_ticked cfg e tree s0 (sequence_resume due ls) (or_observe e (or_observe e s2))"

definition library_runs_sequence :: "orch_config \<Rightarrow> orch_env \<Rightarrow> tree_node list \<Rightarrow> orchestrator \<Rightarrow> bool" where
  "library_runs_sequence cfg e tree s0 \<longleftrightarrow>
     (\<forall>due s. tree_ticked cfg e tree s0 due s \<longrightarrow>
        oe_tick_tree e (or_tick s) = sequence_tick cfg e due s) \<and>
     (\<forall>t. set (oe_halt_tree e t) \<subseteq> {ExecuteTaskHalted})"

text \<open>The state the loop of an accepted workflow starts in.\<close>

definition workflow_start :: "workflow_goal \<Rightarrow> orchestrator \<Rightarrow> orchestrator" where
  "workflow_start g s =
     (started s)\<lparr>or_workflow := workflow_state_new g (or_active_deadline s)\<rparr>"

lemma workflow_start_simps [simp]:
  "or_tick (workflow_start g s) = or_tick s" "or_ready (workflow_start g s) = or_ready s"
  "or_child_goals (workflow_start g s) = or_child_goals s"
  "ws_deadline (or_workflow (workflow_start g s)) = or_active_deadline s"
  by (simp_all add: workflow_start_def started_def workflow_state_new_def)

section \<open>Readiness as the callbacks leave it\<close>

primrec hear_ready :: "orch_event \<Rightarrow> ready_state \<Rightarrow> ready_state" where
  "hear_ready (ReadyMessage ready at) r = ready_update ready at r"
| "hear_ready (TaskResponse handle) r = r"
| "hear_ready (TaskLateCancelDone err) r = r"
| "hear_ready (TaskFeedback progress) r = r"
| "hear_ready (TaskResult result) r = r"
| "hear_ready CancelRequest r = r"
| "hear_ready CancelVisible r = r"

definition readiness :: "orch_env \<Rightarrow> ready_state \<Rightarrow> nat \<Rightarrow> nat \<Rightarrow> ready_state" where
  "readiness e r a b = fold (\<lambda>t. fold hear_ready (oe_events e t)) [a..<b] r"

lemma readiness_Suc:
  "a \<le> b \<Longrightarrow> readiness e r a (Suc b) = fold hear_ready (oe_events e b) (readiness e r a b)"
  by (simp add: readiness_def)

lemma or_observe_ready: "or_ready (or_observe e s) = fold hear_ready (oe_events e (or_tick s)) (or_ready s)"
proof -
  have "or_ready (orch_callback ev s) = hear_ready ev (or_ready s)" for ev s
    by (cases ev) (auto simp: Let_def orch_handle_cancel_def)
  then have "or_ready (fold orch_callback evs s) = fold hear_ready evs (or_ready s)" for evs s
    by (induction evs arbitrary: s) simp_all
  then show ?thesis by (simp add: or_observe_def)
qed

definition ready_tracked :: "orch_env \<Rightarrow> orchestrator \<Rightarrow> orchestrator \<Rightarrow> bool" where
  "ready_tracked e s0 s \<longleftrightarrow>
     or_tick s0 \<le> or_tick s \<and> or_ready s = readiness e (or_ready s0) (or_tick s0) (or_tick s) \<and>
     ws_deadline (or_workflow s) = ws_deadline (or_workflow s0)"

lemma ready_tracked_refl: "ready_tracked e s s"
  by (simp add: ready_tracked_def readiness_def)

lemma ready_tracked_observe [intro]: "ready_tracked e s0 s \<Longrightarrow> ready_tracked e s0 (or_observe e s)"
  by (simp add: ready_tracked_def or_observe_ready readiness_Suc)

lemma ready_tracked_update [simp]:
  "ready_tracked e s0 (s\<lparr>or_retry := n\<rparr>) = ready_tracked e s0 s"
  "ready_tracked e s0 (s\<lparr>or_feedback := f\<rparr>) = ready_tracked e s0 s"
  "ready_tracked e s0 (s\<lparr>or_child_goals := gs\<rparr>) = ready_tracked e s0 s"
  "ready_tracked e s0 (or_set_workflow (ws_mark nd v) s) = ready_tracked e s0 s"
  by (simp_all add: ready_tracked_def or_set_workflow_def ws_mark_def)

text \<open>The runtime was seen ready at tick \<open>t\<close>, and later the child \<open>c\<close> got its budget.\<close>

definition ready_before :: "orch_config \<Rightarrow> orch_env \<Rightarrow> orchestrator \<Rightarrow> task_goal \<Rightarrow> bool" where
  "ready_before cfg e s0 c \<longleftrightarrow>
     (\<exists>t t'. or_tick s0 \<le> t \<and> t < t' \<and>
        ready_usable (oe_now e t) (oc_ready_stale_ms cfg)
          (readiness e (or_ready s0) (or_tick s0) (Suc t)) \<and>
        to_steady_duration (tg_allowed_duration c) = ws_deadline (or_workflow s0) - oe_now e t')"

definition seen_ready :: "orch_config \<Rightarrow> orch_env \<Rightarrow> orchestrator \<Rightarrow> orchestrator \<Rightarrow> bool" where
  "seen_ready cfg e s0 s \<longleftrightarrow>
     (\<exists>t. or_tick s0 \<le> t \<and> t < or_tick s \<and>
        ready_usable (oe_now e t) (oc_ready_stale_ms cfg)
          (readiness e (or_ready s0) (or_tick s0) (Suc t)))"

lemma seen_readyI:
  assumes "ready_tracked e s0 s"
    and "ready_usable (oe_now e (or_tick s)) (oc_ready_stale_ms cfg) (or_ready (or_observe e s))"
    and "or_tick s < or_tick s'"
  shows "seen_ready cfg e s0 s'"
  using assms ready_tracked_observe [OF assms(1)]
  unfolding seen_ready_def ready_tracked_def by (intro exI [of _ "or_tick s"]) simp

text \<open>At most one child goal, and that one after the runtime was seen ready.\<close>

definition task_gated :: "orch_config \<Rightarrow> orch_env \<Rightarrow> orchestrator \<Rightarrow> orchestrator \<Rightarrow> bool" where
  "task_gated cfg e s0 s \<longleftrightarrow>
     or_child_goals s = or_child_goals s0 \<or>
     (\<exists>c. or_child_goals s = or_child_goals s0 @ [c] \<and> ready_before cfg e s0 c)"

lemma task_gated_cong: "or_child_goals s = or_child_goals s' \<Longrightarrow>
   task_gated cfg e s0 s = task_gated cfg e s0 s'"
  by (simp add: task_gated_def)

section \<open>What leaves the child goals alone\<close>

lemma or_observe_child_goal [simp]:
  "ws_child_goal (or_workflow (or_observe e s)) = ws_child_goal (or_workflow s)"
proof -
  have "ws_child_goal (or_workflow (orch_callback ev x)) = ws_child_goal (or_workflow x)" for ev x
    by (cases ev) (auto simp: Let_def orch_handle_cancel_def ws_mark_def)
  then have "ws_child_goal (or_workflow (fold orch_callback evs x)) = ws_child_goal (or_workflow x)" for evs x
    by (induction evs arbitrary: x) simp_all
  then show ?thesis by (simp add: or_observe_def)
qed

lemma or_dispatch_cancel_goals: "or_child_goals (snd (or_dispatch_cancel e s)) = or_child_goals s"
  by (simp add: or_dispatch_cancel_def Let_def)

lemma mark_timeout_goals: "or_child_goals (mark_timeout e P s) = or_child_goals s"
  by (simp add: mark_timeout_def Let_def)

lemma halt_cancel_loop_goals:
  "halt_cancel_loop e d s = Some x \<Longrightarrow> or_child_goals (snd x) = or_child_goals s"
proof (induction rule: halt_cancel_loop.raw_induct [rotated 1, consumes 1, case_names step])
  case (step hl e d s x)
  obtain ok s1 where dc: "or_dispatch_cancel e (or_set_workflow (\<lambda>w. w\<lparr>ws_cancel_in_flight := True\<rparr>) s) = (ok, s1)"
    by fastforce
  have "or_child_goals s1 = or_child_goals s"
    using or_dispatch_cancel_goals [of e "or_set_workflow (\<lambda>w. w\<lparr>ws_cancel_in_flight := True\<rparr>) s"] dc
    by simp
  with step.hyps dc show ?case by (auto simp: Let_def dest!: step.IH split: if_splits)
qed

lemma execute_task_halted_goals:
  "execute_task_halted cfg e s = Some s' \<Longrightarrow> or_child_goals s' = or_child_goals s"
  by (auto simp: execute_task_halted_def Let_def mark_timeout_goals
      dest!: halt_cancel_loop_goals split: if_splits option.splits bool.splits)

lemma halting_goals:
  assumes "run_leaves cfg e ls s = Some (r, s')" and "set ls \<subseteq> {ExecuteTaskHalted}"
  shows "or_child_goals s' = or_child_goals s"
  using assms
  by (induction ls arbitrary: s) (auto split: option.splits dest!: execute_task_halted_goals)

lemma try_transition_goals: "or_child_goals (snd (try_transition e p t s)) = or_child_goals s"
  by (simp add: try_transition_def Let_def split: option.split)

lemma commit_terminal_goals: "or_child_goals (snd (commit_terminal e t s)) = or_child_goals s"
  using try_transition_goals [of e kBeforeTerminalTransition t s]
    try_transition_goals [of e kBeforeFallbackAbort fallback_terminal
      "snd (try_transition e kBeforeTerminalTransition t s)\<lparr>or_fallback_attempted := True\<rparr>"]
  by (auto simp: commit_terminal_def Let_def split: prod.splits bool.splits)

lemma orch_terminal_goals: "or_child_goals (snd (orch_terminal e oc code m kind s)) = or_child_goals s"
  by (simp add: orch_terminal_def Let_def commit_terminal_goals)

lemma orch_finish_goals: "or_child_goals (orch_finish e s) = or_child_goals s"
  by (simp add: orch_finish_def Let_def orch_terminal_goals split: option.split)

lemmas goals_kept = orch_terminal_goals orch_finish_goals deadline_terminal_def

lemma halt_then_goals:
  assumes "halt_then cfg e k s = Some (r, s')" and "\<And>t. set (oe_halt_tree e t) \<subseteq> {ExecuteTaskHalted}"
    and "\<And>s. or_child_goals (k s) = or_child_goals s"
  shows "or_child_goals s' = or_child_goals s"
  using assms by (auto simp: halt_then_def split: option.splits dest!: halting_goals)

section \<open>The gate\<close>

definition gate_call :: "leaf_call \<Rightarrow> bool" where
  "gate_call l \<longleftrightarrow>
     (case l of RuntimeReadyTick \<Rightarrow> True | RetryReadyStart a d \<Rightarrow> True | RetryReadyRunning \<Rightarrow> True
      | _ \<Rightarrow> False)"

lemma gate_leaf:
  assumes "run_leaf cfg e l s = Some (r, s1)" and "gate_call l" and t: "ready_tracked e s0 s"
  shows "ready_tracked e s0 s1 \<and> or_child_goals s1 = or_child_goals s \<and>
    (r = Inr BT_SUCCESS \<longrightarrow> seen_ready cfg e s0 s1) \<and> (\<exists>st. r = Inr st)"
proof -
  have t1: "ready_tracked e s0 (or_observe e s)" and t2: "ready_tracked e s0 (or_observe e (or_observe e s))"
    and t3: "ready_tracked e s0 (or_observe e (or_observe e (or_observe e s)))"
    using t by auto
  note seen = seen_readyI [OF t] seen_readyI [OF t1]
  show ?thesis
  proof (cases l)
    case RuntimeReadyTick
    with assms(1) t1 show ?thesis by (auto simp: runtime_ready_tick_def Let_def intro!: seen(1) split: if_splits)
  next
    case (RetryReadyStart a d)
    with assms(1) t1 t2 show ?thesis
      by (auto simp: retry_ready_start_def Let_def intro!: seen(1) split: if_splits)
  next
    case RetryReadyRunning
    with assms(1) t1 t2 t3 show ?thesis
      by (auto simp: retry_ready_running_def Let_def intro!: seen(2) split: if_splits)
  qed (use assms(2) in \<open>simp_all add: gate_call_def\<close>)
qed

lemma task_start_gated:
  assumes "execute_task_start e s = (r, s1)" and "ready_tracked e s0 s" and "seen_ready cfg e s0 s"
    and "or_child_goals s = or_child_goals s0"
  shows "ready_tracked e s0 s1 \<and> task_gated cfg e s0 s1"
proof -
  define s2 where "s2 = or_observe e (or_set_workflow (ws_mark ''ExecuteTask'' 0x3E800000) s)"
  have t2: "ready_tracked e s0 s2" using assms(2) by (auto simp: s2_def)
  have d: "ws_deadline (or_workflow s2) = ws_deadline (or_workflow s0)"
    using t2 by (simp add: ready_tracked_def)
  have g2: "or_child_goals s2 = or_child_goals s0" using assms(4) by (simp add: s2_def)
  have eq: "execute_task_start e s =
      (case child_budget (ws_deadline (or_workflow s0) - oe_now e (or_tick s)) of
         None \<Rightarrow> (Inr BT_FAILURE, s2)
       | Some b \<Rightarrow>
           let s3 = or_set_workflow (\<lambda>w. w\<lparr>ws_child_goal := (ws_child_goal w)\<lparr>tg_allowed_duration := b\<rparr>,
                 ws_child_goal_dispatched := True\<rparr>) s2;
               s4 = or_observe e s3
           in case oe_send_goal e (or_tick s3) of
                Some err \<Rightarrow> (Inl err, s4)
              | None \<Rightarrow> (Inr BT_RUNNING,
                  s4\<lparr>or_child_goals := or_child_goals s4 @ [ws_child_goal (or_workflow s4)]\<rparr>))"
    using d unfolding execute_task_start_def Let_def s2_def [symmetric] by simp
  show ?thesis
  proof (cases "child_budget (ws_deadline (or_workflow s0) - oe_now e (or_tick s))")
    case None
    with assms(1) t2 g2 show ?thesis by (simp add: eq task_gated_def)
  next
    case (Some b)
    note dur = child_budget_valid [OF Some, THEN conjunct2]
    define s3 where "s3 = or_set_workflow (\<lambda>w. w\<lparr>ws_child_goal := (ws_child_goal w)\<lparr>tg_allowed_duration := b\<rparr>,
      ws_child_goal_dispatched := True\<rparr>) s2"
    define s4 where "s4 = or_observe e s3"
    have t3: "ready_tracked e s0 s3" using t2 by (simp add: s3_def ready_tracked_def or_set_workflow_def)
    then have t4: "ready_tracked e s0 s4" by (auto simp: s4_def)
    have c4: "tg_allowed_duration (ws_child_goal (or_workflow s4)) = b"
      by (simp add: s4_def s3_def)
    have g4: "or_child_goals s4 = or_child_goals s0" using g2 by (simp add: s4_def s3_def)
    from assms(3) dur c4 have "ready_before cfg e s0 (ws_child_goal (or_workflow s4))"
      unfolding seen_ready_def ready_before_def by blast
    with assms(1) t4 g4 Some show ?thesis
      unfolding eq Let_def by (auto simp: s3_def [symmetric] s4_def [symmetric] task_gated_def
        simp del: or_set_workflow_simps split: option.splits)
  qed
qed

text \<open>What is due, and what has been sent by then.\<close>

definition gate_phase ::
  "orch_config \<Rightarrow> orch_env \<Rightarrow> orchestrator \<Rightarrow> leaf_call list \<Rightarrow> orchestrator \<Rightarrow> bool" where
  "gate_phase cfg e s0 due s \<longleftrightarrow>
     ready_tracked e s0 s \<and>
     ((\<exists>l. due = [l, ExecuteTaskStart] \<and> gate_call l) \<and> or_child_goals s = or_child_goals s0 \<or>
      due = [ExecuteTaskRunning] \<and> task_gated cfg e s0 s)"

lemma gate_phase_observe [intro]: "gate_phase cfg e s0 due s \<Longrightarrow> gate_phase cfg e s0 due (or_observe e s)"
  using task_gated_cong [of "or_observe e s" s] by (auto simp: gate_phase_def)

lemma gate_phase_gated: "gate_phase cfg e s0 due s \<Longrightarrow> task_gated cfg e s0 s"
  by (auto simp: gate_phase_def task_gated_def)

lemma gate_phase_feedback:
  "or_publish_feedback e s = (r, s') \<Longrightarrow> gate_phase cfg e s0 due s \<Longrightarrow> gate_phase cfg e s0 due s'"
  using gate_phase_observe [of cfg e s0 due s] task_gated_cong [of s' "or_observe e s"]
  by (auto simp: or_publish_feedback_def gate_phase_def Let_def split: option.splits)

lemma execute_task_start_status:
  "execute_task_start e s = (Inr st, s1) \<Longrightarrow> st = BT_FAILURE \<or> st = BT_RUNNING"
  by (auto simp: execute_task_start_def Let_def split: option.splits)

lemma gate_tick:
  assumes "gate_phase cfg e s0 due s" and "sequence_tick cfg e due s = (ls, st)"
    and "run_leaves cfg e ls s = Some (r, s1)"
  shows "task_gated cfg e s0 s1 \<and>
    (r = None \<and> st = BT_RUNNING \<longrightarrow> gate_phase cfg e s0 (sequence_resume due ls) s1)"
proof (cases "due = [ExecuteTaskRunning]")
  case True
  obtain st' s' where x: "execute_task_running e s = (st', s')" by fastforce
  have "s' = or_observe e s" using x by (auto simp: execute_task_running_def Let_def split: option.splits if_splits)
  moreover have "ls = [ExecuteTaskRunning]" "s1 = s'"
    using assms(2,3) True x by (auto split: node_status.splits)
  ultimately show ?thesis
    using gate_phase_observe [OF assms(1)] gate_phase_gated [of cfg e s0 due "or_observe e s"] True
    by (simp add: sequence_resume_def)
next
  case False
  with assms(1) obtain l where due: "due = [l, ExecuteTaskStart]" and l: "gate_call l"
    and t: "ready_tracked e s0 s" and g: "or_child_goals s = or_child_goals s0"
    by (auto simp: gate_phase_def)
  from assms(2,3) due obtain r1 s2 where leaf: "run_leaf cfg e l s = Some (r1, s2)"
    by (auto split: option.splits sum.splits node_status.splits)
  from gate_leaf [OF leaf l t] obtain st1 where st1: "r1 = Inr st1" and t2: "ready_tracked e s0 s2"
    and g2: "or_child_goals s2 = or_child_goals s0" and seen: "st1 = BT_SUCCESS \<longrightarrow> seen_ready cfg e s0 s2"
    using g by auto
  show ?thesis
  proof (cases "st1 = BT_SUCCESS")
    case no: False
    with due leaf st1 have "sequence_tick cfg e due s = ([l], st1)" by (cases st1) simp_all
    with assms(2) have ls: "ls = [l]" and "st = st1" by simp_all
    moreover have "s1 = s2" using assms(3) leaf st1 unfolding ls by simp
    moreover have "gate_call (resume_call l)" using l by (cases l) (simp_all add: gate_call_def)
    ultimately show ?thesis using t2 g2 due
      by (simp add: gate_phase_def task_gated_def sequence_resume_def)
  next
    case True
    obtain r2 s3 where start: "execute_task_start e s2 = (r2, s3)" by fastforce
    from task_start_gated [OF start t2 _ g2] seen True have t3: "ready_tracked e s0 s3" "task_gated cfg e s0 s3"
      by simp_all
    have "sequence_tick cfg e due s = ([l, ExecuteTaskStart], case r2 of Inl err \<Rightarrow> BT_FAILURE | Inr st2 \<Rightarrow> st2)"
    proof (cases r2)
      case (Inl err)
      then show ?thesis using due leaf st1 True start by simp
    next
      case (Inr st2)
      with start have "st2 = BT_FAILURE \<or> st2 = BT_RUNNING" by (simp add: execute_task_start_status)
      with Inr show ?thesis using due leaf st1 True start by auto
    qed
    with assms(2) have ls: "ls = [l, ExecuteTaskStart]" by simp
    have "s1 = s3" using assms(3) leaf st1 start unfolding ls by (cases r2) simp_all
    then show ?thesis using t3 ls due by (simp add: gate_phase_def sequence_resume_def)
  qed
qed

section \<open>The loop\<close>

lemma halt_then_gated:
  assumes "halt_then cfg e k s = Some x" and "library_runs_sequence cfg e tree s0"
    and "task_gated cfg e s0 s" and "\<And>s. or_child_goals (k s) = or_child_goals s"
  shows "task_gated cfg e s0 (snd x)"
proof -
  obtain r s' where x: "x = (r, s')" by fastforce
  have "or_child_goals s' = or_child_goals s"
    using assms(1) x by (intro halt_then_goals [of cfg e k s r s'])
      (use assms(2,4) in \<open>auto simp: library_runs_sequence_def\<close>)
  with assms(3) x show ?thesis using task_gated_cong [of s' s] by simp
qed

lemma orch_loop_gated:
  "orch_loop cfg e s = Some x \<Longrightarrow> library_runs_sequence cfg e tree s0 \<Longrightarrow>
     tree_ticked cfg e tree s0 due (or_observe e s) \<Longrightarrow> gate_phase cfg e s0 due s \<Longrightarrow>
     task_gated cfg e s0 (snd x)"
proof (induction arbitrary: due rule: orch_loop.raw_induct [rotated 1, consumes 1, case_names step])
  case (step ol cfg e s x)
  let ?t = "or_tick s" and ?s = "or_observe e s"
  note lib = step.prems(1) and ticked = step.prems(2)
  have ph: "gate_phase cfg e s0 due ?s" using step.prems(3) ..
  note halt = halt_then_gated [OF _ lib]
  obtain leaves status where tree: "oe_tick_tree e (or_tick ?s) = (leaves, status)" by fastforce
  from lib ticked have "oe_tick_tree e (or_tick ?s) = sequence_tick cfg e due ?s"
    unfolding library_runs_sequence_def by blast
  with tree have seq: "sequence_tick cfg e due ?s = (leaves, status)" by simp
  show ?case
  proof (cases "(\<not> oe_running e ?t \<or> \<not> oe_ok e ?t) \<or> or_canceling ?s \<or>
      ws_deadline (or_workflow ?s) \<le> oe_now e ?t")
    case True
    with step.hyps obtain k where "halt_then cfg e k ?s = Some x"
      and "\<And>s. or_child_goals (k s) = or_child_goals s"
      by (auto simp: Let_def goals_kept split: if_splits)
    then show ?thesis using gate_phase_gated [OF ph] by (intro halt)
  next
    case False
    with step.hyps tree obtain r s1 where l: "run_leaves cfg e leaves ?s = Some (r, s1)"
      by (auto simp: Let_def split: option.splits)
    note tick = gate_tick [OF ph seq l]
    show ?thesis
    proof (cases r)
      case (Some err)
      with step.hyps False tree l have "x = (Some err, s1)" by (simp add: Let_def)
      with tick show ?thesis by simp
    next
      case r: None
      obtain f s2 where fb: "or_publish_feedback e s1 = (f, s2)" by fastforce
      have "or_child_goals s2 = or_child_goals s1"
        using fb by (auto simp: or_publish_feedback_def Let_def split: option.splits)
      then have g2: "task_gated cfg e s0 s2" using tick task_gated_cong [of s2 s1] by simp
      show ?thesis
      proof (cases f)
        case (Some err)
        with step.hyps False tree l r fb have "x = (Some err, s2)" by (simp add: Let_def)
        with g2 show ?thesis by simp
      next
        case f: None
        with step.hyps False tree l r fb
        have rest: "(if ws_deadline (or_workflow s2) \<le> oe_now e (or_tick s2)
            then halt_then cfg e (deadline_terminal e) s2
            else if status \<noteq> BT_RUNNING then Some (None, orch_finish e s2)
            else ol cfg e (or_observe e s2)) = Some x" by (simp add: Let_def)
        consider "halt_then cfg e (deadline_terminal e) s2 = Some x" | "x = (None, orch_finish e s2)"
          | "ol cfg e (or_observe e s2) = Some x" "status = BT_RUNNING"
            "oe_now e (or_tick s2) < ws_deadline (or_workflow s2)"
          using rest by (metis option.inject linorder_not_le)
        then show ?thesis
        proof cases
          case 1
          then show ?thesis by (rule halt [OF _ g2]) (simp add: goals_kept)
        next
          case 2
          then show ?thesis using g2 task_gated_cong [of "orch_finish e s2" s2] by (simp add: goals_kept)
        next
          case 3
          have "tree_ticked cfg e tree s0 (sequence_resume due leaves) (or_observe e (or_observe e s2))"
            using next_tick [OF ticked] seq 3 l r fb f by blast
          moreover have "gate_phase cfg e s0 (sequence_resume due leaves) (or_observe e s2)"
            using tick r 3 fb by (auto intro: gate_phase_feedback)
          ultimately show ?thesis by (rule step.IH [OF 3(1) lib])
        qed
      qed
    qed
  qed
qed

lemma run_worker_gated:
  assumes "run_worker cfg e generation g s = Some s'" and "library_runs_sequence cfg e tree s0"
    and "s0 = s\<lparr>or_workflow := workflow_state_new g (or_active_deadline s)\<rparr>"
    and "gate_phase cfg e s0 (map start_call tree) s0"
  shows "task_gated cfg e s0 s'"
proof -
  from assms(1) obtain r s1 where x: "orch_execute cfg e g s = Some (r, s1)"
    by (auto simp: run_worker_def split: option.splits)
  have g1: "task_gated cfg e s0 s1"
  proof (cases "oe_create_tree e")
    case None
    with x assms(3) have "orch_loop cfg e s0 = Some (r, s1)" by (simp add: orch_execute_def)
    from orch_loop_gated [OF this assms(2) first_tick assms(4)] show ?thesis by simp
  next
    case (Some err)
    with x assms(3) have "s1 = s0" by (simp add: orch_execute_def)
    then show ?thesis by (simp add: task_gated_def)
  qed
  have "or_child_goals s' = or_child_goals s1"
  proof (cases r)
    case None
    with assms(1) x show ?thesis by (auto simp: run_worker_def)
  next
    case (Some err)
    with assms(1) x obtain r2 s2 where l: "run_leaves cfg e (oe_halt_tree e (or_tick s1)) s1 = Some (r2, s2)"
      and s': "or_child_goals s' = or_child_goals s2"
      by (auto simp: run_worker_def goals_kept split: option.splits)
    have "set (oe_halt_tree e (or_tick s1)) \<subseteq> {ExecuteTaskHalted}"
      using assms(2) by (simp add: library_runs_sequence_def)
    with halting_goals [OF l] s' show ?thesis by simp
  qed
  with g1 show ?thesis using task_gated_cong [of s' s1] by simp
qed

lemma accepted_gate_phase:
  assumes "orch_handle_goal acc still now g s = (ACCEPT_AND_EXECUTE, s1)"
  shows "gate_phase cfg e (workflow_start g s1) (map start_call (workflow_tree (wg_workflow_id g)))
    (workflow_start g s1)"
proof -
  have "wg_workflow_id g = ''single_task'' \<or> wg_workflow_id g = ''ready_then_task''"
    using assms by (auto simp: orch_handle_goal_def Let_def split: if_splits)
  then show ?thesis
    by (auto simp: gate_phase_def workflow_tree_def gate_call_def ready_tracked_refl)
qed

lemma workflow_gated:
  assumes "orch_handle_goal acc still now g s = (ACCEPT_AND_EXECUTE, s1)"
    and "orch_handle_accepted cfg e g s1 = Some s'"
    and "library_runs_sequence cfg e (workflow_tree (wg_workflow_id g)) (workflow_start g s1)"
  shows "task_gated cfg e (workflow_start g s1) s'"
proof -
  have "run_worker cfg e (or_active_generation s1) g (started s1) = Some s'"
    using assms(2) by (simp add: orch_handle_accepted_def started_def)
  from run_worker_gated [OF this assms(3) _ accepted_gate_phase [OF assms(1)]] show ?thesis
    by (simp add: workflow_start_def started_def)
qed

section \<open>A sample run of the single task tree\<close>

definition sequence_env :: orch_env where
  "sequence_env = sample_orch_env\<lparr>
     oe_events := (\<lambda>t. if t = 0 then [ReadyMessage True 0] else if t = 3 then [TaskResponse True]
       else if t = 4 then [TaskResult \<lparr>wr_code = RC_SUCCEEDED, wr_result = Some \<lparr>res_outcome = COMPLETED,
         res_error_code = 0, res_message = ''task completed through Device Bridge''\<rparr>\<rparr>] else []),
     oe_tick_tree := (\<lambda>t. if t = 1 then ([RuntimeReadyTick, ExecuteTaskStart], BT_RUNNING)
                          else ([ExecuteTaskRunning], BT_SUCCESS))\<rparr>"

definition sequence_first :: orchestrator where
  "sequence_first = or_observe sequence_env (workflow_start sample_workflow sample_started)"

definition sequence_second :: orchestrator where
  "sequence_second =
     (case run_leaves sample_orch_config sequence_env [RuntimeReadyTick, ExecuteTaskStart] sequence_first of
        Some (None, s) \<Rightarrow> or_observe sequence_env (or_observe sequence_env
          (snd (or_publish_feedback sequence_env s)))
      | _ \<Rightarrow> sequence_first)"

lemma sequence_sample:
  "sequence_tick sample_orch_config sequence_env [RuntimeReadyTick, ExecuteTaskStart] sequence_first =
     ([RuntimeReadyTick, ExecuteTaskStart], BT_RUNNING)"
  "sequence_tick sample_orch_config sequence_env [ExecuteTaskRunning] sequence_second =
     ([ExecuteTaskRunning], BT_SUCCESS)"
  "or_tick sequence_first = 1" "or_tick sequence_second = 7"
  by code_simp+

lemma sequence_library:
  "library_runs_sequence sample_orch_config sequence_env (workflow_tree (wg_workflow_id sample_workflow))
     (workflow_start sample_workflow sample_started)"
proof -
  have first: "map start_call (workflow_tree (wg_workflow_id sample_workflow)) =
      [RuntimeReadyTick, ExecuteTaskStart]"
    by (simp add: workflow_tree_def sample_workflow_def)
  have ticks: "(due, s) = ([RuntimeReadyTick, ExecuteTaskStart], sequence_first) \<or>
      (due, s) = ([ExecuteTaskRunning], sequence_second)"
    if "tree_ticked sample_orch_config sequence_env (workflow_tree (wg_workflow_id sample_workflow))
      (workflow_start sample_workflow sample_started) due s" for due s
    using that
  proof induction
    case first_tick
    show ?case unfolding first sequence_first_def [symmetric] by simp
  next
    case (next_tick due s ls s1 s2)
    from next_tick.IH next_tick.hyps(2) have due: "due = [RuntimeReadyTick, ExecuteTaskStart]"
      and s: "s = sequence_first" and ls: "ls = [RuntimeReadyTick, ExecuteTaskStart]"
      by (auto simp: sequence_sample(1,2) simp del: sequence_tick.simps)
    then show ?case using next_tick.hyps(3,4)
      by (simp add: sequence_second_def sequence_resume_def del: run_leaves.simps)
  qed
  have "oe_tick_tree sequence_env (or_tick s) = sequence_tick sample_orch_config sequence_env due s"
    if "tree_ticked sample_orch_config sequence_env (workflow_tree (wg_workflow_id sample_workflow))
      (workflow_start sample_workflow sample_started) due s" for due s
    using ticks [OF that]
    by (auto simp: sequence_sample simp del: sequence_tick.simps) (simp_all add: sequence_env_def)
  moreover have "set (oe_halt_tree sequence_env t) \<subseteq> {ExecuteTaskHalted}" for t
    by (simp add: sequence_env_def sample_orch_env_def)
  ultimately show ?thesis unfolding library_runs_sequence_def by blast
qed

lemma sequence_run:
  "map_option (\<lambda>s. (or_results s, map tg_allowed_duration (or_child_goals s)))
     (orch_handle_accepted sample_orch_config sequence_env sample_workflow sample_started) =
   Some ([GSucceeded \<lparr>res_outcome = COMPLETED, res_error_code = 0,
            res_message = ''task completed through Device Bridge''\<rparr>],
         [\<lparr>dur_sec = 4, dur_nanosec = 980000000\<rparr>])"
  by code_simp

section \<open>Properties\<close>

text \<open>C16. No task is sent before the runtime was seen ready, in both workflows, and never more than
  one. For every tree library that runs a \<open>Sequence\<close> as its manual says, every interleaving of
  callbacks and every exception: an accepted workflow sends no child goal, or exactly one, and
  then the readiness messages heard until some tick \<open>t\<close> of its run said ready and were at most
  \<open>ready_stale_ms\<close> old at that tick, and the child's budget was taken from the workflow's deadline
  at a later tick.
\<close>

theorem workflow_sends_task_only_when_ready:
  assumes "orch_handle_goal acc still now g s = (ACCEPT_AND_EXECUTE, s1)"
    and "orch_handle_accepted cfg e g s1 = Some s'"
    and "library_runs_sequence cfg e (workflow_tree (wg_workflow_id g)) (workflow_start g s1)"
  shows "or_child_goals s' = or_child_goals s \<or>
    (\<exists>c t t'. or_child_goals s' = or_child_goals s @ [c] \<and> or_tick s1 \<le> t \<and> t < t' \<and>
       ready_usable (oe_now e t) (oc_ready_stale_ms cfg)
         (readiness e (or_ready s1) (or_tick s1) (Suc t)) \<and>
       to_steady_duration (tg_allowed_duration c) = or_active_deadline s1 - oe_now e t')"
  using workflow_gated [OF assms] orch_handle_goal_accepts [OF assms(1)]
  unfolding task_gated_def ready_before_def by auto

theorem workflow_sends_task_only_when_ready_witness:
  "\<exists>s' c t. orch_handle_accepted sample_orch_config sequence_env sample_workflow sample_started = Some s' \<and>
     or_child_goals s' = [c] \<and> tg_allowed_duration c = \<lparr>dur_sec = 4, dur_nanosec = 980000000\<rparr> \<and>
     ready_usable (oe_now sequence_env t) 2000
       (readiness sequence_env (or_ready sample_started) (or_tick sample_started) (Suc t))"
proof -
  from sequence_run obtain s' c where s': "orch_handle_accepted sample_orch_config sequence_env
      sample_workflow sample_started = Some s'"
    and c: "or_child_goals s' = [c]" "tg_allowed_duration c = \<lparr>dur_sec = 4, dur_nanosec = 980000000\<rparr>"
    by (auto simp: map_eq_Cons_conv)
  have "or_child_goals sample_orchestrator = []" by (simp add: sample_orchestrator_def)
  with workflow_sends_task_only_when_ready [OF sample_workflow_accepted s' sequence_library] s' c
  show ?thesis by (auto simp: sample_orch_config_def)
qed

end
