(* ===== verification/Workflow_Success.thy ===== *)
theory Workflow_Success
  imports Workflow_Trees
begin

text \<open>
  An undisturbed workflow reports its task's result. When the runtime is ready at the first tick,
  nobody cancels, the child task is accepted and reports before the deadline, and the tree library
  runs its \<open>Sequence\<close>, both workflows send exactly one task and end with what
  \<open>workflow_terminal\<close> makes of the task's own result.
\<close>

section \<open>An undisturbed environment\<close>

text \<open>The child's result \<open>r\<close> arrives at tick \<open>done\<close>; the deadline is still ahead twelve ticks later.\<close>

definition calm :: "orch_env \<Rightarrow> int \<Rightarrow> int \<Rightarrow> nat \<Rightarrow> wrapped_result \<Rightarrow> bool" where
  "calm e started_at deadline done r \<longleftrightarrow>
     (\<forall>t. oe_running e t \<and> oe_ok e t \<and> started_at \<le> oe_now e t) \<and>
     (\<forall>t \<le> done + 12. oe_now e t < deadline) \<and>
     oe_create_tree e = None \<and> (\<forall>t. oe_send_goal e t = None \<and> oe_feedback e t = None) \<and>
     orch_transitions_ok e \<and> TaskResult r \<in> set (oe_events e done) \<and>
     (\<forall>t. \<forall>ev \<in> set (oe_events e t). ev \<noteq> CancelRequest \<and> ev \<noteq> TaskResponse False \<and>
        (\<forall>r'. ev = TaskResult r' \<longrightarrow> r' = r \<and> t = done))"

definition quiet_event :: "wrapped_result \<Rightarrow> orch_event \<Rightarrow> bool" where
  "quiet_event r ev \<longleftrightarrow>
     ev \<noteq> CancelRequest \<and> ev \<noteq> TaskResponse False \<and> (\<forall>r'. ev = TaskResult r' \<longrightarrow> r' = r)"

text \<open>The state as a calm run leaves it, but for the child's result.\<close>

definition undisturbed_state :: "orchestrator \<Rightarrow> orchestrator \<Rightarrow> bool" where
  "undisturbed_state s0 s \<longleftrightarrow>
     octl s = octl s0 \<and> ws_deadline (or_workflow s) = or_active_deadline s0 \<and>
     \<not> or_canceling s \<and> \<not> or_cancel_accepted s \<and> or_child_cancels s = or_child_cancels s0 \<and>
     (ws_goal_response_received (or_workflow s) \<longrightarrow> ws_child_handle (or_workflow s)) \<and>
     \<not> ws_halt_requested (or_workflow s) \<and> \<not> ws_late_cancel (or_workflow s)"

definition on_course :: "nat \<Rightarrow> wrapped_result \<Rightarrow> orchestrator \<Rightarrow> orchestrator \<Rightarrow> bool" where
  "on_course done r s0 s \<longleftrightarrow>
     undisturbed_state s0 s \<and>
     ws_child_result (or_workflow s) = (if done < or_tick s then Some r else None)"

lemma quiet_callback:
  assumes "undisturbed_state s0 s" and "quiet_event r ev"
  shows "undisturbed_state s0 (orch_callback ev s)"
    and "ws_child_result (or_workflow (orch_callback ev s)) =
      (if ev = TaskResult r then Some r else ws_child_result (or_workflow s))"
  using assms
  by (cases ev; auto simp: undisturbed_state_def quiet_event_def Let_def ws_mark_def)+

lemma quiet_callbacks:
  assumes "undisturbed_state s0 s" and "\<And>ev. ev \<in> set evs \<Longrightarrow> quiet_event r ev"
  shows "undisturbed_state s0 (fold orch_callback evs s) \<and>
    ws_child_result (or_workflow (fold orch_callback evs s)) =
      (if TaskResult r \<in> set evs then Some r else ws_child_result (or_workflow s))"
  using assms
proof (induction evs arbitrary: s)
  case (Cons ev evs)
  note one = quiet_callback [OF Cons.prems(1) Cons.prems(2) [of ev]]
  from Cons.IH [of "orch_callback ev s"] Cons.prems(2) one show ?case by auto
qed simp

lemma on_course_observe:
  assumes "calm e started_at d done r" and "on_course done r s0 s"
  shows "on_course done r s0 (or_observe e s)"
proof -
  let ?evs = "oe_events e (or_tick s)"
  have "quiet_event r ev" if "ev \<in> set ?evs" for ev
    using assms(1) that unfolding calm_def quiet_event_def by blast
  moreover have "undisturbed_state s0 (s\<lparr>or_tick := Suc (or_tick s)\<rparr>)"
    using assms(2) by (simp add: on_course_def undisturbed_state_def)
  ultimately have "undisturbed_state s0 (or_observe e s)"
    and res: "ws_child_result (or_workflow (or_observe e s)) =
      (if TaskResult r \<in> set ?evs then Some r else ws_child_result (or_workflow s))"
    using quiet_callbacks [of s0 "s\<lparr>or_tick := Suc (or_tick s)\<rparr>" ?evs r] by (simp_all add: or_observe_def)
  moreover have "TaskResult r \<in> set ?evs \<longleftrightarrow> or_tick s = done"
    using assms(1) unfolding calm_def by metis
  ultimately show ?thesis using assms(2) by (auto simp: on_course_def)
qed

lemma on_course_update [simp]:
  "on_course done r s0 (s\<lparr>or_retry := n\<rparr>) = on_course done r s0 s"
  "on_course done r s0 (s\<lparr>or_feedback := f\<rparr>) = on_course done r s0 s"
  "on_course done r s0 (s\<lparr>or_child_goals := gs\<rparr>) = on_course done r s0 s"
  "on_course done r s0 (or_set_workflow (ws_mark nd v) s) = on_course done r s0 s"
  "on_course done r s0 (or_set_workflow (\<lambda>w. w\<lparr>ws_child_goal := (ws_child_goal w)\<lparr>tg_allowed_duration := b\<rparr>,
     ws_child_goal_dispatched := c\<rparr>) s) = on_course done r s0 s"
  by (simp_all add: on_course_def undisturbed_state_def or_set_workflow_def ws_mark_def)

section \<open>The leaves\<close>

lemma ready_gate_opens:
  assumes "l = RuntimeReadyTick \<or> l = RetryReadyStart a d" and "calm e started_at dl done r"
    and "on_course done r s0 s"
    and "ready_usable (oe_now e (or_tick s)) (oc_ready_stale_ms cfg) (or_ready (or_observe e s))"
  obtains s' where "run_leaf cfg e l s = Some (Inr BT_SUCCESS, s')" and "on_course done r s0 s'"
    and "or_tick s' = Suc (or_tick s)" and "or_child_goals s' = or_child_goals s"
  using assms on_course_observe [OF assms(2,3)] that
  by (auto simp: runtime_ready_tick_def retry_ready_start_def Let_def)

lemma child_budget_fits:
  assumes "0 < remaining" and "remaining < (INT32_MAX + 1) * 1000000000"
  shows "child_budget remaining \<noteq> None"
  using assms by (auto simp: child_budget_def dest!: zdiv_mono1 [of _ _ 1000000000])

lemma task_starts:
  assumes "calm e started_at (or_active_deadline s0) done r" and "on_course done r s0 s"
    and "or_tick s \<le> done + 12" and "or_active_deadline s0 < started_at + (INT32_MAX + 1) * 1000000000"
  obtains s' c where "execute_task_start e s = (Inr BT_RUNNING, s')" and "on_course done r s0 s'"
    and "or_tick s' = or_tick s + 2" and "or_child_goals s' = or_child_goals s @ [c]"
    and "to_steady_duration (tg_allowed_duration c) = or_active_deadline s0 - oe_now e (or_tick s)"
proof -
  define s2 where "s2 = or_observe e (or_set_workflow (ws_mark ''ExecuteTask'' 0x3E800000) s)"
  have o2: "on_course done r s0 s2" and t2: "or_tick s2 = Suc (or_tick s)" and g2: "or_child_goals s2 = or_child_goals s"
    using on_course_observe [OF assms(1)] assms(2) by (simp_all add: s2_def)
  then have d: "ws_deadline (or_workflow s2) = or_active_deadline s0"
    by (simp add: on_course_def undisturbed_state_def)
  have "oe_now e (or_tick s) < or_active_deadline s0" "started_at \<le> oe_now e (or_tick s)"
    using assms(1,3) by (simp_all add: calm_def)
  with assms(4) have "child_budget (or_active_deadline s0 - oe_now e (or_tick s)) \<noteq> None"
    by (intro child_budget_fits) auto
  then obtain b where b: "child_budget (or_active_deadline s0 - oe_now e (or_tick s)) = Some b" by blast
  define s3 where "s3 = or_set_workflow (\<lambda>w. w\<lparr>ws_child_goal := (ws_child_goal w)\<lparr>tg_allowed_duration := b\<rparr>,
    ws_child_goal_dispatched := True\<rparr>) s2"
  define s4 where "s4 = or_observe e s3"
  have o3: "on_course done r s0 s3" using o2 by (simp add: s3_def)
  have o4: "on_course done r s0 s4" using on_course_observe [OF assms(1) o3] by (simp add: s4_def)
  have send: "oe_send_goal e t = None" for t using assms(1) by (simp add: calm_def)
  have "execute_task_start e s = (Inr BT_RUNNING,
      s4\<lparr>or_child_goals := or_child_goals s4 @ [ws_child_goal (or_workflow s4)]\<rparr>)"
    using d b send unfolding execute_task_start_def Let_def s2_def [symmetric]
    by (simp add: s4_def s3_def)
  moreover have "or_tick s4 = or_tick s + 2" "or_child_goals s4 = or_child_goals s"
    using t2 g2 by (simp_all add: s4_def s3_def)
  moreover have "tg_allowed_duration (ws_child_goal (or_workflow s4)) = b" by (simp add: s4_def s3_def)
  ultimately show ?thesis using that o4 child_budget_valid [OF b] by simp
qed

text \<open>What an undisturbed workflow reports for its task's result.\<close>

definition workflow_terminal :: "wrapped_result \<Rightarrow> goal_terminal" where
  "workflow_terminal r =
     (case wr_result r of
        None \<Rightarrow> terminal_of kAbort SAFE_STOP kErrorPrecondition ''workflow precondition failed''
      | Some res \<Rightarrow>
          if res_outcome res = COMPLETED \<and> wr_code r = RC_SUCCEEDED then GSucceeded res
          else if res_outcome res = CANCELED
          then terminal_of kAbort SAFE_STOP kErrorInternal ''child canceled without parent cancellation''
          else GAborted res)"

lemma task_leaf_runs:
  assumes "calm e started_at d done r" and "on_course done r s0 s"
  obtains st where "execute_task_running e s = (st, or_observe e s)"
    and "st = BT_RUNNING \<longleftrightarrow> \<not> done < Suc (or_tick s)"
  using on_course_observe [OF assms] that
  by (auto simp: execute_task_running_def Let_def on_course_def undisturbed_state_def split: option.splits if_splits)

lemma calm_feedback:
  assumes "calm e started_at d done r" and "on_course done r s0 s"
  obtains s' where "or_publish_feedback e s = (None, s')" and "on_course done r s0 s'"
    and "or_tick s' = Suc (or_tick s)" and "or_child_goals s' = or_child_goals s"
  using assms on_course_observe [OF assms] that by (auto simp: or_publish_feedback_def calm_def Let_def)

section \<open>The end\<close>

text \<open>The workflow is over with the result \<open>t\<close>.\<close>

definition ended_with :: "goal_terminal \<Rightarrow> orchestrator \<Rightarrow> orchestrator \<Rightarrow> bool" where
  "ended_with t s0 s \<longleftrightarrow>
     or_results s = or_results s0 @ [t] \<and> or_child_cancels s = or_child_cancels s0 \<and>
     \<not> or_active s \<and> \<not> or_transition_failed s"

lemma on_course_fields:
  assumes "on_course done r s0 s" and "orch_fresh s0"
  shows "or_goal_open s" "\<not> or_terminal_started s" "\<not> or_terminal_reserved s"
    "\<not> or_transition_failed s" "or_results s = or_results s0" "\<not> or_cancel_accepted s"
    "or_active_deadline s = or_active_deadline s0" "or_child_cancels s = or_child_cancels s0"
    "\<not> or_canceling s"
  using assms octl_eqD [of s s0] by (auto simp: on_course_def undisturbed_state_def orch_fresh_def)

lemma reserved_observe:
  assumes "calm e started_at d done r" and "undisturbed_state s0 s"
  shows "undisturbed_state s0 (or_observe e s)"
proof -
  have "undisturbed_state s0 (fold orch_callback (oe_events e (or_tick s)) (s\<lparr>or_tick := Suc (or_tick s)\<rparr>))"
  proof (rule quiet_callbacks [THEN conjunct1])
    show "undisturbed_state s0 (s\<lparr>or_tick := Suc (or_tick s)\<rparr>)"
      using assms(2) by (simp add: undisturbed_state_def)
    show "quiet_event r ev" if "ev \<in> set (oe_events e (or_tick s))" for ev
      using assms(1) that unfolding calm_def quiet_event_def by blast
  qed
  then show ?thesis by (simp add: or_observe_def)
qed

lemma calm_commits:
  assumes "calm e started_at d done r" and "undisturbed_state s0 s"
    and "or_goal_open s" and "\<not> or_transition_failed s" and "or_results s = or_results s0"
  shows "ended_with t s0 (snd (commit_terminal e t s))"
proof -
  let ?s1 = "or_observe e s" let ?s2 = "or_observe e ?s1"
  have "undisturbed_state s0 ?s2" using assms(1,2) by (intro reserved_observe)
  moreover have "orch_transitions_ok e" using assms(1) by (simp add: calm_def)
  ultimately show ?thesis using assms
    by (simp add: commit_terminal_def try_transition_def orch_transitions_ok_def Let_def ended_with_def
        undisturbed_state_def release_active_for_generation_def or_observe_octl)
qed

lemma calm_terminal:
  assumes "calm e started_at (or_active_deadline s0) done r" and "on_course done r s0 s" and "orch_fresh s0"
    and "or_tick s \<le> done + 11"
  shows "ended_with (terminal_of kind oc code m) s0 (snd (orch_terminal e oc code m kind s))"
proof -
  define s1 where "s1 = s\<lparr>or_terminal_started := True\<rparr>"
  define s2 where "s2 = (if kind = kSucceed then or_observe e s1 else s1)"
  define s3 where "s3 = or_observe e s2"
  note f = on_course_fields [OF assms(2,3)]
  have s3: "\<not> or_terminal_reserved s3" "or_active_deadline s3 = or_active_deadline s0"
    "or_goal_open s3" "\<not> or_transition_failed s3" "or_results s3 = or_results s0"
    using f by (simp_all add: s3_def s2_def s1_def or_observe_octl)
  have "undisturbed_state (s0\<lparr>or_terminal_started := True\<rparr>) s1"
    using assms(2) by (simp add: s1_def on_course_def undisturbed_state_def octl_def)
  then have quiet: "undisturbed_state (s0\<lparr>or_terminal_started := True\<rparr>) s3"
    by (auto simp: s3_def s2_def intro!: reserved_observe [OF assms(1)])
  then have "\<not> or_cancel_accepted s3" by (simp add: undisturbed_state_def)
  moreover have "or_tick s2 \<le> done + 12" using assms(4) by (simp add: s2_def s1_def)
  then have "oe_now e (or_tick s2) < or_active_deadline s0" using assms(1) by (simp add: calm_def)
  ultimately have decide: "decide_terminal kind oc code m (oe_now e (or_tick s2)) s3 = terminal_of kind oc code m"
    using s3 by (simp add: decide_terminal_def)
  have fin: "snd (orch_terminal e oc code m kind s) =
      snd (commit_terminal e (terminal_of kind oc code m) (s3\<lparr>or_terminal_reserved := True\<rparr>))"
    using f s3 decide
    by (simp add: orch_terminal_def Let_def s1_def [symmetric] s2_def [symmetric] s3_def [symmetric])
  have "undisturbed_state (s0\<lparr>or_terminal_started := True, or_terminal_reserved := True\<rparr>)
      (s3\<lparr>or_terminal_reserved := True\<rparr>)"
    using quiet by (simp add: undisturbed_state_def octl_def)
  then have "ended_with (terminal_of kind oc code m)
      (s0\<lparr>or_terminal_started := True, or_terminal_reserved := True\<rparr>) (snd (orch_terminal e oc code m kind s))"
    unfolding fin using s3 by (intro calm_commits [OF assms(1)]) simp_all
  then show ?thesis by (simp add: ended_with_def)
qed

lemma calm_finish:
  assumes "calm e started_at (or_active_deadline s0) done r" and "on_course done r s0 s" and "orch_fresh s0"
    and "done < or_tick s" and "or_tick s \<le> done + 10"
  shows "ended_with (workflow_terminal r) s0 (orch_finish e s)"
proof -
  define s1 where "s1 = or_observe e s"
  have o1: "on_course done r s0 s1" using on_course_observe [OF assms(1,2)] by (simp add: s1_def)
  have t1: "or_tick s1 \<le> done + 11" using assms(5) by (simp add: s1_def)
  note terminal = calm_terminal [OF assms(1) o1 assms(3) t1]
  have child: "ws_child_result (or_workflow s1) = Some r"
    using o1 assms(4) by (simp add: on_course_def s1_def)
  have going: "\<not> or_canceling s" using on_course_fields [OF assms(2,3)] by simp
  have same: "terminal_of kSucceed (res_outcome x) (res_error_code x) (res_message x) = GSucceeded x"
    "terminal_of kAbort (res_outcome x) (res_error_code x) (res_message x) = GAborted x" for x
    by (simp_all add: terminal_of_def)
  show ?thesis
    using terminal [of kSucceed] terminal [of kAbort] child going same
    by (cases "wr_result r") (auto simp: orch_finish_def Let_def s1_def [symmetric] workflow_terminal_def
      simp flip: same)
qed

section \<open>The loop\<close>

lemma running_loop_ends:
  assumes calm: "calm e started_at (or_active_deadline s0) done r" and fresh: "orch_fresh s0"
    and lib: "library_runs_sequence cfg e tree s0'"
  shows "on_course done r s0 s \<Longrightarrow> or_tick s \<le> done + 6 \<Longrightarrow>
    tree_ticked cfg e tree s0' [ExecuteTaskRunning] (or_observe e s) \<Longrightarrow>
    \<exists>s'. orch_loop cfg e s = Some (None, s') \<and> ended_with (workflow_terminal r) s0 s' \<and> or_child_goals s' = or_child_goals s"
proof (induction "done + 6 - or_tick s" arbitrary: s rule: less_induct)
  case less
  let ?s = "or_observe e s" let ?s1 = "or_observe e ?s"
  have o: "on_course done r s0 ?s" by (rule on_course_observe [OF calm less.prems(1)])
  have o1: "on_course done r s0 ?s1" by (rule on_course_observe [OF calm o])
  note f = on_course_fields [OF o fresh]
  obtain st where leaf: "execute_task_running e ?s = (st, ?s1)"
    and st: "st = BT_RUNNING \<longleftrightarrow> \<not> done < Suc (or_tick ?s)"
    using task_leaf_runs [OF calm o] by blast
  then have seq: "sequence_tick cfg e [ExecuteTaskRunning] ?s = ([ExecuteTaskRunning], st)"
    by (cases st) simp_all
  with lib less.prems(3) have tree: "oe_tick_tree e (or_tick ?s) = ([ExecuteTaskRunning], st)"
    unfolding library_runs_sequence_def by metis
  have leaves: "run_leaves cfg e [ExecuteTaskRunning] ?s = Some (None, ?s1)" using leaf by simp
  obtain s2 where fb: "or_publish_feedback e ?s1 = (None, s2)" and o2: "on_course done r s0 s2"
    and t2: "or_tick s2 = Suc (or_tick ?s1)" and g2: "or_child_goals s2 = or_child_goals ?s1"
    using calm_feedback [OF calm o1] by blast
  have time: "oe_running e t \<and> oe_ok e t" "t \<le> done + 12 \<Longrightarrow> oe_now e t < or_active_deadline s0" for t
    using calm by (simp_all add: calm_def)
  have d: "ws_deadline (or_workflow s) = or_active_deadline s0" "ws_deadline (or_workflow s2) = or_active_deadline s0"
    using less.prems(1) o2 by (simp_all add: on_course_def undisturbed_state_def)
  have step: "orch_loop cfg e s =
      (if st \<noteq> BT_RUNNING then Some (None, orch_finish e s2) else orch_loop cfg e (or_observe e s2))"
    using time(1) time(2) [of "or_tick s"] time(2) [of "or_tick s2"] less.prems(2) t2 d f(9) leaves fb
      tree
    by (subst orch_loop.simps) (simp add: Let_def not_le [symmetric] del: run_leaves.simps)
  show ?case
  proof (cases "done < Suc (or_tick ?s)")
    case True
    have "ended_with (workflow_terminal r) s0 (orch_finish e s2)"
      using True t2 less.prems(2) by (intro calm_finish [OF calm o2 fresh]) simp_all
    moreover have "or_child_goals (orch_finish e s2) = or_child_goals s"
      using g2 by (simp add: orch_finish_goals)
    ultimately show ?thesis using True st by (simp add: step)
  next
    case False
    with st have st: "st = BT_RUNNING" by simp
    have t3: "or_tick (or_observe e s2) = or_tick s + 4" using t2 by simp
    have "tree_ticked cfg e tree s0' (sequence_resume [ExecuteTaskRunning] [ExecuteTaskRunning])
        (or_observe e (or_observe e s2))"
      using tree_ticked.next_tick [OF less.prems(3) _ leaves fb] seq st time(2) [of "or_tick s2"] d t2
        less.prems(2) by simp
    then have "tree_ticked cfg e tree s0' [ExecuteTaskRunning] (or_observe e (or_observe e s2))"
      by (simp add: sequence_resume_def)
    from less.hyps [OF _ on_course_observe [OF calm o2] _ this] t3 False less.prems(2) g2 st
    show ?thesis by (simp add: step)
  qed
qed

lemma accepted_deadline:
  assumes "orch_handle_goal acc still now g s = (ACCEPT_AND_EXECUTE, s1)"
  shows "or_active_deadline s1 < now + (INT32_MAX + 1) * 1000000000"
proof -
  let ?d = "wg_allowed_duration g"
  have "uint (dur_nanosec ?d) < 1000000000" and dl: "or_active_deadline s1 \<le> now + to_steady_duration ?d"
    using assms by (auto simp: orch_handle_goal_def Let_def split: if_splits)
  moreover have "sint (dur_sec ?d) \<le> INT32_MAX"
    using sint_lt [of "dur_sec ?d"] by simp
  ultimately show ?thesis by (simp add: to_steady_duration_def)
qed

lemma accepted_on_course:
  assumes "orch_handle_goal acc still now g s = (ACCEPT_AND_EXECUTE, s1)" and "or_tick s1 \<le> done"
  shows "on_course done r (workflow_start g s1) (workflow_start g s1)" and "orch_fresh (workflow_start g s1)"
proof -
  have "\<not> or_cancel_accepted s1"
    using assms(1) by (auto simp: orch_handle_goal_def Let_def split: if_splits)
  with assms(2) show "on_course done r (workflow_start g s1) (workflow_start g s1)"
    by (simp add: on_course_def undisturbed_state_def workflow_start_def workflow_state_new_def started_def)
  show "orch_fresh (workflow_start g s1)"
    using started_fresh(1) [OF assms(1)] by (simp add: orch_fresh_def workflow_start_def)
qed

text \<open>The first tick: the readiness check succeeds and the task is sent.\<close>

lemma first_tick_sends:
  assumes calm: "calm e now (or_active_deadline s0) done r" and fresh: "orch_fresh s0"
    and start: "on_course done r s0 s0" "or_tick s0 \<le> done"
      "or_active_deadline s0 < now + (INT32_MAX + 1) * 1000000000"
    and ready: "ready_usable (oe_now e (Suc (or_tick s0))) (oc_ready_stale_ms cfg)
      (readiness e (or_ready s0) (or_tick s0) (Suc (Suc (or_tick s0))))"
    and tree: "map start_call tree = [l, ExecuteTaskStart]" "l = RuntimeReadyTick \<or> l = RetryReadyStart a d"
    and lib: "library_runs_sequence cfg e tree s0"
  shows "\<exists>s c. orch_loop cfg e s0 = orch_loop cfg e s \<and> on_course done r s0 s \<and>
    or_tick s \<le> done + 6 \<and> or_child_goals s = or_child_goals s0 @ [c] \<and>
    to_steady_duration (tg_allowed_duration c) = or_active_deadline s0 - oe_now e (or_tick s0 + 2) \<and>
    tree_ticked cfg e tree s0 [ExecuteTaskRunning] (or_observe e s)"
proof -
  let ?s = "or_observe e s0"
  have o: "on_course done r s0 ?s" by (rule on_course_observe [OF calm start(1)])
  have "ready_tracked e s0 (or_observe e ?s)" by (intro ready_tracked_observe ready_tracked_refl)
  with ready have "ready_usable (oe_now e (or_tick ?s)) (oc_ready_stale_ms cfg) (or_ready (or_observe e ?s))"
    by (simp add: ready_tracked_def)
  from ready_gate_opens [OF tree(2) calm o this] obtain s1 where gate: "run_leaf cfg e l ?s = Some (Inr BT_SUCCESS, s1)"
    and o1: "on_course done r s0 s1" and t1: "or_tick s1 = Suc (or_tick ?s)"
    and g1: "or_child_goals s1 = or_child_goals ?s" by metis
  obtain s2 c where task: "execute_task_start e s1 = (Inr BT_RUNNING, s2)" and o2: "on_course done r s0 s2"
    and t2: "or_tick s2 = or_tick s1 + 2" and g2: "or_child_goals s2 = or_child_goals s1 @ [c]"
    and c: "to_steady_duration (tg_allowed_duration c) = or_active_deadline s0 - oe_now e (or_tick s1)"
    using task_starts [OF calm o1 _ start(3)] t1 start(2) by auto
  obtain s3 where fb: "or_publish_feedback e s2 = (None, s3)" and o3: "on_course done r s0 s3"
    and t3: "or_tick s3 = Suc (or_tick s2)" and g3: "or_child_goals s3 = or_child_goals s2"
    using calm_feedback [OF calm o2] by blast
  have first: "tree_ticked cfg e tree s0 [l, ExecuteTaskStart] ?s"
    using tree_ticked.first_tick [of cfg e tree s0] tree(1) by simp
  have seq: "sequence_tick cfg e [l, ExecuteTaskStart] ?s = ([l, ExecuteTaskStart], BT_RUNNING)"
    using gate task by simp
  with lib first have ticks: "oe_tick_tree e (or_tick ?s) = ([l, ExecuteTaskStart], BT_RUNNING)"
    unfolding library_runs_sequence_def by metis
  have leaves: "run_leaves cfg e [l, ExecuteTaskStart] ?s = Some (None, s2)" using gate task by simp
  have time: "oe_running e t \<and> oe_ok e t" "t \<le> done + 12 \<Longrightarrow> oe_now e t < or_active_deadline s0" for t
    using calm by (simp_all add: calm_def)
  have dl: "ws_deadline (or_workflow s0) = or_active_deadline s0" "ws_deadline (or_workflow s3) = or_active_deadline s0"
    using start(1) o3 by (simp_all add: on_course_def undisturbed_state_def)
  have tick: "or_tick s3 = or_tick s0 + 5" using t1 t2 t3 by simp
  have "orch_loop cfg e s0 = orch_loop cfg e (or_observe e s3)"
    using time(1) time(2) [of "or_tick s0"] time(2) [of "or_tick s3"] start(2) tick dl
      on_course_fields(9) [OF o fresh] leaves fb ticks
    by (subst orch_loop.simps) (simp add: Let_def not_le [symmetric] del: run_leaves.simps)
  moreover have "tree_ticked cfg e tree s0 (sequence_resume [l, ExecuteTaskStart] [l, ExecuteTaskStart])
      (or_observe e (or_observe e s3))"
    using tree_ticked.next_tick [OF first seq leaves fb] time(2) [of "or_tick s3"] dl tick start(2) by simp
  ultimately show ?thesis
    using on_course_observe [OF calm o3] tick start(2) g1 g2 g3 c t1
    by (intro exI [of _ "or_observe e s3"] exI [of _ c]) (simp add: sequence_resume_def)
qed

section \<open>The run\<close>

text \<open>
  When the runtime is seen ready at the first tick of the tree, no cancel request comes, nothing
  throws, the child task is accepted and reports at tick \<open>done\<close>, the deadline is still ahead
  twelve ticks later and the library runs the workflow's \<open>Sequence\<close>: the run returns, exactly one
  child goal with the workflow's identities was sent and not cancelled, the single result is the
  one for the task's result, and the orchestrator is free.
\<close>

lemma undisturbed_workflow:
  assumes "orch_handle_goal acc still now g s = (ACCEPT_AND_EXECUTE, s1)"
    and "calm e now (or_active_deadline s1) done r" and "or_tick s1 \<le> done"
    and "ready_usable (oe_now e (Suc (or_tick s1))) (oc_ready_stale_ms cfg)
      (readiness e (or_ready s1) (or_tick s1) (Suc (Suc (or_tick s1))))"
    and "library_runs_sequence cfg e (workflow_tree (wg_workflow_id g)) (workflow_start g s1)"
  shows "\<exists>s' c. orch_handle_accepted cfg e g s1 = Some s' \<and>
    or_results s' = or_results s @ [workflow_terminal r] \<and>
    or_child_goals s' = or_child_goals s @ [c] \<and> child_goal_of g c \<and>
    to_steady_duration (tg_allowed_duration c) = or_active_deadline s1 - oe_now e (or_tick s1 + 2) \<and>
    or_child_cancels s' = or_child_cancels s \<and> \<not> or_active s'"
proof -
  let ?s0 = "workflow_start g s1"
  have dl: "or_active_deadline ?s0 = or_active_deadline s1" by (simp add: workflow_start_def started_def)
  note course = accepted_on_course [OF assms(1,3)]
  note calm = assms(2) [folded dl]
  have "wg_workflow_id g = ''single_task'' \<or> wg_workflow_id g = ''ready_then_task''"
    using assms(1) by (auto simp: orch_handle_goal_def Let_def split: if_splits)
  then obtain l where l: "map start_call (workflow_tree (wg_workflow_id g)) = [l, ExecuteTaskStart]"
      "l = RuntimeReadyTick \<or> l = RetryReadyStart 2 100"
    by (auto simp: workflow_tree_def)
  obtain s2 c where loop: "orch_loop cfg e ?s0 = orch_loop cfg e s2" and o2: "on_course done r ?s0 s2"
    and t2: "or_tick s2 \<le> done + 6" and g2: "or_child_goals s2 = or_child_goals ?s0 @ [c]"
    and c: "to_steady_duration (tg_allowed_duration c) = or_active_deadline s1 - oe_now e (or_tick s1 + 2)"
    and ticked: "tree_ticked cfg e (workflow_tree (wg_workflow_id g)) ?s0 [ExecuteTaskRunning] (or_observe e s2)"
    using first_tick_sends [OF calm course(2) course(1) _ _ _ l assms(5)] assms(3,4)
      accepted_deadline [OF assms(1)] dl by auto
  from running_loop_ends [OF calm course(2) assms(5) o2 t2 ticked] obtain s3 where
    end_loop: "orch_loop cfg e s2 = Some (None, s3)" and fin: "ended_with (workflow_terminal r) ?s0 s3"
    and g3: "or_child_goals s3 = or_child_goals s2" by blast
  have "orch_execute cfg e g (started s1) = Some (None, s3)"
    using loop end_loop assms(2) by (simp add: orch_execute_def calm_def workflow_start_def started_def)
  then have run: "orch_handle_accepted cfg e g s1 = Some (finish_worker (or_active_generation s1) s3)"
    by (simp add: orch_handle_accepted_def run_worker_def started_def)
  note h = orch_handle_goal_accepts [OF assms(1)]
  from orch_run_summary [OF assms(1) run] obtain s4 where
    d: "orch_done e g (started s1) s4" "finish_worker (or_active_generation s1) s3 = finish_worker (or_active_generation s1) s4"
    by blast
  then have "child_inv_w e g (started s1) s4" by (auto simp: orch_done_def oclosed_def oinv_def)
  moreover have "or_child_goals s4 = or_child_goals s3" using d(2) by (metis finish_worker_simps(2))
  ultimately have "child_goal_of g c" using g2 g3 by (auto simp: child_inv_w_def started_def)
  with run fin g2 g3 h c show ?thesis
    by (auto simp: ended_with_def workflow_start_def started_def finish_worker_def
        release_active_for_generation_def)
qed

section \<open>The property\<close>

section \<open>The sample run is undisturbed\<close>

lemma sequence_env_calm:
  "calm sequence_env 0 5000000000 4 \<lparr>wr_code = RC_SUCCEEDED, wr_result =
     Some \<lparr>res_outcome = COMPLETED, res_error_code = 0, res_message = ''task completed through Device Bridge''\<rparr>\<rparr>"
  by (auto simp: calm_def sequence_env_def sample_orch_env_def orch_transitions_ok_def split: if_splits)

lemma sample_started_start:
  "or_active_deadline sample_started = 5000000000" "or_tick sample_started = 0"
  by (simp_all add: sample_started_def orch_handle_goal_def sample_workflow_def sample_orchestrator_def
      to_steady_duration_def steady_max_def)

lemma sequence_ready:
  "ready_usable (oe_now sequence_env (Suc (or_tick sample_started))) (oc_ready_stale_ms sample_orch_config)
     (readiness sequence_env (or_ready sample_started) (or_tick sample_started)
        (Suc (Suc (or_tick sample_started))))"
  by code_simp

end
