(* ===== verification/Chain_Success.thy ===== *)
theory Chain_Success
  imports Bridge_Device Executor_Success Workflow_Success Gateway_Runs
begin

text \<open>
  The whole chain undisturbed: from a request in the gateway over workflow, task and bridge to the
  device and back. Each process runs against its own environment; the environments are tied
  together only by what the next process really reports, so the hypotheses ask for answers that
  the conclusion shows to be given.
\<close>

section \<open>How a result travels\<close>

text \<open>What a result callback of rclcpp_action is handed for the way a goal ended.\<close>

definition delivered :: "goal_terminal \<Rightarrow> wrapped_result" where
  "delivered t =
     (case t of
        GSucceeded r \<Rightarrow> \<lparr>wr_code = RC_SUCCEEDED, wr_result = Some r\<rparr>
      | GAborted r \<Rightarrow> \<lparr>wr_code = RC_ABORTED, wr_result = Some r\<rparr>
      | GCanceled r \<Rightarrow> \<lparr>wr_code = RC_CANCELED, wr_result = Some r\<rparr>)"

definition command_done :: action_result where
  "command_done = \<lparr>res_outcome = COMPLETED, res_error_code = 0, res_message = ''device acknowledged command''\<rparr>"

definition task_done :: action_result where
  "task_done = \<lparr>res_outcome = COMPLETED, res_error_code = 0,
     res_message = ''task completed through Device Bridge''\<rparr>"

text \<open>What the bridge, and then the task and the workflow, report for a device's answer.\<close>

definition device_fault :: "string \<Rightarrow> response \<Rightarrow> action_result" where
  "device_fault lead r = \<lparr>res_outcome = DEVICE_FAULT, res_error_code = device_error_code (rsp_result r),
     res_message = lead @ ''device returned result_code='' @ nat_to_string (unat (rsp_result r))\<rparr>"

definition command_report :: "response \<Rightarrow> goal_terminal" where
  "command_report r = (if rsp_result r = 0 then GSucceeded command_done else GAborted (device_fault [] r))"

definition task_report :: "response \<Rightarrow> goal_terminal" where
  "task_report r = (if rsp_result r = 0 then GSucceeded task_done
     else GAborted (device_fault ''device command failed: '' r))"

lemma task_terminal_report: "task_terminal (delivered (command_report r)) = task_report r"
  by (simp add: task_terminal_def delivered_def command_report_def task_report_def command_done_def
      task_done_def device_fault_def)

lemma workflow_terminal_report: "workflow_terminal (delivered (task_report r)) = task_report r"
  by (simp add: workflow_terminal_def delivered_def task_report_def task_done_def device_fault_def)

section \<open>The stages\<close>

lemma ucast_u16_u32_u16 [simp]: "(ucast (ucast (x :: u16) :: u32) :: u16) = x"
  by transfer simp

lemma gateway_goal_accepted:
  assumes "valid_request r" and "allowed_workflow (sr_workflow_id r)" and "\<not> or_active s"
  shows "fst (orch_handle_goal True True now (goal_of_request r) s) = ACCEPT_AND_EXECUTE"
    and "or_active_deadline (snd (orch_handle_goal True True now (goal_of_request r) s)) \<le>
      now + uint (sr_timeout_ms r) * 1000000"
    and "or_child_goals (snd (orch_handle_goal True True now (goal_of_request r) s)) = or_child_goals s"
proof -
  let ?d = "wg_allowed_duration (goal_of_request r)"
  note dur = dispatched_duration_is_requested_timeout [OF assms(1), unfolded Let_def]
  have "0 < uint (sr_timeout_ms r)"
    using assms(1) by (simp add: valid_request_def word_less_def)
  with dur have ok: "0 \<le> sint (dur_sec ?d)" "uint (dur_nanosec ?d) < 1000000000"
    "\<not> (dur_sec ?d = 0 \<and> dur_nanosec ?d = 0)"
    and total: "to_steady_duration ?d = uint (sr_timeout_ms r) * 1000000"
    by (auto simp: to_steady_duration_def)
  have wf: "wg_workflow_id (goal_of_request r) = ''single_task'' \<or>
      wg_workflow_id (goal_of_request r) = ''ready_then_task''"
    using assms(2) by (simp add: allowed_workflow_def goal_of_request_def)
  show "fst (orch_handle_goal True True now (goal_of_request r) s) = ACCEPT_AND_EXECUTE"
    and "or_active_deadline (snd (orch_handle_goal True True now (goal_of_request r) s)) \<le>
      now + uint (sr_timeout_ms r) * 1000000"
    and "or_child_goals (snd (orch_handle_goal True True now (goal_of_request r) s)) = or_child_goals s"
    using ok wf assms(3) by (auto simp: orch_handle_goal_def Let_def total)
qed

lemma device_answers:
  assumes "map_of (vd_cache v) (cmd_id c) = None" and "cmd_opcode c \<noteq> kStopOpcode"
    and "vd_mode v \<noteq> ''drop_ack''" "vd_mode v \<noteq> ''drop_stop_ack''"
  shows "device_started [encode_command c] v = [c]"
    and "vd_sent (device_after [encode_command c] v) =
      vd_sent v @ [encode_response (app_response (vd_mode v) (cmd_id c))]"
    and "rsp_id (app_response (vd_mode v) (cmd_id c)) = cmd_id c"
  using assms by (auto simp: process_new(2) [OF assms(1)] fresh_answer_def app_response_def)

text \<open>A new command, with at least one millisecond to be acknowledged, over bridge and device.\<close>

lemma command_completes:
  assumes config: "executor_configure targets args opcode ack cancel delay depth period log = Inr xcfg"
      "ec_ack_timeout_ms xcfg \<le> bc_max_ack_timeout_ms bcfg" "ec_device_opcode xcfg \<noteq> kStopOpcode"
    and accepted: "bridge_handle_goal bcfg be d b0 = (ACCEPT_AND_EXECUTE, b1)"
    and d: "d = make_device_goal xcfg c cid argument (child_ack_timeout_ms xcfg ms)"
    and bus: "br_tick b0 + 3 \<le> T" "quiet_until be T cid"
      "\<forall>t \<ge> T. be_running be t \<and> \<not> be_canceling be t"
      "\<And>ms. be_receive be T ms = RxFrame (encode_response (app_response (vd_mode v) cid))"
      "\<forall>t \<le> T. be_now be t < be_now be (br_tick b0 + 2) + 1000000"
    and device: "map_of (vd_cache v) cid = None" "vd_mode v \<noteq> ''drop_ack''" "vd_mode v \<noteq> ''drop_stop_ack''"
  shows "\<exists>b2. bridge_handle_accepted bcfg be d b1 = Some b2 \<and> \<not> br_active_goal b2 \<and>
    br_sent b2 = br_sent b0 @ [(Suc (br_tick b0), encode_command (goal_command d))] \<and>
    br_results b2 = br_results b0 @ [command_report (app_response (vd_mode v) cid)] \<and>
    device_started [encode_command (goal_command d)] v = [goal_command d] \<and>
    vd_sent (device_after [encode_command (goal_command d)] v) =
      vd_sent v @ [encode_response (app_response (vd_mode v) cid)]"
proof -
  let ?a = "child_ack_timeout_ms xcfg ms"
  have id: "cmd_id (goal_command d) = cid" and op: "cmd_opcode (goal_command d) \<noteq> kStopOpcode"
    using config(3) by (simp_all add: d goal_command_def make_device_goal_def)
  have range: "1 \<le> ?a" "?a \<le> ec_ack_timeout_ms xcfg" "ec_ack_timeout_ms xcfg \<le> 60000"
    using executor_configure_ack [OF config(1)] child_ack_timeout_range [of xcfg ms] by simp_all
  then have ack: "duration_to_milliseconds (dg_ack_timeout d) (bc_max_ack_timeout_ms bcfg) = Some ?a"
    using config(2) by (simp add: d make_device_goal_def ack_duration_roundtrip)
  have time: "\<forall>t \<le> T. be_now be t < be_now be (br_tick b0 + 2) + ?a * 1000000"
    using bus(5) range(1) by fastforce
  note answers = device_answers [of v "goal_command d", unfolded id, OF device(1) op device(2,3)]
  have decode: "decode_response (encode_response (app_response (vd_mode v) cid)) =
      Inr (app_response (vd_mode v) cid)"
    by (rule decode_encode_response) (simp add: response_wf_def app_response_def)
  have report: "(if rsp_result r = 0
       then GSucceeded \<lparr>res_outcome = COMPLETED, res_error_code = 0, res_message = ''device acknowledged command''\<rparr>
       else GAborted \<lparr>res_outcome = DEVICE_FAULT, res_error_code = device_error_code (rsp_result r),
              res_message = ''device returned result_code='' @ nat_to_string (unat (rsp_result r))\<rparr>) =
     command_report r" for r
    by (simp add: command_done_def command_report_def device_fault_def)
  have "quiet_until be T (cmd_id (goal_command d))"
    "rsp_id (app_response (vd_mode v) cid) = cmd_id (goal_command d)"
    using bus(2) answers(3) id by simp_all
  from first_answer_decides [OF accepted ack bus(1) this(1) bus(3) bus(4) decode this(2) time, unfolded report]
    answers(1,2) show ?thesis by blast
qed

text \<open>
  Nothing keeps the STOP opcode out of a task: the executor's configuration allows it and the
  bridge does not look at it. The device then stops, and the task counts as completed.
\<close>

lemma stop_opcode_task_completes:
  assumes "dg_opcode d = kStopOpcode" and "map_of (vd_cache v) (cmd_id (goal_command d)) = None"
    and "vd_mode v \<noteq> ''drop_stop_ack''"
  shows "\<exists>cfg. executor_configure [''dock_a''] [42] 255 500 1000 0 128 1000 False = Inr cfg \<and>
      ec_device_opcode cfg = kStopOpcode"
    and "vd_sent (device_after [encode_command (goal_command d)] v) =
      vd_sent v @ [encode_response (stop_response (cmd_id (goal_command d)))]"
    and "br_results (settle_response cfg e d (goal_command d) n (stop_response (cmd_id (goal_command d))) b) =
      br_results b @ [GSucceeded command_done]"
proof -
  show "\<exists>cfg. executor_configure [''dock_a''] [42] 255 500 1000 0 128 1000 False = Inr cfg \<and>
      ec_device_opcode cfg = kStopOpcode"
    by (simp add: executor_configure_def target_validator_new_def has_non_whitespace_def isspace_def
        Let_def kStopOpcode_def)
  have "cmd_opcode (goal_command d) = kStopOpcode" using assms(1) by (simp add: goal_command_def)
  with assms(2,3) show "vd_sent (device_after [encode_command (goal_command d)] v) =
      vd_sent v @ [encode_response (stop_response (cmd_id (goal_command d)))]"
    by (simp add: process_new(2) fresh_answer_def)
  show "br_results (settle_response cfg e d (goal_command d) n (stop_response (cmd_id (goal_command d))) b) =
      br_results b @ [GSucceeded command_done]"
    by (simp add: settle_response_def stop_response_def command_done_def Let_def ops)
qed

lemma gateway_records_result:
  assumes "gw_record rid gs = Some q"
  shows "map_option (\<lambda>q. (rq_state q, rq_outcome q, rq_error_code q))
      (gw_record rid (result_callback ge rid (delivered (task_report r)) gs)) =
    Some (if rsp_result r = 0 then (''COMPLETED'', COMPLETED, 0)
          else (''DEVICE_FAULT'', DEVICE_FAULT, device_error_code (rsp_result r)))"
proof -
  have "gw_record rid (gw_erase_goal k s) = gw_record rid s"
    "gw_record rid (gw_complete le p st oc m msg now s) = gw_record rid s" for k s le p st oc m msg now
    by (simp_all add: gw_record_def gw_erase_goal_def gw_complete_def)
  with assms show ?thesis
    by (simp add: result_callback_def result_fields_def task_report_def task_done_def device_fault_def
        delivered_def state_for_outcome_def set_terminal_def Let_def gw_record_update split: option.split)
qed

section \<open>The chain\<close>

text \<open>C2. An undisturbed request is carried out and its answer comes back, from end to end, and every
  stage gives the next the answer it waits for. A valid request for a known target meets idle and
  configured processes. The workflow's environment is calm and brings the result of a task; the
  task's environment is undisturbed and brings the result of a command; the bus brings the
  device's answer to a new command, within the millisecond every command has at least; these
  results are the ones for that answer. Then the orchestrator accepts and sends one task, the executor accepts
  it and sends one command for its target, the bridge accepts it and puts one frame on the bus,
  the device starts exactly this command and answers with exactly the frame the bridge waited for;
  and back: bridge, task and workflow report exactly the results waited for, all three are free
  again, and the gateway's record of the request says COMPLETED for result 0 and otherwise
  DEVICE_FAULT with the error code for the device's result.
\<close>

theorem undisturbed_request_is_carried_out:
  assumes request: "valid_request r" "allowed_workflow (sr_workflow_id r)"
      "has_non_whitespace (sr_task_id r)" "is_known (ec_targets xcfg) (sr_target_id r)"
    and config: "executor_configure targets args opcode ack cancel delay depth period log = Inr xcfg"
      "ec_ack_timeout_ms xcfg \<le> bc_max_ack_timeout_ms bcfg" "ec_device_opcode xcfg \<noteq> kStopOpcode"
    and idle: "\<not> or_active o0" "\<not> ex_active_goal x0" "\<not> br_active_goal b0" "be_socket_open be"
    and workflow: "orch_handle_goal True True now (goal_of_request r) o0 = (response, o1)"
      "calm oe now (or_active_deadline o1) done (delivered (task_report answer))" "or_tick o1 \<le> done"
      "ready_usable (oe_now oe (Suc (or_tick o1))) (oc_ready_stale_ms ocfg)
        (readiness oe (or_ready o1) (or_tick o1) (Suc (Suc (or_tick o1))))"
      "library_runs_sequence ocfg oe (workflow_tree (sr_workflow_id r)) (workflow_start (goal_of_request r) o1)"
    and task: "undisturbed xe t1 t2 (delivered (command_report answer))"
      "ex_tick x0 < t1" "ex_tick x0 < t2"
      "\<forall>t \<le> max t1 t2 + 40. xe_now xe t + 3000000 \<le>
        xe_now xe (Suc (ex_tick x0)) + (or_active_deadline o1 - oe_now oe (or_tick o1 + 2))"
    and bus: "cid = fst (allocate_command_id (ex_next_command_id x0))" "answer = app_response (vd_mode v) cid"
      "br_tick b0 + 3 \<le> T" "quiet_until be T cid" "\<forall>t \<ge> T. be_running be t \<and> \<not> be_canceling be t"
      "\<And>ms. be_receive be T ms = RxFrame (encode_response answer)"
      "\<forall>t \<le> T. be_now be t < be_now be (br_tick b0 + 2) + 1000000"
    and device: "map_of (vd_cache v) cid = None" "vd_mode v \<noteq> ''drop_ack''" "vd_mode v \<noteq> ''drop_stop_ack''"
    and gateway: "gw_record (sr_request_id r) gs = Some q"
  shows "\<exists>o2 c x1 x2 d argument b1 b2. response = ACCEPT_AND_EXECUTE \<and>
    orch_handle_accepted ocfg oe (goal_of_request r) o1 = Some o2 \<and>
    or_child_goals o2 = or_child_goals o0 @ [c] \<and>
    executor_handle_goal xcfg True True uuid c x0 = (ACCEPT_AND_EXECUTE, x1) \<and>
    executor_handle_accepted xcfg xe c x1 = Some x2 \<and>
    ex_device_goals x2 = ex_device_goals x0 @ [d] \<and>
    map_of (ec_target_arguments xcfg) (sr_target_id r) = Some argument \<and> dg_argument d = argument \<and>
    bridge_handle_goal bcfg be d b0 = (ACCEPT_AND_EXECUTE, b1) \<and>
    bridge_handle_accepted bcfg be d b1 = Some b2 \<and>
    map snd (br_sent b2) = map snd (br_sent b0) @ [encode_command (goal_command d)] \<and>
    device_started [encode_command (goal_command d)] v = [goal_command d] \<and>
    vd_sent (device_after [encode_command (goal_command d)] v) =
      vd_sent v @ [encode_response answer] \<and>
    br_results b2 = br_results b0 @ [command_report answer] \<and>
    ex_results x2 = ex_results x0 @ [task_report answer] \<and>
    or_results o2 = or_results o0 @ [task_report answer] \<and>
    \<not> br_active_goal b2 \<and> \<not> ex_active_goal x2 \<and> \<not> or_active o2 \<and>
    map_option (\<lambda>q. (rq_state q, rq_outcome q, rq_error_code q)) (gw_record (sr_request_id r)
      (result_callback ge (sr_request_id r) (delivered (task_report answer)) gs)) =
      Some (if rsp_result answer = 0 then (''COMPLETED'', COMPLETED, 0)
            else (''DEVICE_FAULT'', DEVICE_FAULT, device_error_code (rsp_result answer)))"
proof -
  let ?g = "goal_of_request r"
  have accept: "response = ACCEPT_AND_EXECUTE" and deadline: "or_active_deadline o1 \<le> now + uint (sr_timeout_ms r) * 1000000"
    using gateway_goal_accepted [OF request(1,2) idle(1), of now] workflow(1) by simp_all
  have goal: "wg_task_id ?g = sr_task_id r" "wg_target_id ?g = sr_target_id r" "wg_workflow_id ?g = sr_workflow_id r"
    by (simp_all add: goal_of_request_def)
  note o1 = workflow(1) [unfolded accept]
  from undisturbed_workflow [OF o1 workflow(2,3,4) workflow(5) [folded goal(3)], unfolded workflow_terminal_report] obtain o2 c where
    o2: "orch_handle_accepted ocfg oe ?g o1 = Some o2" "or_results o2 = or_results o0 @ [task_report answer]"
      "or_child_goals o2 = or_child_goals o0 @ [c]" "\<not> or_active o2"
    and c: "child_goal_of ?g c"
      "to_steady_duration (tg_allowed_duration c) = or_active_deadline o1 - oe_now oe (or_tick o1 + 2)"
    by blast
  have "fst (executor_handle_goal xcfg True True uuid c x0) = ACCEPT_AND_EXECUTE"
    using workflow_child_goals [OF o1 o2(1), of xcfg x0 uuid] request(3,4) idle(2) goal o2(3) by auto
  then obtain x1 where x1: "executor_handle_goal xcfg True True uuid c x0 = (ACCEPT_AND_EXECUTE, x1)"
    by (metis prod.collapse)
  from undisturbed_task [OF config(1) x1 task(1-3) task(4) [folded c(2)], unfolded task_terminal_report] obtain x2 d argument ms where
    x2: "executor_handle_accepted xcfg xe c x1 = Some x2" "ex_device_goals x2 = ex_device_goals x0 @ [d]"
      "ex_results x2 = ex_results x0 @ [task_report answer]" "\<not> ex_active_goal x2"
    and arg: "map_of (ec_target_arguments xcfg) (tg_target_id c) = Some argument" "dg_argument d = argument"
    and d: "d = make_device_goal xcfg c cid argument (child_ack_timeout_ms xcfg ms)"
    unfolding bus(1) by blast
  have "ex_device_goals x1 = ex_device_goals x0"
    using x1 by (auto simp: executor_handle_goal_def split: if_splits)
  with executor_device_goals [OF config(1) x2(1) config(2)] x2(2) idle(3,4)
  have b1: "bridge_handle_goal bcfg be d b0 = (ACCEPT_AND_EXECUTE, b0\<lparr>br_active_goal := True\<rparr>)" by auto
  from command_completes [OF config b1 d bus(3-5) bus(6) [unfolded bus(2)] bus(7) device, folded bus(2)] obtain b2 where
    b2: "bridge_handle_accepted bcfg be d (b0\<lparr>br_active_goal := True\<rparr>) = Some b2" "\<not> br_active_goal b2"
      "br_sent b2 = br_sent b0 @ [(Suc (br_tick b0), encode_command (goal_command d))]"
      "br_results b2 = br_results b0 @ [command_report answer]"
      "device_started [encode_command (goal_command d)] v = [goal_command d]"
      "vd_sent (device_after [encode_command (goal_command d)] v) =
        vd_sent v @ [encode_response answer]" by blast
  have "tg_target_id c = sr_target_id r" using c(1) goal by (simp add: child_goal_of_def)
  with arg have arg': "map_of (ec_target_arguments xcfg) (sr_target_id r) = Some argument" by simp
  have "map snd (br_sent b2) = map snd (br_sent b0) @ [encode_command (goal_command d)]" using b2(3) by simp
  moreover note gateway_records_result [OF gateway, of ge answer]
  ultimately show ?thesis
    by (intro exI [of _ o2] exI [of _ c] exI [of _ x1] exI [of _ x2] exI [of _ d] exI [of _ argument]
        exI [of _ "b0\<lparr>br_active_goal := True\<rparr>"] exI [of _ b2])
      (simp only: accept o2 x1 x2 arg arg' b1 b2 simp_thms)
qed

section \<open>A run of the chain\<close>

definition sample_request :: submit_request where
  "sample_request = \<lparr>sr_request_id = ''r1'', sr_workflow_id = ''single_task'', sr_task_id = ''t1'',
     sr_target_id = ''dock_a'', sr_timeout_ms = 5000\<rparr>"

lemma sample_request_goal: "goal_of_request sample_request = sample_workflow"
  by code_simp

definition chain_exec_env :: exec_env where
  "chain_exec_env = sample_exec_env\<lparr>xe_child := \<lambda>t.
     if t = 20 then [ChildResponse True 200000000]
     else if t = 30 then [ChildResult (delivered (command_report (app_response ''normal'' 1)))] else []\<rparr>"

text \<open>Two receive timeouts, then the device's answer to command 1.\<close>

definition chain_bus :: bridge_env where
  "chain_bus = acknowledging_bus\<lparr>be_receive := \<lambda>t ms.
     if t = 5 then RxFrame (encode_response (app_response ''normal'' 1)) else RxTimeout\<rparr>"

definition chain_gateway :: gateway where
  "chain_gateway = (gateway_init empty_database)\<lparr>gw_registry :=
     snd (registry_insert (initial_record sample_request) (gw_registry (gateway_init empty_database)))\<rparr>"

theorem undisturbed_request_is_carried_out_witness:
  "\<exists>o2 c x1 x2 d b1 b2. orch_handle_accepted sample_orch_config sequence_env
       (goal_of_request sample_request) sample_started = Some o2 \<and>
     executor_handle_accepted sample_exec_config chain_exec_env c x1 = Some x2 \<and>
     bridge_handle_accepted example_bridge_config chain_bus d b1 = Some b2 \<and>
     or_results o2 = [GSucceeded task_done] \<and> ex_results x2 = [GSucceeded task_done] \<and>
     ex_device_goals x2 = [d] \<and> dg_argument d = 42 \<and> br_results b2 = [GSucceeded command_done] \<and>
     map snd (br_sent b2) = [encode_command (goal_command d)] \<and>
     device_started [encode_command (goal_command d)] example_device = [goal_command d]"
proof -
  have request: "valid_request sample_request" "allowed_workflow (sr_workflow_id sample_request)"
    "has_non_whitespace (sr_task_id sample_request)"
    "is_known (ec_targets sample_exec_config) (sr_target_id sample_request)"
    by code_simp+
  have config: "ec_ack_timeout_ms sample_exec_config \<le> bc_max_ack_timeout_ms example_bridge_config"
    "ec_device_opcode sample_exec_config \<noteq> kStopOpcode"
    by code_simp+
  have idle: "\<not> or_active sample_orchestrator" "\<not> ex_active_goal (executor_init 1)"
    "\<not> br_active_goal bridge_init" "be_socket_open chain_bus"
    by code_simp+
  have o1: "orch_handle_goal True True 0 (goal_of_request sample_request) sample_orchestrator =
      (ACCEPT_AND_EXECUTE, sample_started)"
    using sample_workflow_accepted by (simp add: sample_request_goal)
  have calm: "calm sequence_env 0 (or_active_deadline sample_started) 4
      (delivered (task_report (app_response ''normal'' 1)))"
    using sequence_env_calm
    by (simp add: sample_started_start delivered_def task_report_def task_done_def app_response_def)
  have tick: "or_tick sample_started \<le> 4" by (simp add: sample_started_start)
  have lib: "library_runs_sequence sample_orch_config sequence_env
      (workflow_tree (sr_workflow_id sample_request)) (workflow_start (goal_of_request sample_request) sample_started)"
    using sequence_library by (simp add: sample_request_goal) (simp add: sample_request_def sample_workflow_def)
  have env: "undisturbed chain_exec_env 20 30 (delivered (command_report (app_response ''normal'' 1)))"
    unfolding undisturbed_def by (auto simp: chain_exec_env_def sample_exec_env_def)
  have ticks: "ex_tick (executor_init 1) < 20" "ex_tick (executor_init 1) < 30" by (simp_all add: executor_init_def)
  have time: "\<forall>t \<le> max 20 30 + 40. xe_now chain_exec_env t + 3000000 \<le> xe_now chain_exec_env
      (Suc (ex_tick (executor_init 1))) + (or_active_deadline sample_started - oe_now sequence_env (or_tick sample_started + 2))"
    by (simp add: sample_started_start chain_exec_env_def sample_exec_env_def executor_init_def
        sequence_env_def sample_orch_env_def)
  have cid: "1 = fst (allocate_command_id (ex_next_command_id (executor_init 1)))" by code_simp
  have answer: "app_response ''normal'' 1 = app_response (vd_mode example_device) 1"
    by (simp add: example_device_def)
  have bus: "br_tick bridge_init + 3 \<le> 5" "quiet_until chain_bus 5 1"
    "\<forall>t \<ge> 5. be_running chain_bus t \<and> \<not> be_canceling chain_bus t"
    "\<And>ms. be_receive chain_bus 5 ms = RxFrame (encode_response (app_response ''normal'' 1))"
    "\<forall>t \<le> 5. be_now chain_bus t < be_now chain_bus (br_tick bridge_init + 2) + 1000000"
    by (simp_all add: bridge_init_def quiet_until_def chain_bus_def acknowledging_bus_def example_device_def)
  have device: "map_of (vd_cache example_device) 1 = None"
    "vd_mode example_device \<noteq> ''drop_ack''" "vd_mode example_device \<noteq> ''drop_stop_ack''"
    by (simp_all add: example_device_def)
  have gateway: "gw_record (sr_request_id sample_request) chain_gateway = Some (initial_record sample_request)"
    by code_simp
  have arg: "map_of (ec_target_arguments sample_exec_config) (sr_target_id sample_request) = Some 42" by code_simp
  have init: "or_results sample_orchestrator = []" "ex_results (executor_init 1) = []"
    "ex_device_goals (executor_init 1) = []" "br_results bridge_init = []" "map snd (br_sent bridge_init) = []"
    by (simp_all add: sample_orchestrator_def executor_init_def bridge_init_def)
  have reports: "command_report (app_response ''normal'' 1) = GSucceeded command_done"
    "task_report (app_response ''normal'' 1) = GSucceeded task_done"
    by (simp_all add: command_report_def task_report_def app_response_def)
  show ?thesis
    using undisturbed_request_is_carried_out [OF request sample_config config idle o1 calm tick sequence_ready lib
      env ticks time cid answer bus device gateway, where uuid = "''g''" and ge = example_gw_env]
    unfolding init reports arg append_Nil option.inject
    by (elim exE conjE, intro exI conjI) (assumption | simp)+
qed

end
