(* ===== verification/Marker_Trigger.thy ===== *)
theory Marker_Trigger
  imports Runtime_Prelude
begin

text \<open>
  \<open>marker_trigger.cpp\<close>: which camera frames start a workflow. The trigger fires for a mapped
  marker that was alone in \<open>confirm_frames\<close> consecutive frames, and after a workflow it stays
  disarmed until the markers have been gone for \<open>rearm_missing_frames\<close> frames. The counters are
  \<open>size_t\<close>, so the theory keeps them at 64 bits; the invariant shows that they cannot wrap.

  The reference definitions at the end say the same over the history of frames, without any
  counter, and the theorem shows that the trigger is equivalent to them.
\<close>

section \<open>The trigger\<close>

record marker_mapping =
  mm_marker_id :: int
  mm_workflow_id :: string
  mm_target_id :: string

record marker_trigger =
  mt_mappings :: "marker_mapping list"
  mt_confirm_frames :: u64
  mt_rearm_missing_frames :: u64
  mt_streak_id :: "int option"
  mt_streak_frames :: u64
  mt_missing_frames :: u64
  mt_armed :: bool

text \<open>The loop of \<open>validate\<close>, with the identifiers seen so far; \<open>[]\<close> is no error.\<close>

fun validate_mappings :: "int set \<Rightarrow> marker_mapping list \<Rightarrow> string" where
  "validate_mappings seen [] = []"
| "validate_mappings seen (m # ms) =
     (if mm_marker_id m < 0 \<or> 49 < mm_marker_id m then ''marker_id must be between 0 and 49''
      else if mm_marker_id m \<in> seen then ''marker_id values must be unique''
      else if mm_workflow_id m = [] then ''workflow_id must not be empty''
      else if mm_target_id m = [] then ''target_id must not be empty''
      else validate_mappings (insert (mm_marker_id m) seen) ms)"

definition trigger_validate :: "marker_mapping list \<Rightarrow> u64 \<Rightarrow> u64 \<Rightarrow> string" where
  "trigger_validate mappings confirm_frames rearm_missing_frames =
     (if mappings = [] then ''marker mappings must not be empty''
      else if confirm_frames = 0 then ''confirm_frames must be greater than zero''
      else if rearm_missing_frames = 0 then ''rearm_missing_frames must be greater than zero''
      else validate_mappings {} mappings)"

definition trigger_new :: "marker_mapping list \<Rightarrow> u64 \<Rightarrow> u64 \<Rightarrow> string + marker_trigger" where
  "trigger_new mappings confirm_frames rearm_missing_frames =
     (let error = trigger_validate mappings confirm_frames rearm_missing_frames in
      if error \<noteq> [] then Inl error
      else Inr \<lparr>mt_mappings = mappings, mt_confirm_frames = confirm_frames,
                mt_rearm_missing_frames = rearm_missing_frames, mt_streak_id = None,
                mt_streak_frames = 0, mt_missing_frames = 0, mt_armed = True\<rparr>)"

definition visible_mappings :: "int list \<Rightarrow> marker_mapping list \<Rightarrow> marker_mapping list" where
  "visible_mappings visible_ids = filter (\<lambda>m. mm_marker_id m \<in> set visible_ids)"

definition trigger_observe ::
  "int list \<Rightarrow> bool \<Rightarrow> bool \<Rightarrow> marker_trigger \<Rightarrow> marker_mapping option \<times> marker_trigger" where
  "trigger_observe visible_ids workflow_active immediate t =
     (let reset = t\<lparr>mt_streak_id := None, mt_streak_frames := 0\<rparr> in
      if workflow_active then (None, reset\<lparr>mt_missing_frames := 0\<rparr>)
      else case visible_mappings visible_ids (mt_mappings t) of
        [] \<Rightarrow>
          (if mt_armed t then (None, reset)
           else
             let missing = mt_missing_frames t + 1 in
             if mt_rearm_missing_frames t \<le> missing
             then (None, reset\<lparr>mt_armed := True, mt_missing_frames := 0\<rparr>)
             else (None, reset\<lparr>mt_missing_frames := missing\<rparr>))
      | _ # _ # _ \<Rightarrow> (None, reset)
      | [mapping] \<Rightarrow>
          let t0 = t\<lparr>mt_missing_frames := 0\<rparr> in
          if \<not> mt_armed t0 then (None, t0)
          else
            let t1 = (if mt_streak_id t0 = Some (mm_marker_id mapping)
                      then t0\<lparr>mt_streak_frames := mt_streak_frames t0 + 1\<rparr>
                      else t0\<lparr>mt_streak_id := Some (mm_marker_id mapping), mt_streak_frames := 1\<rparr>)
            in if \<not> immediate \<and> mt_streak_frames t1 < mt_confirm_frames t1 then (None, t1)
               else (Some mapping,
                     t1\<lparr>mt_armed := False, mt_streak_id := None, mt_streak_frames := 0\<rparr>))"

definition trigger_on_terminal :: "marker_trigger \<Rightarrow> marker_trigger" where
  "trigger_on_terminal t =
     t\<lparr>mt_armed := False, mt_streak_id := None, mt_streak_frames := 0, mt_missing_frames := 0\<rparr>"

section \<open>Validation\<close>

lemma validate_mappings_ok:
  "validate_mappings seen ms = [] \<longleftrightarrow>
     distinct (map mm_marker_id ms) \<and> mm_marker_id ` set ms \<inter> seen = {} \<and>
     (\<forall>m \<in> set ms. 0 \<le> mm_marker_id m \<and> mm_marker_id m \<le> 49 \<and> mm_workflow_id m \<noteq> [] \<and>
                    mm_target_id m \<noteq> [])"
  by (induction ms arbitrary: seen) (auto simp: image_iff)

lemma trigger_new_ok:
  "trigger_new ms c r = Inr t \<longleftrightarrow>
     trigger_validate ms c r = [] \<and>
     t = \<lparr>mt_mappings = ms, mt_confirm_frames = c, mt_rearm_missing_frames = r,
          mt_streak_id = None, mt_streak_frames = 0, mt_missing_frames = 0, mt_armed = True\<rparr>"
  by (auto simp: trigger_new_def Let_def)

lemma trigger_validate_ok:
  "trigger_validate ms c r = [] \<longleftrightarrow>
     ms \<noteq> [] \<and> c \<noteq> 0 \<and> r \<noteq> 0 \<and> distinct (map mm_marker_id ms) \<and>
     (\<forall>m \<in> set ms. 0 \<le> mm_marker_id m \<and> mm_marker_id m \<le> 49 \<and> mm_workflow_id m \<noteq> [] \<and>
                    mm_target_id m \<noteq> [])"
  by (auto simp: trigger_validate_def validate_mappings_ok)

section \<open>Reference definitions over the history\<close>

text \<open>
  What one call showed. A history lists them, the latest first; \<open>OneMarker\<close> carries whether the
  trigger fired.
\<close>

datatype trigger_event = Frame "int list" bool bool | WorkflowTerminal

datatype seen = Blocked | NoMarker | ManyMarkers | OneMarker marker_mapping bool | Ended

fun disarms :: "seen \<Rightarrow> bool" where
  "disarms (OneMarker m fired) = fired"
| "disarms Ended = True"
| "disarms _ = False"

text \<open>
  Armed: never disarmed, or since the last disarming the markers were missing: a stretch of
  frames without any marker, unsure frames (several markers) aside, that is long enough.
\<close>

definition armed_ref :: "nat \<Rightarrow> seen list \<Rightarrow> bool" where
  "armed_ref rearm h \<longleftrightarrow>
     (\<forall>x \<in> set h. \<not> disarms x) \<or>
     (\<exists>xs ys zs. takeWhile (\<lambda>x. \<not> disarms x) h = xs @ ys @ zs \<and>
        set ys \<subseteq> {NoMarker, ManyMarkers} \<and> rearm \<le> count_list ys NoMarker)"

definition streak_ref :: "marker_mapping \<Rightarrow> seen list \<Rightarrow> nat" where
  "streak_ref m h = length (takeWhile (\<lambda>x. x = OneMarker m False) h)"

definition trigger_ref ::
  "nat \<Rightarrow> nat \<Rightarrow> bool \<Rightarrow> marker_mapping \<Rightarrow> seen list \<Rightarrow> bool" where
  "trigger_ref confirm rearm immediate m h \<longleftrightarrow>
     armed_ref rearm h \<and> (immediate \<or> confirm \<le> Suc (streak_ref m h))"

text \<open>Running the trigger on a sequence of calls, with the history it leaves.\<close>

fun seen_of :: "marker_mapping list \<Rightarrow> trigger_event \<Rightarrow> bool \<Rightarrow> seen" where
  "seen_of ms (Frame ids active immediate) fired =
     (if active then Blocked
      else case visible_mappings ids ms of
             [] \<Rightarrow> NoMarker | [m] \<Rightarrow> OneMarker m fired | _ \<Rightarrow> ManyMarkers)"
| "seen_of ms WorkflowTerminal fired = Ended"

fun trigger_step :: "trigger_event \<Rightarrow> marker_trigger \<Rightarrow> marker_mapping option \<times> marker_trigger" where
  "trigger_step (Frame ids active immediate) t = trigger_observe ids active immediate t"
| "trigger_step WorkflowTerminal t = (None, trigger_on_terminal t)"

fun trigger_run :: "trigger_event list \<Rightarrow> seen list \<times> marker_trigger \<Rightarrow> seen list \<times> marker_trigger" where
  "trigger_run [] (h, t) = (h, t)"
| "trigger_run (ev # evs) (h, t) =
     (let (out, t') = trigger_step ev t in
      trigger_run evs (seen_of (mt_mappings t) ev (out \<noteq> None) # h, t'))"

section \<open>The counters against the history\<close>

definition missing_ref :: "seen list \<Rightarrow> nat" where
  "missing_ref h = count_list (takeWhile (\<lambda>x. x \<in> {NoMarker, ManyMarkers}) h) NoMarker"

lemma count_list_prefix_le: "count_list xs a \<le> count_list (xs @ ys) a"
  by simp

lemma armed_ref_disarm [simp]: "0 < r \<Longrightarrow> disarms x \<Longrightarrow> \<not> armed_ref r (x # h)"
  by (auto simp: armed_ref_def)

lemma armed_ref_cons:
  assumes "0 < r" and "\<not> disarms x"
  shows "armed_ref r (x # h) \<longleftrightarrow>
    armed_ref r h \<or> (x = NoMarker \<and> r \<le> Suc (missing_ref h))"
proof
  let ?tw = "takeWhile (\<lambda>x. \<not> disarms x) h"
  assume "armed_ref r (x # h)"
  then consider "\<forall>y \<in> set h. \<not> disarms y"
    | xs ys zs where "x # ?tw = xs @ ys @ zs" "set ys \<subseteq> {NoMarker, ManyMarkers}"
        "r \<le> count_list ys NoMarker"
    using assms(2) unfolding armed_ref_def by auto
  then show "armed_ref r h \<or> (x = NoMarker \<and> r \<le> Suc (missing_ref h))"
  proof cases
    case 1
    then show ?thesis by (simp add: armed_ref_def)
  next
    case (2 xs ys zs)
    show ?thesis
    proof (cases xs)
      case (Cons x' xs')
      with 2 show ?thesis unfolding armed_ref_def by auto
    next
      case Nil
      with 2 assms(1) obtain ys' where ys: "ys = x # ys'" and tw: "?tw = ys' @ zs"
        by (cases ys) auto
      show ?thesis
      proof (cases "x = NoMarker")
        case False
        with 2 ys have "?tw = [] @ ys' @ zs" "set ys' \<subseteq> {NoMarker, ManyMarkers}"
          "r \<le> count_list ys' NoMarker" using tw by auto
        then show ?thesis unfolding armed_ref_def by blast
      next
        case True
        have "takeWhile (\<lambda>x. x \<in> {NoMarker, ManyMarkers}) h =
            takeWhile (\<lambda>x. x \<in> {NoMarker, ManyMarkers}) ?tw"
          by (induction h) auto
        also have "\<dots> = ys' @ takeWhile (\<lambda>x. x \<in> {NoMarker, ManyMarkers}) zs"
          unfolding tw using 2(2) ys by (auto intro: takeWhile_append2)
        finally have "count_list ys' NoMarker \<le> missing_ref h"
          unfolding missing_ref_def by simp
        with 2(3) ys True show ?thesis by simp
      qed
    qed
  qed
next
  let ?tw = "takeWhile (\<lambda>x. \<not> disarms x) h"
  let ?m = "takeWhile (\<lambda>x. x \<in> {NoMarker, ManyMarkers}) h"
  assume "armed_ref r h \<or> (x = NoMarker \<and> r \<le> Suc (missing_ref h))"
  then show "armed_ref r (x # h)"
  proof (elim disjE conjE)
    assume "armed_ref r h"
    then show ?thesis
      unfolding armed_ref_def
    proof (elim disjE exE conjE)
      fix xs ys zs
      assume "?tw = xs @ ys @ zs" "set ys \<subseteq> {NoMarker, ManyMarkers}" "r \<le> count_list ys NoMarker"
      with assms(2) show "(\<forall>y \<in> set (x # h). \<not> disarms y) \<or>
          (\<exists>xs ys zs. takeWhile (\<lambda>x. \<not> disarms x) (x # h) = xs @ ys @ zs \<and>
             set ys \<subseteq> {NoMarker, ManyMarkers} \<and> r \<le> count_list ys NoMarker)"
        by (intro disjI2 exI [of _ "x # xs"] exI [of _ ys] exI [of _ zs]) simp
    qed (simp add: assms(2))
  next
    assume x: "x = NoMarker" and r: "r \<le> Suc (missing_ref h)"
    have "\<exists>zs. ?tw = ?m @ zs" by (induction h) auto
    then obtain zs where "?tw = ?m @ zs" ..
    with x have "takeWhile (\<lambda>x. \<not> disarms x) (x # h) = [] @ (x # ?m) @ zs" by simp
    moreover have "set (x # ?m) \<subseteq> {NoMarker, ManyMarkers}"
      using x set_takeWhileD by fastforce
    moreover have "r \<le> count_list (x # ?m) NoMarker"
      using r x by (simp add: missing_ref_def)
    ultimately show ?thesis unfolding armed_ref_def by blast
  qed
qed

lemma missing_ref_simps [simp]:
  "missing_ref (NoMarker # h) = Suc (missing_ref h)"
  "missing_ref (ManyMarkers # h) = missing_ref h"
  "missing_ref (OneMarker m f # h) = 0"
  "missing_ref (Blocked # h) = 0"
  "missing_ref (Ended # h) = 0"
  by (simp_all add: missing_ref_def)

definition latest_sighting :: "seen list \<Rightarrow> marker_mapping option" where
  "latest_sighting h = (case h of OneMarker m False # _ \<Rightarrow> Some m | _ \<Rightarrow> None)"

lemma streak_ref_cons [simp]:
  "streak_ref m (OneMarker m False # h) = Suc (streak_ref m h)"
  by (simp add: streak_ref_def)

lemma streak_ref_zero: "latest_sighting h \<noteq> Some m \<Longrightarrow> streak_ref m h = 0"
  by (cases h) (auto simp: streak_ref_def latest_sighting_def split: list.splits seen.splits bool.splits)

text \<open>The trigger's state agrees with its history; the counters stay below their limits.\<close>

definition trigger_inv :: "marker_mapping list \<Rightarrow> u64 \<Rightarrow> u64 \<Rightarrow> seen list \<Rightarrow> marker_trigger \<Rightarrow> bool" where
  "trigger_inv ms c r h t \<longleftrightarrow>
     mt_mappings t = ms \<and> mt_confirm_frames t = c \<and> mt_rearm_missing_frames t = r \<and>
     (\<forall>m f. OneMarker m f \<in> set h \<longrightarrow> m \<in> set ms) \<and>
     (mt_armed t \<longleftrightarrow> armed_ref (unat r) h) \<and>
     (if mt_armed t
      then unat (mt_missing_frames t) = 0 \<and>
           mt_streak_id t = map_option mm_marker_id (latest_sighting h) \<and>
           unat (mt_streak_frames t) =
             (case latest_sighting h of None \<Rightarrow> 0 | Some m \<Rightarrow> streak_ref m h) \<and>
           unat (mt_streak_frames t) < unat c
      else unat (mt_missing_frames t) = missing_ref h \<and> missing_ref h < unat r \<and>
           mt_streak_id t = None \<and> unat (mt_streak_frames t) = 0)"

lemma unat_suc_below:
  fixes a b :: u64
  assumes "unat a < unat b"
  shows "unat (a + 1) = Suc (unat a)"
proof -
  have "unat b < 2 ^ LENGTH(64)" by (rule unsigned_less)
  with assms unat_add_lem [of a 1] show ?thesis by simp
qed

lemma trigger_inv_new:
  "trigger_new ms c r = Inr t \<Longrightarrow> trigger_inv ms c r [] t"
  by (auto simp: trigger_new_ok trigger_validate_ok trigger_inv_def armed_ref_def
      latest_sighting_def unat_gt_0)

lemma visible_mappings_subset: "set (visible_mappings ids ms) \<subseteq> set ms"
  by (auto simp: visible_mappings_def)

text \<open>One call, decided by the reference, and its effect on the invariant.\<close>

lemma trigger_observe_one:
  assumes inv: "trigger_inv ms c r h t" and dist: "inj_on mm_marker_id (set ms)"
    and pos: "0 < unat r" and vis: "visible_mappings ids ms = [m]"
    and ob: "trigger_observe ids False imm t = (out, t')"
  shows "out = (if trigger_ref (unat c) (unat r) imm m h then Some m else None) \<and>
    trigger_inv ms c r (OneMarker m (out \<noteq> None) # h) t'"
proof (cases "mt_armed t")
  case False
  then have "out = None \<and> t' = t\<lparr>mt_missing_frames := 0\<rparr>"
    using inv vis ob by (simp add: trigger_observe_def trigger_inv_def Let_def)
  moreover have "m \<in> set ms" using vis visible_mappings_subset [of ids ms] by simp
  ultimately show ?thesis
    using False inv pos by (auto simp: trigger_inv_def trigger_ref_def armed_ref_cons)
next
  case armed: True
  have m: "m \<in> set ms" using vis visible_mappings_subset [of ids ms] by simp
  have eq: "mt_streak_id t = Some (mm_marker_id m) \<longleftrightarrow> latest_sighting h = Some m"
  proof -
    have "latest_sighting h = Some m' \<Longrightarrow> m' \<in> set ms" for m'
      using inv by (cases h) (auto simp: trigger_inv_def latest_sighting_def split: seen.splits bool.splits)
    then show ?thesis
      using inv armed dist m by (cases "latest_sighting h") (auto simp: trigger_inv_def dest: inj_onD)
  qed
  define n where "n = (if latest_sighting h = Some m then mt_streak_frames t + 1 else 1)"
  have n: "unat n = Suc (streak_ref m h)"
    using inv armed unat_suc_below [of "mt_streak_frames t" c] streak_ref_zero [of h m]
    by (auto simp: n_def trigger_inv_def)
  have ref: "trigger_ref (unat c) (unat r) imm m h \<longleftrightarrow> imm \<or> \<not> n < c"
    using inv armed n by (auto simp: trigger_ref_def trigger_inv_def word_less_nat_alt)
  have ob': "(out, t') = (if \<not> imm \<and> n < c
      then (None, t\<lparr>mt_missing_frames := 0, mt_streak_id := Some (mm_marker_id m), mt_streak_frames := n\<rparr>)
      else (Some m, t\<lparr>mt_missing_frames := 0, mt_armed := False, mt_streak_id := None,
                      mt_streak_frames := 0\<rparr>))"
  proof (cases "latest_sighting h = Some m")
    case True
    with inv armed vis ob eq show ?thesis
      by (cases t) (auto simp: trigger_observe_def trigger_inv_def n_def Let_def split: if_splits)
  next
    case False
    with eq have "mt_streak_id t \<noteq> Some (mm_marker_id m)" by simp
    with False armed inv vis ob show ?thesis
      by (auto simp: trigger_observe_def trigger_inv_def n_def Let_def split: if_splits)
  qed
  show ?thesis
  proof (cases "\<not> imm \<and> n < c")
    case True
    with ob' ref have "out = None" and
      "t' = t\<lparr>mt_missing_frames := 0, mt_streak_id := Some (mm_marker_id m), mt_streak_frames := n\<rparr>"
      by auto
    with True ref inv armed n m pos show ?thesis
      by (auto simp: trigger_inv_def armed_ref_cons latest_sighting_def word_less_nat_alt)
  next
    case False
    with ob' have "out = Some m" and
      "t' = t\<lparr>mt_missing_frames := 0, mt_armed := False, mt_streak_id := None, mt_streak_frames := 0\<rparr>"
      by auto
    with False ref inv m pos show ?thesis by (auto simp: trigger_inv_def)
  qed
qed


lemma latest_sighting_simps [simp]:
  "latest_sighting (OneMarker m f # h) = (if f then None else Some m)"
  "latest_sighting (NoMarker # h) = None" "latest_sighting (ManyMarkers # h) = None"
  "latest_sighting (Blocked # h) = None" "latest_sighting (Ended # h) = None"
  by (simp_all add: latest_sighting_def)

lemma trigger_observe_blocked:
  assumes "trigger_inv ms c r h t" and "0 < unat r" and "0 < unat c"
  shows "fst (trigger_observe ids True imm t) = None \<and>
    trigger_inv ms c r (Blocked # h) (snd (trigger_observe ids True imm t))"
  using assms by (auto simp: trigger_observe_def trigger_inv_def armed_ref_cons Let_def)

lemma trigger_observe_empty:
  assumes inv: "trigger_inv ms c r h t" and pos: "0 < unat r" and cpos: "0 < unat c"
    and vis: "visible_mappings ids ms = []"
  shows "fst (trigger_observe ids False imm t) = None \<and>
    trigger_inv ms c r (NoMarker # h) (snd (trigger_observe ids False imm t))"
proof (cases "mt_armed t")
  case True
  with inv vis have "trigger_observe ids False imm t =
      (None, t\<lparr>mt_streak_id := None, mt_streak_frames := 0\<rparr>)"
    by (simp add: trigger_observe_def trigger_inv_def Let_def)
  with True inv pos cpos show ?thesis by (auto simp: trigger_inv_def armed_ref_cons)
next
  case False
  with inv have un: "unat (mt_missing_frames t) < unat r" "unat (mt_missing_frames t) = missing_ref h"
    by (auto simp: trigger_inv_def)
  have suc: "unat (mt_missing_frames t + 1) = Suc (missing_ref h)"
    using unat_suc_below [OF un(1)] un(2) by simp
  then have le: "r \<le> mt_missing_frames t + 1 \<longleftrightarrow> unat r \<le> Suc (missing_ref h)"
    by (simp add: word_le_nat_alt)
  have "trigger_observe ids False imm t =
      (None, if unat r \<le> Suc (missing_ref h)
             then t\<lparr>mt_streak_id := None, mt_streak_frames := 0, mt_armed := True, mt_missing_frames := 0\<rparr>
             else t\<lparr>mt_streak_id := None, mt_streak_frames := 0,
                    mt_missing_frames := mt_missing_frames t + 1\<rparr>)"
    using False inv vis le by (simp add: trigger_observe_def trigger_inv_def Let_def)
  with False inv pos cpos suc show ?thesis by (auto simp: trigger_inv_def armed_ref_cons)
qed

lemma trigger_observe_many:
  assumes inv: "trigger_inv ms c r h t" and pos: "0 < unat r" and cpos: "0 < unat c"
    and vis: "visible_mappings ids ms = m1 # m2 # rest"
  shows "fst (trigger_observe ids False imm t) = None \<and>
    trigger_inv ms c r (ManyMarkers # h) (snd (trigger_observe ids False imm t))"
proof -
  have "trigger_observe ids False imm t = (None, t\<lparr>mt_streak_id := None, mt_streak_frames := 0\<rparr>)"
    using inv vis by (simp add: trigger_observe_def trigger_inv_def Let_def)
  with inv pos cpos show ?thesis by (auto simp: trigger_inv_def armed_ref_cons)
qed

lemma trigger_inv_terminal:
  "trigger_inv ms c r h t \<Longrightarrow> 0 < unat r \<Longrightarrow> trigger_inv ms c r (Ended # h) (trigger_on_terminal t)"
  by (auto simp: trigger_inv_def trigger_on_terminal_def)

text \<open>What a valid trigger's parameters are.\<close>

definition trigger_ok :: "marker_mapping list \<Rightarrow> u64 \<Rightarrow> u64 \<Rightarrow> bool" where
  "trigger_ok ms c r \<longleftrightarrow> inj_on mm_marker_id (set ms) \<and> 0 < unat c \<and> 0 < unat r"

lemma trigger_new_params: "trigger_new ms c r = Inr t \<Longrightarrow> trigger_ok ms c r"
  by (auto simp: trigger_ok_def trigger_new_ok trigger_validate_ok distinct_map unat_gt_0)

lemma trigger_frame:
  assumes inv: "trigger_inv ms c r h t" and ok: "trigger_ok ms c r"
    and ob: "trigger_observe ids active imm t = (out, t')"
  shows "out = (if active then None
      else case visible_mappings ids ms of
             [m] \<Rightarrow> if trigger_ref (unat c) (unat r) imm m h then Some m else None
           | _ \<Rightarrow> None) \<and>
    trigger_inv ms c r (seen_of ms (Frame ids active imm) (out \<noteq> None) # h) t'"
proof -
  note ok' = ok [unfolded trigger_ok_def]
  consider (blocked) active | (none) "\<not> active" "visible_mappings ids ms = []"
    | (one) m where "\<not> active" "visible_mappings ids ms = [m]"
    | (many) m m' rest where "\<not> active" "visible_mappings ids ms = m # m' # rest"
    by (cases "visible_mappings ids ms" rule: remdups_adj.cases) auto
  then show ?thesis
  proof cases
    case blocked
    with trigger_observe_blocked [OF inv, of ids imm] ok' ob show ?thesis by simp
  next
    case none
    with trigger_observe_empty [OF inv _ _ none(2), of imm] ok' ob show ?thesis by simp
  next
    case (one m)
    with trigger_observe_one [OF inv _ _ one(2), of imm out t'] ok' ob show ?thesis
      by (auto split: if_splits)
  next
    case (many m m' rest)
    with trigger_observe_many [OF inv _ _ many(2), of imm] ok' ob show ?thesis by simp
  qed
qed

lemma trigger_step_inv:
  assumes "trigger_inv ms c r h t" and "trigger_ok ms c r" and "trigger_step ev t = (out, t')"
  shows "trigger_inv ms c r (seen_of ms ev (out \<noteq> None) # h) t'"
proof (cases ev)
  case WorkflowTerminal
  with assms trigger_inv_terminal [of ms c r h t] show ?thesis by (auto simp: trigger_ok_def)
next
  case (Frame ids active imm)
  with trigger_frame [OF assms(1,2)] assms(3) show ?thesis by fastforce
qed

lemma trigger_run_inv:
  assumes "trigger_inv ms c r h t" and "trigger_ok ms c r" and "trigger_run evs (h, t) = (h', t')"
  shows "trigger_inv ms c r h' t'"
  using assms
proof (induction evs arbitrary: h t)
  case (Cons ev evs)
  obtain out t1 where st: "trigger_step ev t = (out, t1)" by fastforce
  from Cons.prems have "mt_mappings t = ms" by (simp add: trigger_inv_def)
  with Cons.prems(3) st have "trigger_run evs (seen_of ms ev (out \<noteq> None) # h, t1) = (h', t')"
    by simp
  from Cons.IH [OF trigger_step_inv [OF Cons.prems(1,2) st] Cons.prems(2) this] show ?case .
qed simp

text \<open>C23. The trigger decides every frame as the reference over the history of frames does, for
  every sequence of frames and finished workflows: it starts the workflow of a marker exactly when
  that marker is the only mapped one in the frame, the trigger is armed (never fired, or the
  markers were gone for \<open>rearm_missing_frames\<close> frames since the last workflow), and the
  sighting is confirmed (immediate, or the last in \<open>confirm_frames\<close> consecutive ones). No
  counter wraps, whatever the parameters.
\<close>

theorem trigger_fires_as_reference:
  assumes "trigger_new ms c r = Inr t0" and "trigger_run evs ([], t0) = (h, t)"
  shows "fst (trigger_observe ids active imm t) =
    (if active then None
     else case visible_mappings ids ms of
            [m] \<Rightarrow> if trigger_ref (unat c) (unat r) imm m h then Some m else None
          | _ \<Rightarrow> None)"
proof -
  note ok = trigger_new_params [OF assms(1)]
  note inv = trigger_run_inv [OF trigger_inv_new [OF assms(1)] ok assms(2)]
  show ?thesis
    by (cases "trigger_observe ids active imm t") (use trigger_frame [OF inv ok] in simp)
qed

definition sample_mappings :: "marker_mapping list" where
  "sample_mappings =
     [\<lparr>mm_marker_id = 10, mm_workflow_id = ''single_task'', mm_target_id = ''dock_a''\<rparr>,
      \<lparr>mm_marker_id = 20, mm_workflow_id = ''ready_then_task'', mm_target_id = ''home''\<rparr>]"

definition sample_trigger :: marker_trigger where
  "sample_trigger = \<lparr>mt_mappings = sample_mappings, mt_confirm_frames = 2,
     mt_rearm_missing_frames = 1, mt_streak_id = None, mt_streak_frames = 0,
     mt_missing_frames = 0, mt_armed = True\<rparr>"

text \<open>Two sightings confirm; after the workflow a missing frame arms the trigger again.\<close>

theorem trigger_fires_as_reference_witness:
  "fst (trigger_observe [10] False False
      (snd (trigger_run [Frame [10] False False, WorkflowTerminal, Frame [] False False,
                         Frame [10] False False] ([], sample_trigger)))) = Some (hd sample_mappings)"
proof -
  have new: "trigger_new sample_mappings 2 1 = Inr sample_trigger"
    by (simp add: trigger_new_def trigger_validate_def sample_mappings_def sample_trigger_def)
  have run: "trigger_run [Frame [10] False False, WorkflowTerminal, Frame [] False False,
      Frame [10] False False] ([], sample_trigger) =
    ([OneMarker (hd sample_mappings) False, NoMarker, Ended, OneMarker (hd sample_mappings) False],
     sample_trigger\<lparr>mt_streak_id := Some 10, mt_streak_frames := 1\<rparr>)"
    by (simp add: trigger_observe_def visible_mappings_def sample_mappings_def sample_trigger_def
        trigger_on_terminal_def)
  have "trigger_ref (unat (2::u64)) (unat (1::u64)) False (hd sample_mappings)
      [OneMarker (hd sample_mappings) False, NoMarker, Ended, OneMarker (hd sample_mappings) False]"
    by (simp add: trigger_ref_def armed_ref_cons armed_ref_disarm streak_ref_def)
  with trigger_fires_as_reference [OF new run, of "[10]" False False] run show ?thesis
    by (simp add: visible_mappings_def sample_mappings_def)
qed

end
