(* ===== verification/Perception_Adapter.thy ===== *)
theory Perception_Adapter
  imports Marker_Trigger Orchestrator_Runs
begin

text \<open>
  \<open>perception_task_adapter_node.cpp\<close>, \<open>perception_task_adapter_main.cpp\<close> and the filter of
  \<open>aruco_detector.cpp\<close>: the process that watches an image or a camera and starts a workflow when
  the trigger fires.

  OpenCV and the action client are not part of the program; what they answer is the
  environment, indexed by a tick that every observation advances. Each time the adapter takes its
  mutex, and each time it spins, the callbacks of that tick run first (goal responses and
  results, in any number and order), so the theorems cover every interleaving. A loop that
  never ends is \<open>None\<close>; an exception that leaves a function is \<open>Inl\<close> its text.
\<close>

section \<open>Data\<close>

text \<open>A frame, as the marker detector of OpenCV reads it: the markers with the number of corners
  found for each, or an exception.\<close>

record camera_frame =
  cf_empty :: bool
  cf_markers :: "(int \<times> nat) list option"

definition aruco_detect :: "camera_frame \<Rightarrow> int list option" where
  "aruco_detect frame =
     (if cf_empty frame then Some []
      else map_option (\<lambda>found. map fst (filter (\<lambda>(_, corners). corners = 4) found)) (cf_markers frame))"

datatype perception_event = WorkflowResponse bool | WorkflowResult wrapped_result

datatype perception_log = GoalSent workflow_goal | WorkflowDone int | CancelSent

record perception_config =
  pc_image_mode :: bool
  pc_allowed_duration_ms :: int

record perception_env =
  pe_ok :: "nat \<Rightarrow> bool"
  pe_steady :: "nat \<Rightarrow> int"
  pe_wall_ms :: "nat \<Rightarrow> u64"
  pe_events :: "nat \<Rightarrow> perception_event list"
  pe_image :: "camera_frame option"
  pe_camera_open :: "bool option"
  pe_read :: "nat \<Rightarrow> camera_frame option option"
  pe_spin :: "nat \<Rightarrow> string option"
  pe_server :: "nat \<Rightarrow> string + bool"
  pe_send :: "nat \<Rightarrow> string option"
  pe_cancel :: "nat \<Rightarrow> string option"

text \<open>\<open>pa_handle\<close> is \<open>goal_handle != nullptr\<close>; \<open>pa_log\<close> lists what reached the action client
  and which terminal events were handled.\<close>

record perception =
  pa_tick :: nat
  pa_sequence :: u64
  pa_active :: bool
  pa_finished :: bool
  pa_exit_code :: int
  pa_trigger :: marker_trigger
  pa_handle :: bool
  pa_log :: "perception_log list"

definition perception_init :: "marker_trigger \<Rightarrow> perception" where
  "perception_init t =
     \<lparr>pa_tick = 0, pa_sequence = 0, pa_active = False, pa_finished = False, pa_exit_code = 5,
      pa_trigger = t, pa_handle = False, pa_log = []\<rparr>"

section \<open>Construction\<close>

definition make_mappings :: "int list \<Rightarrow> string list \<Rightarrow> string list \<Rightarrow> marker_mapping list" where
  "make_mappings ids workflows targets =
     map (\<lambda>(i, w, t). \<lparr>mm_marker_id = i, mm_workflow_id = w, mm_target_id = t\<rparr>)
       (zip ids (zip workflows targets))"

definition perception_configure ::
  "string \<Rightarrow> string \<Rightarrow> int \<Rightarrow> int list \<Rightarrow> string list \<Rightarrow> string list \<Rightarrow> int \<Rightarrow> int \<Rightarrow> int \<Rightarrow>
     string + perception_config \<times> marker_trigger" where
  "perception_configure input_mode image_path camera_index marker_ids workflow_ids target_ids
     allowed_duration_ms confirm_frames rearm_missing_frames =
     (if input_mode \<noteq> ''image'' \<and> input_mode \<noteq> ''camera''
      then Inl ''input_mode must be image or camera''
      else if camera_index < 0 \<or> INT32_MAX < camera_index
      then Inl ''camera_index must be a nonnegative int''
      else if input_mode = ''image'' \<and> image_path = []
      then Inl ''image_path must not be empty in image mode''
      else if allowed_duration_ms \<le> 0 \<or> INT32_MAX * 1000 + 999 < allowed_duration_ms
      then Inl ''allowed_duration_ms is outside ROS Duration range''
      else if confirm_frames \<le> 0 \<or> rearm_missing_frames \<le> 0
      then Inl ''confirmation and rearm frame counts must be positive''
      else if marker_ids = [] \<or> length marker_ids \<noteq> length workflow_ids \<or>
              length marker_ids \<noteq> length target_ids
      then Inl ''marker_ids, workflow_ids, and target_ids must have equal nonzero length''
      else if \<exists>i \<in> set marker_ids. i < - 2147483648 \<or> INT32_MAX < i
      then Inl ''marker_id is outside int range''
      else case trigger_new (make_mappings marker_ids workflow_ids target_ids)
                  (word_of_int confirm_frames) (word_of_int rearm_missing_frames) of
             Inl err \<Rightarrow> Inl err
           | Inr t \<Rightarrow> Inr (\<lparr>pc_image_mode = (input_mode = ''image''),
                           pc_allowed_duration_ms = allowed_duration_ms\<rparr>, t))"

section \<open>Callbacks\<close>

definition finish_locked :: "perception_config \<Rightarrow> int \<Rightarrow> perception \<Rightarrow> perception" where
  "finish_locked cfg code s =
     (let s1 = s\<lparr>pa_active := False, pa_handle := False, pa_trigger := trigger_on_terminal (pa_trigger s),
                 pa_log := pa_log s @ [WorkflowDone code]\<rparr> in
      if pc_image_mode cfg then s1\<lparr>pa_finished := True, pa_exit_code := code\<rparr> else s1)"

definition stop_locked :: "int \<Rightarrow> perception \<Rightarrow> perception" where
  "stop_locked code s = s\<lparr>pa_finished := True, pa_exit_code := code\<rparr>"

definition perception_goal_response :: "perception_config \<Rightarrow> bool \<Rightarrow> perception \<Rightarrow> perception" where
  "perception_goal_response cfg handle s =
     (if \<not> handle then finish_locked cfg 2 s else s\<lparr>pa_handle := True\<rparr>)"

definition workflow_completed :: "wrapped_result \<Rightarrow> bool" where
  "workflow_completed r \<longleftrightarrow>
     wr_code r = RC_SUCCEEDED \<and>
     (case wr_result r of None \<Rightarrow> False | Some res \<Rightarrow> res_outcome res = COMPLETED)"

definition perception_result :: "perception_config \<Rightarrow> wrapped_result \<Rightarrow> perception \<Rightarrow> perception" where
  "perception_result cfg r s = finish_locked cfg (if workflow_completed r then 0 else 3) s"

fun perception_callback :: "perception_config \<Rightarrow> perception_event \<Rightarrow> perception \<Rightarrow> perception" where
  "perception_callback cfg (WorkflowResponse handle) s = perception_goal_response cfg handle s"
| "perception_callback cfg (WorkflowResult r) s = perception_result cfg r s"

text \<open>
  The action client calls back only for a goal that was sent and has not ended; nothing follows
  a rejection or a result.
\<close>

fun goal_outstanding :: "bool \<Rightarrow> perception_log list \<Rightarrow> bool" where
  "goal_outstanding busy [] = busy"
| "goal_outstanding busy (GoalSent g # l) = goal_outstanding True l"
| "goal_outstanding busy (WorkflowDone code # l) = goal_outstanding False l"
| "goal_outstanding busy (CancelSent # l) = goal_outstanding busy l"

definition deliver :: "perception_config \<Rightarrow> perception_event \<Rightarrow> perception \<Rightarrow> perception" where
  "deliver cfg ev s =
     (if goal_outstanding False (pa_log s) then perception_callback cfg ev s else s)"

definition pa_observe :: "perception_config \<Rightarrow> perception_env \<Rightarrow> perception \<Rightarrow> perception" where
  "pa_observe cfg e s =
     fold (deliver cfg) (pe_events e (pa_tick s)) (s\<lparr>pa_tick := Suc (pa_tick s)\<rparr>)"

section \<open>A frame\<close>

definition make_request_id :: "marker_mapping \<Rightarrow> u64 \<Rightarrow> u64 \<Rightarrow> string" where
  "make_request_id m timestamp_ms sequence =
     ''aruco-'' @ int_to_string (mm_marker_id m) @ ''-'' @ nat_to_string (unat timestamp_ms) @ ''-'' @
     nat_to_string (unat sequence)"

definition milliseconds_duration :: "int \<Rightarrow> duration" where
  "milliseconds_duration ms =
     \<lparr>dur_sec = word_of_int (ms div 1000), dur_nanosec = word_of_int (ms mod 1000 * 1000000)\<rparr>"

definition make_workflow_goal ::
  "perception_config \<Rightarrow> marker_mapping \<Rightarrow> u64 \<Rightarrow> u64 \<Rightarrow> workflow_goal" where
  "make_workflow_goal cfg m timestamp_ms sequence =
     (let rid = make_request_id m timestamp_ms sequence in
      \<lparr>wg_request_id = rid, wg_workflow_id = mm_workflow_id m, wg_task_id = rid,
       wg_target_id = mm_target_id m,
       wg_allowed_duration = milliseconds_duration (pc_allowed_duration_ms cfg)\<rparr>)"

text \<open>The detector runs outside the mutex; \<open>active\<close> is read again under it.\<close>

definition send_workflow ::
  "perception_config \<Rightarrow> perception_env \<Rightarrow> marker_mapping \<Rightarrow> perception \<Rightarrow> (string + bool) \<times> perception" where
  "send_workflow cfg e m s =
     (case pe_server e (pa_tick s) of
        Inl err \<Rightarrow> (Inl err, pa_observe cfg e s)
      | Inr False \<Rightarrow> (Inr False, finish_locked cfg 1 (pa_observe cfg e s))
      | Inr True \<Rightarrow>
          let s1 = pa_observe cfg e s;
              goal = make_workflow_goal cfg m (pe_wall_ms e (pa_tick s1)) (pa_sequence s1)
          in case pe_send e (pa_tick s1) of
               Some err \<Rightarrow> (Inr False, finish_locked cfg 2 (pa_observe cfg e s1))
             | None \<Rightarrow> (Inr True, pa_observe cfg e (s1\<lparr>pa_log := pa_log s1 @ [GoalSent goal]\<rparr>)))"

definition process_frame ::
  "perception_config \<Rightarrow> perception_env \<Rightarrow> camera_frame \<Rightarrow> bool \<Rightarrow> perception \<Rightarrow> (string + bool) \<times> perception"
where
  "process_frame cfg e frame immediate s =
     (let s1 = pa_observe cfg e s in
      case (if pa_active s1 then Some [] else aruco_detect frame) of
        None \<Rightarrow> (Inr False, stop_locked 2 (pa_observe cfg e s1))
      | Some visible \<Rightarrow>
          let s2 = pa_observe cfg e s1 in
          if pa_finished s2 then (Inr False, s2)
          else case trigger_observe visible (pa_active s2) immediate (pa_trigger s2) of
                 (None, t) \<Rightarrow> (Inr False, s2\<lparr>pa_trigger := t\<rparr>)
               | (Some m, t) \<Rightarrow>
                   send_workflow cfg e m
                     (s2\<lparr>pa_trigger := t, pa_active := True, pa_sequence := pa_sequence s2 + 1\<rparr>))"

section \<open>The input loops\<close>

text \<open>\<open>cv::imread\<close> gives an empty image when it cannot read the file.\<close>

definition run_image :: "perception_config \<Rightarrow> perception_env \<Rightarrow> perception \<Rightarrow> (string + int) \<times> perception" where
  "run_image cfg e s =
     (case pe_image e of
        None \<Rightarrow> (Inr 2, stop_locked 2 (pa_observe cfg e s))
      | Some picture \<Rightarrow>
          if cf_empty picture then (Inr 2, stop_locked 2 (pa_observe cfg e s))
          else case process_frame cfg e picture True s of
                 (Inl err, s1) \<Rightarrow> (Inl err, s1)
               | (Inr True, s1) \<Rightarrow> (Inr 0, s1)
               | (Inr False, s1) \<Rightarrow>
                   let s2 = pa_observe cfg e s1; s3 = (if pa_finished s2 then s2 else stop_locked 2 s2)
                   in (Inr (pa_exit_code s3), s3))"

partial_function (option) camera_loop ::
  "perception_config \<Rightarrow> perception_env \<Rightarrow> nat \<Rightarrow> perception \<Rightarrow> ((string + int) \<times> perception) option" where
  "camera_loop cfg e failures s =
     (let s1 = pa_observe cfg e s in
      if \<not> pe_ok e (pa_tick s) \<or> pa_finished s1
      then (let s2 = pa_observe cfg e s1 in Some (Inr (pa_exit_code s2), s2))
      else case pe_spin e (pa_tick s1) of
             Some err \<Rightarrow> Some (Inl err, pa_observe cfg e s1)
           | None \<Rightarrow>
               let s2 = pa_observe cfg e s1 in
               case pe_read e (pa_tick s2) of
                 None \<Rightarrow> Some (Inr 2, stop_locked 2 (pa_observe cfg e s2))
               | Some None \<Rightarrow>
                   if 5 \<le> Suc failures then Some (Inr 2, stop_locked 2 (pa_observe cfg e s2))
                   else camera_loop cfg e (Suc failures) (pa_observe cfg e s2)
               | Some (Some frame) \<Rightarrow>
                   (let r = process_frame cfg e frame False (pa_observe cfg e s2) in
                    case fst r of
                      Inl err \<Rightarrow> Some (Inl err, snd r)
                    | Inr _ \<Rightarrow> camera_loop cfg e 0 (snd r)))"

declare camera_loop.simps [code]

definition run_camera ::
  "perception_config \<Rightarrow> perception_env \<Rightarrow> perception \<Rightarrow> ((string + int) \<times> perception) option" where
  "run_camera cfg e s =
     (case pe_camera_open e of
        Some True \<Rightarrow> camera_loop cfg e 0 s
      | _ \<Rightarrow> Some (Inr 2, stop_locked 2 (pa_observe cfg e s)))"

section \<open>Cancelling and the process\<close>

text \<open>Waiting up to two seconds for a goal handle; \<open>True\<close> when there is one.\<close>

partial_function (option) await_handle ::
  "perception_config \<Rightarrow> perception_env \<Rightarrow> int \<Rightarrow> perception \<Rightarrow> (bool \<times> perception) option" where
  "await_handle cfg e deadline s =
     (if pe_steady e (pa_tick s) < deadline \<and> pe_ok e (pa_tick s)
      then (let s1 = pa_observe cfg e s in
            if pa_handle s1 then Some (True, s1)
            else await_handle cfg e deadline (pa_observe cfg e s1))
      else Some (False, s))"

declare await_handle.simps [code]

definition cancel_active ::
  "perception_config \<Rightarrow> perception_env \<Rightarrow> perception \<Rightarrow> (string option \<times> perception) option" where
  "cancel_active cfg e s =
     (case await_handle cfg e (pe_steady e (pa_tick s) + 2000000000) (pa_observe cfg e s) of
        None \<Rightarrow> None
      | Some (False, s1) \<Rightarrow> Some (None, s1)
      | Some (True, s1) \<Rightarrow>
          (case pe_cancel e (pa_tick s1) of
             Some err \<Rightarrow> Some (Some err, pa_observe cfg e s1)
           | None \<Rightarrow> Some (None, pa_observe cfg e (s1\<lparr>pa_log := pa_log s1 @ [CancelSent]\<rparr>))))"

partial_function (option) image_loop ::
  "perception_config \<Rightarrow> perception_env \<Rightarrow> perception \<Rightarrow> (string option \<times> perception) option" where
  "image_loop cfg e s =
     (let s1 = pa_observe cfg e s in
      if \<not> pe_ok e (pa_tick s) \<or> pa_finished s1 then Some (None, s1)
      else case pe_spin e (pa_tick s1) of
             Some err \<Rightarrow> Some (Some err, pa_observe cfg e s1)
           | None \<Rightarrow> image_loop cfg e (pa_observe cfg e s1))"

declare image_loop.simps [code]

text \<open>\<open>main\<close>: every exception ends the process with code 2.\<close>

definition cancel_then_exit ::
  "perception_config \<Rightarrow> perception_env \<Rightarrow> (perception \<Rightarrow> int \<times> perception) \<Rightarrow> perception \<Rightarrow>
     (int \<times> perception) option" where
  "cancel_then_exit cfg e code s =
     (case cancel_active cfg e s of
        None \<Rightarrow> None
      | Some (Some err, s1) \<Rightarrow> Some (2, s1)
      | Some (None, s1) \<Rightarrow> Some (code s1))"

definition exit_code_or :: "perception_config \<Rightarrow> perception_env \<Rightarrow> int \<Rightarrow> perception \<Rightarrow> int \<times> perception" where
  "exit_code_or cfg e run_code s =
     (if run_code = 0 then (let s1 = pa_observe cfg e s in (pa_exit_code s1, s1)) else (run_code, s))"

definition perception_main ::
  "perception_config \<Rightarrow> perception_env \<Rightarrow> perception \<Rightarrow> (int \<times> perception) option" where
  "perception_main cfg e s =
     (if pc_image_mode cfg then
        (case run_image cfg e s of
           (Inl err, s1) \<Rightarrow> Some (2, s1)
         | (Inr run_code, s1) \<Rightarrow>
             if run_code \<noteq> 0 then cancel_then_exit cfg e (\<lambda>s2. (run_code, s2)) s1
             else (case image_loop cfg e s1 of
                     None \<Rightarrow> None
                   | Some (Some err, s2) \<Rightarrow> Some (2, s2)
                   | Some (None, s2) \<Rightarrow> cancel_then_exit cfg e (exit_code_or cfg e 0) s2))
      else
        (case run_camera cfg e s of
           None \<Rightarrow> None
         | Some (Inl err, s1) \<Rightarrow> Some (2, s1)
         | Some (Inr run_code, s1) \<Rightarrow> cancel_then_exit cfg e (exit_code_or cfg e run_code) s1))"


section \<open>The log\<close>

text \<open>No goal is sent while another one is outstanding.\<close>

fun one_at_a_time :: "bool \<Rightarrow> perception_log list \<Rightarrow> bool" where
  "one_at_a_time busy [] = True"
| "one_at_a_time busy (GoalSent g # l) = (\<not> busy \<and> one_at_a_time True l)"
| "one_at_a_time busy (WorkflowDone code # l) = one_at_a_time False l"
| "one_at_a_time busy (CancelSent # l) = one_at_a_time busy l"

fun goals_sent :: "perception_log list \<Rightarrow> workflow_goal list" where
  "goals_sent [] = []"
| "goals_sent (GoalSent g # l) = g # goals_sent l"
| "goals_sent (_ # l) = goals_sent l"

lemma goal_outstanding_append [simp]:
  "goal_outstanding b (l @ l') = goal_outstanding (goal_outstanding b l) l'"
  by (induction b l rule: goal_outstanding.induct) simp_all

lemma one_at_a_time_append [simp]:
  "one_at_a_time b (l @ l') \<longleftrightarrow> one_at_a_time b l \<and> one_at_a_time (goal_outstanding b l) l'"
  by (induction b l rule: one_at_a_time.induct) simp_all

lemma goals_sent_append [simp]: "goals_sent (l @ l') = goals_sent l @ goals_sent l'"
  by (induction l rule: goals_sent.induct) simp_all

text \<open>The sequence number is the last part of a request identifier.\<close>

definition id_sequence :: "string \<Rightarrow> nat" where
  "id_sequence rid = decimal_value (rev (takeWhile (\<lambda>c. c \<noteq> CHR ''-'') (rev rid)))"

lemma id_sequence_request [simp]: "id_sequence (make_request_id m ts n) = unat n"
proof -
  have digits: "c \<in> set (rev (nat_to_string k)) \<Longrightarrow> c \<noteq> CHR ''-''" for k c
    using nat_to_string_digits [of k] by (auto simp: is_digit_def)
  define p where "p = ''aruco-'' @ int_to_string (mm_marker_id m) @ ''-'' @ nat_to_string (unat ts)"
  have "rev (make_request_id m ts n) = rev (nat_to_string (unat n)) @ CHR ''-'' # rev p"
    by (simp add: make_request_id_def p_def)
  then have "takeWhile (\<lambda>c. c \<noteq> CHR ''-'') (rev (make_request_id m ts n)) = rev (nat_to_string (unat n))"
    by (simp only: takeWhile_append2 [OF digits]) simp
  then show ?thesis by (simp only: id_sequence_def rev_rev_ident decimal_value_to_string)
qed

definition goal_sequences :: "perception \<Rightarrow> nat list" where
  "goal_sequences s = map (id_sequence \<circ> wg_request_id) (goals_sent (pa_log s))"

section \<open>The invariant\<close>

definition adapter_goal :: "perception_config \<Rightarrow> marker_mapping list \<Rightarrow> workflow_goal \<Rightarrow> bool" where
  "adapter_goal cfg ms g \<longleftrightarrow>
     (\<exists>m \<in> set ms. wg_workflow_id g = mm_workflow_id m \<and> wg_target_id g = mm_target_id m) \<and>
     wg_task_id g = wg_request_id g \<and>
     wg_allowed_duration g = milliseconds_duration (pc_allowed_duration_ms cfg)"

definition completed_seen :: "perception_env \<Rightarrow> perception \<Rightarrow> bool" where
  "completed_seen e s \<longleftrightarrow>
     (\<exists>n < pa_tick s. \<exists>r. WorkflowResult r \<in> set (pe_events e n) \<and> workflow_completed r)"

definition perc_base :: "perception_config \<Rightarrow> marker_mapping list \<Rightarrow> perception_env \<Rightarrow> perception \<Rightarrow> bool" where
  "perc_base cfg ms e s \<longleftrightarrow>
     mt_mappings (pa_trigger s) = ms \<and> one_at_a_time False (pa_log s) \<and>
     (goal_outstanding False (pa_log s) \<longrightarrow> pa_active s) \<and>
     (\<forall>g \<in> set (goals_sent (pa_log s)). adapter_goal cfg ms g) \<and>
     (pa_exit_code s = 0 \<longrightarrow> pc_image_mode cfg \<and> completed_seen e s)"

text \<open>Sequence numbers, as long as the number of observations stays below the counter's range.\<close>

definition perc_seq :: "nat \<Rightarrow> perception \<Rightarrow> bool" where
  "perc_seq room s \<longleftrightarrow>
     (pa_tick s < 2 ^ 64 \<longrightarrow>
        unat (pa_sequence s) + room \<le> pa_tick s \<and> sorted_wrt (<) (goal_sequences s) \<and>
        (\<forall>k \<in> set (goal_sequences s). k \<le> unat (pa_sequence s)))"

definition perc_inv :: "perception_config \<Rightarrow> marker_mapping list \<Rightarrow> perception_env \<Rightarrow> perception \<Rightarrow> bool" where
  "perc_inv cfg ms e s \<longleftrightarrow> perc_base cfg ms e s \<and> perc_seq 0 s"

lemma observe_tick_gen: "pa_tick (fold (deliver cfg) evs s) = pa_tick s"
proof (induction evs arbitrary: s)
  case (Cons ev evs)
  have "pa_tick (deliver cfg ev s) = pa_tick s"
    by (cases ev) (auto simp: deliver_def perception_goal_response_def perception_result_def
        finish_locked_def Let_def)
  with Cons show ?case by simp
qed simp

lemma pa_observe_tick [simp]: "pa_tick (pa_observe cfg e s) = Suc (pa_tick s)"
  by (simp add: pa_observe_def observe_tick_gen)

lemma finish_locked_fields [simp]:
  "pa_tick (finish_locked cfg code s) = pa_tick s"
  "pa_sequence (finish_locked cfg code s) = pa_sequence s"
  "goals_sent (pa_log (finish_locked cfg code s)) = goals_sent (pa_log s)"
  "\<not> goal_outstanding False (pa_log (finish_locked cfg code s))"
  "goal_sequences (finish_locked cfg code s) = goal_sequences s"
  by (simp_all add: finish_locked_def Let_def goal_sequences_def)

lemma stop_locked_fields [simp]:
  "pa_tick (stop_locked code s) = pa_tick s" "pa_log (stop_locked code s) = pa_log s"
  "pa_sequence (stop_locked code s) = pa_sequence s" "pa_active (stop_locked code s) = pa_active s"
  "pa_trigger (stop_locked code s) = pa_trigger s" "pa_exit_code (stop_locked code s) = code"
  "goal_sequences (stop_locked code s) = goal_sequences s"
  by (simp_all add: stop_locked_def goal_sequences_def)

lemma perc_base_finish:
  assumes "perc_base cfg ms e s" and "code = 0 \<Longrightarrow> completed_seen e s"
  shows "perc_base cfg ms e (finish_locked cfg code s)"
  using assms
  by (auto simp: perc_base_def finish_locked_def Let_def trigger_on_terminal_def completed_seen_def)

lemma perc_base_stop: "perc_base cfg ms e s \<Longrightarrow> code \<noteq> 0 \<Longrightarrow> perc_base cfg ms e (stop_locked code s)"
  by (auto simp: perc_base_def)

lemma perc_seq_cong:
  "perc_seq room s \<Longrightarrow> pa_tick s' = pa_tick s \<Longrightarrow> pa_sequence s' = pa_sequence s \<Longrightarrow>
   goal_sequences s' = goal_sequences s \<Longrightarrow> perc_seq room s'"
  by (simp add: perc_seq_def)

lemma deliver_seq:
  "pa_sequence (deliver cfg ev s) = pa_sequence s \<and> goal_sequences (deliver cfg ev s) = goal_sequences s"
  by (cases ev) (auto simp: deliver_def perception_goal_response_def perception_result_def
      goal_sequences_def finish_locked_def Let_def)

lemma observe_seq [simp]:
  "pa_sequence (pa_observe cfg e s) = pa_sequence s"
  "goal_sequences (pa_observe cfg e s) = goal_sequences s"
proof -
  have "pa_sequence (fold (deliver cfg) evs s') = pa_sequence s' \<and>
      goal_sequences (fold (deliver cfg) evs s') = goal_sequences s'" for evs s'
    by (induction evs arbitrary: s') (simp_all add: deliver_seq)
  then show "pa_sequence (pa_observe cfg e s) = pa_sequence s"
    and "goal_sequences (pa_observe cfg e s) = goal_sequences s"
    by (simp_all add: pa_observe_def goal_sequences_def)
qed

lemma perc_seq_observe: "perc_seq room s \<Longrightarrow> perc_seq (Suc room) (pa_observe cfg e s)"
  by (auto simp: perc_seq_def)

lemma perc_seq_less: "perc_seq room s \<Longrightarrow> room' \<le> room \<Longrightarrow> perc_seq room' s"
  by (auto simp: perc_seq_def)

lemma perc_base_deliver:
  assumes "perc_base cfg ms e s" and "n < pa_tick s" and "ev \<in> set (pe_events e n)"
  shows "perc_base cfg ms e (deliver cfg ev s)"
proof (cases "goal_outstanding False (pa_log s)")
  case out: True
  show ?thesis
  proof (cases ev)
    case (WorkflowResponse handle)
    with out assms perc_base_finish [of cfg ms e s 2] show ?thesis
      by (auto simp: deliver_def perception_goal_response_def perc_base_def completed_seen_def)
  next
    case (WorkflowResult r)
    have "workflow_completed r \<Longrightarrow> completed_seen e s"
      using assms(2,3) WorkflowResult by (auto simp: completed_seen_def)
    with out assms(1) WorkflowResult show ?thesis
      by (auto simp: deliver_def perception_result_def intro: perc_base_finish)
  qed
qed (simp add: deliver_def assms(1))

lemma perc_base_observe:
  assumes "perc_base cfg ms e s"
  shows "perc_base cfg ms e (pa_observe cfg e s)"
proof -
  have "perc_base cfg ms e (fold (deliver cfg) (pe_events e (pa_tick s)) (s\<lparr>pa_tick := Suc (pa_tick s)\<rparr>)) \<and>
      pa_tick (fold (deliver cfg) (pe_events e (pa_tick s)) (s\<lparr>pa_tick := Suc (pa_tick s)\<rparr>)) = Suc (pa_tick s)"
  proof (rule fold_invariant [where Q = "\<lambda>ev. ev \<in> set (pe_events e (pa_tick s))" and
        P = "\<lambda>s'. perc_base cfg ms e s' \<and> pa_tick s' = Suc (pa_tick s)"])
    show "perc_base cfg ms e (s\<lparr>pa_tick := Suc (pa_tick s)\<rparr>) \<and>
        pa_tick (s\<lparr>pa_tick := Suc (pa_tick s)\<rparr>) = Suc (pa_tick s)"
      using assms by (auto simp: perc_base_def completed_seen_def less_Suc_eq)
  next
    fix ev s' assume "ev \<in> set (pe_events e (pa_tick s))"
      and "perc_base cfg ms e s' \<and> pa_tick s' = Suc (pa_tick s)"
    then show "perc_base cfg ms e (deliver cfg ev s') \<and> pa_tick (deliver cfg ev s') = Suc (pa_tick s)"
      using perc_base_deliver [of cfg ms e s' "pa_tick s" ev] observe_tick_gen [of cfg "[ev]" s'] by simp
  qed auto
  then show ?thesis by (simp add: pa_observe_def)
qed

lemma perc_inv_observe: "perc_inv cfg ms e s \<Longrightarrow> perc_inv cfg ms e (pa_observe cfg e s)"
  using perc_base_observe perc_seq_less [OF perc_seq_observe, of 0] by (auto simp: perc_inv_def)

lemma perc_inv_finish: "perc_inv cfg ms e s \<Longrightarrow> code \<noteq> 0 \<Longrightarrow> perc_inv cfg ms e (finish_locked cfg code s)"
  using perc_base_finish by (auto simp: perc_inv_def intro: perc_seq_cong)

lemma perc_inv_stop: "perc_inv cfg ms e s \<Longrightarrow> code \<noteq> 0 \<Longrightarrow> perc_inv cfg ms e (stop_locked code s)"
  using perc_base_stop by (auto simp: perc_inv_def intro: perc_seq_cong)


section \<open>Every step preserves the invariant\<close>

lemma trigger_observe_frame:
  assumes "trigger_observe ids active imm t = (out, t')"
  shows "mt_mappings t' = mt_mappings t \<and> (out = Some m \<longrightarrow> m \<in> set (mt_mappings t) \<and> \<not> active)"
proof -
  note sub = visible_mappings_subset [of ids "mt_mappings t"]
  show ?thesis
    using assms sub
    by (cases "visible_mappings ids (mt_mappings t)" rule: remdups_adj.cases)
      (auto simp: trigger_observe_def Let_def split: if_splits)
qed

text \<open>Between claiming the workflow and sending it, no goal is outstanding and no callback comes.\<close>

definition perc_claimed :: "perception_config \<Rightarrow> marker_mapping list \<Rightarrow> perception_env \<Rightarrow> perception \<Rightarrow> bool" where
  "perc_claimed cfg ms e s \<longleftrightarrow>
     perc_inv cfg ms e s \<and> pa_active s \<and> \<not> goal_outstanding False (pa_log s) \<and>
     (pa_tick s < 2 ^ 64 \<longrightarrow> (\<forall>k \<in> set (goal_sequences s). k < unat (pa_sequence s)))"

lemma observe_idle:
  assumes "\<not> goal_outstanding False (pa_log s)"
  shows "pa_observe cfg e s = s\<lparr>pa_tick := Suc (pa_tick s)\<rparr>"
proof -
  have "fold (deliver cfg) evs s' = s'" if "\<not> goal_outstanding False (pa_log s')" for evs s'
    using that by (induction evs) (simp_all add: deliver_def)
  with assms show ?thesis by (simp add: pa_observe_def)
qed

lemma perc_claimed_observe: "perc_claimed cfg ms e s \<Longrightarrow> perc_claimed cfg ms e (pa_observe cfg e s)"
  using perc_inv_observe [of cfg ms e s] observe_idle [of s cfg e]
  by (auto simp: perc_claimed_def goal_sequences_def)

lemma make_workflow_goal_adapter:
  "m \<in> set ms \<Longrightarrow> adapter_goal cfg ms (make_workflow_goal cfg m ts n)"
  by (auto simp: adapter_goal_def make_workflow_goal_def Let_def)

lemma perc_inv_send:
  assumes "perc_claimed cfg ms e s" and "m \<in> set ms"
  shows "perc_inv cfg ms e (s\<lparr>pa_log := pa_log s @ [GoalSent (make_workflow_goal cfg m ts (pa_sequence s))]\<rparr>)"
proof -
  have "id_sequence (wg_request_id (make_workflow_goal cfg m ts (pa_sequence s))) = unat (pa_sequence s)"
    by (simp add: make_workflow_goal_def Let_def)
  with assms show ?thesis
    by (auto simp: perc_claimed_def perc_inv_def perc_base_def perc_seq_def goal_sequences_def
        completed_seen_def sorted_wrt_append make_workflow_goal_adapter)
qed

lemma send_workflow_inv:
  assumes "perc_claimed cfg ms e s" and "m \<in> set ms"
  shows "perc_inv cfg ms e (snd (send_workflow cfg e m s))"
proof -
  note c1 = perc_claimed_observe [OF assms(1)]
  note c2 = perc_claimed_observe [OF c1]
  have inv: "perc_claimed cfg ms e s' \<Longrightarrow> perc_inv cfg ms e s'" for s' by (simp add: perc_claimed_def)
  show ?thesis
    using inv [OF c1] perc_inv_finish [OF inv [OF c1], of 1] perc_inv_finish [OF inv [OF c2], of 2]
      perc_inv_observe [OF perc_inv_send [OF c1 assms(2)]]
    by (auto simp: send_workflow_def Let_def split: sum.splits bool.splits option.splits)
qed

lemma process_frame_inv:
  assumes "perc_inv cfg ms e s"
  shows "perc_inv cfg ms e (snd (process_frame cfg e frame imm s))"
proof -
  let ?s1 = "pa_observe cfg e s" let ?s2 = "pa_observe cfg e ?s1"
  note i1 = perc_inv_observe [OF assms]
  note i2 = perc_inv_observe [OF i1]
  show ?thesis
  proof (cases "if pa_active ?s1 then Some [] else aruco_detect frame")
    case None
    with perc_inv_stop [OF i2, of 2] show ?thesis by (simp add: process_frame_def Let_def)
  next
    case (Some visible)
    show ?thesis
    proof (cases "pa_finished ?s2")
      case True
      with Some i2 show ?thesis by (simp add: process_frame_def Let_def)
    next
      case False
      obtain out t where ob: "trigger_observe visible (pa_active ?s2) imm (pa_trigger ?s2) = (out, t)"
        by fastforce
      have tr: "mt_mappings t = ms" "out = Some m \<Longrightarrow> m \<in> set ms \<and> \<not> pa_active ?s2" for m
        using trigger_observe_frame [OF ob, of m] i2 by (auto simp: perc_inv_def perc_base_def)
      show ?thesis
      proof (cases out)
        case None
        have "perc_inv cfg ms e (?s2\<lparr>pa_trigger := t\<rparr>)"
          using i2 tr(1) by (auto simp: perc_inv_def perc_base_def perc_seq_def goal_sequences_def completed_seen_def)
        with Some False ob None show ?thesis by (simp add: process_frame_def Let_def)
      next
        case (Some m)
        let ?s3 = "?s2\<lparr>pa_trigger := t, pa_active := True, pa_sequence := pa_sequence ?s2 + 1\<rparr>"
        have "perc_seq 2 ?s2"
          using assms perc_seq_observe [OF perc_seq_observe, of 0 s cfg e cfg e]
          by (simp add: perc_inv_def numeral_2_eq_2)
        then have seq: "pa_tick ?s2 < 2 ^ 64 \<Longrightarrow> unat (pa_sequence ?s2 + 1) = Suc (unat (pa_sequence ?s2))"
          using unat_add_lem [of "pa_sequence ?s2" 1] by (simp add: perc_seq_def)
        have "perc_claimed cfg ms e ?s3"
          using i2 tr Some seq \<open>perc_seq 2 ?s2\<close>
          by (auto simp: perc_claimed_def perc_inv_def perc_base_def perc_seq_def goal_sequences_def
              completed_seen_def)
        with send_workflow_inv [OF this, of m] tr(2) [OF Some] False ob Some
          \<open>(if pa_active ?s1 then Some [] else aruco_detect frame) = Some visible\<close>
        show ?thesis by (simp add: process_frame_def Let_def)
      qed
    qed
  qed
qed

lemma run_image_inv:
  assumes "perc_inv cfg ms e s"
  shows "perc_inv cfg ms e (snd (run_image cfg e s))"
  using assms perc_inv_stop [OF perc_inv_observe [OF assms], of 2]
    process_frame_inv [OF assms, of "the (pe_image e)" True]
    perc_inv_observe [of cfg ms e "snd (process_frame cfg e (the (pe_image e)) True s)"]
    perc_inv_stop [of cfg ms e "pa_observe cfg e (snd (process_frame cfg e (the (pe_image e)) True s))" 2]
  by (auto simp: run_image_def Let_def split: option.splits sum.splits bool.splits prod.splits)

lemma camera_loop_inv:
  "camera_loop cfg e failures s = Some x \<Longrightarrow> perc_inv cfg ms e s \<longrightarrow> perc_inv cfg ms e (snd x)"
proof (induction rule: camera_loop.raw_induct [rotated 1, consumes 1, case_names step])
  case (step loop cfg e failures s x)
  let ?s1 = "pa_observe cfg e s" let ?s2 = "pa_observe cfg e ?s1" let ?s3 = "pa_observe cfg e ?s2"
  show ?case
  proof
    assume i0: "perc_inv cfg ms e s"
    note i1 = perc_inv_observe [OF i0] and i2 = perc_inv_observe [OF perc_inv_observe [OF i0]]
    note i3 = perc_inv_observe [OF i2]
    show "perc_inv cfg ms e (snd x)"
    proof (cases "\<not> pe_ok e (pa_tick s) \<or> pa_finished ?s1")
      case True
      with step.hyps i2 show ?thesis by (auto simp: Let_def)
    next
      case go: False
      show ?thesis
      proof (cases "pe_spin e (pa_tick ?s1)")
        case (Some err)
        with step.hyps go i2 show ?thesis by (auto simp: Let_def)
      next
        case spin: None
        show ?thesis
        proof (cases "pe_read e (pa_tick ?s2)")
          case None
          with step.hyps go spin perc_inv_stop [OF i3, of 2] show ?thesis by (auto simp: Let_def)
        next
          case read: (Some r)
          show ?thesis
          proof (cases r)
            case None
            with step.hyps go spin read perc_inv_stop [OF i3, of 2] step.IH i3 show ?thesis
              by (auto simp: Let_def split: if_splits)
          next
            case (Some frame)
            with step.hyps go spin read process_frame_inv [OF i3, of frame False] step.IH show ?thesis
              by (auto simp: Let_def split: sum.splits)
          qed
        qed
      qed
    qed
  qed
qed


lemma await_handle_inv:
  "await_handle cfg e deadline s = Some x \<Longrightarrow> perc_inv cfg ms e s \<longrightarrow> perc_inv cfg ms e (snd x)"
proof (induction rule: await_handle.raw_induct [rotated 1, consumes 1, case_names step])
  case (step loop cfg e deadline s x)
  then show ?case
    using perc_inv_observe [of cfg ms e s] perc_inv_observe [of cfg ms e "pa_observe cfg e s"]
    by (auto simp: Let_def split: if_splits)
qed

lemma image_loop_inv:
  "image_loop cfg e s = Some x \<Longrightarrow> perc_inv cfg ms e s \<longrightarrow> perc_inv cfg ms e (snd x)"
proof (induction rule: image_loop.raw_induct [rotated 1, consumes 1, case_names step])
  case (step loop cfg e s x)
  then show ?case
    using perc_inv_observe [of cfg ms e s] perc_inv_observe [of cfg ms e "pa_observe cfg e s"]
    by (auto simp: Let_def split: if_splits option.splits)
qed

lemma perc_inv_log_cancel:
  "perc_inv cfg ms e s \<Longrightarrow> perc_inv cfg ms e (s\<lparr>pa_log := pa_log s @ [CancelSent]\<rparr>)"
  by (auto simp: perc_inv_def perc_base_def perc_seq_def goal_sequences_def completed_seen_def)

lemma cancel_active_inv:
  assumes "cancel_active cfg e s = Some (err, s')" and "perc_inv cfg ms e s"
  shows "perc_inv cfg ms e s'"
proof -
  obtain x where x: "await_handle cfg e (pe_steady e (pa_tick s) + 2000000000) (pa_observe cfg e s) = Some x"
    using assms(1) by (auto simp: cancel_active_def split: option.splits)
  with await_handle_inv perc_inv_observe [OF assms(2)] have "perc_inv cfg ms e (snd x)" by blast
  with assms(1) x perc_inv_observe perc_inv_log_cancel show ?thesis
    by (cases x) (auto simp: cancel_active_def split: option.splits bool.splits)
qed

lemma cancel_then_exit_inv:
  assumes "cancel_then_exit cfg e code s = Some (n, s')" and "perc_inv cfg ms e s"
    and "\<And>s1. perc_inv cfg ms e s1 \<Longrightarrow> perc_inv cfg ms e (snd (code s1))"
  shows "perc_inv cfg ms e s' \<and> (n = 2 \<or> (\<exists>s1. perc_inv cfg ms e s1 \<and> code s1 = (n, s')))"
  using assms(1) cancel_active_inv [OF _ assms(2)] assms(3)
  by (auto simp: cancel_then_exit_def split: option.splits) (metis snd_conv)+

lemma exit_code_or_inv:
  "perc_inv cfg ms e s \<Longrightarrow> perc_inv cfg ms e (snd (exit_code_or cfg e n s))"
  using perc_inv_observe by (simp add: exit_code_or_def Let_def)

lemma exit_code_or_zero:
  "exit_code_or cfg e n s = (0, s') \<Longrightarrow> pa_exit_code s' = 0 \<and> n = 0"
  by (auto simp: exit_code_or_def Let_def split: if_splits)

lemma perc_inv_init:
  assumes "trigger_new ms c r = Inr t"
  shows "perc_inv cfg ms e (perception_init t)"
  using assms by (auto simp: trigger_new_ok perc_inv_def perc_base_def perc_seq_def perception_init_def
      goal_sequences_def)

lemma perception_main_inv:
  assumes "perception_main cfg e s = Some (n, s')" and "perc_inv cfg ms e s"
  shows "perc_inv cfg ms e s' \<and> (n = 0 \<longrightarrow> pa_exit_code s' = 0)"
proof (cases "pc_image_mode cfg")
  case True
  obtain r s1 where r: "run_image cfg e s = (r, s1)" by fastforce
  with run_image_inv [OF assms(2)] have i1: "perc_inv cfg ms e s1" by (metis snd_conv)
  show ?thesis
  proof (cases "\<exists>code. r = Inr code \<and> code = 0")
    case False
    with assms(1) True r i1 cancel_then_exit_inv [OF _ i1, of "\<lambda>s2. (projr r, s2)" n s'] show ?thesis
      by (auto simp: perception_main_def split: sum.splits if_splits)
  next
    case zero: True
    with assms(1) True r obtain x where x: "image_loop cfg e s1 = Some x"
      by (auto simp: perception_main_def split: option.splits)
    with image_loop_inv i1 have i2: "perc_inv cfg ms e (snd x)" by blast
    show ?thesis
    proof (cases "fst x")
      case (Some err)
      with assms(1) True r zero x i2 show ?thesis by (cases x) (auto simp: perception_main_def)
    next
      case None
      with assms(1) True r zero x
      have "cancel_then_exit cfg e (exit_code_or cfg e 0) (snd x) = Some (n, s')"
        by (cases x) (auto simp: perception_main_def)
      from cancel_then_exit_inv [OF this i2 exit_code_or_inv] show ?thesis
        using exit_code_or_zero by auto
    qed
  qed
next
  case False
  with assms(1) obtain x where x: "run_camera cfg e s = Some x"
    by (auto simp: perception_main_def split: option.splits)
  have i1: "perc_inv cfg ms e (snd x)"
    using x camera_loop_inv [of cfg e 0 s x ms] assms(2) perc_inv_stop [OF perc_inv_observe [OF assms(2)], of 2]
    by (auto simp: run_camera_def split: option.splits bool.splits)
  show ?thesis
  proof (cases "fst x")
    case (Inl err)
    with assms(1) False x i1 show ?thesis by (cases x) (auto simp: perception_main_def)
  next
    case (Inr code)
    with assms(1) False x have "cancel_then_exit cfg e (exit_code_or cfg e code) (snd x) = Some (n, s')"
      by (cases x) (auto simp: perception_main_def)
    from cancel_then_exit_inv [OF this i1 exit_code_or_inv] show ?thesis
      using exit_code_or_zero by auto
  qed
qed

section \<open>The process ends when it is stopped\<close>

definition perception_stopped :: "perception_env \<Rightarrow> bool" where
  "perception_stopped e \<longleftrightarrow> (\<exists>n. \<forall>m \<ge> n. \<not> pe_ok e m)"

lemma process_frame_tick: "pa_tick s < pa_tick (snd (process_frame cfg e frame imm s))"
  by (auto simp: process_frame_def send_workflow_def Let_def split: option.splits sum.splits bool.splits
      prod.splits)

lemma camera_loop_returns:
  assumes "\<forall>m \<ge> n. \<not> pe_ok e m"
  shows "\<exists>x. camera_loop cfg e failures s = Some x"
proof (induction "n - pa_tick s" arbitrary: failures s rule: less_induct)
  case less
  let ?s3 = "pa_observe cfg e (pa_observe cfg e (pa_observe cfg e s))"
  show ?case
  proof (cases "pe_ok e (pa_tick s)")
    case True
    then have "pa_tick s < n" using assms by (meson not_le_imp_less)
    then have "\<exists>x. camera_loop cfg e k s' = Some x" if "pa_tick s < pa_tick s'" for k s'
      using less [of s' k] that by simp
    note rec = this [of ?s3] this [of "snd (process_frame cfg e f False ?s3)" for f]
    have "pa_tick s < pa_tick (snd (process_frame cfg e f False ?s3))" for f
      using process_frame_tick [of ?s3 cfg e f False] by simp
    with rec show ?thesis
      by (subst camera_loop.simps) (simp add: Let_def split: option.split sum.split)
  qed (simp add: camera_loop.simps [of cfg e failures s] Let_def)
qed

lemma await_handle_returns:
  assumes "\<forall>m \<ge> n. \<not> pe_ok e m"
  shows "\<exists>x. await_handle cfg e deadline s = Some x"
proof (induction "n - pa_tick s" arbitrary: s rule: less_induct)
  case less
  show ?case
  proof (cases "pe_ok e (pa_tick s)")
    case True
    then have "pa_tick s < n" using assms by (meson not_le_imp_less)
    with less [of "pa_observe cfg e (pa_observe cfg e s)"] show ?thesis
      by (subst await_handle.simps) (simp add: Let_def, blast)
  qed (auto simp: await_handle.simps [of cfg e deadline s])
qed

lemma image_loop_returns:
  assumes "\<forall>m \<ge> n. \<not> pe_ok e m"
  shows "\<exists>x. image_loop cfg e s = Some x"
proof (induction "n - pa_tick s" arbitrary: s rule: less_induct)
  case less
  show ?case
  proof (cases "pe_ok e (pa_tick s)")
    case True
    then have "pa_tick s < n" using assms by (meson not_le_imp_less)
    with less [of "pa_observe cfg e (pa_observe cfg e s)"] show ?thesis
      by (simp add: image_loop.simps [of cfg e s] Let_def split: option.split)
  qed (simp add: image_loop.simps [of cfg e s] Let_def)
qed

lemma cancel_then_exit_returns:
  assumes "\<forall>m \<ge> n. \<not> pe_ok e m"
  shows "\<exists>x. cancel_then_exit cfg e code s = Some x"
  using await_handle_returns [OF assms, of cfg "pe_steady e (pa_tick s) + 2000000000" "pa_observe cfg e s"]
  by (auto simp: cancel_then_exit_def cancel_active_def split: bool.split option.split)

lemma perception_main_returns:
  assumes "perception_stopped e"
  shows "\<exists>x. perception_main cfg e s = Some x"
proof -
  from assms obtain n where n: "\<forall>m \<ge> n. \<not> pe_ok e m" by (auto simp: perception_stopped_def)
  obtain r s1 where "run_image cfg e s = (r, s1)" by fastforce
  moreover obtain x where "image_loop cfg e s1 = Some x" using image_loop_returns [OF n] by blast
  moreover have "\<exists>y. run_camera cfg e s = Some y"
    using camera_loop_returns [OF n, of cfg 0 s]
    by (auto simp: run_camera_def split: option.split bool.split)
  then obtain y where "run_camera cfg e s = Some y" ..
  ultimately show ?thesis
    using cancel_then_exit_returns [OF n, of cfg]
    by (cases x; cases y) (simp add: perception_main_def split: sum.split option.split)
qed


section \<open>Properties\<close>

lemma perception_configure_ok:
  assumes "perception_configure mode path cam ids ws ts ms confirm rearm = Inr (cfg, t)"
  shows "trigger_new (make_mappings ids ws ts) (word_of_int confirm) (word_of_int rearm) = Inr t"
    and "pc_allowed_duration_ms cfg = ms" and "0 < ms" and "ms \<le> INT32_MAX * 1000 + 999"
    and "pc_image_mode cfg \<longleftrightarrow> mode = ''image''"
  using assms by (auto simp: perception_configure_def split: if_splits sum.splits)

lemma milliseconds_duration_valid:
  assumes "0 < ms" and "ms \<le> INT32_MAX * 1000 + 999"
  shows "duration_is_valid (milliseconds_duration ms)"
    and "to_steady_duration (milliseconds_duration ms) = ms * 1000000"
proof -
  have sec: "sint (dur_sec (milliseconds_duration ms)) = ms div 1000"
    using assms by (simp add: milliseconds_duration_def)
  have ns: "uint (dur_nanosec (milliseconds_duration ms)) = ms mod 1000 * 1000000"
    using pos_mod_bound [of 1000 ms] pos_mod_sign [of 1000 ms]
    by (simp add: milliseconds_duration_def del: of_int_mult)
  show "to_steady_duration (milliseconds_duration ms) = ms * 1000000"
    unfolding to_steady_duration_def sec ns using mult_div_mod_eq [of 1000 ms] by linarith
  show "duration_is_valid (milliseconds_duration ms)"
    unfolding duration_is_valid_def sec ns
    using assms(1) pos_mod_bound [of 1000 ms] pos_mod_sign [of 1000 ms] mult_div_mod_eq [of 1000 ms]
      pos_imp_zdiv_nonneg_iff [of 1000 ms]
    by linarith
qed

lemma sorted_sequences_distinct:
  "sorted_wrt (<) (map (f \<circ> g) xs :: nat list) \<Longrightarrow> distinct (map g xs)"
  by (induction xs) (fastforce simp: image_iff)+

text \<open>C24. A stopped perception process always exits, and its run was safe whatever the camera, the
  orchestrator and the clock did: it never has two workflows outstanding; its request identifiers
  are pairwise distinct while the run has fewer than \<open>2\<^sup>6\<^sup>4\<close> observations; and it exits with code 0
  only in image mode and only after a result that says the workflow completed.
\<close>

theorem perception_run_is_safe:
  assumes "perception_configure mode path cam ids ws ts ms confirm rearm = Inr (cfg, t)"
    and "perception_stopped e"
  shows "\<exists>n s'. perception_main cfg e (perception_init t) = Some (n, s') \<and>
    one_at_a_time False (pa_log s') \<and>
    (pa_tick s' < 2 ^ 64 \<longrightarrow> distinct (map wg_request_id (goals_sent (pa_log s')))) \<and>
    (n = 0 \<longrightarrow> mode = ''image'' \<and> completed_seen e s')"
proof -
  note conf = perception_configure_ok [OF assms(1)]
  obtain x where "perception_main cfg e (perception_init t) = Some x"
    using perception_main_returns [OF assms(2)] by blast
  then obtain n s' where r: "perception_main cfg e (perception_init t) = Some (n, s')" by (cases x) auto
  from perception_main_inv [OF r perc_inv_init [OF conf(1)]]
  have inv: "perc_inv cfg (make_mappings ids ws ts) e s'" and "n = 0 \<longrightarrow> pa_exit_code s' = 0"
    by auto
  with conf(5) have "one_at_a_time False (pa_log s')" "n = 0 \<longrightarrow> mode = ''image'' \<and> completed_seen e s'"
    by (auto simp: perc_inv_def perc_base_def)
  moreover have "pa_tick s' < 2 ^ 64 \<Longrightarrow> distinct (map wg_request_id (goals_sent (pa_log s')))"
    using inv sorted_sequences_distinct by (auto simp: perc_inv_def perc_seq_def goal_sequences_def)
  ultimately show ?thesis using r by blast
qed

text \<open>Every workflow goal the perception process sends carries the configured workflow and target of
  one marker and exactly the configured time budget, and an orchestrator that is idle and
  accepting takes it, provided the configured workflow is one it knows.
\<close>

theorem perception_goal_accepted_by_orchestrator:
  assumes "perception_configure mode path cam ids ws ts ms confirm rearm = Inr (cfg, t)"
    and "perception_main cfg e (perception_init t) = Some (n, s')"
    and "g \<in> set (goals_sent (pa_log s'))"
    and "set ws \<subseteq> {''single_task'', ''ready_then_task''}" and "\<not> or_active orch"
  shows "fst (orch_handle_goal True True now g orch) = ACCEPT_AND_EXECUTE \<and>
    wg_workflow_id g \<in> set ws \<and> wg_target_id g \<in> set ts \<and>
    to_steady_duration (wg_allowed_duration g) = ms * 1000000"
proof -
  note conf = perception_configure_ok [OF assms(1)]
  have "perc_inv cfg (make_mappings ids ws ts) e s'"
    using perception_main_inv [OF assms(2) perc_inv_init [OF conf(1)]] by simp
  with assms(3) have "adapter_goal cfg (make_mappings ids ws ts) g"
    by (simp add: perc_inv_def perc_base_def)
  then have mem: "wg_workflow_id g \<in> set ws" "wg_target_id g \<in> set ts"
    and dur: "wg_allowed_duration g = milliseconds_duration ms"
    using conf(2) by (auto simp: adapter_goal_def make_mappings_def elim!: in_set_zipE)
  note v = milliseconds_duration_valid [OF conf(3,4)]
  from v(1) have "0 \<le> sint (dur_sec (milliseconds_duration ms))"
    "uint (dur_nanosec (milliseconds_duration ms)) < 1000000000"
    "\<not> (dur_sec (milliseconds_duration ms) = 0 \<and> dur_nanosec (milliseconds_duration ms) = 0)"
    by (auto simp: duration_is_valid_def)
  moreover have "wg_workflow_id g = ''single_task'' \<or> wg_workflow_id g = ''ready_then_task''"
    using mem(1) assms(4) by blast
  ultimately show ?thesis
    using mem dur v(2) assms(5) by (auto simp: orch_handle_goal_def Let_def)
qed

text \<open>Once the context is shut down, the exit path sends no cancel, even with an accepted workflow.\<close>

lemma no_cancel_after_shutdown:
  assumes "\<not> pe_ok e (Suc (pa_tick s))"
  shows "cancel_active cfg e s = Some (None, pa_observe cfg e s)"
  using assms by (simp add: cancel_active_def await_handle.simps)

text \<open>A run: the image shows marker 10, the workflow is accepted and completes, the process exits 0.\<close>

definition sample_perception_env :: perception_env where
  "sample_perception_env =
     \<lparr>pe_ok = (\<lambda>n. n < 100), pe_steady = (\<lambda>n. int n * 1000000000), pe_wall_ms = (\<lambda>n. 1700000000000),
      pe_events = (\<lambda>n. if n = 3 then [WorkflowResponse True]
        else if n = 4 then [WorkflowResult \<lparr>wr_code = RC_SUCCEEDED,
               wr_result = Some \<lparr>res_outcome = COMPLETED, res_error_code = 0, res_message = []\<rparr>\<rparr>]
        else []),
      pe_image = Some \<lparr>cf_empty = False, cf_markers = Some [(10, 4)]\<rparr>, pe_camera_open = None,
      pe_read = (\<lambda>n. None), pe_spin = (\<lambda>n. None), pe_server = (\<lambda>n. Inr True), pe_send = (\<lambda>n. None),
      pe_cancel = (\<lambda>n. None)\<rparr>"

lemma sample_perception_configured:
  "perception_configure ''image'' ''/tmp/a.png'' 0 [10, 20] [''single_task'', ''ready_then_task'']
     [''dock_a'', ''home''] 3000 2 1 =
   Inr (\<lparr>pc_image_mode = True, pc_allowed_duration_ms = 3000\<rparr>, sample_trigger)"
  by (simp add: perception_configure_def trigger_new_def trigger_validate_def make_mappings_def
      sample_trigger_def sample_mappings_def)

lemma sample_perception_stopped: "perception_stopped sample_perception_env"
  unfolding perception_stopped_def sample_perception_env_def by (intro exI [of _ 100]) simp


abbreviation sample_perception_config :: perception_config where
  "sample_perception_config \<equiv> \<lparr>pc_image_mode = True, pc_allowed_duration_ms = 3000\<rparr>"

lemma sample_perception_env_simps [simp]:
  "pe_ok sample_perception_env n \<longleftrightarrow> n < 100"
  "pe_steady sample_perception_env n = int n * 1000000000"
  "pe_wall_ms sample_perception_env n = 1700000000000"
  "n \<noteq> 3 \<Longrightarrow> n \<noteq> 4 \<Longrightarrow> pe_events sample_perception_env n = []"
  "pe_events sample_perception_env (Suc (Suc (Suc 0))) = [WorkflowResponse True]"
  "pe_events sample_perception_env 4 = [WorkflowResult \<lparr>wr_code = RC_SUCCEEDED,
     wr_result = Some \<lparr>res_outcome = COMPLETED, res_error_code = 0, res_message = []\<rparr>\<rparr>]"
  "pe_image sample_perception_env = Some \<lparr>cf_empty = False, cf_markers = Some [(10, 4)]\<rparr>"
  "pe_spin sample_perception_env n = None" "pe_server sample_perception_env n = Inr True"
  "pe_send sample_perception_env n = None" "pe_cancel sample_perception_env n = None"
  by (simp_all add: sample_perception_env_def)

lemma sample_run_image:
  "run_image sample_perception_config sample_perception_env (perception_init sample_trigger) =
     (Inr 0, \<lparr>pa_tick = 4, pa_sequence = 1, pa_active = True, pa_finished = False, pa_exit_code = 5,
              pa_trigger = sample_trigger\<lparr>mt_armed := False\<rparr>, pa_handle = True,
              pa_log = [GoalSent (make_workflow_goal sample_perception_config (hd sample_mappings)
                          1700000000000 1)]\<rparr>)"
  by (simp add: run_image_def process_frame_def send_workflow_def pa_observe_def deliver_def
      perception_goal_response_def perception_init_def aruco_detect_def
      trigger_observe_def visible_mappings_def sample_trigger_def sample_mappings_def)


definition sample_perception_done :: perception where
  "sample_perception_done =
     \<lparr>pa_tick = 9, pa_sequence = 1, pa_active = False, pa_finished = True, pa_exit_code = 0,
      pa_trigger = trigger_on_terminal (sample_trigger\<lparr>mt_armed := False\<rparr>), pa_handle = False,
      pa_log = [GoalSent (make_workflow_goal sample_perception_config (hd sample_mappings)
                  1700000000000 1), WorkflowDone 0]\<rparr>"

lemma sample_perception_run:
  "perception_main sample_perception_config sample_perception_env (perception_init sample_trigger) =
     Some (0, sample_perception_done)"
  by (simp add: perception_main_def sample_run_image image_loop.simps await_handle.simps
      cancel_then_exit_def cancel_active_def exit_code_or_def pa_observe_def deliver_def
      perception_result_def finish_locked_def workflow_completed_def sample_perception_done_def)

theorem perception_run_is_safe_witness:
  "\<exists>n s'. perception_main sample_perception_config sample_perception_env (perception_init sample_trigger)
     = Some (n, s') \<and> n = 0 \<and> completed_seen sample_perception_env s'"
  using perception_run_is_safe [OF sample_perception_configured sample_perception_stopped]
    sample_perception_run by auto

theorem perception_goal_accepted_by_orchestrator_witness:
  "\<exists>g. g \<in> set (goals_sent (pa_log sample_perception_done)) \<and>
     to_steady_duration (wg_allowed_duration g) = 3000000000 \<and>
     fst (orch_handle_goal True True 0 g sample_orchestrator) = ACCEPT_AND_EXECUTE"
  using perception_goal_accepted_by_orchestrator [OF sample_perception_configured sample_perception_run,
      of "make_workflow_goal sample_perception_config (hd sample_mappings) 1700000000000 1"
        sample_orchestrator 0]
  by (simp add: sample_perception_done_def sample_orchestrator_def)

end
