(* ===== verification/Spin_Loop.thy ===== *)
theory Spin_Loop
  imports Runtime_Prelude
begin

text \<open>
  \<open>rclcpp::spin\<close> in the programs that send one goal and exit: callbacks run one after the other
  until one of them shuts the context down. The locale states what such a program's callbacks
  promise, and proves once that the exit code is decided by the first event that ends the run.
\<close>

text \<open>Spinning on a finite sequence of events; \<open>None\<close> when the program still spins at its end.\<close>

fun spin_until :: "('s \<Rightarrow> bool) \<Rightarrow> ('e \<Rightarrow> 's \<Rightarrow> 's) \<Rightarrow> 'e list \<Rightarrow> 's \<Rightarrow> 's option" where
  "spin_until stopped callback [] s = (if stopped s then Some s else None)"
| "spin_until stopped callback (ev # evs) s =
     (if stopped s then Some s else spin_until stopped callback evs (callback ev s))"

lemma spin_until_stopped [simp]: "stopped s \<Longrightarrow> spin_until stopped callback evs s = Some s"
  by (cases evs) simp_all

locale spinning_client =
  fixes stopped :: "'s \<Rightarrow> bool"
    and callback :: "'e \<Rightarrow> 's \<Rightarrow> 's"
    and exit_code :: "'s \<Rightarrow> int"
    and final :: "'e \<Rightarrow> bool"
    and final_code :: "'e \<Rightarrow> int"
    and default_code :: int
  assumes stops: "stopped (callback ev s) \<longleftrightarrow> stopped s \<or> final ev"
    and final_exit: "exit_code s = default_code \<Longrightarrow> final ev \<Longrightarrow>
      exit_code (callback ev s) = final_code ev"
    and keeps_exit: "exit_code s = default_code \<Longrightarrow> \<not> final ev \<Longrightarrow>
      exit_code (callback ev s) = default_code"
begin

lemma exit_code_of_first_final:
  "\<not> stopped s \<Longrightarrow> exit_code s = default_code \<Longrightarrow>
   map_option exit_code (spin_until stopped callback evs s) = map_option final_code (List.find final evs)"
proof (induction evs arbitrary: s)
  case (Cons ev evs)
  show ?case
  proof (cases "final ev")
    case True
    with Cons.prems stops [of ev s] final_exit [of s ev] show ?thesis by simp
  next
    case False
    with Cons.prems Cons.IH [of "callback ev s"] stops [of ev s] keeps_exit [of s ev] show ?thesis by simp
  qed
qed simp

lemma returns_iff_final_event:
  "\<not> stopped s \<Longrightarrow> exit_code s = default_code \<Longrightarrow>
   (\<exists>s'. spin_until stopped callback evs s = Some s') \<longleftrightarrow> (\<exists>ev \<in> set evs. final ev)"
  using exit_code_of_first_final [of s evs]
  by (cases "spin_until stopped callback evs s"; cases "List.find final evs")
    (auto simp: find_None_iff dest: find_Some_split)

end

end
