(* ===== verification/Text_Planner.thy ===== *)
theory Text_Planner
  imports Perception_Adapter Spin_Loop "HOL-Library.Char_ord" "HOL-Library.List_Lexorder"
begin

text \<open>
  \<open>natural_language_planner.cpp\<close> and \<open>ai_task_adapter_node.cpp\<close>: turning a sentence into one
  task goal, sending it to the executor and turning the outcome into an exit code.

  \<open>contains_token\<close> searches with repeated \<open>std::string::find\<close>; the theory proves that the loop
  ends and that it is equivalent to the declarative notion of a word in a text.
\<close>

section \<open>The planner\<close>

datatype plan_error = plan_kNone | kEmptyRequest | kInvalidDuration | kUnknownTarget | kAmbiguousTarget

record planned_task =
  pt_task_id :: string
  pt_target_id :: string
  pt_allowed_duration :: duration

text \<open>\<open>std::isalnum\<close> in the C locale.\<close>

definition isalnum :: "char \<Rightarrow> bool" where
  "isalnum c \<longleftrightarrow>
     (let v = (of_char c :: nat) in
      (48 \<le> v \<and> v \<le> 57) \<or> (65 \<le> v \<and> v \<le> 90) \<or> (97 \<le> v \<and> v \<le> 122))"

definition is_boundary_character :: "char \<Rightarrow> bool" where
  "is_boundary_character c \<longleftrightarrow> \<not> isalnum c \<and> c \<noteq> CHR ''_''"

text \<open>\<open>text.find(token, from)\<close>: the first match at or after a position, \<open>None\<close> for \<open>npos\<close>.\<close>

definition matches_at :: "string \<Rightarrow> string \<Rightarrow> nat \<Rightarrow> bool" where
  "matches_at body token p \<longleftrightarrow>
     p + length token \<le> length body \<and> take (length token) (drop p body) = token"

definition string_find :: "string \<Rightarrow> string \<Rightarrow> nat \<Rightarrow> nat option" where
  "string_find body token start = List.find (matches_at body token) [start..<Suc (length body)]"

definition token_boundaries :: "string \<Rightarrow> string \<Rightarrow> nat \<Rightarrow> bool" where
  "token_boundaries body token position \<longleftrightarrow>
     (position = 0 \<or> is_boundary_character (body ! (position - 1))) \<and>
     (let end_position = position + length token in
      end_position = length body \<or> is_boundary_character (body ! end_position))"

lemma string_find_Some:
  "string_find body token start = Some p \<longleftrightarrow>
     start \<le> p \<and> matches_at body token p \<and> (\<forall>q. start \<le> q \<and> q < p \<longrightarrow> \<not> matches_at body token q)"
proof
  assume "string_find body token start = Some p"
  then obtain i where "i < length [start..<Suc (length body)]" "matches_at body token p"
      "p = [start..<Suc (length body)] ! i"
      "\<forall>j < i. \<not> matches_at body token ([start..<Suc (length body)] ! j)"
    unfolding string_find_def find_Some_iff by blast
  then have i: "i < Suc (length body) - start" "p = start + i" "matches_at body token p"
    and below: "\<forall>j < i. \<not> matches_at body token (start + j)"
    by (simp_all add: nth_upt del: upt_Suc)
  from below have "\<not> matches_at body token q" if "start \<le> q" "q < p" for q
    using that i(2) by (metis add_less_cancel_left le_add_diff_inverse)
  with i show "start \<le> p \<and> matches_at body token p \<and>
      (\<forall>q. start \<le> q \<and> q < p \<longrightarrow> \<not> matches_at body token q)" by auto
next
  assume a: "start \<le> p \<and> matches_at body token p \<and>
      (\<forall>q. start \<le> q \<and> q < p \<longrightarrow> \<not> matches_at body token q)"
  then have "p \<le> length body" by (simp add: matches_at_def)
  with a show "string_find body token start = Some p"
    unfolding string_find_def find_Some_iff
    by (intro exI [of _ "p - start"]) (auto simp: nth_upt simp del: upt_Suc)
qed

lemma string_find_None:
  "string_find body token start = None \<longleftrightarrow> (\<forall>q \<ge> start. \<not> matches_at body token q)"
  unfolding string_find_def find_None_iff
  by (auto simp: matches_at_def simp del: upt_Suc)

text \<open>The loop of \<open>contains_token\<close>, from the first match at or after a position.\<close>

function token_loop :: "string \<Rightarrow> string \<Rightarrow> nat \<Rightarrow> bool" where
  "token_loop body token start =
     (case string_find body token start of
        None \<Rightarrow> False
      | Some position \<Rightarrow>
          if token_boundaries body token position then True
          else token_loop body token (position + 1))"
  by pat_completeness auto

termination
proof (relation "measure (\<lambda>(body, token, start). Suc (length body) - start)")
  fix body token :: string and start position
  assume "string_find body token start = Some position"
  then have "start \<le> position" "position \<le> length body"
    by (auto simp: string_find_Some matches_at_def)
  then show "((body, token, position + 1), body, token, start)
      \<in> measure (\<lambda>(body, token, start). Suc (length body) - start)" by simp
qed simp

declare token_loop.simps [simp del]

definition contains_token :: "string \<Rightarrow> string \<Rightarrow> bool" where
  "contains_token body token = token_loop body token 0"

definition planner_new :: "string list \<Rightarrow> string list" where
  "planner_new targets = remdups_adj (sort (filter (\<lambda>t. t \<noteq> []) targets))"

definition planner_plan ::
  "string list \<Rightarrow> string \<Rightarrow> duration \<Rightarrow> string \<Rightarrow> plan_error + planned_task" where
  "planner_plan allowed_targets request allowed_duration task_id =
     (if request = [] then Inl kEmptyRequest
      else if \<not> duration_is_valid allowed_duration then Inl kInvalidDuration
      else case filter (contains_token request) allowed_targets of
             [] \<Rightarrow> Inl kUnknownTarget
           | [target] \<Rightarrow> Inr \<lparr>pt_task_id = task_id, pt_target_id = target,
                              pt_allowed_duration = allowed_duration\<rparr>
           | _ \<Rightarrow> Inl kAmbiguousTarget)"

fun plan_error_to_string :: "plan_error \<Rightarrow> string" where
  "plan_error_to_string plan_kNone = ''none''"
| "plan_error_to_string kEmptyRequest = ''empty_request''"
| "plan_error_to_string kInvalidDuration = ''invalid_duration''"
| "plan_error_to_string kUnknownTarget = ''unknown_target''"
| "plan_error_to_string kAmbiguousTarget = ''ambiguous_target''"

fun plan_error_code :: "plan_error \<Rightarrow> u16" where
  "plan_error_code kEmptyRequest = 1001"
| "plan_error_code kInvalidDuration = 1002"
| "plan_error_code kUnknownTarget = 1003"
| "plan_error_code kAmbiguousTarget = 1004"
| "plan_error_code plan_kNone = 0"

section \<open>A word in a text\<close>

text \<open>The reference: the token stands in the text between boundaries.\<close>

definition mentions :: "string \<Rightarrow> string \<Rightarrow> bool" where
  "mentions body token \<longleftrightarrow>
     (\<exists>l r. body = l @ token @ r \<and> (l = [] \<or> is_boundary_character (last l)) \<and>
            (r = [] \<or> is_boundary_character (hd r)))"

lemma matches_at_split:
  "matches_at body token p \<longleftrightarrow> (\<exists>l r. body = l @ token @ r \<and> length l = p)"
proof
  assume m: "matches_at body token p"
  then have "drop p body = token @ drop (length token) (drop p body)"
    unfolding matches_at_def by (metis append_take_drop_id)
  then have "body = take p body @ token @ drop (length token) (drop p body)"
    by (metis append_take_drop_id)
  with m show "\<exists>l r. body = l @ token @ r \<and> length l = p"
    unfolding matches_at_def by (metis add_leD1 length_take min_absorb2)
qed (auto simp: matches_at_def)

lemma token_boundaries_split:
  "token_boundaries (l @ token @ r) token (length l) \<longleftrightarrow>
     (l = [] \<or> is_boundary_character (last l)) \<and> (r = [] \<or> is_boundary_character (hd r))"
proof -
  have "(l @ token @ r) ! (length l - 1) = last l" if "l \<noteq> []"
    using that by (simp add: nth_append last_conv_nth)
  moreover have "(l @ token @ r) ! (length l + length token) = hd r" if "r \<noteq> []"
    using that by (simp add: nth_append hd_conv_nth)
  ultimately show ?thesis by (cases "l = []"; cases "r = []") (simp_all add: token_boundaries_def)
qed

lemma mentions_positions:
  "mentions body token \<longleftrightarrow> (\<exists>p. matches_at body token p \<and> token_boundaries body token p)"
  unfolding mentions_def matches_at_split using token_boundaries_split by blast

lemma token_loop_iff:
  "token_loop body token start \<longleftrightarrow>
     (\<exists>p \<ge> start. matches_at body token p \<and> token_boundaries body token p)"
proof (induction body token start rule: token_loop.induct)
  case (1 body token start)
  show ?case
  proof (cases "string_find body token start")
    case None
    then show ?thesis
      using string_find_None [of body token start] by (auto simp: token_loop.simps [of body token start])
  next
    case (Some position)
    note first = Some [unfolded string_find_Some]
    show ?thesis
    proof (cases "token_boundaries body token position")
      case True
      with Some first show ?thesis by (auto simp: token_loop.simps [of body token start])
    next
      case False
      have "(\<exists>p \<ge> start. matches_at body token p \<and> token_boundaries body token p) \<longleftrightarrow>
          (\<exists>p \<ge> position + 1. matches_at body token p \<and> token_boundaries body token p)"
        using first False
        by (metis Suc_eq_plus1 Suc_leI le_trans linorder_not_less nless_le add_leD1)
      with "1.IH" [OF Some False] Some False show ?thesis
        by (simp add: token_loop.simps [of body token start])
    qed
  qed
qed

lemma contains_token_mentions: "contains_token body token \<longleftrightarrow> mentions body token"
  by (simp add: contains_token_def token_loop_iff mentions_positions)


lemma set_planner_new: "set (planner_new targets) = {t \<in> set targets. t \<noteq> []}"
  by (auto simp: planner_new_def)

lemma distinct_remdups_adj_sorted: "sorted xs \<Longrightarrow> distinct (remdups_adj xs)"
proof (induction xs rule: remdups_adj.induct)
  case (3 x y xs)
  then show ?case by (cases "x = y") fastforce+
qed simp_all

lemma distinct_planner_new: "distinct (planner_new targets)"
  by (simp add: planner_new_def distinct_remdups_adj_sorted)

text \<open>C25. The planner is equivalent to its declarative reading, for every configured list (with
  empty entries and duplicates) and every request: it plans the one allowed target that the
  request mentions as a whole word, and otherwise says which of the four things went wrong. The
  search loop ends on every text and token.
\<close>

theorem plan_is_the_only_mentioned_target:
  "planner_plan (planner_new targets) request d task_id =
     (let mentioned = {t \<in> set targets. t \<noteq> [] \<and> mentions request t} in
      if request = [] then Inl kEmptyRequest
      else if \<not> duration_is_valid d then Inl kInvalidDuration
      else if mentioned = {} then Inl kUnknownTarget
      else if card mentioned = 1
      then Inr \<lparr>pt_task_id = task_id, pt_target_id = the_elem mentioned, pt_allowed_duration = d\<rparr>
      else Inl kAmbiguousTarget)"
proof -
  let ?found = "filter (contains_token request) (planner_new targets)"
  let ?mentioned = "{t \<in> set targets. t \<noteq> [] \<and> mentions request t}"
  have m: "?mentioned = set ?found"
    by (auto simp: set_planner_new contains_token_mentions)
  have "distinct ?found" by (simp add: distinct_planner_new)
  then have c: "card ?mentioned = length ?found"
    unfolding m by (rule distinct_card)
  show ?thesis
  proof (cases ?found rule: remdups_adj.cases)
    case 1
    then show ?thesis using m by (simp add: planner_plan_def Let_def)
  next
    case (2 t)
    then have "?mentioned = {t}" using m by simp
    with 2 show ?thesis by (simp add: planner_plan_def Let_def)
  next
    case (3 t u rest)
    then have "card ?mentioned \<noteq> 1" using c by simp
    moreover have "?mentioned \<noteq> {}" unfolding m 3 by simp
    ultimately show ?thesis using 3 by (simp only: planner_plan_def Let_def if_False list.case)
  qed
qed

section \<open>The adapter\<close>

text \<open>
  \<open>ai_task_adapter_node.cpp\<close>. After \<open>run\<close> sent the goal, the process spins: its callbacks, the
  cancel timer and a signal come in some order until one of them shuts the context down. A goal
  handle is known by being set; \<open>ai_goals\<close> and \<open>ai_cancels\<close> are what reached the action client.
\<close>

record ai_config =
  ai_request :: string
  ai_task_id :: string
  ai_allowed_duration_ms :: int
  ai_cancel_after_ms :: int
  ai_targets :: "string list"

record ai_adapter =
  ai_exit_code :: int
  ai_goal_handle :: bool
  ai_timer_armed :: bool
  ai_goals :: "task_goal list"
  ai_cancels :: nat
  ai_shutdown :: bool

definition ai_adapter_init :: ai_adapter where
  "ai_adapter_init = \<lparr>ai_exit_code = 5, ai_goal_handle = False, ai_timer_armed = False, ai_goals = [],
     ai_cancels = 0, ai_shutdown = False\<rparr>"

definition ai_run :: "ai_config \<Rightarrow> bool \<Rightarrow> ai_adapter \<Rightarrow> bool \<times> ai_adapter" where
  "ai_run cfg server_available s =
     (if ai_task_id cfg = [] \<or> ai_allowed_duration_ms cfg \<le> 0 \<or>
         INT32_MAX * 1000 < ai_allowed_duration_ms cfg
      then (False, s\<lparr>ai_exit_code := 2\<rparr>)
      else case planner_plan (planner_new (ai_targets cfg)) (ai_request cfg)
                  (milliseconds_duration (ai_allowed_duration_ms cfg)) (ai_task_id cfg) of
             Inl err \<Rightarrow> (False, s\<lparr>ai_exit_code := 2\<rparr>)
           | Inr plan \<Rightarrow>
               if \<not> server_available then (False, s\<lparr>ai_exit_code := 1\<rparr>)
               else (True, s\<lparr>ai_goals := ai_goals s @
                 [\<lparr>tg_task_id = pt_task_id plan, tg_target_id = pt_target_id plan, tg_request_id = [],
                   tg_workflow_id = [], tg_allowed_duration = pt_allowed_duration plan\<rparr>]\<rparr>))"

datatype ai_event = AiResponse bool | AiTimer | AiResult wrapped_result | AiSignal

definition ai_goal_response :: "ai_config \<Rightarrow> bool \<Rightarrow> ai_adapter \<Rightarrow> ai_adapter" where
  "ai_goal_response cfg handle s =
     (if \<not> handle then s\<lparr>ai_exit_code := 2, ai_shutdown := True\<rparr>
      else s\<lparr>ai_goal_handle := True, ai_timer_armed := 0 \<le> ai_cancel_after_ms cfg \<or> ai_timer_armed s\<rparr>)"

definition ai_result :: "wrapped_result \<Rightarrow> ai_adapter \<Rightarrow> ai_adapter" where
  "ai_result r s =
     s\<lparr>ai_timer_armed := False, ai_shutdown := True,
       ai_exit_code := (case wr_code r of
          RC_SUCCEEDED \<Rightarrow> 0 | RC_CANCELED \<Rightarrow> 3 | RC_ABORTED \<Rightarrow> 4 | RC_UNKNOWN \<Rightarrow> 5)\<rparr>"

text \<open>The timer cancels itself when it fires.\<close>

definition ai_timer :: "ai_adapter \<Rightarrow> ai_adapter" where
  "ai_timer s = (if \<not> ai_timer_armed s then s
                 else s\<lparr>ai_timer_armed := False, ai_cancels := Suc (ai_cancels s)\<rparr>)"

fun ai_callback :: "ai_config \<Rightarrow> ai_event \<Rightarrow> ai_adapter \<Rightarrow> ai_adapter" where
  "ai_callback cfg (AiResponse handle) s = ai_goal_response cfg handle s"
| "ai_callback cfg AiTimer s = ai_timer s"
| "ai_callback cfg (AiResult r) s = ai_result r s"
| "ai_callback cfg AiSignal s = s\<lparr>ai_shutdown := True\<rparr>"

definition ai_main :: "ai_config \<Rightarrow> bool \<Rightarrow> ai_event list \<Rightarrow> (int \<times> ai_adapter) option" where
  "ai_main cfg server_available evs =
     (case ai_run cfg server_available ai_adapter_init of
        (False, s) \<Rightarrow> Some (ai_exit_code s, s\<lparr>ai_shutdown := True\<rparr>)
      | (True, s) \<Rightarrow> map_option (\<lambda>s'. (ai_exit_code s', s')) (spin_until ai_shutdown (ai_callback cfg) evs s))"


section \<open>What the adapter sends and how it exits\<close>

lemma ai_run_sends:
  assumes "ai_run cfg srv ai_adapter_init = (True, s)"
  shows "\<exists>g. ai_goals s = [g] \<and> tg_task_id g = ai_task_id cfg \<and> ai_task_id cfg \<noteq> [] \<and>
    tg_target_id g \<in> set (ai_targets cfg) \<and> mentions (ai_request cfg) (tg_target_id g) \<and>
    duration_is_valid (tg_allowed_duration g) \<and>
    to_steady_duration (tg_allowed_duration g) = ai_allowed_duration_ms cfg * 1000000 \<and>
    ai_exit_code s = 5 \<and> \<not> ai_shutdown s \<and> ai_cancels s = 0 \<and> \<not> ai_timer_armed s"
proof -
  let ?ms = "ai_allowed_duration_ms cfg"
  let ?plan = "planner_plan (planner_new (ai_targets cfg)) (ai_request cfg) (milliseconds_duration ?ms)
    (ai_task_id cfg)"
  from assms have ok: "ai_task_id cfg \<noteq> []" "0 < ?ms" "?ms \<le> INT32_MAX * 1000"
    by (auto simp: ai_run_def split: if_splits)
  from assms ok obtain plan where plan: "?plan = Inr plan"
    by (auto simp: ai_run_def split: sum.splits)
  from plan have p: "pt_task_id plan = ai_task_id cfg" "pt_allowed_duration plan = milliseconds_duration ?ms"
    "pt_target_id plan \<in> set (planner_new (ai_targets cfg))"
    "contains_token (ai_request cfg) (pt_target_id plan)"
    by (auto simp: planner_plan_def filter_eq_Cons_iff split: if_splits list.splits)
  note v = milliseconds_duration_valid [of ?ms]
  show ?thesis
    using assms ok plan p v
    by (auto simp: ai_run_def ai_adapter_init_def set_planner_new contains_token_mentions split: if_splits)
qed

text \<open>The goal a sentence leads to is one that an idle executor knowing its targets accepts.\<close>

lemma ai_goal_accepted_by_executor:
  assumes "ai_run cfg srv ai_adapter_init = (True, s)" and "g \<in> set (ai_goals s)"
    and "set (ai_targets cfg) \<subseteq> set (ec_targets xc)" and "\<forall>t \<in> set (ai_targets cfg). has_non_whitespace t"
    and "has_non_whitespace (ai_task_id cfg)" and "\<not> ex_active_goal x"
  shows "fst (executor_handle_goal xc True True gid g x) = ACCEPT_AND_EXECUTE"
proof -
  from ai_run_sends [OF assms(1)] assms(2)
  have "tg_task_id g = ai_task_id cfg" "tg_target_id g \<in> set (ai_targets cfg)"
    "duration_is_valid (tg_allowed_duration g)" by auto
  with assms(3-6) show ?thesis by (auto simp: executor_handle_goal_def is_known_def)
qed

fun ai_final :: "ai_event \<Rightarrow> bool" where
  "ai_final (AiResponse handle) = (\<not> handle)"
| "ai_final AiTimer = False"
| "ai_final (AiResult r) = True"
| "ai_final AiSignal = True"

text \<open>A signal leaves the exit code as it is: 5, as nothing else has ended the run.\<close>

fun ai_final_code :: "ai_event \<Rightarrow> int" where
  "ai_final_code (AiResult r) = (case wr_code r of
     RC_SUCCEEDED \<Rightarrow> 0 | RC_CANCELED \<Rightarrow> 3 | RC_ABORTED \<Rightarrow> 4 | RC_UNKNOWN \<Rightarrow> 5)"
| "ai_final_code AiSignal = 5"
| "ai_final_code _ = 2"

interpretation ai_client: spinning_client ai_shutdown "ai_callback cfg" ai_exit_code ai_final ai_final_code 5
proof
  fix ev s
  show "ai_shutdown (ai_callback cfg ev s) \<longleftrightarrow> ai_shutdown s \<or> ai_final ev"
    by (cases ev) (auto simp: ai_goal_response_def ai_timer_def ai_result_def)
  show "ai_exit_code s = 5 \<Longrightarrow> ai_final ev \<Longrightarrow> ai_exit_code (ai_callback cfg ev s) = ai_final_code ev"
    by (cases ev) (auto simp: ai_goal_response_def ai_result_def)
  show "ai_exit_code s = 5 \<Longrightarrow> \<not> ai_final ev \<Longrightarrow> ai_exit_code (ai_callback cfg ev s) = 5"
    by (cases ev) (auto simp: ai_goal_response_def ai_timer_def ai_result_def)
qed

text \<open>The exit code is decided by the first event that ends the run, and by it alone.\<close>

lemma ai_exit_code_is_first_final:
  assumes "ai_run cfg srv ai_adapter_init = (True, s)"
  shows "map_option fst (ai_main cfg srv evs) = map_option ai_final_code (List.find ai_final evs)"
  using assms ai_run_sends [OF assms] ai_client.exit_code_of_first_final [of s cfg evs]
  by (auto simp: ai_main_def option.map_comp comp_def)

end
