(* ===== verification/Client_Programs.thy ===== *)
theory Client_Programs
  imports Text_Planner
begin

text \<open>
  The two command-line clients: \<open>device_bridge_client.cpp\<close>, which sends one command to the
  bridge, and \<open>runtime_gateway_client.cpp\<close>, which turns a command line into one gateway call and
  the reply into one line of JSON.
\<close>

section \<open>The bridge client\<close>

record client_config =
  dc_command_id :: int
  dc_opcode :: int
  dc_argument :: int
  dc_ack_timeout_ms :: int
  dc_cancel_after_ms :: int

record device_client =
  dc_exit_code :: int
  dc_goal_handle :: bool
  dc_timer_armed :: bool
  dc_goals :: "device_goal list"
  dc_cancels :: nat
  dc_shutdown :: bool

definition device_client_init :: device_client where
  "device_client_init = \<lparr>dc_exit_code = 5, dc_goal_handle = False, dc_timer_armed = False,
     dc_goals = [], dc_cancels = 0, dc_shutdown = False\<rparr>"

definition parameters_fit_interface :: "client_config \<Rightarrow> bool" where
  "parameters_fit_interface cfg \<longleftrightarrow>
     0 \<le> dc_command_id cfg \<and> dc_command_id cfg \<le> 4294967295 \<and>
     0 \<le> dc_opcode cfg \<and> dc_opcode cfg \<le> 255 \<and>
     - 2147483648 \<le> dc_argument cfg \<and> dc_argument cfg \<le> INT32_MAX \<and>
     0 \<le> dc_ack_timeout_ms cfg \<and> dc_ack_timeout_ms cfg \<le> INT32_MAX * 1000"

definition dc_send_goal :: "client_config \<Rightarrow> bool \<Rightarrow> device_client \<Rightarrow> bool \<times> device_client" where
  "dc_send_goal cfg server_available s =
     (if \<not> parameters_fit_interface cfg then (False, s\<lparr>dc_exit_code := 6\<rparr>)
      else if \<not> server_available then (False, s\<lparr>dc_exit_code := 1\<rparr>)
      else (True, s\<lparr>dc_goals := dc_goals s @
        [\<lparr>dg_command_id = word_of_int (dc_command_id cfg), dg_opcode = word_of_int (dc_opcode cfg),
          dg_argument = word_of_int (dc_argument cfg),
          dg_ack_timeout = milliseconds_duration (dc_ack_timeout_ms cfg), dg_trace_id = []\<rparr>]\<rparr>))"

datatype device_client_event = DcResponse bool | DcTimer | DcResult wrapped_result | DcSignal

definition dc_goal_response :: "client_config \<Rightarrow> bool \<Rightarrow> device_client \<Rightarrow> device_client" where
  "dc_goal_response cfg handle s =
     (if \<not> handle then s\<lparr>dc_exit_code := 2, dc_shutdown := True\<rparr>
      else s\<lparr>dc_goal_handle := True, dc_timer_armed := 0 \<le> dc_cancel_after_ms cfg \<or> dc_timer_armed s\<rparr>)"

definition dc_result :: "wrapped_result \<Rightarrow> device_client \<Rightarrow> device_client" where
  "dc_result r s =
     s\<lparr>dc_timer_armed := False, dc_shutdown := True,
       dc_exit_code := (case wr_code r of
          RC_SUCCEEDED \<Rightarrow> 0 | RC_CANCELED \<Rightarrow> 3 | RC_ABORTED \<Rightarrow> 4 | RC_UNKNOWN \<Rightarrow> 5)\<rparr>"

fun dc_callback :: "client_config \<Rightarrow> device_client_event \<Rightarrow> device_client \<Rightarrow> device_client" where
  "dc_callback cfg (DcResponse handle) s = dc_goal_response cfg handle s"
| "dc_callback cfg DcTimer s =
     (if \<not> dc_timer_armed s then s
      else s\<lparr>dc_timer_armed := False, dc_cancels := Suc (dc_cancels s)\<rparr>)"
| "dc_callback cfg (DcResult r) s = dc_result r s"
| "dc_callback cfg DcSignal s = s\<lparr>dc_shutdown := True\<rparr>"

definition dc_main :: "client_config \<Rightarrow> bool \<Rightarrow> device_client_event list \<Rightarrow> (int \<times> device_client) option" where
  "dc_main cfg server_available evs =
     (case dc_send_goal cfg server_available device_client_init of
        (False, s) \<Rightarrow> Some (dc_exit_code s, s\<lparr>dc_shutdown := True\<rparr>)
      | (True, s) \<Rightarrow> map_option (\<lambda>s'. (dc_exit_code s', s')) (spin_until dc_shutdown (dc_callback cfg) evs s))"

fun dc_final :: "device_client_event \<Rightarrow> bool" where
  "dc_final (DcResponse handle) = (\<not> handle)"
| "dc_final DcTimer = False"
| "dc_final (DcResult r) = True"
| "dc_final DcSignal = True"

fun dc_final_code :: "device_client_event \<Rightarrow> int" where
  "dc_final_code (DcResult r) = (case wr_code r of
     RC_SUCCEEDED \<Rightarrow> 0 | RC_CANCELED \<Rightarrow> 3 | RC_ABORTED \<Rightarrow> 4 | RC_UNKNOWN \<Rightarrow> 5)"
| "dc_final_code DcSignal = 5"
| "dc_final_code _ = 2"

interpretation device_program:
  spinning_client dc_shutdown "dc_callback cfg" dc_exit_code dc_final dc_final_code 5
proof
  fix ev s
  show "dc_shutdown (dc_callback cfg ev s) \<longleftrightarrow> dc_shutdown s \<or> dc_final ev"
    by (cases ev) (auto simp: dc_goal_response_def dc_result_def)
  show "dc_exit_code s = 5 \<Longrightarrow> dc_final ev \<Longrightarrow> dc_exit_code (dc_callback cfg ev s) = dc_final_code ev"
    by (cases ev) (auto simp: dc_goal_response_def dc_result_def)
  show "dc_exit_code s = 5 \<Longrightarrow> \<not> dc_final ev \<Longrightarrow> dc_exit_code (dc_callback cfg ev s) = 5"
    by (cases ev) (auto simp: dc_goal_response_def dc_result_def)
qed

lemma dc_exit_code_is_first_final:
  assumes "dc_send_goal cfg srv device_client_init = (True, s)"
  shows "map_option fst (dc_main cfg srv evs) = map_option dc_final_code (List.find dc_final evs)"
proof -
  have "\<not> dc_shutdown s" "dc_exit_code s = 5"
    using assms by (auto simp: dc_send_goal_def device_client_init_def split: if_splits)
  with assms device_program.exit_code_of_first_final [of s cfg evs] show ?thesis
    by (auto simp: dc_main_def option.map_comp comp_def)
qed

text \<open>A sent goal is accepted by an idle bridge when its identifier and timeout are in the bridge's range.\<close>

lemma dc_goal_accepted_by_bridge:
  assumes "dc_send_goal cfg srv device_client_init = (True, s)" and "g \<in> set (dc_goals s)"
    and "1 \<le> dc_command_id cfg" "dc_command_id cfg \<le> 65535"
    and "0 < dc_ack_timeout_ms cfg" "dc_ack_timeout_ms cfg \<le> bc_max_ack_timeout_ms bcfg"
    and "be_socket_open e" "\<not> br_active_goal b"
  shows "fst (bridge_handle_goal bcfg e g b) = ACCEPT_AND_EXECUTE"
proof -
  let ?ms = "dc_ack_timeout_ms cfg"
  have fit: "parameters_fit_interface cfg"
    and g: "dg_command_id g = word_of_int (dc_command_id cfg)" "dg_ack_timeout g = milliseconds_duration ?ms"
    using assms(1,2) by (auto simp: dc_send_goal_def device_client_init_def split: if_splits)
  have ms: "0 < ?ms" "?ms \<le> INT32_MAX * 1000 + 999"
    using fit assms(5) by (auto simp: parameters_fit_interface_def)
  note v = milliseconds_duration_valid [OF ms]
  have tot: "total_nanoseconds (milliseconds_duration ?ms) = ?ms * 1000000"
    using v(2) by (simp add: total_nanoseconds_def to_steady_duration_def kNanosecondsPerSecond_def)
  have "duration_to_milliseconds (milliseconds_duration ?ms) (bc_max_ack_timeout_ms bcfg) = Some ?ms"
    using v(1) ms(1) assms(6)
    by (auto simp: duration_to_milliseconds_def tot Let_def duration_is_valid_def
        kNanosecondsPerMillisecond_def)
  moreover have "uint (dg_command_id g) = dc_command_id cfg"
    using g(1) assms(3,4) by simp
  then have "dg_command_id g \<noteq> 0 \<and> \<not> 0xFFFF < dg_command_id g"
    using assms(3,4) by (auto simp: word_less_def)
  ultimately show ?thesis
    using g assms(7,8) by (simp add: bridge_handle_goal_def)
qed

end
