(* ===== verification/Gateway_Client.thy ===== *)
theory Gateway_Client
  imports Gateway_Service Stage_Json "HOL-Library.Multiset"
begin

text \<open>
  \<open>runtime_gateway_client.cpp\<close>: a command line becomes one gateway call, the reply one line of
  JSON, the outcome an exit code. The generated gRPC stub is a parameter: for each call, what
  it answers to a request.
\<close>

section \<open>Arguments\<close>

definition client_quote :: "string \<Rightarrow> string" where
  "client_quote value = report_quote value"

definition is_option :: "string \<Rightarrow> bool" where
  "is_option key \<longleftrightarrow> take 2 key = ''--''"

fun option_loop :: "string list \<Rightarrow> (string \<times> string) list \<Rightarrow> string + (string \<times> string) list" where
  "option_loop (key # value # rest) options =
     (if \<not> is_option key \<or> key \<in> fst ` set options then Inl ''invalid or duplicate option''
      else option_loop rest (options @ [(key, value)]))"
| "option_loop _ options = Inr options"

definition client_options :: "string list \<Rightarrow> string + (string \<times> string) list" where
  "client_options args =
     (if odd (length args) then Inl ''options require values'' else option_loop args [])"

definition client_required :: "(string \<times> string) list \<Rightarrow> string \<Rightarrow> string + string" where
  "client_required values key =
     (case map_of values key of
        Some value \<Rightarrow> if value = [] then Inl (''missing '' @ key) else Inr value
      | None \<Rightarrow> Inl (''missing '' @ key))"

text \<open>\<open>std::from_chars\<close> on an unsigned 64-bit integer: the digits it consumes, then nothing may be left.\<close>

definition client_number :: "string \<Rightarrow> string + u64" where
  "client_number value =
     (let digits = takeWhile is_digit value in
      if digits = [] \<or> 2 ^ 64 \<le> decimal_value digits \<or> digits \<noteq> value then Inl ''invalid number''
      else Inr (of_nat (decimal_value digits)))"

section \<open>Calls\<close>

record stats_message = stats_reply +
  gp_error_code :: u32
  gp_message :: string

text \<open>What the stub answers: an error status (code and message) or the reply.\<close>

record gateway_stub =
  stub_submit :: "submit_request \<Rightarrow> (int \<times> string) + submit_reply"
  stub_cancel :: "string \<Rightarrow> (int \<times> string) + cancel_reply"
  stub_get_task :: "string \<Rightarrow> (int \<times> string) + task_reply"
  stub_resolve :: "string \<Rightarrow> string \<Rightarrow> string \<Rightarrow> (int \<times> string) + resolve_reply"
  stub_get_stats :: "(int \<times> string) + stats_message"

definition u32_text :: "u32 \<Rightarrow> string" where
  "u32_text n = nat_to_string (unat n)"

definition rpc_error :: "int \<times> string \<Rightarrow> int \<times> string" where
  "rpc_error status =
     (1, ''{\"ok\":false,\"grpc_code\":'' @ int_to_string (fst status) @
         '',\"message\":'' @ client_quote (snd status) @ ''}'' @ [NL])"

definition submit_line :: "submit_reply \<Rightarrow> string" where
  "submit_line r =
     ''{\"accepted\":'' @ bool_to_string (sp_accepted r) @
     '',\"request_id\":'' @ client_quote (sp_request_id r) @
     '',\"task_id\":'' @ client_quote (sp_task_id r) @
     '',\"state\":'' @ client_quote (sp_state r) @
     '',\"outcome\":'' @ u32_text (sp_outcome r) @
     '',\"error_code\":'' @ u32_text (sp_error_code r) @
     '',\"message\":'' @ client_quote (sp_message r) @ ''}'' @ [NL]"

definition submit_request_of :: "(string \<times> string) list \<Rightarrow> string + submit_request" where
  "submit_request_of values =
     (if length values \<noteq> 5 then Inl ''submit requires five options''
      else case client_required values ''--request-id'' of Inl err \<Rightarrow> Inl err | Inr rid \<Rightarrow>
       (case client_required values ''--workflow'' of Inl err \<Rightarrow> Inl err | Inr wid \<Rightarrow>
        (case client_required values ''--task-id'' of Inl err \<Rightarrow> Inl err | Inr tid \<Rightarrow>
         (case client_required values ''--target'' of Inl err \<Rightarrow> Inl err | Inr target \<Rightarrow>
          (case client_required values ''--timeout-ms'' of Inl err \<Rightarrow> Inl err | Inr timeout \<Rightarrow>
           (case client_number timeout of Inl err \<Rightarrow> Inl err | Inr ms \<Rightarrow>
              Inr \<lparr>sr_request_id = rid, sr_workflow_id = wid, sr_task_id = tid, sr_target_id = target,
                   sr_timeout_ms = ms\<rparr>))))))"

text \<open>\<open>Inl\<close> is an exception, which \<open>main\<close> prints.\<close>

definition client_submit :: "gateway_stub \<Rightarrow> string list \<Rightarrow> string + int \<times> string" where
  "client_submit stub args =
     (case client_options args of Inl err \<Rightarrow> Inl err | Inr values \<Rightarrow>
      (case submit_request_of values of Inl err \<Rightarrow> Inl err | Inr request \<Rightarrow>
       (case stub_submit stub request of
          Inl status \<Rightarrow> Inr (rpc_error status)
        | Inr reply \<Rightarrow> Inr (0, submit_line reply))))"

definition cancel_line :: "cancel_reply \<Rightarrow> string" where
  "cancel_line r =
     ''{\"accepted\":'' @ bool_to_string (cp_accepted r) @
     '',\"state\":'' @ client_quote (cp_state r) @
     '',\"outcome\":'' @ u32_text (cp_outcome r) @
     '',\"error_code\":'' @ u32_text (cp_error_code r) @
     '',\"message\":'' @ client_quote (cp_message r) @ ''}'' @ [NL]"

definition client_cancel :: "gateway_stub \<Rightarrow> string list \<Rightarrow> string + int \<times> string" where
  "client_cancel stub args =
     (case client_options args of Inl err \<Rightarrow> Inl err | Inr values \<Rightarrow>
      if length values \<noteq> 1 then Inl ''cancel requires --request-id''
      else case client_required values ''--request-id'' of Inl err \<Rightarrow> Inl err | Inr rid \<Rightarrow>
       (case stub_cancel stub rid of
          Inl status \<Rightarrow> Inr (rpc_error status)
        | Inr reply \<Rightarrow> Inr (0, cancel_line reply)))"

definition task_line :: "task_reply \<Rightarrow> string" where
  "task_line r =
     ''{\"found\":'' @ bool_to_string (tp_found r) @
     '',\"task_id\":'' @ client_quote (tp_task_id r) @
     '',\"request_id\":'' @ client_quote (tp_request_id r) @
     '',\"workflow_id\":'' @ client_quote (tp_workflow_id r) @
     '',\"goal_id\":'' @ client_quote (tp_goal_id r) @
     '',\"target_id\":'' @ client_quote (tp_target_id r) @
     '',\"state\":'' @ client_quote (tp_state r) @
     '',\"action_status\":'' @ u32_text (tp_action_status r) @
     '',\"outcome\":'' @ u32_text (tp_outcome r) @
     '',\"error_code\":'' @ u32_text (tp_error_code r) @
     '',\"duration_ms\":'' @ u64_text (tp_duration_ms r) @
     '',\"message\":'' @ client_quote (tp_message r) @
     '',\"completed_at_ns\":'' @ int_to_string (tp_completed_at_ns r) @ ''}'' @ [NL]"

definition client_get_task :: "gateway_stub \<Rightarrow> string list \<Rightarrow> string + int \<times> string" where
  "client_get_task stub args =
     (case client_options args of Inl err \<Rightarrow> Inl err | Inr values \<Rightarrow>
      if length values \<noteq> 1 then Inl ''get-task requires --task-id''
      else case client_required values ''--task-id'' of Inl err \<Rightarrow> Inl err | Inr tid \<Rightarrow>
       (case stub_get_task stub tid of
          Inl status \<Rightarrow> Inr (rpc_error status)
        | Inr reply \<Rightarrow> Inr (0, task_line reply)))"

definition client_resolve :: "gateway_stub \<Rightarrow> (string \<times> string) list \<Rightarrow> string + int \<times> string" where
  "client_resolve stub values =
     (case client_required values ''--request-id'' of Inl err \<Rightarrow> Inl err | Inr rid \<Rightarrow>
      (case client_required values ''--state'' of Inl err \<Rightarrow> Inl err | Inr state \<Rightarrow>
       (let message = (case map_of values ''--message'' of None \<Rightarrow> [] | Some m \<Rightarrow> m) in
        case stub_resolve stub rid state message of
          Inl status \<Rightarrow> Inr (rpc_error status)
        | Inr reply \<Rightarrow> Inr (0,
            ''{\"resolved\":'' @ bool_to_string (rp_resolved reply) @
            '',\"state\":'' @ client_quote (rp_state reply) @
            '',\"message\":'' @ client_quote (rp_message reply) @ ''}'' @ [NL]))))"

fun join_counts :: "u64 list \<Rightarrow> string" where
  "join_counts [] = []"
| "join_counts [n] = u64_text n"
| "join_counts (n # rest) = u64_text n @ '','' @ join_counts rest"

definition stats_line :: "stats_message \<Rightarrow> string" where
  "stats_line r =
     ''{\"has_data\":'' @ bool_to_string (gp_has_data r) @
     '',\"sample_count\":'' @ u64_text (gp_sample_count r) @
     '',\"outcome_counts\":['' @ join_counts (gp_outcome_counts r) @ '']'' @
     '',\"p50_ms\":'' @ u64_text (gp_p50_ms r) @
     '',\"p95_ms\":'' @ u64_text (gp_p95_ms r) @
     '',\"p99_ms\":'' @ u64_text (gp_p99_ms r) @
     '',\"max_ms\":'' @ u64_text (gp_max_ms r) @
     '',\"state\":'' @ client_quote (gp_state r) @
     '',\"error_code\":'' @ u32_text (gp_error_code r) @
     '',\"message\":'' @ client_quote (gp_message r) @ ''}'' @ [NL]"

definition client_get_stats :: "gateway_stub \<Rightarrow> string list \<Rightarrow> string + int \<times> string" where
  "client_get_stats stub args =
     (if args \<noteq> [] then Inl ''get-stats takes no options''
      else case stub_get_stats stub of
             Inl status \<Rightarrow> Inr (rpc_error status)
           | Inr reply \<Rightarrow> Inr (0, stats_line reply))"

section \<open>The main function\<close>

definition client_command :: "gateway_stub \<Rightarrow> string list \<Rightarrow> string + int \<times> string" where
  "client_command stub argv =
     (case argv of
        [] \<Rightarrow> Inl ''command required: submit, cancel, get-task, or get-stats''
      | command # args \<Rightarrow>
          if command = ''submit'' then client_submit stub args
          else if command = ''cancel'' then client_cancel stub args
          else if command = ''get-task'' then client_get_task stub args
          else if command = ''get-stats'' then client_get_stats stub args
          else if command = ''resolve''
          then (case client_options args of Inl err \<Rightarrow> Inl err | Inr values \<Rightarrow> client_resolve stub values)
          else Inl ''unknown command'')"

definition client_main :: "gateway_stub \<Rightarrow> string list \<Rightarrow> int \<times> string" where
  "client_main stub argv =
     (case client_command stub argv of
        Inr (code, line) \<Rightarrow> (code, line)
      | Inl err \<Rightarrow> (2, ''{\"ok\":false,\"message\":'' @ client_quote err @ ''}'' @ [NL]))"

section \<open>Properties\<close>

lemma option_loop_ok:
  "option_loop (concat (map (\<lambda>(k, v). [k, v]) opts)) options = Inr (options @ opts) \<longleftrightarrow>
     (\<forall>(k, v) \<in> set opts. is_option k) \<and> distinct (map fst opts) \<and> fst ` set opts \<inter> fst ` set options = {}"
proof (induction opts arbitrary: options)
  case (Cons kv opts)
  obtain k v where kv: "kv = (k, v)" by fastforce
  show ?case
  proof (cases "\<not> is_option k \<or> k \<in> fst ` set options")
    case False
    with Cons.IH [of "options @ [(k, v)]"] show ?thesis by (auto simp: kv)
  qed (auto simp: kv)
qed simp

lemma client_options_ok:
  assumes "\<forall>(k, v) \<in> set opts. is_option k" and "distinct (map fst opts)"
  shows "client_options (concat (map (\<lambda>(k, v). [k, v]) opts)) = Inr opts"
proof -
  have "even (length (concat (map (\<lambda>(k, v). [k, v]) opts)))" by (induction opts) auto
  with assms option_loop_ok [of opts "[]"] show ?thesis by (auto simp: client_options_def)
qed

lemma client_number_of_decimal: "client_number (nat_to_string (unat (n :: u64))) = Inr n"
proof -
  have digits: "takeWhile is_digit (nat_to_string (unat n)) = nat_to_string (unat n)"
    using nat_to_string_digits by (simp add: takeWhile_eq_all_conv)
  have "unat n < 2 ^ LENGTH(64)" by (rule unsigned_less)
  then show ?thesis unfolding client_number_def Let_def digits by simp
qed

text \<open>What is typed is what is sent: in whatever order the five options come, the gateway receives
  exactly their values, and the timeout is the number that was written.\<close>

definition submit_options :: "submit_request \<Rightarrow> (string \<times> string) list" where
  "submit_options r =
     [(''--request-id'', sr_request_id r), (''--workflow'', sr_workflow_id r),
      (''--task-id'', sr_task_id r), (''--target'', sr_target_id r),
      (''--timeout-ms'', nat_to_string (unat (sr_timeout_ms r)))]"

theorem client_submits_what_is_typed:
  assumes "mset opts = mset (submit_options r)"
    and "sr_request_id r \<noteq> []" "sr_workflow_id r \<noteq> []" "sr_task_id r \<noteq> []" "sr_target_id r \<noteq> []"
  shows "client_main stub (''submit'' # concat (map (\<lambda>(k, v). [k, v]) opts)) =
    (case stub_submit stub r of
       Inl status \<Rightarrow> rpc_error status
     | Inr reply \<Rightarrow> (0, submit_line reply))"
proof -
  have keys: "mset (map fst opts) = mset (map fst (submit_options r))"
    using assms(1) by (metis mset_map)
  have dist: "distinct (map fst opts)"
    using mset_eq_imp_distinct_iff [OF keys] by (simp add: submit_options_def)
  have set_eq: "set opts = set (submit_options r)" by (rule mset_eq_setD [OF assms(1)])
  then have opt: "\<forall>(k, v) \<in> set opts. is_option k"
    by (auto simp: submit_options_def is_option_def)
  have val: "(k, v) \<in> set (submit_options r) \<Longrightarrow> map_of opts k = Some v" for k v
    using dist set_eq by (simp add: map_of_eq_Some_iff)
  have "length opts = 5"
    using mset_eq_length [OF assms(1)] by (simp add: submit_options_def)
  then have "submit_request_of opts = Inr r"
    using assms(2-5) val by (simp add: submit_request_of_def client_required_def submit_options_def
        client_number_of_decimal)
  with client_options_ok [OF opt dist] show ?thesis
    by (auto simp: client_main_def client_command_def client_submit_def rpc_error_def split: sum.split)
qed

text \<open>The exit code tells the three endings apart: a reply, a failed call, a refused command line.\<close>

lemma call_exit_codes:
  "client_submit stub args = Inr x \<Longrightarrow> fst x \<in> {0, 1}"
  "client_cancel stub args = Inr x \<Longrightarrow> fst x \<in> {0, 1}"
  "client_get_task stub args = Inr x \<Longrightarrow> fst x \<in> {0, 1}"
  "client_resolve stub values = Inr x \<Longrightarrow> fst x \<in> {0, 1}"
  "client_get_stats stub args = Inr x \<Longrightarrow> fst x \<in> {0, 1}"
  by (auto simp: client_submit_def client_cancel_def client_get_task_def client_get_stats_def
      client_resolve_def rpc_error_def Let_def split: sum.splits if_splits)

lemma client_command_codes: "client_command stub argv = Inr x \<Longrightarrow> fst x \<in> {0, 1}"
  using call_exit_codes [where stub = stub and x = x]
  by (fastforce simp: client_command_def split: list.splits if_splits sum.splits)

lemma client_exit_codes:
  "fst (client_main stub argv) = 2 \<longleftrightarrow> (\<exists>err. client_command stub argv = Inl err)"
  "fst (client_main stub argv) \<in> {0, 1, 2}"
  using client_command_codes [of stub argv]
  by (cases "client_command stub argv"; fastforce simp: client_main_def)+

end
