(* ===== verification/Spec2Isabelle.thy ===== *)
theory Spec2Isabelle
  imports Bridge_Device Executor_Threads Orchestrator_Threads Bridge_Threads Readiness_Chain Node_Programs Gateway_Server
    Gateway_Cancel Chain_Success Client_Programs Gateway_Client
begin

text \<open>
  Verification of the embodied agent runtime: the C++ packages under \<open>src/ros2_ws/src\<close>.

  The program. A client asks the gateway (gRPC) for a workflow. The gateway admits a request at
  most once, remembers it in memory and in SQLite, and sends a workflow goal to the orchestrator.
  The orchestrator ticks a behavior tree (readiness, then the task) and sends a task goal to the
  executor. The executor validates the target and sends one device command to the bridge. The
  bridge puts 8-byte CAN frames on a raw socket and waits for the device's answer; a virtual
  device with a replay cache stands in for the hardware. Diagnostics flow to the monitor, task
  events to the history recorder and its database. A camera adapter, a text adapter and two
  command-line clients are further sources of goals.

  How code is read. A class is a \<open>record\<close>, an enumeration a \<open>datatype\<close>, an integer of fixed
  width a word, a method a function on the state that returns the new state; an early return, an
  exception or an error code is a branch of the result. Anything the program observes (clocks,
  system calls, SQLite calls, callbacks of a child action, whether a cancel was requested,
  camera frames, options of the ROS client) is an argument. The long-running workers take an
  environment: a record of functions of a tick, which every observation advances, so that a
  statement about all environments is one about all interleavings and faults. Loops that end
  only when the environment lets them are \<open>partial_function (option)\<close>: \<open>None\<close> is a worker that
  never returns, no fuel is used, and the termination theorems show \<open>Some\<close> from assumptions on
  the clock alone. What the program logs on its console is not modelled; what it publishes, sends,
  writes or reports is.

  The theories, in the order of the code's layers:

  \<^item> \<open>Runtime_Prelude\<close>: words, ROS messages, \<open>std::to_string\<close> and lemmas all theories share.
    \<open>Id_Allocation\<close> (locale \<open>id_allocator\<close>): the cyclic 16-bit identifiers of bridge
    (\<open>stop_ids\<close>) and executor (\<open>app_ids\<close>). \<open>Spin_Loop\<close> (locale \<open>spinning_client\<close>):
    \<open>rclcpp::spin\<close> in programs that send one goal (\<open>ai_client\<close>, \<open>device_program\<close>).
  \<^item> \<open>Can_Protocol\<close>, \<open>Socket_Can\<close> (\<open>runtime_can\<close>): both codecs are mutually inverse and reject
    every other frame; the descriptor life cycle; a sent message arrives unchanged.
  \<^item> \<open>Command_Policy\<close>, \<open>Device_Diagnostics\<close>, \<open>Device_Bridge\<close> (\<open>device_bridge\<close>):
    duration arithmetic without overflow, the diagnostic machine with its latch, and the whole
    action server: which goals it accepts, which frames a goal puts on the bus in which order, what
    CANCELED and COMPLETED prove about the wire, exactly one result, and that a run ends.
  \<^item> \<open>Virtual_Device\<close> (\<open>virtual_can_device_node.cpp\<close>): refinement of a specification that
    remembers every answer. \<open>Bridge_Device\<close>: what the bridge's frames make the device start, with
    frames lost or the bridge restarted.
  \<^item> \<open>Task_Diagnostics\<close>, \<open>Task_Executor\<close>, \<open>Executor_Runs\<close> (\<open>task_executor\<close>): target
    validation, goal checks, the worker with its hooks, waits, cancel drain and exception paths;
    then its runs. \<open>flow\<close> is how a part of \<open>execute\<close> leaves: it falls through, returns, or
    throws. The evidence for every terminal result, one result and one event, one
    command, at most one cancel to the child, and termination. The invariants are
    \<open>child_inv\<close>, \<open>open_from\<close> and \<open>closed_with\<close>. \<open>Executor_Success\<close>: what an
    undisturbed run reports for each result of its command.
  \<^item> \<open>Task_Orchestrator\<close>, \<open>Orchestrator_Runs\<close> (\<open>task_orchestrator\<close>): readiness, the leaves,
    the tick loop, the generation-guarded terminal decision; the same results for workflows.
    BehaviorTree.CPP, which decides the order of ticks and halts, is an argument
    (\<open>oe_tick_tree\<close>, \<open>oe_halt_tree\<close>). \<open>Workflow_Trees\<close>: the two trees of \<open>workflows.xml\<close> under the
    manual's account of a \<open>Sequence\<close> (\<open>library_runs_sequence\<close>): no task before the runtime was seen
    ready. \<open>Workflow_Success\<close>: what an undisturbed run reports for each result of its task.
  \<^item> \<open>Process_Exit\<close>: \<open>run_task_executor_node\<close>, \<open>run_task_orchestrator_node\<close> and their \<open>main\<close>:
    drain before destruction, the exit code, the recovery after an exception.
  \<^item> \<open>Worker_Slot\<close> (locale \<open>thread_owner\<close>), \<open>Executor_Threads\<close>, \<open>Orchestrator_Threads\<close>,
    \<open>Bridge_Threads\<close> (interpretations \<open>et\<close>, \<open>ot\<close>, \<open>bt\<close>): the \<open>std::thread\<close> member of the
    three action servers, with goal callback, worker guards, shutdown and destructor interleaved
    access by access: at most one worker, no handle lost, nothing left running; and, by
    \<open>sequential_goal_is_a_run\<close>, that the sequential executor model is one of these runs.
  \<^item> \<open>Node_Programs\<close>: the programs of bridge, virtual device, monitor and history from their
    constructors to their exit codes, with the CAN descriptor they hold.
  \<^item> \<open>History_Store\<close>, \<open>Store_Open\<close>, \<open>Stage_Json\<close>, \<open>History_Recorder\<close>
    (\<open>runtime_history\<close>): the two tables with first-write-wins, statistics and pruning; opening a
    database file, with the migration of old ones and its recovery after any failure; the JSON
    lines; the bounded queue and its worker as a step relation. \<open>History_Process\<close>: subscription,
    recorder, store and destruction order together; a healthy status means that nothing was lost.
  \<^item> \<open>Request_Registry\<close>, \<open>Durable_Ledger\<close>, \<open>Gateway_Service\<close>, \<open>Gateway_Runs\<close>
    (\<open>runtime_gateway\<close>): the in-memory table and its invariant; the ledger (locale
    \<open>ledger_contract\<close>, interpreted on the SQL operations as \<open>sql_ledger\<close>); every RPC handler
    and callback, cut where its mutex is released; and the transition system of all interleavings,
    restarts included. \<open>Gateway_Cancel\<close>: its cancel requests. \<open>Gateway_Server\<close>: the server thread and the process, from opening the
    database to the exit code; what is left to a gateway that stops. \<open>Gateway_Client\<close>, \<open>Client_Programs\<close>: the command-line clients.
  \<^item> \<open>Health_Monitor\<close> (\<open>runtime_monitor\<close>): the aggregator against the worst component.
    \<open>Readiness_Chain\<close>: from the statuses of bridge and executor over the monitor to the
    readiness leaf of a workflow.
  \<^item> \<open>Marker_Trigger\<close>, \<open>Perception_Adapter\<close> (\<open>perception_task_adapter\<close>): the debounced trigger
    against a reference over the history of frames; the adapter's process to its exit code.
  \<^item> \<open>Text_Planner\<close> (\<open>ai_task_adapter\<close>, C++ part): the planner against a specification of
    whole-word mentions, and the node around it.
  \<^item> \<open>Chain_Success\<close>: all processes undisturbed, from a request to the device, and its answer, a
    success or a fault, back to the gateway's record.
  \<^item> This theory: the chain from a gateway request to the device, under any disturbance.

  Bounds. The clock assumptions of the termination theorems ask only that steady time passes the
  deadline at some tick (\<open>clock_passes\<close>, \<open>orch_clock_passes\<close>, \<open>clock_unbounded\<close>). Ledger
  statements speak of one retry horizon (24 hours, \<open>kRetryHorizonNs\<close>), the time after which the
  code itself forgets a request. Capacities, retries and identifier ranges are the source's.

  Not modelled. BehaviorTree.CPP, rclcpp, gRPC, SQLite and OpenCV themselves (arguments, or their
  documented results); in constructors, the creation of publishers, subscriptions, timers and
  servers; signal delivery; the
  Python adapter, scripts and launch files, which are not C++; memory ordering of the atomics,
  which are read and written as in one sequential order.

  What the model showed about the code:

  \<^item> \<open>recorded_task_hides_ledger_replay\<close>: after a restart the gateway refuses a retry of a
    completed request (its task has a history row) instead of replaying the recorded result.
  \<^item> \<open>registry_full_replays_without_fingerprint\<close>: with a full registry, a ledger row is replayed
    for a request with another payload.
  \<^item> \<open>prune_deletes_exactly_expired_reclaimable\<close>: the keep floor of pruning has no effect.
  \<^item> \<open>restarted_bridge_stop_not_started\<close>: the STOP identifiers of a restarted bridge collide with
    those in the device's replay cache, and the device does not start the STOP.
  \<^item> \<open>bridge_accepts_iff_idle_and_valid\<close>: goals may carry identifiers of the STOP range.
  \<^item> \<open>no_cancel_after_shutdown\<close>: after Ctrl-C the perception adapter never cancels its workflow.
  \<^item> \<open>late_goal_after_drain\<close>, \<open>late_goal_terminates_executor\<close>: the executor can accept a goal after
    it was seen drained, and its destruction then terminates the process; the orchestrator refuses
    (\<open>late_workflow_refused\<close>, \<open>orchestrator_threads_are_joined\<close>).
  \<^item> \<open>stale_release_frees_running_workflow\<close>: the orchestrator checks a generation and clears its
    active flag in two steps, so that a finishing worker can clear the flag of the next workflow.
  \<^item> \<open>stop_opcode_task_completes\<close>: the STOP opcode can be configured as a task's opcode; the device
    then stops and the task counts as completed.
  \<^item> \<open>restart_after_failure_hangs\<close>: \<open>LoopbackServer::start\<close> after a failed start can wait for
    ever; the program calls it once.
  \<^item> \<open>completed_child_with_wrong_code\<close>: a child that reports COMPLETED with a code other than
    SUCCEEDED makes the workflow abort with outcome COMPLETED.
\<close>

section \<open>From a gateway request to the device\<close>

text \<open>C1. The whole chain, for all interleavings and faults at every stage: a request the gateway
  dispatches is accepted by an idle orchestrator; every child task its workflow sends is accepted
  by an idle executor, within what is left of the requested timeout; that task sends exactly the
  one device command, which an idle bridge accepts and which carries the request's task
  identifier; and over a bus that may lose any frame, the frames of the bridge's run make the
  device start that command at most once, and then at most one STOP that names it.
\<close>

theorem request_starts_its_command_once:
  assumes request: "valid_request r" "allowed_workflow (sr_workflow_id r)"
      "has_non_whitespace (sr_task_id r)" "is_known (ec_targets xcfg) (sr_target_id r)"
    and config: "executor_configure targets args opcode ack cancel delay depth period log = Inr xcfg"
      "ec_ack_timeout_ms xcfg \<le> bc_max_ack_timeout_ms bcfg"
    and idle: "\<not> or_active o0" "\<not> ex_active_goal x0" "\<not> br_active_goal b0" "be_socket_open be"
      "device_inv v"
    and workflow: "orch_handle_goal True True now (goal_of_request r) o0 = (response1, o1)"
      "orch_handle_accepted ocfg oe (goal_of_request r) o1 = Some o2"
      "c \<in> set (drop (length (or_child_goals o0)) (or_child_goals o2))"
    and task: "executor_handle_goal xcfg True True uuid c x0 = (response2, x1)"
      "executor_handle_accepted xcfg xe c x1 = Some x2"
      "d \<in> set (drop (length (ex_device_goals x0)) (ex_device_goals x2))"
    and bridge: "bridge_handle_goal bcfg be d b0 = (response3, b1)"
      "bridge_handle_accepted bcfg be d b1 = Some b2"
      "subseq fs (map snd (drop (length (br_sent b0)) (br_sent b2)))"
  shows "response1 = ACCEPT_AND_EXECUTE \<and> response2 = ACCEPT_AND_EXECUTE \<and>
    response3 = ACCEPT_AND_EXECUTE \<and>
    drop (length (ex_device_goals x0)) (ex_device_goals x2) = [d] \<and>
    tg_request_id c = sr_request_id r \<and> dg_trace_id d = sr_task_id r \<and>
    (\<exists>t. to_steady_duration (tg_allowed_duration c) \<le>
          now + uint (sr_timeout_ms r) * 1000000 - oe_now oe t) \<and>
    (\<exists>sid cs ss. device_started fs v = cs @ ss \<and> cs \<in> {[], [goal_command d]} \<and>
       ss \<in> {[], [stop_command sid (cmd_id (goal_command d))]})"
proof -
  note gw = gateway_goal_accepted [OF request(1,2) idle(1), of now]
  have w1: "orch_handle_goal True True now (goal_of_request r) o0 = (ACCEPT_AND_EXECUTE, o1)"
    using gw(1) workflow(1) by simp
  have goal: "wg_task_id (goal_of_request r) = sr_task_id r" "wg_target_id (goal_of_request r) = sr_target_id r"
    "wg_request_id (goal_of_request r) = sr_request_id r"
    by (simp_all add: goal_of_request_def)
  from workflow_child_goals [OF w1 workflow(2), of xcfg x0 uuid] request(3,4) idle(2)
  obtain gs where "or_child_goals o2 = or_child_goals o0 @ gs" and gs: "\<forall>c \<in> set gs.
      tg_task_id c = sr_task_id r \<and> tg_request_id c = sr_request_id r \<and>
      (\<exists>t. to_steady_duration (tg_allowed_duration c) = or_active_deadline o1 - oe_now oe t) \<and>
      fst (executor_handle_goal xcfg True True uuid c x0) = ACCEPT_AND_EXECUTE"
    by (auto simp: goal)
  with workflow(3) have c: "tg_task_id c = sr_task_id r" "tg_request_id c = sr_request_id r"
    "\<exists>t. to_steady_duration (tg_allowed_duration c) = or_active_deadline o1 - oe_now oe t"
    "response2 = ACCEPT_AND_EXECUTE"
    using task(1) by auto
  have x1: "ex_device_goals x1 = ex_device_goals x0"
    using task(1) by (auto simp: executor_handle_goal_def split: if_splits)
  from executor_device_goals [OF config(1) task(2) config(2)] task(3) x1 c(1)
  have d: "drop (length (ex_device_goals x0)) (ex_device_goals x2) = [d]" "dg_trace_id d = sr_task_id r"
    and b: "bridge_handle_goal bcfg be d b0 = (ACCEPT_AND_EXECUTE, b0\<lparr>br_active_goal := True\<rparr>)"
    using idle(3,4) by auto
  have "br_sent b1 = br_sent b0" using b bridge(1) by auto
  with goal_device_starts [OF bridge(2) idle(5), of fs] bridge(3)
  have "\<exists>sid cs ss. device_started fs v = cs @ ss \<and> cs \<in> {[], [goal_command d]} \<and>
      ss \<in> {[], [stop_command sid (cmd_id (goal_command d))]}" by simp
  moreover have "\<exists>t. to_steady_duration (tg_allowed_duration c) \<le>
      now + uint (sr_timeout_ms r) * 1000000 - oe_now oe t"
  proof -
    from c(3) obtain t where "to_steady_duration (tg_allowed_duration c) = or_active_deadline o1 - oe_now oe t" ..
    moreover have "or_active_deadline o1 \<le> now + uint (sr_timeout_ms r) * 1000000"
      using gw(2) workflow(1) by simp
    ultimately show ?thesis by (intro exI [of _ t]) simp
  qed
  ultimately show ?thesis using w1 workflow(1) c d b bridge(1) by simp
qed


text \<open>A run of the whole chain: one request, one child task, one command, one frame.\<close>

definition sample_child :: task_goal where
  "sample_child = \<lparr>tg_task_id = ''t1'', tg_target_id = ''dock_a'', tg_request_id = ''r1'',
     tg_workflow_id = ''single_task'', tg_allowed_duration = \<lparr>dur_sec = 4, dur_nanosec = 990000000\<rparr>\<rparr>"

definition sample_device_goal :: device_goal where
  "sample_device_goal = \<lparr>dg_command_id = 1, dg_opcode = 1, dg_argument = 42,
     dg_ack_timeout = \<lparr>dur_sec = 0, dur_nanosec = 500000000\<rparr>, dg_trace_id = ''t1''\<rparr>"

definition sample_bus :: bridge_env where
  "sample_bus = acknowledging_bus\<lparr>be_receive := \<lambda>t ms. RxFrame (encode_response
     \<lparr>rsp_id = 1, rsp_result = 0, rsp_mode = 0, rsp_detail = [0, 0, 0]\<rparr>)\<rparr>"

definition sample_executor :: executor where
  "sample_executor = snd (executor_handle_goal sample_exec_config True True ''g'' sample_child (executor_init 1))"

definition sample_bridge :: bridge where
  "sample_bridge = bridge_init\<lparr>br_active_goal := True\<rparr>"

lemma sample_task_run:
  "map_option ex_device_goals
     (executor_handle_accepted sample_exec_config sample_exec_env sample_child sample_executor) =
   Some [sample_device_goal]"
  by code_simp

lemma sample_bridge_run:
  "map_option (\<lambda>b. (map snd (br_sent b), br_results b))
     (bridge_handle_accepted example_bridge_config sample_bus sample_device_goal sample_bridge) =
   Some ([encode_command (goal_command sample_device_goal)],
         [GSucceeded \<lparr>res_outcome = COMPLETED, res_error_code = 0, res_message = ''device acknowledged command''\<rparr>])"
  by code_simp


lemma sample_device_starts:
  "device_started [encode_command (goal_command sample_device_goal)] example_device =
     [goal_command sample_device_goal]"
  by code_simp

theorem request_starts_its_command_once_witness:
  "\<exists>o2 x2 b2 v. orch_handle_accepted sample_orch_config sample_orch_env (goal_of_request sample_request)
       sample_started = Some o2 \<and>
     executor_handle_accepted sample_exec_config sample_exec_env sample_child sample_executor = Some x2 \<and>
     bridge_handle_accepted example_bridge_config sample_bus sample_device_goal sample_bridge = Some b2 \<and>
     ex_device_goals x2 = [sample_device_goal] \<and> dg_trace_id sample_device_goal = ''t1'' \<and>
     (\<exists>sid cs ss. device_started (map snd (br_sent b2)) example_device = cs @ ss \<and>
        cs \<in> {[], [goal_command sample_device_goal]} \<and>
        ss \<in> {[], [stop_command sid (cmd_id (goal_command sample_device_goal))]})"
proof -
  obtain o2 where o2: "orch_handle_accepted sample_orch_config sample_orch_env
      (goal_of_request sample_request) sample_started = Some o2" "or_child_goals o2 = [sample_child]"
    using sample_workflow_succeeds by (auto simp: sample_request_goal sample_child_def)
  obtain x2 where x2: "executor_handle_accepted sample_exec_config sample_exec_env sample_child
      sample_executor = Some x2" "ex_device_goals x2 = [sample_device_goal]"
    using sample_task_run by auto
  obtain b2 where b2: "bridge_handle_accepted example_bridge_config sample_bus sample_device_goal
      sample_bridge = Some b2"
    using sample_bridge_run by auto
  have request: "valid_request sample_request" "allowed_workflow (sr_workflow_id sample_request)"
    "has_non_whitespace (sr_task_id sample_request)"
    "is_known (ec_targets sample_exec_config) (sr_target_id sample_request)"
    by code_simp+
  have ack: "ec_ack_timeout_ms sample_exec_config \<le> bc_max_ack_timeout_ms example_bridge_config"
    by code_simp
  have idle: "\<not> or_active sample_orchestrator" "\<not> ex_active_goal (executor_init 1)"
    "\<not> br_active_goal bridge_init" "be_socket_open sample_bus" "device_inv example_device"
    by code_simp+
  have o1: "orch_handle_goal True True 0 (goal_of_request sample_request) sample_orchestrator =
      (ACCEPT_AND_EXECUTE, sample_started)"
    using sample_workflow_accepted by (simp add: sample_request_goal)
  have c: "sample_child \<in> set (drop (length (or_child_goals sample_orchestrator)) (or_child_goals o2))"
    using o2(2) by (simp add: sample_orchestrator_def)
  have x1: "executor_handle_goal sample_exec_config True True ''g'' sample_child (executor_init 1) =
      (ACCEPT_AND_EXECUTE, sample_executor)"
    by code_simp
  have d: "sample_device_goal \<in> set (drop (length (ex_device_goals (executor_init 1))) (ex_device_goals x2))"
    using x2(2) by (simp add: executor_init_def)
  have b1: "bridge_handle_goal example_bridge_config sample_bus sample_device_goal bridge_init =
      (ACCEPT_AND_EXECUTE, sample_bridge)"
    by code_simp
  have fs: "subseq (map snd (br_sent b2)) (map snd (drop (length (br_sent bridge_init)) (br_sent b2)))"
    by (simp add: bridge_init_def)
  from request_starts_its_command_once [OF request sample_config ack idle o1 o2(1) c x1 x2(1) d b1 b2 fs]
  show ?thesis using o2(1) x2 b2 by (simp add: sample_request_def)
qed

section \<open>Two results that are not what they say\<close>

text \<open>
  With a full registry the gateway answers from the ledger by request identifier alone: the reply
  is the ledger's, whatever payload the new request has.
\<close>

lemma registry_full_replays_without_fingerprint:
  assumes "\<not> gw_stopping s" and "valid_request r"
    and "registry_insert (initial_record r) (gw_registry s) = (CAPACITY, reg)"
    and "durable_lookup (ge_ledger e) (sr_request_id r) (gw_store s) = Inr (Some known)"
  shows "fst (submit_enter e r s) = Some (StatusOK, fill_durable known r)"
  using assms by (simp add: submit_enter_def)

text \<open>
  A child that reports COMPLETED under a result code other than SUCCEEDED makes the workflow abort
  with the child's outcome, and the gateway, which reads the outcome only, records COMPLETED.
\<close>

definition aborted_completed :: wrapped_result where
  "aborted_completed = \<lparr>wr_code = RC_ABORTED,
     wr_result = Some \<lparr>res_outcome = COMPLETED, res_error_code = 0, res_message = ''ok''\<rparr>\<rparr>"

lemma completed_child_with_wrong_code:
  "map_option or_results
     (orch_handle_accepted sample_orch_config
        (sample_orch_env\<lparr>oe_events := \<lambda>t. if t = 3 then [TaskResponse True]
           else if t = 4 then [TaskResult aborted_completed] else []\<rparr>)
        sample_workflow sample_started) =
     Some [GAborted \<lparr>res_outcome = COMPLETED, res_error_code = 0, res_message = ''ok''\<rparr>]"
  "result_callback e rid aborted_completed s =
     result_callback e rid (aborted_completed\<lparr>wr_code := RC_SUCCEEDED\<rparr>) s"
  "state_for_outcome (fst (result_fields aborted_completed)) = ''COMPLETED''"
  subgoal by code_simp
  subgoal by (simp add: result_callback_def result_fields_def aborted_completed_def)
  subgoal by code_simp
  done

end
